(* ===== verification/Prelude.thy ===== *)
theory Prelude
  imports
    Main
    "HOL-Library.Signed_Division"
    "HOL-Library.Word"
    "HOL-Library.Char_ord"
    "HOL-Library.List_Lexorder"
    "HOL-Library.Monad_Syntax"
    "HOL-Library.While_Combinator"
begin

text \<open>
  Vocabulary and generic facts shared by every component.

  \<^item> The names of the model's basic types: a \<open>SemanticId\<close> is the string it wraps.
  \<^item> The host integer type \<open>i128\<close> in which the program computes.  An \<open>i128\<close> is an
    \<open>int\<close>; the checked and wrapping operations of the Rust standard library write their
    overflow behaviour out.
  \<^item> \<open>sort_dedup\<close>, the \<open>sort(); dedup()\<close> idiom that canonicalises identity lists.
  \<^item> The interface of a three-valued verdict lattice (\<open>verdict_lattice\<close>), which the
    proof kernel's \<open>dominate\<close> and the authority contract's \<open>fold\<close> both provide, and
    the interface of an identity-sealed artifact (\<open>sealed_artifact\<close>).
\<close>

unbundle bit_operations_syntax

named_theorems i128_defs \<open>definitions of the host integer operations\<close>
named_theorems verdict_simps \<open>evaluation of the verdict folds\<close>
named_theorems identity_simps \<open>facts on sealed identities\<close>

type_synonym semantic_id = string


section \<open>The host integer \<open>i128\<close>\<close>

definition i128_min :: int where
  "i128_min = - (2 ^ 127)"

definition i128_max :: int where
  "i128_max = 2 ^ 127 - 1"

definition in_i128 :: "int \<Rightarrow> bool" where
  "in_i128 v \<longleftrightarrow> i128_min \<le> v \<and> v \<le> i128_max"

definition checked_i128 :: "int \<Rightarrow> int option" where
  "checked_i128 v = (if in_i128 v then Some v else None)"

definition wrapping_i128 :: "int \<Rightarrow> int" where
  "wrapping_i128 v = (v + 2 ^ 127) mod 2 ^ 128 - 2 ^ 127"

definition checked_add :: "int \<Rightarrow> int \<Rightarrow> int option" where
  "checked_add l r = checked_i128 (l + r)"

definition checked_sub :: "int \<Rightarrow> int \<Rightarrow> int option" where
  "checked_sub l r = checked_i128 (l - r)"

definition checked_mul :: "int \<Rightarrow> int \<Rightarrow> int option" where
  "checked_mul l r = checked_i128 (l * r)"

text \<open>\<open>checked_div\<close> and \<open>checked_rem\<close> fail on a zero divisor and on \<open>i128::MIN / -1\<close>;
  both round towards zero.\<close>

definition checked_div :: "int \<Rightarrow> int \<Rightarrow> int option" where
  "checked_div l r = (if r = 0 then None else checked_i128 (l sdiv r))"

definition checked_rem :: "int \<Rightarrow> int \<Rightarrow> int option" where
  "checked_rem l r =
     (if r = 0 \<or> (l = i128_min \<and> r = - 1) then None else Some (l smod r))"

definition wrapping_add :: "int \<Rightarrow> int \<Rightarrow> int" where
  "wrapping_add l r = wrapping_i128 (l + r)"

definition wrapping_sub :: "int \<Rightarrow> int \<Rightarrow> int" where
  "wrapping_sub l r = wrapping_i128 (l - r)"

definition wrapping_mul :: "int \<Rightarrow> int \<Rightarrow> int" where
  "wrapping_mul l r = wrapping_i128 (l * r)"

text \<open>Both are only called with a non-zero divisor.\<close>

definition wrapping_div :: "int \<Rightarrow> int \<Rightarrow> int" where
  "wrapping_div l r = wrapping_i128 (l sdiv r)"

definition wrapping_rem :: "int \<Rightarrow> int \<Rightarrow> int" where
  "wrapping_rem l r = wrapping_i128 (l smod r)"

text \<open>\<open>value as u128\<close> keeps the low 128 two's-complement digits; \<open>i128::try_from\<close> of a
  \<open>u128\<close> fails above \<open>i128::MAX\<close>.\<close>

definition as_u128 :: "int \<Rightarrow> int" where
  "as_u128 v = v mod 2 ^ 128"

definition try_from_u128 :: "int \<Rightarrow> int option" where
  "try_from_u128 u = (if u \<le> i128_max then Some u else None)"

lemmas [i128_defs] = i128_min_def i128_max_def in_i128_def checked_i128_def
  checked_add_def checked_sub_def checked_mul_def checked_div_def checked_rem_def

lemmas wrapping_defs = wrapping_i128_def wrapping_add_def wrapping_sub_def wrapping_mul_def
  wrapping_div_def wrapping_rem_def

lemma wrapping_i128_in: "in_i128 (wrapping_i128 v)"
  using pos_mod_bound [of "2 ^ 128" "v + 2 ^ 127"] pos_mod_sign [of "2 ^ 128" "v + 2 ^ 127"]
  by (simp add: wrapping_i128_def in_i128_def i128_min_def i128_max_def)

lemma wrapping_i128_id: "in_i128 v \<Longrightarrow> wrapping_i128 v = v"
  by (simp add: wrapping_i128_def in_i128_def i128_min_def i128_max_def)

text \<open>Reducing an \<open>i128\<close> modulo \<open>2 ^ b\<close> forgets the wrap-around of the host type.\<close>

lemma wrapping_i128_mod:
  assumes "b \<le> 128"
  shows "wrapping_i128 v mod 2 ^ b = v mod 2 ^ b"
proof -
  have dvd: "(2::int) ^ b dvd 2 ^ 128"
    using assms by (rule le_imp_power_dvd)
  have "wrapping_i128 v mod 2 ^ b = ((v + 2 ^ 127) mod 2 ^ 128 mod 2 ^ b - 2 ^ 127) mod 2 ^ b"
    by (simp add: wrapping_i128_def mod_diff_left_eq)
  also have "\<dots> = ((v + 2 ^ 127) mod 2 ^ b - 2 ^ 127) mod 2 ^ b"
    using dvd by (simp add: mod_mod_cancel)
  also have "\<dots> = v mod 2 ^ b"
    by (simp add: mod_diff_left_eq)
  finally show ?thesis .
qed

lemma as_u128_mod: "b \<le> 128 \<Longrightarrow> as_u128 v mod 2 ^ b = v mod 2 ^ b"
  unfolding as_u128_def by (rule mod_mod_cancel) (rule le_imp_power_dvd)

lemma sdiv_bounded:
  fixes l r :: int
  assumes "r \<noteq> 0"
  shows "\<bar>l sdiv r\<bar> \<le> \<bar>l\<bar>"
proof -
  have "\<bar>l\<bar> div \<bar>r\<bar> \<le> \<bar>l\<bar> div 1"
    using assms by (intro zdiv_mono2) auto
  moreover have "0 \<le> \<bar>l\<bar> div \<bar>r\<bar>"
    using assms by (simp add: pos_imp_zdiv_nonneg_iff)
  ultimately show ?thesis
    by (auto simp: signed_divide_int_def abs_mult sgn_if)
qed

lemma smod_bounded:
  fixes l r :: int
  assumes "r \<noteq> 0"
  shows "\<bar>l smod r\<bar> < \<bar>r\<bar>" and "\<bar>l smod r\<bar> \<le> \<bar>l\<bar>"
proof -
  have "\<bar>l\<bar> mod \<bar>r\<bar> < \<bar>r\<bar>" and "0 \<le> \<bar>l\<bar> mod \<bar>r\<bar>" and "\<bar>l\<bar> mod \<bar>r\<bar> \<le> \<bar>l\<bar>"
    using assms by (auto simp: zmod_le_nonneg_dividend)
  then show "\<bar>l smod r\<bar> < \<bar>r\<bar>" and "\<bar>l smod r\<bar> \<le> \<bar>l\<bar>"
    using assms by (auto simp: signed_modulo_int_def abs_mult sgn_if)
qed


section \<open>Canonical identity lists\<close>

definition sort_dedup :: "'a::linorder list \<Rightarrow> 'a list" where
  "sort_dedup xs = remdups_adj (sort xs)"

lemma set_sort_dedup [simp]: "set (sort_dedup xs) = set xs"
  by (simp add: sort_dedup_def)

lemma distinct_remdups_adj_sorted: "sorted xs \<Longrightarrow> distinct (remdups_adj xs)"
  by (induction xs rule: remdups_adj.induct) (auto simp: less_le)

lemma sorted_sort_dedup: "sorted_wrt (<) (sort_dedup xs)"
  by (simp add: sort_dedup_def strict_sorted_iff distinct_remdups_adj_sorted)

lemma sort_dedup_cong: "set xs = set ys \<Longrightarrow> sort_dedup xs = sort_dedup ys"
  by (rule strict_sorted_equal) (simp_all add: sorted_sort_dedup)

lemma sort_dedup_eq_iff: "sort_dedup xs = sort_dedup ys \<longleftrightarrow> set xs = set ys"
  by (metis set_sort_dedup sort_dedup_cong)

lemma sort_dedup_idem [simp]: "sort_dedup (sort_dedup xs) = sort_dedup xs"
  by (simp add: sort_dedup_eq_iff)


section \<open>Decimal numerals\<close>

text \<open>Decimal digits, as \<open>format!\<close> prints an unsigned integer.\<close>

fun show_nat :: "nat \<Rightarrow> string" where
  "show_nat n =
     (if n < 10 then [char_of (48 + n)] else show_nat (n div 10) @ [char_of (48 + n mod 10)])"

declare show_nat.simps [simp del]


section \<open>Verdict lattices\<close>

text \<open>
  Several subsystems combine verdicts so that the worse one wins.  The interface: an
  operation, a rank that orders the verdicts from best to worst and separates them, and the
  best verdict.  Every fold of such an operation depends only on the set of verdicts met.
\<close>

locale verdict_lattice =
  fixes dominate :: "'v \<Rightarrow> 'v \<Rightarrow> 'v"
    and rank :: "'v \<Rightarrow> nat"
    and best :: "'v"
  assumes rank_dominate: "rank (dominate a b) = max (rank a) (rank b)"
    and rank_inject: "rank a = rank b \<Longrightarrow> a = b"
    and rank_best: "rank best = 0"
begin

lemma dominate_commute: "dominate a b = dominate b a"
  by (rule rank_inject) (simp add: rank_dominate max.commute)

lemma dominate_assoc: "dominate (dominate a b) c = dominate a (dominate b c)"
  by (rule rank_inject) (simp add: rank_dominate max.assoc)

lemma dominate_idem: "dominate a a = a"
  by (rule rank_inject) (simp add: rank_dominate)

lemma dominate_best: "dominate best a = a" "dominate a best = a"
  by (rule rank_inject; simp add: rank_dominate rank_best)+

lemma rank_fold: "rank (fold (\<lambda>v acc. dominate acc v) vs a) = Max (insert (rank a) (rank ` set vs))"
proof (induction vs arbitrary: a)
  case Nil
  show ?case by simp
next
  case (Cons v vs)
  have "insert (rank a) (rank ` set (v # vs)) = insert (rank a) (insert (rank v) (rank ` set vs))"
    by simp
  then show ?case
    by (simp add: Cons.IH rank_dominate del: insert_iff)
       (metis (no_types, lifting) List.finite_set Max.insert Max_singleton finite_imageI image_is_empty max.assoc)
qed

lemma fold_set_cong:
  "set us = set vs \<Longrightarrow> fold (\<lambda>v acc. dominate acc v) us a = fold (\<lambda>v acc. dominate acc v) vs a"
  by (rule rank_inject) (simp add: rank_fold)

lemma fold_best_iff:
  "fold (\<lambda>v acc. dominate acc v) vs best = best \<longleftrightarrow> (\<forall>v\<in>set vs. v = best)"
proof (induction vs)
  case (Cons v vs)
  have split: "fold (\<lambda>v acc. dominate acc v) vs v = best \<longleftrightarrow>
      v = best \<and> fold (\<lambda>v acc. dominate acc v) vs best = best" for v
  proof
    assume h: "fold (\<lambda>v acc. dominate acc v) vs v = best"
    then have "Max (insert (rank v) (rank ` set vs)) = 0"
      using rank_fold [of vs v] by (simp add: rank_best)
    then have "rank v = 0"
      by (metis List.finite_set Max_ge finite.insertI finite_imageI insertI1 le_zero_eq)
    then have "v = best" by (simp add: rank_inject rank_best)
    with h show "v = best \<and> fold (\<lambda>v acc. dominate acc v) vs best = best" by simp
  qed simp
  show ?case
    using Cons.IH split [of v] by (auto simp: dominate_best)
qed simp

lemma fold_worst:
  assumes "v \<in> set vs" and "\<And>w. rank w \<le> rank v"
  shows "fold (\<lambda>v acc. dominate acc v) vs a = v"
proof (rule rank_inject)
  have "rank v \<le> rank (fold (\<lambda>v acc. dominate acc v) vs a)"
    unfolding rank_fold using assms(1) by (intro Max_ge) auto
  then show "rank (fold (\<lambda>v acc. dominate acc v) vs a) = rank v"
    using assms(2) by (simp add: le_antisym)
qed

end


section \<open>Sealed artifacts\<close>

text \<open>
  An artifact carries an identity that is a digest of its other fields: \<open>material\<close> is what
  the digest covers, \<open>digest\<close> the identity it gives, \<open>get\<close> and \<open>put\<close> read and write the
  identity field, and \<open>schema\<close> is what the validity check fixes without the digest (the schema
  version).  The digest itself (SHA-256 over canonical JSON) is a parameter; what depends on
  its collision resistance says so.
\<close>

locale sealed_artifact =
  fixes material :: "'a \<Rightarrow> 'm"
    and digest :: "'m \<Rightarrow> semantic_id"
    and get :: "'a \<Rightarrow> semantic_id"
    and put :: "'a \<Rightarrow> semantic_id \<Rightarrow> 'a"
    and schema :: "'a \<Rightarrow> bool"
  assumes get_put: "get (put a i) = i"
    and put_put: "put (put a i) j = put a j"
    and material_put: "material (put a i) = material a"
    and schema_put: "schema (put a i) = schema a"
    and material_inject: "\<lbrakk> schema a; schema b; material a = material b; get a = get b \<rbrakk> \<Longrightarrow> a = b"
begin

lemma seal_valid: "get (put a (digest (material a))) = digest (material (put a (digest (material a))))"
  by (simp add: get_put material_put)

lemma seal_idem:
  "put (put a (digest (material a))) (digest (material (put a (digest (material a))))) =
   put a (digest (material a))"
  by (simp add: put_put material_put)

text \<open>Two artifacts that carry a valid identity and agree on it are the same artifact, unless
  the digest collides on their material.\<close>

lemma sealed_unique:
  assumes "schema a" "schema b"
    and "get a = digest (material a)" "get b = digest (material b)" "get a = get b"
    and "digest (material a) = digest (material b) \<Longrightarrow> material a = material b"
  shows "a = b"
  using assms material_inject by metis

end

end
