(* ===== verification/Machine_Int.thy ===== *)
theory Machine_Int
  imports Prelude
begin

text \<open>
  Fixed-width integer semantics with an explicit overflow intent, from
  \<open>crates/mncs-model/src/machine_intent.rs\<close>.

  An operation carries its operator as a string, its operand type (width and signedness), two
  \<open>i128\<close> operands and an intent that says what overflow means.  \<open>evaluate\<close> is
  \<open>IntegerOperation::evaluate\<close>: it computes the raw result in \<open>i128\<close> and then applies the
  intent.  It is partial: on a shift whose operand width is outside \<open>1..=126\<close> while a widening
  intent supplies a valid result width, the source divides by zero or unwraps \<open>None\<close>.  A panic
  is the outer \<open>None\<close> here.
\<close>

record integer_type =
  ty_bits :: nat
  ty_signed :: bool

datatype arithmetic_intent =
  Wrapping | Checked | Saturating | Trapping | Widening nat

record integer_operation =
  op_operator :: string
  op_type :: integer_type
  op_left :: int
  op_right :: int
  op_intent :: arithmetic_intent

record integer_evaluation =
  ev_value :: "int option"
  ev_overflow :: bool
  ev_trapped :: bool
  ev_result_bits :: nat


section \<open>Ranges and reduction\<close>

definition limits :: "nat \<Rightarrow> bool \<Rightarrow> (int \<times> int) option" where
  "limits bits sgnd =
     (if \<not> (1 \<le> bits \<and> bits \<le> 126) then None
      else if sgnd then Some (- (2 ^ (bits - 1)), 2 ^ (bits - 1) - 1)
      else Some (0, 2 ^ bits - 1))"

text \<open>\<open>wrap\<close> unwraps \<open>limits\<close>: a width outside \<open>1..=126\<close> panics.\<close>

definition wrap :: "int \<Rightarrow> nat \<Rightarrow> bool \<Rightarrow> int option" where
  "wrap v bits sgnd =
     (case limits bits False of
        None \<Rightarrow> None
      | Some (_, maximum) \<Rightarrow>
          let modulus = maximum + 1; wrapped = v mod modulus in
          if sgnd then
            let sgn_bit = 2 ^ (bits - 1) in
            Some (if sgn_bit \<le> wrapped then wrapped - modulus else wrapped)
          else Some wrapped)"

definition unsigned_domain :: "int \<Rightarrow> nat \<Rightarrow> int" where
  "unsigned_domain v bits =
     (let mask = (if 128 \<le> bits \<or> bits = 0 then 2 ^ 128 - 1 else drop_bit (128 - bits) (2 ^ 128 - 1))
      in as_u128 v AND mask)"

definition saturation_bound :: "string \<Rightarrow> int \<Rightarrow> int \<Rightarrow> int \<Rightarrow> int \<Rightarrow> int" where
  "saturation_bound operator left right minimum maximum =
     (if operator = ''add'' then (if right < 0 then minimum else maximum)
      else if operator = ''sub'' then (if right < 0 then maximum else minimum)
      else if operator = ''mul'' then (if (left < 0) = (right < 0) then maximum else minimum)
      else maximum)"

text \<open>The bits of an operand are those of its residue.\<close>

definition bitwise :: "string \<Rightarrow> integer_type \<Rightarrow> int \<Rightarrow> int \<Rightarrow> int option" where
  "bitwise operator ty left right =
     do {
       (_, maximum) \<leftarrow> limits (ty_bits ty) False;
       modulus \<leftarrow> checked_add maximum 1;
       let l = left mod modulus;
       let r = right mod modulus;
       v \<leftarrow> (if operator = ''and'' then Some (l AND r)
             else if operator = ''or'' then Some (l OR r)
             else if operator = ''xor'' then Some (l XOR r)
             else None);
       Some (if ty_signed ty \<and> 2 ^ (ty_bits ty - 1) \<le> v then v - modulus else v)
     }"


section \<open>Evaluation\<close>

text \<open>The shift arm of the raw result.  The outer option is the panic.\<close>

definition raw_shift :: "string \<Rightarrow> integer_type \<Rightarrow> int \<Rightarrow> int \<Rightarrow> int option" where
  "raw_shift operator ty left right =
     (if ty_bits ty = 0 then None
      else
        let bits = ty_bits ty;
            count = nat (as_u128 right mod int bits);
            shifted =
              (if operator = ''shl'' then
                 (case try_from_u128 (as_u128 (push_bit count (unsigned_domain left bits))) of
                    Some s \<Rightarrow> s | None \<Rightarrow> i128_max)
               else if \<not> ty_signed ty then
                 (case try_from_u128 (drop_bit count (unsigned_domain left bits)) of
                    Some s \<Rightarrow> s | None \<Rightarrow> 0)
               else drop_bit count left)
        in wrap shifted bits (ty_signed ty))"

definition raw_result :: "integer_operation \<Rightarrow> int option option" where
  "raw_result oper =
     (let operator = op_operator oper; ty = op_type oper;
          left = op_left oper; right = op_right oper in
      if operator = ''add'' then Some (checked_add left right)
      else if operator = ''sub'' then Some (checked_sub left right)
      else if operator = ''mul'' then Some (checked_mul left right)
      else if operator = ''div'' then Some (checked_div left right)
      else if operator = ''mod'' then Some (checked_rem left right)
      else if operator \<in> {''and'', ''or'', ''xor''} \<and> op_intent oper = Wrapping then
        Some (bitwise operator ty left right)
      else if operator \<in> {''shl'', ''shr''} \<and> 0 \<le> right then
        map_option Some (raw_shift operator ty left right)
      else Some None)"

text \<open>The value of the wrapping arm, before reduction.\<close>

definition wrapping_value :: "integer_operation \<Rightarrow> int option \<Rightarrow> int option" where
  "wrapping_value oper raw =
     (let operator = op_operator oper; left = op_left oper; right = op_right oper in
      if operator = ''add'' then Some (wrapping_add left right)
      else if operator = ''sub'' then Some (wrapping_sub left right)
      else if operator = ''mul'' then Some (wrapping_mul left right)
      else if operator = ''div'' then (if right = 0 then None else Some (wrapping_div left right))
      else if operator = ''mod'' then (if right = 0 then None else Some (wrapping_rem left right))
      else if operator \<in> {''and'', ''or'', ''xor'', ''shl'', ''shr''} then raw
      else None)"

definition outside :: "int option \<Rightarrow> int \<Rightarrow> int \<Rightarrow> bool" where
  "outside raw minimum maximum =
     (case raw of Some v \<Rightarrow> v < minimum \<or> maximum < v | None \<Rightarrow> True)"

definition intended_bits :: "arithmetic_intent \<Rightarrow> integer_type \<Rightarrow> nat" where
  "intended_bits intent ty = (case intent of Widening bits \<Rightarrow> bits | _ \<Rightarrow> ty_bits ty)"

definition apply_intent ::
  "integer_operation \<Rightarrow> int option \<Rightarrow> int \<Rightarrow> int \<Rightarrow> integer_evaluation option" where
  "apply_intent oper raw minimum maximum =
     (let ty = op_type oper;
          result_bits = intended_bits (op_intent oper) ty;
          overflow = outside raw minimum maximum;
          exact = (if overflow then None else raw) in
      case op_intent oper of
        Wrapping \<Rightarrow>
          (case wrapping_value oper raw of
             None \<Rightarrow> Some \<lparr>ev_value = None, ev_overflow = overflow, ev_trapped = False,
                           ev_result_bits = result_bits\<rparr>
           | Some v \<Rightarrow> map_option (\<lambda>w. \<lparr>ev_value = Some w, ev_overflow = overflow,
                 ev_trapped = False, ev_result_bits = result_bits\<rparr>)
               (wrap v (ty_bits ty) (ty_signed ty)))
      | Checked \<Rightarrow> Some \<lparr>ev_value = exact, ev_overflow = overflow, ev_trapped = False,
            ev_result_bits = result_bits\<rparr>
      | Saturating \<Rightarrow>
          Some \<lparr>ev_value = Some (case raw of
                   Some v \<Rightarrow> max minimum (min maximum v)
                 | None \<Rightarrow> saturation_bound (op_operator oper) (op_left oper) (op_right oper)
                     minimum maximum),
                ev_overflow = overflow, ev_trapped = False, ev_result_bits = result_bits\<rparr>
      | Trapping \<Rightarrow> Some \<lparr>ev_value = exact, ev_overflow = overflow, ev_trapped = overflow,
            ev_result_bits = result_bits\<rparr>
      | Widening _ \<Rightarrow> Some \<lparr>ev_value = exact, ev_overflow = overflow, ev_trapped = False,
            ev_result_bits = result_bits\<rparr>)"

definition evaluate :: "integer_operation \<Rightarrow> integer_evaluation option" where
  "evaluate oper =
     (let result_bits = intended_bits (op_intent oper) (op_type oper) in
      case limits result_bits (ty_signed (op_type oper)) of
        None \<Rightarrow> Some \<lparr>ev_value = None, ev_overflow = True,
                      ev_trapped = (op_intent oper = Trapping), ev_result_bits = result_bits\<rparr>
      | Some (minimum, maximum) \<Rightarrow>
          (case raw_result oper of
             None \<Rightarrow> None
           | Some raw \<Rightarrow> apply_intent oper raw minimum maximum))"

definition minimum_widening_bits :: "string \<Rightarrow> integer_type \<Rightarrow> nat option" where
  "minimum_widening_bits operator ty =
     (let checked_u16 = (\<lambda>n. if n \<le> 65535 then Some n else None) in
      if operator = ''add'' then checked_u16 (ty_bits ty + 1)
      else if operator = ''sub'' \<and> ty_signed ty then checked_u16 (ty_bits ty + 1)
      else if operator = ''mul'' then checked_u16 (ty_bits ty * 2)
      else None)"

definition arithmetic_result_type ::
  "string \<Rightarrow> integer_type \<Rightarrow> arithmetic_intent \<Rightarrow> integer_type option" where
  "arithmetic_result_type operator ty intent =
     (if \<not> (1 \<le> ty_bits ty \<and> ty_bits ty \<le> 126) then None
      else case intent of
        Widening bits \<Rightarrow>
          (case minimum_widening_bits operator ty of
             None \<Rightarrow> None
           | Some least \<Rightarrow>
               if least \<le> bits \<and> bits \<le> 126
               then Some \<lparr>ty_bits = bits, ty_signed = ty_signed ty\<rparr> else None)
      | _ \<Rightarrow> Some ty)"


section \<open>Specification: exact results and their reduction to a width\<close>

definition valid_bits :: "nat \<Rightarrow> bool" where
  "valid_bits b \<longleftrightarrow> 1 \<le> b \<and> b \<le> 126"

definition fits :: "nat \<Rightarrow> bool \<Rightarrow> int \<Rightarrow> bool" where
  "fits b s v \<longleftrightarrow> (if s then - (2 ^ (b - 1)) \<le> v \<and> v < 2 ^ (b - 1) else 0 \<le> v \<and> v < 2 ^ b)"

abbreviation fits_type :: "integer_type \<Rightarrow> int \<Rightarrow> bool" where
  "fits_type ty \<equiv> fits (ty_bits ty) (ty_signed ty)"

definition reduce :: "nat \<Rightarrow> bool \<Rightarrow> int \<Rightarrow> int" where
  "reduce b s v = (let w = v mod 2 ^ b in if s \<and> 2 ^ (b - 1) \<le> w then w - 2 ^ b else w)"

text \<open>The mathematical result of each operator, over unbounded integers.  \<open>None\<close>: there is none
  (zero divisor, negative shift count, unknown operator).\<close>

definition exact_result :: "string \<Rightarrow> nat \<Rightarrow> int \<Rightarrow> int \<Rightarrow> int option" where
  "exact_result operator b l r =
     (if operator = ''add'' then Some (l + r)
      else if operator = ''sub'' then Some (l - r)
      else if operator = ''mul'' then Some (l * r)
      else if operator = ''div'' then (if r = 0 then None else Some (l sdiv r))
      else if operator = ''mod'' then (if r = 0 then None else Some (l smod r))
      else if operator = ''and'' then Some (l AND r)
      else if operator = ''or'' then Some (l OR r)
      else if operator = ''xor'' then Some (l XOR r)
      else if operator = ''shl'' then (if r < 0 then None else Some (l * 2 ^ nat (r mod int b)))
      else if operator = ''shr'' then (if r < 0 then None else Some (l div 2 ^ nat (r mod int b)))
      else None)"

lemma two_power_pred: "1 \<le> b \<Longrightarrow> (2::int) ^ b = 2 * 2 ^ (b - 1)"
  by (cases b) simp_all

lemma two_power_split: "i \<le> n \<Longrightarrow> (2::int) ^ n = 2 ^ i * 2 ^ (n - i)"
  by (simp flip: power_add)

lemma limits_valid:
  "valid_bits b \<Longrightarrow> limits b s = Some (if s then (- (2 ^ (b - 1)), 2 ^ (b - 1) - 1) else (0, 2 ^ b - 1))"
  by (simp add: limits_def valid_bits_def)

lemma limits_validE:
  assumes "valid_bits b"
  obtains lo hi where "limits b s = Some (lo, hi)"
  using limits_valid [OF assms, of s] that by (cases s) auto

lemma limits_SomeD: "limits b s = Some (lo, hi) \<Longrightarrow> valid_bits b"
  by (auto simp: limits_def valid_bits_def split: if_splits)

lemma limits_None_iff: "limits b s = None \<longleftrightarrow> \<not> valid_bits b"
  by (simp add: limits_def valid_bits_def)

lemma limits_fits:
  "limits b s = Some (lo, hi) \<Longrightarrow> fits b s v \<longleftrightarrow> lo \<le> v \<and> v \<le> hi"
  by (auto simp: limits_def fits_def split: if_splits)

lemma limits_ordered: "limits b s = Some (lo, hi) \<Longrightarrow> lo \<le> hi"
  by (auto simp: limits_def split: if_splits)

lemma fits_in_i128:
  assumes "valid_bits b" and "fits b s v"
  shows "in_i128 v"
proof -
  have "(2::int) ^ b \<le> 2 ^ 126"
    by (rule power_increasing) (use assms(1) in \<open>auto simp: valid_bits_def\<close>)
  moreover have "(2::int) ^ (b - 1) \<le> 2 ^ 126"
    by (rule power_increasing) (use assms(1) in \<open>auto simp: valid_bits_def\<close>)
  ultimately show ?thesis
    using assms(2)
    by (auto simp: fits_def in_i128_def i128_min_def i128_max_def split: if_splits)
qed

lemma reduce_mod: "reduce b s v mod 2 ^ b = v mod 2 ^ b"
  by (simp add: reduce_def Let_def)

lemma reduce_fits:
  assumes "1 \<le> b"
  shows "fits b s (reduce b s v)"
proof -
  obtain n where b: "b = Suc n" using assms by (cases b) auto
  have "0 \<le> v mod 2 ^ b" and "v mod 2 ^ b < 2 * 2 ^ n" and "(0::int) < 2 ^ n"
    by (simp_all add: b)
  then show ?thesis
    unfolding fits_def reduce_def Let_def b by (auto simp del: pos_mod_sign pos_mod_bound)
qed

lemma fits_unique:
  assumes "1 \<le> b" and "fits b s v" and "fits b s w" and "v mod 2 ^ b = w mod 2 ^ b"
  shows "v = w"
proof -
  have "\<bar>v - w\<bar> < 2 ^ b"
    using assms(1-3) by (cases b) (auto simp: fits_def split: if_splits)
  moreover have "2 ^ b dvd v - w"
    using assms(4) by (simp add: mod_eq_dvd_iff)
  ultimately show ?thesis
    using zdvd_imp_le [of "2 ^ b" "\<bar>v - w\<bar>"] by force
qed

lemma reduce_cong: "v mod 2 ^ b = w mod 2 ^ b \<Longrightarrow> reduce b s v = reduce b s w"
  by (simp add: reduce_def)

lemma reduce_id: "1 \<le> b \<Longrightarrow> fits b s v \<Longrightarrow> reduce b s v = v"
  by (rule fits_unique [of b s]) (simp_all add: reduce_fits reduce_mod)

lemma wrap_valid: "valid_bits b \<Longrightarrow> wrap v b s = Some (reduce b s v)"
  by (simp add: wrap_def limits_valid reduce_def Let_def)

lemma wrap_None_iff: "wrap v b s = None \<longleftrightarrow> \<not> valid_bits b"
  by (auto simp: wrap_def limits_def valid_bits_def Let_def)

lemma wrap_wrapping_i128:
  "valid_bits b \<Longrightarrow> wrap (wrapping_i128 v) b s = Some (reduce b s v)"
  by (simp add: wrap_valid) (rule reduce_cong, simp add: wrapping_i128_mod valid_bits_def)

text \<open>Reduction is what a \<open>w word\<close> of that width does.\<close>

lemma reduce_signed_word: "reduce LENGTH('a::len) True v = sint (word_of_int v :: 'a word)"
proof (rule fits_unique)
  show "1 \<le> LENGTH('a)" by (simp add: Suc_leI)
  then show "fits LENGTH('a) True (reduce LENGTH('a) True v)" by (rule reduce_fits)
  show "fits LENGTH('a) True (sint (word_of_int v :: 'a word))"
    by (simp add: fits_def sint_ge sint_lt del: One_nat_def)
  show "reduce LENGTH('a) True v mod 2 ^ LENGTH('a) = sint (word_of_int v :: 'a word) mod 2 ^ LENGTH('a)"
    unfolding reduce_mod
    by (metis take_bit_eq_mod uint_sint uint_word_of_int)
qed

lemma reduce_unsigned_word: "reduce LENGTH('a::len) False v = uint (word_of_int v :: 'a word)"
  by (simp add: reduce_def uint_word_of_int Let_def)


section \<open>The contract of a wrapping evaluator\<close>

text \<open>
  The program has two evaluators of wrapping arithmetic: the reference \<open>evaluate\<close> and the
  allocation-free fast path of the interpreters.  Their shared contract: on operands that fit the
  type, the result is the exact result reduced to the type's width.  \<open>dom\<close> restricts the operator
  and operands for which an evaluator keeps it.
\<close>

locale modular_evaluator =
  fixes eval :: "string \<Rightarrow> integer_type \<Rightarrow> int \<Rightarrow> int \<Rightarrow> int option"
    and dom :: "string \<Rightarrow> integer_type \<Rightarrow> int \<Rightarrow> int \<Rightarrow> bool"
  assumes eval_exact:
    "\<lbrakk> valid_bits (ty_bits ty); fits_type ty l; fits_type ty r; dom operator ty l r \<rbrakk> \<Longrightarrow>
     eval operator ty l r =
       map_option (reduce (ty_bits ty) (ty_signed ty)) (exact_result operator (ty_bits ty) l r)"
begin

lemma eval_fits:
  assumes "valid_bits (ty_bits ty)" "fits_type ty l" "fits_type ty r" "dom operator ty l r"
    and "eval operator ty l r = Some v"
  shows "fits_type ty v"
  using assms eval_exact [OF assms(1-4)] by (auto simp: valid_bits_def intro: reduce_fits)

lemma eval_word_signed:
  fixes a b :: "'a::len word"
  assumes "LENGTH('a) \<le> 126"
    and "dom operator \<lparr>ty_bits = LENGTH('a), ty_signed = True\<rparr> (sint a) (sint b)"
  shows "eval operator \<lparr>ty_bits = LENGTH('a), ty_signed = True\<rparr> (sint a) (sint b) =
     map_option (\<lambda>v. sint (word_of_int v :: 'a word))
       (exact_result operator LENGTH('a) (sint a) (sint b))"
proof -
  have "valid_bits LENGTH('a)" using assms(1) by (simp add: valid_bits_def Suc_leI)
  moreover have "fits LENGTH('a) True (sint w)" for w :: "'a word"
    by (simp add: fits_def sint_ge sint_lt del: One_nat_def)
  moreover have "reduce LENGTH('a) True = (\<lambda>v. sint (word_of_int v :: 'a word))"
    by (rule ext) (rule reduce_signed_word)
  ultimately show ?thesis
    using eval_exact [of "\<lparr>ty_bits = LENGTH('a), ty_signed = True\<rparr>" "sint a" "sint b" operator]
      assms(2)
    by simp
qed

lemma eval_word_unsigned:
  fixes a b :: "'a::len word"
  assumes "LENGTH('a) \<le> 126"
    and "dom operator \<lparr>ty_bits = LENGTH('a), ty_signed = False\<rparr> (uint a) (uint b)"
  shows "eval operator \<lparr>ty_bits = LENGTH('a), ty_signed = False\<rparr> (uint a) (uint b) =
     map_option (\<lambda>v. uint (word_of_int v :: 'a word))
       (exact_result operator LENGTH('a) (uint a) (uint b))"
proof -
  have "valid_bits LENGTH('a)" using assms(1) by (simp add: valid_bits_def Suc_leI)
  moreover have "fits LENGTH('a) False (uint w)" for w :: "'a word"
    by (simp add: fits_def)
  moreover have "reduce LENGTH('a) False = (\<lambda>v. uint (word_of_int v :: 'a word))"
    by (rule ext) (rule reduce_unsigned_word)
  ultimately show ?thesis
    using eval_exact [of "\<lparr>ty_bits = LENGTH('a), ty_signed = False\<rparr>" "uint a" "uint b" operator]
      assms(2)
    by simp
qed

end

text \<open>Two evaluators with the contract agree wherever both keep it.\<close>

locale evaluator_pair =
  one: modular_evaluator eval1 dom1 + two: modular_evaluator eval2 dom2
  for eval1 eval2 :: "string \<Rightarrow> integer_type \<Rightarrow> int \<Rightarrow> int \<Rightarrow> int option"
  and dom1 dom2 :: "string \<Rightarrow> integer_type \<Rightarrow> int \<Rightarrow> int \<Rightarrow> bool"
begin

lemma evaluators_agree:
  assumes "valid_bits (ty_bits ty)" "fits_type ty l" "fits_type ty r"
    and "dom1 operator ty l r" "dom2 operator ty l r"
  shows "eval1 operator ty l r = eval2 operator ty l r"
  using one.eval_exact [OF assms(1-4)] two.eval_exact [OF assms(1-3,5)] by simp

end


section \<open>The reference evaluator keeps the contract\<close>

lemma reduce_reduce [simp]: "reduce b s (reduce b s v) = reduce b s v"
  by (rule reduce_cong) (rule reduce_mod)

lemma residue_bitops:
  fixes l r :: int
  shows "(l mod 2 ^ b) AND (r mod 2 ^ b) = (l AND r) mod 2 ^ b"
    and "(l mod 2 ^ b) OR (r mod 2 ^ b) = (l OR r) mod 2 ^ b"
    and "(l mod 2 ^ b) XOR (r mod 2 ^ b) = (l XOR r) mod 2 ^ b"
  by (simp_all flip: take_bit_eq_mod add: take_bit_and take_bit_or take_bit_xor)

lemma checked_add_modulus: "valid_bits b \<Longrightarrow> checked_add (2 ^ b - 1) 1 = Some (2 ^ b)"
proof -
  assume "valid_bits b"
  then have "(2::int) ^ b \<le> 2 ^ 126"
    by (intro power_increasing) (auto simp: valid_bits_def)
  then show ?thesis by (simp add: checked_add_def checked_i128_def in_i128_def i128_min_def i128_max_def
        order_trans [OF _ zero_le_power])
qed

lemma bitwise_exact:
  assumes "valid_bits (ty_bits ty)" and "operator \<in> {''and'', ''or'', ''xor''}"
  shows "bitwise operator ty l r =
    map_option (reduce (ty_bits ty) (ty_signed ty)) (exact_result operator (ty_bits ty) l r)"
  using assms
  by (auto simp: bitwise_def limits_valid checked_add_modulus exact_result_def reduce_def
      residue_bitops Let_def)

lemma unsigned_domain_valid: "1 \<le> b \<Longrightarrow> b \<le> 128 \<Longrightarrow> unsigned_domain v b = v mod 2 ^ b"
proof -
  assume b: "1 \<le> b" "b \<le> 128"
  have "drop_bit (128 - b) (2 ^ 128 - 1 :: int) = mask b" if "b < 128"
  proof -
    have "drop_bit (128 - b) (mask 128 :: int) = mask (128 - (128 - b))"
      by (rule drop_bit_mask_eq)
    with b show ?thesis by (simp add: mask_eq_exp_minus_1)
  qed
  then have "unsigned_domain v b = as_u128 v AND mask b"
    using b by (auto simp: unsigned_domain_def mask_eq_exp_minus_1 Let_def)
  also have "\<dots> = as_u128 v mod 2 ^ b"
    by (simp add: take_bit_eq_mod flip: take_bit_eq_mask)
  also have "\<dots> = v mod 2 ^ b"
    using b by (simp add: as_u128_mod)
  finally show ?thesis .
qed


lemma shift_count:
  fixes r :: int
  assumes "1 \<le> b" and "0 \<le> r" and "in_i128 r"
  shows "nat (as_u128 r mod int b) = nat (r mod int b)" and "nat (r mod int b) < b"
proof -
  have "as_u128 r = r"
    using assms(2,3) by (simp add: as_u128_def in_i128_def i128_max_def)
  then show "nat (as_u128 r mod int b) = nat (r mod int b)" by simp
  show "nat (r mod int b) < b"
    using assms(1) pos_mod_bound [of "int b" r] by (simp add: nat_less_iff)
qed

text \<open>A left shift computed in \<open>u128\<close> is exact when the shifted bits stay below bit 127.\<close>

lemma raw_shl_exact:
  assumes "valid_bits b" and "0 \<le> r" and "in_i128 r" and "b + nat (r mod int b) \<le> 127"
  shows "raw_shift ''shl'' \<lparr>ty_bits = b, ty_signed = s\<rparr> l r =
     Some (reduce b s (l * 2 ^ nat (r mod int b)))"
proof -
  define c where "c = nat (r mod int b)"
  have b: "1 \<le> b" "b \<le> 126" using assms(1) by (simp_all add: valid_bits_def)
  have count: "nat (as_u128 r mod int b) = c"
    using shift_count [OF b(1) assms(2,3)] by (simp add: c_def)
  have ud: "unsigned_domain l b = l mod 2 ^ b"
    using b by (simp add: unsigned_domain_valid)
  have "l mod 2 ^ b * 2 ^ c < 2 ^ b * 2 ^ c" by simp
  also have "\<dots> \<le> (2::int) ^ 127"
    using assms(4) unfolding c_def power_add [symmetric] by (intro power_increasing) auto
  finally have bound: "l mod 2 ^ b * 2 ^ c < 2 ^ 127" .
  have nonneg: "0 \<le> l mod 2 ^ b * 2 ^ c" by simp
  have "as_u128 (push_bit c (l mod 2 ^ b)) = l mod 2 ^ b * 2 ^ c"
    using bound nonneg by (simp add: as_u128_def push_bit_eq_mult)
  moreover have "try_from_u128 (l mod 2 ^ b * 2 ^ c) = Some (l mod 2 ^ b * 2 ^ c)"
    using bound by (simp add: try_from_u128_def i128_max_def)
  moreover have "reduce b s (l mod 2 ^ b * 2 ^ c) = reduce b s (l * 2 ^ c)"
    by (rule reduce_cong) (simp add: mod_mult_left_eq)
  ultimately show ?thesis
    using b assms(1) by (simp add: raw_shift_def Let_def count ud wrap_valid flip: c_def)
qed

lemma raw_shr_exact:
  assumes "valid_bits b" and "0 \<le> r" and "in_i128 r" and "fits b s l"
  shows "raw_shift ''shr'' \<lparr>ty_bits = b, ty_signed = s\<rparr> l r =
     Some (reduce b s (l div 2 ^ nat (r mod int b)))"
proof -
  define c where "c = nat (r mod int b)"
  have b: "1 \<le> b" "b \<le> 126" using assms(1) by (simp_all add: valid_bits_def)
  have count: "nat (as_u128 r mod int b) = c"
    using shift_count [OF b(1) assms(2,3)] by (simp add: c_def)
  have *: "try_from_u128 (drop_bit c (unsigned_domain l b)) = Some (l div 2 ^ c)" if "\<not> s"
  proof -
    have l: "0 \<le> l" "l < 2 ^ b" using that assms(4) by (simp_all add: fits_def)
    have "l div 2 ^ c \<le> l" using zdiv_mono2 [of l 1 "2 ^ c"] l(1) by simp
    moreover have "l \<le> i128_max" using fits_in_i128 [OF assms(1,4)] by (simp add: in_i128_def)
    ultimately show ?thesis
      using l b by (simp add: unsigned_domain_valid drop_bit_eq_div try_from_u128_def)
  qed
  show ?thesis
    using b assms(1) * by (cases s) (simp_all add: raw_shift_def Let_def count wrap_valid
        drop_bit_eq_div flip: c_def)
qed


definition oper_of ::
  "string \<Rightarrow> integer_type \<Rightarrow> arithmetic_intent \<Rightarrow> int \<Rightarrow> int \<Rightarrow> integer_operation" where
  "oper_of operator ty intent l r =
     \<lparr>op_operator = operator, op_type = ty, op_left = l, op_right = r, op_intent = intent\<rparr>"

text \<open>The value of an evaluation, as its callers read it; a panic has none.\<close>

definition evaluate_value ::
  "string \<Rightarrow> integer_type \<Rightarrow> arithmetic_intent \<Rightarrow> int \<Rightarrow> int \<Rightarrow> int option" where
  "evaluate_value operator ty intent l r = Option.bind (evaluate (oper_of operator ty intent l r)) ev_value"

lemma oper_of_simps [simp]:
  "op_operator (oper_of operator ty intent l r) = operator"
  "op_type (oper_of operator ty intent l r) = ty"
  "op_left (oper_of operator ty intent l r) = l"
  "op_right (oper_of operator ty intent l r) = r"
  "op_intent (oper_of operator ty intent l r) = intent"
  by (simp_all add: oper_of_def)

lemma intended_bits_simps [simp]:
  "intended_bits Wrapping ty = ty_bits ty" "intended_bits Checked ty = ty_bits ty"
  "intended_bits Saturating ty = ty_bits ty" "intended_bits Trapping ty = ty_bits ty"
  "intended_bits (Widening b) ty = b"
  by (simp_all add: intended_bits_def)

text \<open>Where the reference evaluator keeps the modular contract: everywhere but for left shifts that
  push a bit past the host's \<open>i128\<close>, which takes a type of more than 64 bits.\<close>

definition reference_dom :: "string \<Rightarrow> integer_type \<Rightarrow> int \<Rightarrow> int \<Rightarrow> bool" where
  "reference_dom operator ty l r \<longleftrightarrow>
     (operator = ''shl'' \<longrightarrow> 0 \<le> r \<longrightarrow> ty_bits ty + nat (r mod int (ty_bits ty)) \<le> 127)"

lemma reference_dom_64: "1 \<le> ty_bits ty \<Longrightarrow> ty_bits ty \<le> 64 \<Longrightarrow> reference_dom operator ty l r"
proof -
  assume b: "1 \<le> ty_bits ty" "ty_bits ty \<le> 64"
  then have "nat (r mod int (ty_bits ty)) < ty_bits ty"
    using pos_mod_bound [of "int (ty_bits ty)" r] by (simp add: nat_less_iff)
  with b show ?thesis by (simp add: reference_dom_def)
qed

lemma reference_wrapping_cases:
  assumes "valid_bits (ty_bits ty)"
    and "raw_result (oper_of operator ty Wrapping l r) = Some raw"
  shows "evaluate_value operator ty Wrapping l r =
     Option.bind (wrapping_value (oper_of operator ty Wrapping l r) raw)
       (\<lambda>v. Some (reduce (ty_bits ty) (ty_signed ty) v))"
proof -
  obtain lo hi where lim: "limits (ty_bits ty) (ty_signed ty) = Some (lo, hi)"
    using limits_valid [OF assms(1)] by (metis surj_pair)
  have ev: "evaluate (oper_of operator ty Wrapping l r) =
      apply_intent (oper_of operator ty Wrapping l r) raw lo hi"
    by (simp add: evaluate_def lim assms(2))
  show ?thesis
    by (cases "wrapping_value (oper_of operator ty Wrapping l r) raw")
       (simp_all add: evaluate_value_def ev apply_intent_def wrap_valid [OF assms(1)])
qed

lemma operator_cases [case_names ring division bits shift noshift none]:
  assumes "x \<in> A \<Longrightarrow> P" "x \<in> B \<Longrightarrow> P" "x \<in> C \<Longrightarrow> P" "x \<in> D \<Longrightarrow> Q \<Longrightarrow> P" "x \<in> D \<Longrightarrow> \<not> Q \<Longrightarrow> P"
    and "x \<notin> A \<Longrightarrow> x \<notin> B \<Longrightarrow> x \<notin> C \<Longrightarrow> x \<notin> D \<Longrightarrow> P"
  shows P
  using assms by argo

lemma reference_wrapping_exact:
  assumes valid: "valid_bits (ty_bits ty)"
    and l: "fits_type ty l" and r: "fits_type ty r" and dom: "reference_dom operator ty l r"
  shows "evaluate_value operator ty Wrapping l r =
    map_option (reduce (ty_bits ty) (ty_signed ty)) (exact_result operator (ty_bits ty) l r)"
proof -
  note rw = reference_wrapping_cases [OF valid]
  have b: "ty_bits ty \<le> 128" using valid by (simp add: valid_bits_def)
  have wrap_red: "reduce (ty_bits ty) s (wrapping_i128 v) = reduce (ty_bits ty) s v" for s v
    by (rule reduce_cong) (rule wrapping_i128_mod [OF b])
  have r128: "in_i128 r" by (rule fits_in_i128 [OF valid r])
  show ?thesis
  proof (cases rule: operator_cases [of operator "{''add'', ''sub'', ''mul''}" _ "{''div'', ''mod''}"
        "{''and'', ''or'', ''xor''}" "{''shl'', ''shr''}" "0 \<le> r"])
    case ring
    then show ?thesis
      by (auto simp: rw raw_result_def wrapping_value_def exact_result_def wrapping_add_def
          wrapping_sub_def wrapping_mul_def wrap_red)
  next
    case division
    then show ?thesis
      by (auto simp: rw raw_result_def wrapping_value_def exact_result_def wrapping_div_def
          wrapping_rem_def wrap_red)
  next
    case bits
    have "raw_result (oper_of operator ty Wrapping l r) = Some (bitwise operator ty l r)"
      using bits by (auto simp: raw_result_def)
    from rw [OF this] show ?thesis
      using bits bitwise_exact [OF valid bits, of l r]
      by (auto simp: wrapping_value_def exact_result_def)
  next
    case shift
    obtain b s where ty: "ty = \<lparr>ty_bits = b, ty_signed = s\<rparr>" by (cases ty) auto
    have "raw_shift operator ty l r = map_option (reduce b s) (exact_result operator b l r)"
      using shift valid dom l r128 raw_shl_exact [of b r s l] raw_shr_exact [of b r s l]
      by (auto simp: ty exact_result_def reference_dom_def)
    then have "raw_result (oper_of operator ty Wrapping l r) =
        map_option (\<lambda>v. Some (reduce b s v)) (exact_result operator b l r)"
      using shift by (auto simp: raw_result_def option.map_comp comp_def)
    then obtain v where v: "exact_result operator b l r = Some v"
        and raw: "raw_result (oper_of operator ty Wrapping l r) = Some (Some (reduce b s v))"
      using shift by (auto simp: exact_result_def)
    from rw [OF raw] shift v show ?thesis
      by (auto simp: wrapping_value_def ty)
  next
    case noshift
    then show ?thesis
      by (auto simp: rw raw_result_def wrapping_value_def exact_result_def)
  next
    case none
    then show ?thesis
      by (simp add: rw raw_result_def wrapping_value_def exact_result_def)
  qed
qed

interpretation reference_int: modular_evaluator "\<lambda>operator ty. evaluate_value operator ty Wrapping" reference_dom
  by unfold_locales (rule reference_wrapping_exact)


section \<open>The other intents\<close>

abbreviation arithmetic_operators :: "string set" where
  "arithmetic_operators \<equiv> {''add'', ''sub'', ''mul'', ''div'', ''mod''}"

lemma checked_rem_exact:
  assumes "in_i128 l" and "l \<noteq> i128_min"
  shows "checked_rem l r = (if r = 0 then None else checked_i128 (l smod r))"
proof -
  have "in_i128 (l smod r)" if "r \<noteq> 0"
    using smod_bounded(2) [OF that, of l] assms
    by (auto simp: in_i128_def i128_min_def i128_max_def)
  then show ?thesis
    using assms(2) by (simp add: checked_rem_def checked_i128_def)
qed

lemma raw_arithmetic:
  assumes "operator \<in> arithmetic_operators" and "in_i128 l" and "l \<noteq> i128_min"
  shows "raw_result (oper_of operator ty intent l r) =
    Some (Option.bind (exact_result operator b l r) checked_i128)"
  using assms(1)
  by (auto simp: raw_result_def exact_result_def checked_add_def checked_sub_def checked_mul_def
      checked_div_def checked_rem_exact [OF assms(2,3)])

lemma fits_not_min: "valid_bits b \<Longrightarrow> fits b s v \<Longrightarrow> v \<noteq> i128_min"
proof
  assume "valid_bits b" "fits b s v" "v = i128_min"
  moreover have "(2::int) ^ (b - 1) \<le> 2 ^ 125"
    using \<open>valid_bits b\<close> by (intro power_increasing) (auto simp: valid_bits_def)
  ultimately show False
    by (auto simp: fits_def i128_min_def split: if_splits)
qed

lemma outside_exact:
  assumes "limits b s = Some (lo, hi)"
  shows "outside (Option.bind e checked_i128) lo hi \<longleftrightarrow> \<not> (\<exists>v. e = Some v \<and> fits b s v)"
proof -
  have valid: "valid_bits b" using assms limits_None_iff [of b s] by auto
  have fits: "fits b s v \<longleftrightarrow> lo \<le> v \<and> v \<le> hi" for v
    by (rule limits_fits [OF assms])
  have "in_i128 v" if "lo \<le> v" "v \<le> hi" for v
    using that fits fits_in_i128 [OF valid, of s] by blast
  then show ?thesis
    by (cases e) (auto simp: outside_def checked_i128_def fits split: option.splits)
qed

text \<open>One evaluation of an arithmetic operator: what its value, overflow flag and trap flag are in
  terms of the exact result.\<close>

lemma evaluate_arithmetic:
  assumes "operator \<in> arithmetic_operators" and "valid_bits (ty_bits ty)" and "fits_type ty l"
    and "limits (intended_bits intent ty) (ty_signed ty) = Some (lo, hi)" and "intent \<noteq> Wrapping"
  shows "\<exists>e. evaluate (oper_of operator ty intent l r) = Some e \<and>
    (ev_overflow e \<longleftrightarrow> \<not> (\<exists>v. exact_result operator (ty_bits ty) l r = Some v \<and>
           fits (intended_bits intent ty) (ty_signed ty) v)) \<and>
    (ev_trapped e \<longleftrightarrow> intent = Trapping \<and> ev_overflow e) \<and>
    (intent \<noteq> Saturating \<longrightarrow>
       ev_value e = (if ev_overflow e then None else exact_result operator (ty_bits ty) l r)) \<and>
    (intent = Saturating \<longrightarrow>
       ev_value e = Some (case Option.bind (exact_result operator (ty_bits ty) l r) checked_i128 of
         Some v \<Rightarrow> max lo (min hi v) | None \<Rightarrow> saturation_bound operator l r lo hi))"
proof -
  define x where "x = exact_result operator (ty_bits ty) l r"
  have raw: "raw_result (oper_of operator ty intent l r) = Some (Option.bind x checked_i128)"
    unfolding x_def using assms(1-3) by (intro raw_arithmetic fits_in_i128 fits_not_min)
  have out: "outside (Option.bind x checked_i128) lo hi \<longleftrightarrow>
      \<not> (\<exists>v. x = Some v \<and> fits (intended_bits intent ty) (ty_signed ty) v)"
    by (rule outside_exact [OF assms(4)])
  have "Option.bind x checked_i128 = x" if "\<not> outside (Option.bind x checked_i128) lo hi"
    using that by (cases x) (auto simp: outside_def checked_i128_def split: if_splits)
  then show ?thesis
    using assms(4,5) raw out unfolding x_def [symmetric]
    by (cases intent) (auto simp: evaluate_def apply_intent_def Let_def cong: option.case_cong)
qed


text \<open>Saturation: a result that leaves \<open>i128\<close> saturates on the side of its true sign.\<close>

lemma saturation_exact:
  assumes "operator \<in> {''add'', ''sub'', ''mul''}" and "limits b s = Some (lo, hi)"
    and "in_i128 l" "in_i128 r"
    and "exact_result operator b l r = Some x"
  shows "(case checked_i128 x of Some v \<Rightarrow> max lo (min hi v)
      | None \<Rightarrow> saturation_bound operator l r lo hi) = max lo (min hi x)"
proof (cases "in_i128 x")
  case False
  have valid: "valid_bits b" using assms(2) limits_None_iff [of b s] by auto
  have bounds: "lo \<le> hi" "i128_min \<le> lo" "hi \<le> i128_max"
    using limits_ordered [OF assms(2)] limits_fits [OF assms(2), of lo] limits_fits [OF assms(2), of hi]
      fits_in_i128 [OF valid, of s lo] fits_in_i128 [OF valid, of s hi]
    by (auto simp: in_i128_def)
  have over: "i128_max < x \<or> x < i128_min" using False by (auto simp: in_i128_def)
  have small: "i128_min \<le> 0" "0 \<le> i128_max" by (simp_all add: i128_min_def i128_max_def)
  have "saturation_bound operator l r lo hi = (if x < i128_min then lo else hi)"
    using assms(1)
  proof (elim insertE)
    assume op: "operator = ''add''"
    with assms(5) have "x = l + r" by (simp add: exact_result_def)
    with over assms(3,4) op show ?thesis
      by (auto simp: saturation_bound_def in_i128_def i128_min_def i128_max_def)
  next
    assume op: "operator = ''sub''"
    with assms(5) have "x = l - r" by (simp add: exact_result_def)
    with over assms(3,4) op show ?thesis
      by (auto simp: saturation_bound_def in_i128_def i128_min_def i128_max_def)
  next
    assume op: "operator = ''mul''"
    with assms(5) have x: "x = l * r" by (simp add: exact_result_def)
    have "x < 0 \<longleftrightarrow> (l < 0) \<noteq> (r < 0)" if "x \<noteq> 0"
      using that unfolding x by (auto simp: mult_less_0_iff)
    with over small op show ?thesis
      by (auto simp: saturation_bound_def)
  qed simp
  with False over bounds show ?thesis
    by (auto simp: checked_i128_def)
qed (simp add: checked_i128_def)


text \<open>Widening: the least width the type rule admits holds every exact result.\<close>

lemma fits_mono:
  assumes "1 \<le> b" "b \<le> n" and "fits b s v"
  shows "fits n s v"
proof -
  have "(2::int) ^ b \<le> 2 ^ n" and "(2::int) ^ (b - 1) \<le> 2 ^ (n - 1)"
    using assms(1,2) by (auto intro!: power_increasing)
  with assms(3) show ?thesis
    unfolding fits_def by (cases s; simp only: if_True if_False; linarith)
qed

lemma fits_add: "1 \<le> b \<Longrightarrow> fits b s l \<Longrightarrow> fits b s r \<Longrightarrow> fits (b + 1) s (l + r)"
  by (cases b) (auto simp: fits_def split: if_splits)

lemma fits_sub: "1 \<le> b \<Longrightarrow> fits b True l \<Longrightarrow> fits b True r \<Longrightarrow> fits (b + 1) True (l - r)"
  by (cases b) (auto simp: fits_def)

lemma fits_mult:
  assumes b: "1 \<le> b" and "fits b s l" "fits b s r"
  shows "fits (b * 2) s (l * r)"
proof (cases s)
  case True
  obtain m where m: "b = Suc m" using b by (cases b) auto
  have "\<bar>l\<bar> \<le> 2 ^ m" "\<bar>r\<bar> \<le> 2 ^ m" using assms True by (auto simp: fits_def m)
  then have "\<bar>l\<bar> * \<bar>r\<bar> \<le> 2 ^ m * 2 ^ m" by (intro mult_mono) auto
  then have "\<bar>l * r\<bar> \<le> 2 ^ (m + m)" by (simp add: abs_mult power_add)
  moreover have "(2::int) ^ (b * 2 - 1) = 2 * 2 ^ (m + m)" by (simp add: m mult_2_right)
  moreover have "(0::int) < 2 ^ (m + m)" by simp
  ultimately show ?thesis
    unfolding fits_def by (simp only: True if_True) linarith
next
  case False
  then have "0 \<le> l" "l < 2 ^ b" "0 \<le> r" "r < 2 ^ b" using assms by (simp_all add: fits_def)
  then have "l * r < 2 ^ b * 2 ^ b" by (intro mult_strict_mono) auto
  then show ?thesis
    using False \<open>0 \<le> l\<close> \<open>0 \<le> r\<close> by (simp add: fits_def mult_2_right power_add)
qed

lemma result_type_widening:
  assumes "arithmetic_result_type operator ty (Widening n) = Some rt"
  shows "rt = \<lparr>ty_bits = n, ty_signed = ty_signed ty\<rparr>" "valid_bits (ty_bits ty)" "valid_bits n"
    and "ty_bits ty \<le> n" and "operator \<in> {''add'', ''sub'', ''mul''}"
    and "\<lbrakk> fits_type ty l; fits_type ty r; exact_result operator (ty_bits ty) l r = Some x \<rbrakk>
      \<Longrightarrow> fits_type rt x"
proof -
  obtain least where least: "minimum_widening_bits operator ty = Some least" "least \<le> n" "n \<le> 126"
      and rt: "rt = \<lparr>ty_bits = n, ty_signed = ty_signed ty\<rparr>" and b: "valid_bits (ty_bits ty)"
    using assms by (auto simp: arithmetic_result_type_def valid_bits_def split: if_splits option.splits)
  then show "rt = \<lparr>ty_bits = n, ty_signed = ty_signed ty\<rparr>" "valid_bits (ty_bits ty)" by simp_all
  have ops: "operator = ''add'' \<and> least = ty_bits ty + 1 \<or>
     operator = ''sub'' \<and> ty_signed ty \<and> least = ty_bits ty + 1 \<or>
     operator = ''mul'' \<and> least = ty_bits ty * 2"
    using least(1) by (auto simp: minimum_widening_bits_def split: if_splits)
  with least b show "valid_bits n" "ty_bits ty \<le> n" "operator \<in> {''add'', ''sub'', ''mul''}"
    by (auto simp: valid_bits_def)
  assume fits: "fits_type ty l" "fits_type ty r" and x: "exact_result operator (ty_bits ty) l r = Some x"
  have b1: "1 \<le> ty_bits ty" "1 \<le> least" using b ops by (auto simp: valid_bits_def)
  have "fits least (ty_signed ty) x"
    using ops x fits b1 fits_add [of "ty_bits ty" "ty_signed ty" l r] fits_sub [of "ty_bits ty" l r]
      fits_mult [of "ty_bits ty" "ty_signed ty" l r]
    by (elim disjE) (simp_all add: exact_result_def)
  then show "fits_type rt x"
    using fits_mono [OF b1(2) least(2)] by (simp add: rt)
qed


section \<open>Properties\<close>

text \<open>Property C26.  On operands of any machine width up to 126 bits, the reference evaluation with the
  wrapping intent is the arithmetic of the machine word of that width: it returns the signed
  reading of the wrapped sum, difference, product and bitwise combination, and the unsigned
  reading for an unsigned type.\<close>

theorem wrapping_is_word_arithmetic:
  fixes a b :: "'w::len word"
  assumes "LENGTH('w) \<le> 126"
  shows "evaluate_value ''add'' \<lparr>ty_bits = LENGTH('w), ty_signed = True\<rparr> Wrapping (sint a) (sint b) = Some (sint (a + b)) \<and>
     evaluate_value ''sub'' \<lparr>ty_bits = LENGTH('w), ty_signed = True\<rparr> Wrapping (sint a) (sint b) = Some (sint (a - b)) \<and>
     evaluate_value ''mul'' \<lparr>ty_bits = LENGTH('w), ty_signed = True\<rparr> Wrapping (sint a) (sint b) = Some (sint (a * b)) \<and>
     evaluate_value ''add'' \<lparr>ty_bits = LENGTH('w), ty_signed = False\<rparr> Wrapping (uint a) (uint b) = Some (uint (a + b)) \<and>
     evaluate_value ''sub'' \<lparr>ty_bits = LENGTH('w), ty_signed = False\<rparr> Wrapping (uint a) (uint b) = Some (uint (a - b)) \<and>
     evaluate_value ''mul'' \<lparr>ty_bits = LENGTH('w), ty_signed = False\<rparr> Wrapping (uint a) (uint b) = Some (uint (a * b)) \<and>
     evaluate_value ''and'' \<lparr>ty_bits = LENGTH('w), ty_signed = False\<rparr> Wrapping (uint a) (uint b) = Some (uint (a AND b)) \<and>
     evaluate_value ''or'' \<lparr>ty_bits = LENGTH('w), ty_signed = False\<rparr> Wrapping (uint a) (uint b) = Some (uint (a OR b)) \<and>
     evaluate_value ''xor'' \<lparr>ty_bits = LENGTH('w), ty_signed = False\<rparr> Wrapping (uint a) (uint b) = Some (uint (a XOR b))"
proof -
  note signed = reference_int.eval_word_signed [OF assms, where a = a and b = b]
  note unsigned = reference_int.eval_word_unsigned [OF assms, where a = a and b = b]
  show ?thesis
    by (intro conjI; simp add: signed unsigned reference_dom_def exact_result_def
        flip: unsigned_and_eq unsigned_or_eq unsigned_xor_eq)
qed

theorem wrapping_is_word_arithmetic_witness:
  "evaluate_value ''add'' \<lparr>ty_bits = 8, ty_signed = True\<rparr> Wrapping 127 1 = Some (- 128)"
  using wrapping_is_word_arithmetic [of "127 :: 8 word" 1] by simp

text \<open>Property C29.  With the checked or trapping intent, an arithmetic operator returns a value exactly
  when the mathematical result exists and is representable in the operand type, and then it
  returns that result; trapping sets the trap flag in every other case and checked never does.\<close>

theorem checked_iff_representable:
  assumes "operator \<in> arithmetic_operators" and "valid_bits (ty_bits ty)" and "fits_type ty l"
    and "intent \<in> {Checked, Trapping}"
  shows "\<exists>e. evaluate (oper_of operator ty intent l r) = Some e \<and>
     (\<forall>v. ev_value e = Some v \<longleftrightarrow>
        exact_result operator (ty_bits ty) l r = Some v \<and> fits_type ty v) \<and>
     (ev_trapped e \<longleftrightarrow> intent = Trapping \<and> ev_value e = None)"
proof -
  obtain lo hi where "limits (intended_bits intent ty) (ty_signed ty) = Some (lo, hi)"
    using assms(4) by (rule_tac limits_validE [OF assms(2), of "ty_signed ty"]) auto
  from evaluate_arithmetic [OF assms(1-3) this, of r] assms(4) show ?thesis
    by (elim insertE emptyE) (fastforce split: if_splits)+
qed

theorem checked_iff_representable_witness:
  "\<exists>e. evaluate (oper_of ''mul'' \<lparr>ty_bits = 8, ty_signed = True\<rparr> Trapping 16 8) = Some e \<and>
     ev_value e = None \<and> ev_trapped e"
  using checked_iff_representable [of "''mul''" "\<lparr>ty_bits = 8, ty_signed = True\<rparr>" 16 Trapping 8]
  by (auto simp: valid_bits_def fits_def exact_result_def)

text \<open>Property C37.  The saturating intent clamps the exact sum, difference or product to the type's
  range, also when the exact result does not fit the host's \<open>i128\<close>.\<close>

theorem saturating_clamps:
  assumes "operator \<in> {''add'', ''sub'', ''mul''}" and "limits (ty_bits ty) (ty_signed ty) = Some (lo, hi)"
    and "fits_type ty l" "fits_type ty r"
  shows "evaluate_value operator ty Saturating l r =
    map_option (\<lambda>x. max lo (min hi x)) (exact_result operator (ty_bits ty) l r)"
proof -
  note valid = limits_SomeD [OF assms(2)]
  obtain x where x: "exact_result operator (ty_bits ty) l r = Some x"
    using assms(1) by (auto simp: exact_result_def)
  have arith: "operator \<in> arithmetic_operators" using assms(1) by auto
  note sat = saturation_exact [OF assms(1,2) fits_in_i128 [OF valid assms(3)] fits_in_i128 [OF valid assms(4)] x]
  obtain e where "evaluate (oper_of operator ty Saturating l r) = Some e"
      and "ev_value e = Some (case Option.bind (exact_result operator (ty_bits ty) l r) checked_i128 of
             Some v \<Rightarrow> max lo (min hi v) | None \<Rightarrow> saturation_bound operator l r lo hi)"
    using evaluate_arithmetic [OF arith valid assms(3), of Saturating lo hi r] assms(2) by auto
  then show ?thesis
    by (simp add: evaluate_value_def x sat)
qed

theorem saturating_clamps_witness:
  "evaluate_value ''mul'' \<lparr>ty_bits = 126, ty_signed = False\<rparr> Saturating (2 ^ 126 - 1) (2 ^ 126 - 1) = Some (2 ^ 126 - 1)"
  using saturating_clamps [of "''mul''" "\<lparr>ty_bits = 126, ty_signed = False\<rparr>" 0 "2 ^ 126 - 1" "2 ^ 126 - 1" "2 ^ 126 - 1"]
  by (simp add: limits_def fits_def exact_result_def)


text \<open>Where the type rule admits a widening operation, it cannot overflow: the
  evaluation returns the exact result, and that result fits the widened type.\<close>

theorem widening_is_exact:
  assumes "arithmetic_result_type operator ty (Widening n) = Some rt"
    and "fits_type ty l" "fits_type ty r"
  shows "\<exists>e x. evaluate (oper_of operator ty (Widening n) l r) = Some e \<and> \<not> ev_overflow e \<and>
     ev_value e = Some x \<and> exact_result operator (ty_bits ty) l r = Some x \<and> fits_type rt x \<and>
     ev_result_bits e = n"
proof -
  note wide = result_type_widening [OF assms(1)]
  obtain x where x: "exact_result operator (ty_bits ty) l r = Some x"
    using wide(5) by (auto simp: exact_result_def)
  note fx = wide(6) [OF assms(2,3) x]
  obtain lo hi where lim: "limits n (ty_signed ty) = Some (lo, hi)"
    by (rule limits_validE [OF wide(3)])
  have arith: "operator \<in> arithmetic_operators" using wide(5) by auto
  obtain e where e: "evaluate (oper_of operator ty (Widening n) l r) = Some e"
      "\<not> ev_overflow e" "ev_value e = Some x"
    using evaluate_arithmetic [OF arith wide(2) assms(2), of "Widening n" lo hi r] lim x fx
    by (auto simp: wide(1))
  have "ev_result_bits e = n"
    using e(1) by (auto simp: evaluate_def apply_intent_def lim Let_def split: option.splits)
  with e x fx show ?thesis by blast
qed

theorem widening_is_exact_witness:
  "\<exists>e x. evaluate (oper_of ''mul'' \<lparr>ty_bits = 8, ty_signed = True\<rparr> (Widening 16) (- 128) 127) = Some e \<and>
     ev_value e = Some x \<and> x = - 16256"
  using widening_is_exact [of "''mul''" "\<lparr>ty_bits = 8, ty_signed = True\<rparr>" 16
      "\<lparr>ty_bits = 16, ty_signed = True\<rparr>" "- 128" 127]
  by (auto simp: arithmetic_result_type_def minimum_widening_bits_def fits_def exact_result_def Let_def)

text \<open>Property C38.  The evaluator panics in exactly one situation: a shift by a non-negative count, under
  a widening intent with a valid result width, on an operand type whose own width is outside
  \<open>1..=126\<close>.  Every other operation, with any operator string and any operands, is evaluated.\<close>

theorem evaluate_panics_iff:
  "evaluate oper = None \<longleftrightarrow>
     op_operator oper \<in> {''shl'', ''shr''} \<and> 0 \<le> op_right oper \<and>
     \<not> valid_bits (ty_bits (op_type oper)) \<and>
     (\<exists>n. op_intent oper = Widening n \<and> valid_bits n)"
proof (cases "limits (intended_bits (op_intent oper) (op_type oper)) (ty_signed (op_type oper))")
  case None
  then have "\<not> valid_bits (intended_bits (op_intent oper) (op_type oper))"
    by (simp add: limits_None_iff)
  with None show ?thesis
    by (cases "op_intent oper") (simp_all add: evaluate_def)
next
  case (Some lim)
  obtain lo hi where lim: "lim = (lo, hi)" by force
  have valid: "valid_bits (intended_bits (op_intent oper) (op_type oper))"
    using Some by (auto simp: lim dest: limits_SomeD)
  have raw: "raw_result oper = None \<longleftrightarrow>
      op_operator oper \<in> {''shl'', ''shr''} \<and> 0 \<le> op_right oper \<and>
      \<not> valid_bits (ty_bits (op_type oper))"
    by (auto simp: raw_result_def raw_shift_def Let_def wrap_None_iff, auto simp: valid_bits_def)
  have ok: "apply_intent oper r lo hi \<noteq> None" for r
    using valid by (cases "op_intent oper") (auto simp: apply_intent_def Let_def wrap_valid split: option.splits)
  have "evaluate oper = None \<longleftrightarrow> raw_result oper = None"
    using ok by (auto simp: evaluate_def Some lim split: option.splits)
  then show ?thesis
    using valid by (cases "op_intent oper") (auto simp: raw)
qed

text \<open>Under the saturating intent a division or remainder by zero is not a failure: it
  returns the largest value of the type, with the overflow flag set.\<close>

theorem saturating_division_by_zero:
  assumes "operator \<in> {''div'', ''mod''}" and "limits (ty_bits ty) (ty_signed ty) = Some (lo, hi)"
  shows "\<exists>e. evaluate (oper_of operator ty Saturating l 0) = Some e \<and>
    ev_value e = Some hi \<and> ev_overflow e \<and> \<not> ev_trapped e"
  using assms
  by (auto simp: evaluate_def raw_result_def checked_div_def checked_rem_def apply_intent_def
      saturation_bound_def outside_def)

theorem saturating_division_by_zero_witness:
  "\<exists>e. evaluate (oper_of ''div'' \<lparr>ty_bits = 8, ty_signed = True\<rparr> Saturating (- 5) 0) = Some e \<and>
    ev_value e = Some 127"
  using saturating_division_by_zero [of "''div''" "\<lparr>ty_bits = 8, ty_signed = True\<rparr>" "- 128" 127 "- 5"]
  by (auto simp: limits_def)

end
