(* ===== verification/Value.thy ===== *)
theory Value
  imports Machine_Int "HOL-Library.Multiset"
begin

text \<open>
  Semantic types and values: \<open>BodyType\<close> and its compatibility rule from
  \<open>crates/mncs-model/src/body.rs\<close>, \<open>ExecutionValue\<close> from
  \<open>crates/mncs-model/src/execution.rs\<close>, and the name-based field order of
  \<open>crates/mncs-model/src/value_contract.rs\<close>.
\<close>

section \<open>Types\<close>

record float_type =
  float_bits :: nat

definition float_is_supported :: "float_type \<Rightarrow> bool" where
  "float_is_supported ty \<longleftrightarrow> float_bits ty = 64"

datatype sequence_bound = Exact nat | UpTo nat | Param string | UpToParam string

definition max_sequence_bound :: nat where
  "max_sequence_bound = 4096"

fun ceiling :: "sequence_bound \<Rightarrow> nat" where
  "ceiling (Exact l) = l"
| "ceiling (UpTo l) = l"
| "ceiling (Param _) = max_sequence_bound"
| "ceiling (UpToParam _) = max_sequence_bound"

fun bound_is_generic :: "sequence_bound \<Rightarrow> bool" where
  "bound_is_generic (Param _) = True"
| "bound_is_generic (UpToParam _) = True"
| "bound_is_generic _ = False"

datatype body_type =
  TNamed string
| TBool
| TInteger integer_type
| TFloat float_type
| TByte
| TSequence body_type sequence_bound
| TVector body_type nat
| TMask nat
| TFinite semantic_id string
| TRecord semantic_id string
| TGenericParam string

fun contains_generic_parameter :: "body_type \<Rightarrow> bool" where
  "contains_generic_parameter (TGenericParam _) = True"
| "contains_generic_parameter (TSequence element bound) =
     (contains_generic_parameter element \<or> bound_is_generic bound)"
| "contains_generic_parameter (TVector element _) = contains_generic_parameter element"
| "contains_generic_parameter _ = False"

definition is_boolean :: "body_type \<Rightarrow> bool" where
  "is_boolean ty =
     (case ty of
        TBool \<Rightarrow> True
      | TNamed name \<Rightarrow> name = ''bool''
      | TInteger integer \<Rightarrow> ty_bits integer = 1 \<and> \<not> ty_signed integer
      | _ \<Rightarrow> False)"

fun has_unresolved_named :: "body_type \<Rightarrow> bool" where
  "has_unresolved_named (TNamed name) = (name \<noteq> ''bool'')"
| "has_unresolved_named (TSequence element _) = has_unresolved_named element"
| "has_unresolved_named (TVector element _) = has_unresolved_named element"
| "has_unresolved_named _ = False"

fun normalize_legacy_bool :: "body_type \<Rightarrow> body_type" where
  "normalize_legacy_bool (TNamed name) = (if name = ''bool'' then TBool else TNamed name)"
| "normalize_legacy_bool (TSequence element bound) = TSequence (normalize_legacy_bool element) bound"
| "normalize_legacy_bool (TVector element lanes) = TVector (normalize_legacy_bool element) lanes"
| "normalize_legacy_bool ty = ty"

definition same_type :: "body_type \<Rightarrow> body_type \<Rightarrow> bool" where
  "same_type a b \<longleftrightarrow> normalize_legacy_bool a = normalize_legacy_bool b"

datatype type_relation = Equal | ViewWidening | Incompatible

definition classify_compatibility :: "body_type \<Rightarrow> body_type \<Rightarrow> type_relation" where
  "classify_compatibility actual expected =
     (let a = normalize_legacy_bool actual; e = normalize_legacy_bool expected in
      if a = e then Equal
      else case (a, e) of
        (TSequence actual_element (UpTo source_cap), TSequence expected_element (UpTo target_cap)) \<Rightarrow>
          if actual_element = expected_element \<and> source_cap \<le> target_cap then ViewWidening
          else Incompatible
      | _ \<Rightarrow> Incompatible)"

definition is_compatible_with :: "body_type \<Rightarrow> body_type \<Rightarrow> bool" where
  "is_compatible_with actual expected \<longleftrightarrow> classify_compatibility actual expected \<noteq> Incompatible"

lemma normalize_legacy_bool_idem [simp]:
  "normalize_legacy_bool (normalize_legacy_bool ty) = normalize_legacy_bool ty"
  by (induction ty) auto

lemma is_compatible_with_iff:
  "is_compatible_with a e \<longleftrightarrow>
     normalize_legacy_bool a = normalize_legacy_bool e \<or>
     (\<exists>element m n. normalize_legacy_bool a = TSequence element (UpTo m) \<and>
        normalize_legacy_bool e = TSequence element (UpTo n) \<and> m \<le> n)"
  by (auto simp: is_compatible_with_def classify_compatibility_def Let_def
      split: body_type.splits sequence_bound.splits)

lemma is_compatible_with_refl: "is_compatible_with a a"
  by (simp add: is_compatible_with_iff)

lemma is_compatible_with_trans:
  "is_compatible_with a b \<Longrightarrow> is_compatible_with b c \<Longrightarrow> is_compatible_with a c"
  unfolding is_compatible_with_iff by (elim disjE exE conjE) auto


section \<open>Values\<close>

datatype execution_value =
  VInteger int integer_type
| VFloat nat float_type
| VBoolean bool
| VFinite semantic_id semantic_id nat "(string \<times> execution_value) list"
| VRecord semantic_id string "(string \<times> execution_value) list"
| VByte int
| VSequence "execution_value list"
| VVector "execution_value list"
| VMask "bool list"


section \<open>Fields are bound by name\<close>

datatype field_order_problem = DuplicateField | UnknownField | MissingField

record field_order_error =
  problem :: field_order_problem
  err_field :: string
  err_context :: string
  err_expected :: "string list"
  err_received :: "string list"

text \<open>The first name met a second time, scanning with the set of names seen.\<close>

fun first_duplicate :: "string set \<Rightarrow> string list \<Rightarrow> string option" where
  "first_duplicate seen [] = None"
| "first_duplicate seen (n # ns) =
     (if n \<in> seen then Some n else first_duplicate (insert n seen) ns)"

fun position :: "('a \<Rightarrow> bool) \<Rightarrow> 'a list \<Rightarrow> nat option" where
  "position p [] = None"
| "position p (x # xs) = (if p x then Some 0 else map_option Suc (position p xs))"

text \<open>The source's last loop: the received position of each declared name, or the first name that
  has none.\<close>

fun positions :: "string list \<Rightarrow> string list \<Rightarrow> string + nat list" where
  "positions [] names = Inr []"
| "positions (d # ds) names =
     (case position (\<lambda>n. n = d) names of
        None \<Rightarrow> Inl d
      | Some i \<Rightarrow> (case positions ds names of Inl e \<Rightarrow> Inl e | Inr is \<Rightarrow> Inr (i # is)))"

definition order_fields_by_name ::
  "string \<Rightarrow> string list \<Rightarrow> (string \<times> 'v) list \<Rightarrow> field_order_error + nat list" where
  "order_fields_by_name ctxt declared received =
     (let names = map fst received;
          error = (\<lambda>p f. \<lparr>problem = p, err_field = f, err_context = ctxt,
                          err_expected = declared, err_received = names\<rparr>)
      in case first_duplicate {} names of
           Some n \<Rightarrow> Inl (error DuplicateField n)
         | None \<Rightarrow>
             (case find (\<lambda>n. n \<notin> set declared) names of
                Some n \<Rightarrow> Inl (error UnknownField n)
              | None \<Rightarrow>
                  (case positions declared names of
                     Inl n \<Rightarrow> Inl (error MissingField n)
                   | Inr order \<Rightarrow> Inr order)))"

lemma first_duplicate_None:
  "first_duplicate seen ns = None \<longleftrightarrow> distinct ns \<and> set ns \<inter> seen = {}"
  by (induction ns arbitrary: seen) auto

lemma position_Some:
  "position p xs = Some i \<Longrightarrow> i < length xs \<and> p (xs ! i) \<and> (\<forall>j<i. \<not> p (xs ! j))"
  by (induction xs arbitrary: i) (auto split: if_splits simp: less_Suc_eq_0_disj nth_Cons')

lemma position_None: "position p xs = None \<longleftrightarrow> (\<forall>x\<in>set xs. \<not> p x)"
  by (induction xs) auto

lemma positions_Inr:
  "positions ds names = Inr order \<Longrightarrow>
     length order = length ds \<and> (\<forall>k<length ds. order ! k < length names \<and> names ! (order ! k) = ds ! k)"
proof (induction ds arbitrary: order)
  case (Cons d ds)
  then show ?case
    by (force split: option.splits sum.splits dest: position_Some simp: less_Suc_eq_0_disj)
qed simp

lemma positions_Inl: "positions ds names = Inl d \<Longrightarrow> d \<in> set ds \<and> d \<notin> set names"
  by (induction ds) (auto split: option.splits sum.splits simp: position_None)

lemma positions_total:
  "(\<exists>order. positions ds names = Inr order) \<longleftrightarrow> set ds \<subseteq> set names"
proof (induction ds)
  case (Cons d ds)
  have "(\<exists>i. position (\<lambda>n. n = d) names = Some i) \<longleftrightarrow> d \<in> set names"
    using position_None [of "\<lambda>n. n = d" names] by (cases "position (\<lambda>n. n = d) names") auto
  with Cons.IH show ?case
    by (fastforce split: option.splits sum.splits)
qed simp

text \<open>An accepted order lists, for each declared name, the pair received under that name.\<close>

lemma order_accepted:
  assumes "order_fields_by_name ctxt declared received = Inr order"
  shows "distinct (map fst received)" and "set (map fst received) = set declared"
    and "length order = length declared"
    and "\<And>k. k < length declared \<Longrightarrow>
      order ! k < length received \<and> fst (received ! (order ! k)) = declared ! k"
proof -
  have dup: "first_duplicate {} (map fst received) = None"
    and known: "find (\<lambda>n. n \<notin> set declared) (map fst received) = None"
    and pos: "positions declared (map fst received) = Inr order"
    using assms by (auto simp: order_fields_by_name_def Let_def split: option.splits sum.splits)
  from dup show "distinct (map fst received)" by (simp add: first_duplicate_None)
  have "set declared \<subseteq> set (map fst received)"
    using pos positions_total by blast
  with known show "set (map fst received) = set declared"
    by (auto simp: find_None_iff)
  show "length order = length declared" using positions_Inr [OF pos] by simp
  show "order ! k < length received \<and> fst (received ! (order ! k)) = declared ! k"
    if "k < length declared" for k
    using positions_Inr [OF pos] that by auto
qed

lemma order_accepts:
  assumes "distinct (map fst received)" and "set (map fst received) = set declared"
  shows "\<exists>order. order_fields_by_name ctxt declared received = Inr order"
proof -
  have "first_duplicate {} (map fst received) = None" using assms(1) by (simp add: first_duplicate_None)
  moreover have "find (\<lambda>n. n \<notin> set declared) (map fst received) = None"
    using assms(2) by (auto simp: find_None_iff)
  moreover have "\<exists>order. positions declared (map fst received) = Inr order"
    using assms(2) by (simp add: positions_total)
  ultimately show ?thesis
    by (auto simp: order_fields_by_name_def Let_def)
qed

text \<open>The reason for a rejection: duplicates win over unknown names, those over missing ones.\<close>

lemma order_rejected:
  assumes "order_fields_by_name ctxt declared received = Inl e"
  shows "problem e =
     (if \<not> distinct (map fst received) then DuplicateField
      else if \<not> set (map fst received) \<subseteq> set declared then UnknownField else MissingField)"
proof -
  have "first_duplicate {} (map fst received) = None \<longleftrightarrow> distinct (map fst received)"
    by (simp add: first_duplicate_None)
  moreover have "find (\<lambda>n. n \<notin> set declared) (map fst received) = None \<longleftrightarrow>
      set (map fst received) \<subseteq> set declared"
    by (auto simp: find_None_iff)
  ultimately show ?thesis
    using assms by (auto simp: order_fields_by_name_def Let_def split: option.splits sum.splits)
qed

lemma order_binds_by_name:
  assumes "order_fields_by_name ctxt declared received = Inr order"
  shows "map ((!) received) order = map (\<lambda>d. (d, the (map_of received d))) declared"
proof (rule nth_equalityI)
  note acc = order_accepted [OF assms]
  show "length (map ((!) received) order) = length (map (\<lambda>d. (d, the (map_of received d))) declared)"
    using acc(3) by simp
  fix k assume "k < length (map ((!) received) order)"
  then have k: "k < length order" "k < length declared" using acc(3) by simp_all
  have "received ! (order ! k) \<in> set received" using acc(4) [OF k(2)] by simp
  then have "map_of received (fst (received ! (order ! k))) = Some (snd (received ! (order ! k)))"
    by (intro map_of_is_SomeI acc(1)) simp
  then show "map ((!) received) order ! k = map (\<lambda>d. (d, the (map_of received d))) declared ! k"
    using acc(4) [OF k(2)] k by (metis nth_map option.sel prod.collapse)
qed


section \<open>Properties\<close>

text \<open>The fields of an aggregate value are accepted exactly when their names are the
  declared names, each once; then the \<open>k\<close>-th declared field is bound to the received field of
  that name, and there is only this one order.\<close>

theorem order_fields_by_name_correct:
  "order_fields_by_name ctxt declared received = Inr order \<longleftrightarrow>
     distinct (map fst received) \<and> set (map fst received) = set declared \<and>
     length order = length declared \<and>
     (\<forall>k<length declared. order ! k < length received \<and> fst (received ! (order ! k)) = declared ! k)"
  (is "?l \<longleftrightarrow> ?r")
proof
  assume ?l
  then show ?r using order_accepted by blast
next
  assume r: ?r
  then obtain order' where acc: "order_fields_by_name ctxt declared received = Inr order'"
    using order_accepts by blast
  have "order' = order"
  proof (rule nth_equalityI)
    show "length order' = length order" using r order_accepted(3) [OF acc] by simp
    fix k assume "k < length order'"
    then have k: "k < length declared" using order_accepted(3) [OF acc] by simp
    with r order_accepted(4) [OF acc k]
    have "map fst received ! (order' ! k) = map fst received ! (order ! k)"
      and "order' ! k < length (map fst received)" and "order ! k < length (map fst received)"
      by auto
    with r show "order' ! k = order ! k" using nth_eq_iff_index_eq by blast
  qed
  with acc show ?l by simp
qed

theorem order_fields_by_name_correct_witness:
  "order_fields_by_name ''record'' [''a'', ''b''] [(''b'', 1 :: nat), (''a'', 2)] = Inr [1, 0]"
  using order_fields_by_name_correct [of "''record''" "[''a'', ''b'']" "[(''b'', 1 :: nat), (''a'', 2)]" "[1, 0]"]
  by (auto simp: less_Suc_eq_0_disj)

text \<open>The order in which an external corpus writes the fields carries no meaning: two
  permutations of the same pairs are both rejected for the same reason, or both accepted with
  the same pairs bound to the declared fields.\<close>

theorem field_order_insignificant:
  assumes "mset received = mset received'"
  shows "map_sum problem (map ((!) received)) (order_fields_by_name ctxt declared received) =
    map_sum problem (map ((!) received')) (order_fields_by_name ctxt declared received')"
proof -
  have names: "mset (map fst received) = mset (map fst received')"
    using assms by (metis mset_map)
  then have dist: "distinct (map fst received) = distinct (map fst received')"
    by (rule mset_eq_imp_distinct_iff)
  have sets: "set (map fst received) = set (map fst received')"
    using names by (rule mset_eq_setD)
  have maps: "map_of received = map_of received'" if "distinct (map fst received)"
    using that dist assms by (metis map_of_inject_set mset_eq_setD)
  show ?thesis
  proof (cases "distinct (map fst received) \<and> set (map fst received) = set declared")
    case True
    then obtain o1 o2 where acc: "order_fields_by_name ctxt declared received = Inr o1"
        "order_fields_by_name ctxt declared received' = Inr o2"
      using order_accepts [of received] order_accepts [of received'] dist sets by metis
    then show ?thesis
      using maps True by (simp add: order_binds_by_name)
  next
    case False
    then obtain e1 e2 where rej: "order_fields_by_name ctxt declared received = Inl e1"
        "order_fields_by_name ctxt declared received' = Inl e2"
      using order_accepted(1,2) dist sets by (metis obj_sumE)
    then show ?thesis
      using order_rejected [OF rej(1)] order_rejected [OF rej(2)] dist sets by simp
  qed
qed

theorem field_order_insignificant_witness:
  "map_sum problem (map ((!) [(''b'', True), (''a'', False)]))
      (order_fields_by_name ''r'' [''a'', ''b''] [(''b'', True), (''a'', False)]) =
   map_sum problem (map ((!) [(''a'', False), (''b'', True)]))
      (order_fields_by_name ''r'' [''a'', ''b''] [(''a'', False), (''b'', True)])"
  by (rule field_order_insignificant) simp

end
