(* ===== verification/Exec_Scalar.thy ===== *)
theory Exec_Scalar
  imports Value
begin

text \<open>
  Scalar and vector evaluation shared by the body interpreter and the SSA interpreter, from
  \<open>crates/mncs-model/src/execution.rs\<close>: integer, byte and vector operators, constants and
  scalar conversions.  \<open>None\<close> is the evaluator's \<open>None\<close>, which the interpreters turn into a
  runtime failure or an unsupported status.  Floating point is not modelled.
\<close>

section \<open>Ranges\<close>

definition integer_limits :: "nat \<Rightarrow> bool \<Rightarrow> (int \<times> int) option" where
  "integer_limits bits sgnd =
     (if \<not> (1 \<le> bits \<and> bits \<le> 126) then None
      else if sgnd then (let top = 2 ^ (bits - 1) in Some (- top, top - 1))
      else do { maximum \<leftarrow> checked_sub (2 ^ bits) 1; Some (0, maximum) })"

definition in_range :: "int \<Rightarrow> integer_type \<Rightarrow> bool" where
  "in_range v ty =
     (case integer_limits (ty_bits ty) (ty_signed ty) of
        None \<Rightarrow> False
      | Some (minimum, maximum) \<Rightarrow> minimum \<le> v \<and> v \<le> maximum)"

definition wrap_to_bits :: "int \<Rightarrow> nat \<Rightarrow> bool \<Rightarrow> int option" where
  "wrap_to_bits v bits sgnd =
     (if \<not> (1 \<le> bits \<and> bits \<le> 126) then None
      else
        let modulus = 2 ^ bits; truncated = v mod modulus in
        if sgnd then
          let sgn_bit = 2 ^ (bits - 1) in
          Some (if sgn_bit \<le> truncated then truncated - modulus else truncated)
        else Some truncated)"


section \<open>Bytes\<close>

definition byte_domain :: "int \<Rightarrow> bool" where
  "byte_domain v \<longleftrightarrow> 0 \<le> v \<and> v \<le> 255"

definition compare_order :: "string \<Rightarrow> int \<Rightarrow> int \<Rightarrow> bool option" where
  "compare_order predicate left right =
     (if predicate = ''eq'' then Some (left = right)
      else if predicate = ''ne'' then Some (left \<noteq> right)
      else if predicate = ''lt'' then Some (left < right)
      else if predicate = ''le'' then Some (left \<le> right)
      else if predicate = ''gt'' then Some (right < left)
      else if predicate = ''ge'' then Some (right \<le> left)
      else None)"

definition compare_bytes :: "string \<Rightarrow> int \<Rightarrow> int \<Rightarrow> bool option" where
  "compare_bytes predicate left right =
     (if \<not> byte_domain left \<or> \<not> byte_domain right then None
      else compare_order predicate left right)"

definition evaluate_byte_bitwise :: "string \<Rightarrow> int \<Rightarrow> int \<Rightarrow> int option" where
  "evaluate_byte_bitwise operator left right =
     (if \<not> byte_domain left \<or> \<not> byte_domain right then None
      else if operator = ''and'' then Some (left AND right)
      else if operator = ''or'' then Some (left OR right)
      else if operator = ''xor'' then Some (left XOR right)
      else None)"

definition evaluate_byte_shift :: "string \<Rightarrow> int \<Rightarrow> int \<Rightarrow> int option" where
  "evaluate_byte_shift operator byte amount =
     (if \<not> byte_domain byte \<or> amount < 0 then None
      else
        let c = nat (amount mod 8) in
        if operator = ''shl'' then Some (push_bit c byte AND 255)
        else if operator = ''shr'' then Some (drop_bit c byte)
        else None)"


section \<open>Integers\<close>

definition compare_integers :: "string \<Rightarrow> integer_type \<Rightarrow> int \<Rightarrow> int \<Rightarrow> bool option" where
  "compare_integers predicate ty left right =
     (if \<not> in_range left ty \<or> \<not> in_range right ty then None
      else compare_order predicate left right)"

definition integer_operator_supported :: "string \<Rightarrow> arithmetic_intent \<Rightarrow> bool" where
  "integer_operator_supported operator intent \<longleftrightarrow>
     operator \<in> {''add'', ''sub'', ''mul'', ''div'', ''mod''} \<or>
     (operator \<in> {''and'', ''or'', ''xor'', ''shl'', ''shr''} \<and> intent = Wrapping)"

definition evaluate_bitwise :: "string \<Rightarrow> integer_type \<Rightarrow> int \<Rightarrow> int \<Rightarrow> int option" where
  "evaluate_bitwise operator ty left right =
     do {
       (_, maximum) \<leftarrow> integer_limits (ty_bits ty) False;
       modulus \<leftarrow> checked_add maximum 1;
       let l = left mod modulus;
       let r = right mod modulus;
       v \<leftarrow> (if operator = ''and'' then Some (l AND r)
             else if operator = ''or'' then Some (l OR r)
             else if operator = ''xor'' then Some (l XOR r)
             else None);
       Some (if ty_signed ty \<and> 2 ^ (ty_bits ty - 1) \<le> v then v - modulus else v)
     }"

definition fast_shift :: "string \<Rightarrow> integer_type \<Rightarrow> int \<Rightarrow> int \<Rightarrow> int option" where
  "fast_shift operator ty left right =
     (let bits = ty_bits ty;
          cnt = nat (as_u128 right mod int bits);
          msk = 2 ^ bits - 1;
          unsigned = as_u128 left AND msk;
          shifted =
            (if operator = ''shl'' then as_u128 (push_bit cnt unsigned) AND msk
             else if \<not> ty_signed ty then drop_bit cnt unsigned
             else as_u128 (drop_bit cnt left) AND msk)
      in do { s \<leftarrow> try_from_u128 shifted; wrap_to_bits s bits (ty_signed ty) })"

definition evaluate_wrapping_integer :: "string \<Rightarrow> integer_type \<Rightarrow> int \<Rightarrow> int \<Rightarrow> int option" where
  "evaluate_wrapping_integer operator ty left right =
     (let wrapped = (\<lambda>v. wrap_to_bits v (ty_bits ty) (ty_signed ty)) in
      if operator = ''add'' then wrapped (wrapping_add left right)
      else if operator = ''sub'' then wrapped (wrapping_sub left right)
      else if operator = ''mul'' then wrapped (wrapping_mul left right)
      else if operator = ''div'' then
        (if right \<noteq> 0 then wrapped (wrapping_div left right) else None)
      else if operator = ''mod'' then
        (if right \<noteq> 0 then wrapped (wrapping_rem left right) else None)
      else if operator \<in> {''and'', ''or'', ''xor''} then evaluate_bitwise operator ty left right
      else if operator \<in> {''shl'', ''shr''} \<and> 0 \<le> right then fast_shift operator ty left right
      else None)"

text \<open>\<open>evaluate_integer\<close> calls the reference evaluator only with a valid operand width, where it
  cannot panic.\<close>

definition evaluate_integer ::
  "string \<Rightarrow> integer_type \<Rightarrow> arithmetic_intent \<Rightarrow> int \<Rightarrow> int \<Rightarrow> int option" where
  "evaluate_integer operator ty intent left right =
     (if \<not> in_range left ty \<or> \<not> in_range right ty \<or> \<not> (1 \<le> ty_bits ty \<and> ty_bits ty \<le> 126) then None
      else if \<not> integer_operator_supported operator intent then None
      else if intent = Wrapping then evaluate_wrapping_integer operator ty left right
      else if operator \<in> {''and'', ''or'', ''xor''} then evaluate_bitwise operator ty left right
      else
        let result_bits = intended_bits intent ty in
        if arithmetic_result_type operator ty intent \<noteq>
             Some \<lparr>ty_bits = result_bits, ty_signed = ty_signed ty\<rparr> then None
        else if \<not> (1 \<le> result_bits \<and> result_bits \<le> 126) then None
        else evaluate_value operator ty intent left right)"


section \<open>Vectors\<close>

fun integer_lane :: "integer_type \<Rightarrow> execution_value \<Rightarrow> int option" where
  "integer_lane ty (VInteger v lane_ty) = (if lane_ty = ty then Some v else None)"
| "integer_lane ty _ = None"

text \<open>\<open>collect\<close> into an \<open>Option\<close>: the first failing lane fails the whole.\<close>

fun collect_options :: "'a option list \<Rightarrow> 'a list option" where
  "collect_options [] = Some []"
| "collect_options (x # xs) =
     (case x of None \<Rightarrow> None | Some v \<Rightarrow> map_option ((#) v) (collect_options xs))"

definition vector_lane ::
  "string \<Rightarrow> integer_type \<Rightarrow> arithmetic_intent \<Rightarrow> execution_value \<Rightarrow> execution_value \<Rightarrow> execution_value option" where
  "vector_lane operator ty intent left right =
     do {
       l \<leftarrow> integer_lane ty left;
       r \<leftarrow> integer_lane ty right;
       v \<leftarrow> (if operator = ''min'' then Some (min l r)
             else if operator = ''max'' then Some (max l r)
             else evaluate_integer operator ty intent l r);
       Some (VInteger v ty)
     }"

definition evaluate_vector_binary ::
  "string \<Rightarrow> body_type \<Rightarrow> arithmetic_intent \<Rightarrow> execution_value list \<Rightarrow> execution_value list \<Rightarrow>
   execution_value list option" where
  "evaluate_vector_binary operator element_type intent left right =
     (case element_type of
        TInteger ty \<Rightarrow>
          collect_options (map (\<lambda>(l, r). vector_lane operator ty intent l r) (zip left right))
      | _ \<Rightarrow> None)"

definition evaluate_vector_compare ::
  "string \<Rightarrow> body_type \<Rightarrow> execution_value list \<Rightarrow> execution_value list \<Rightarrow> bool list option" where
  "evaluate_vector_compare predicate element_type left right =
     (case element_type of
        TInteger ty \<Rightarrow>
          collect_options (map (\<lambda>(l, r).
            do { lv \<leftarrow> integer_lane ty l; rv \<leftarrow> integer_lane ty r; compare_integers predicate ty lv rv })
            (zip left right))
      | _ \<Rightarrow> None)"

definition reduce_step ::
  "string \<Rightarrow> integer_type \<Rightarrow> arithmetic_intent \<Rightarrow> int \<Rightarrow> int \<Rightarrow> int option" where
  "reduce_step operator ty intent reduced v =
     (if operator = ''min'' then Some (min reduced v)
      else if operator = ''max'' then Some (max reduced v)
      else if operator = ''sum'' then evaluate_integer ''add'' ty intent reduced v
      else None)"

fun reduce_lanes ::
  "string \<Rightarrow> integer_type \<Rightarrow> arithmetic_intent \<Rightarrow> int \<Rightarrow> execution_value list \<Rightarrow> int option" where
  "reduce_lanes operator ty intent reduced [] = Some reduced"
| "reduce_lanes operator ty intent reduced (lane # lanes) =
     do {
       v \<leftarrow> integer_lane ty lane;
       stepped \<leftarrow> reduce_step operator ty intent reduced v;
       reduce_lanes operator ty intent stepped lanes
     }"

definition evaluate_vector_reduce ::
  "string \<Rightarrow> body_type \<Rightarrow> arithmetic_intent \<Rightarrow> execution_value list \<Rightarrow> execution_value option" where
  "evaluate_vector_reduce operator element_type intent lanes =
     (case element_type of
        TInteger ty \<Rightarrow>
          (case lanes of
             [] \<Rightarrow> None
           | lane # rest \<Rightarrow>
               do {
                 first \<leftarrow> integer_lane ty lane;
                 reduced \<leftarrow> reduce_lanes operator ty intent first rest;
                 Some (VInteger reduced ty)
               })
      | _ \<Rightarrow> None)"


section \<open>Constants and conversions\<close>

definition constant_value :: "int \<Rightarrow> body_type \<Rightarrow> execution_value option" where
  "constant_value v ty =
     (case ty of
        TInteger integer \<Rightarrow>
          if ty_bits integer = 1 \<and> \<not> ty_signed integer \<and> v \<in> {0, 1} then Some (VBoolean (v = 1))
          else if in_range v integer then Some (VInteger v integer)
          else None
      | TBool \<Rightarrow> if v \<in> {0, 1} then Some (VBoolean (v = 1)) else None
      | TNamed name \<Rightarrow> if name = ''bool'' \<and> v \<in> {0, 1} then Some (VBoolean (v = 1)) else None
      | TByte \<Rightarrow> if byte_domain v then Some (VByte v) else None
      | _ \<Rightarrow> None)"

definition convert_scalar_inner ::
  "execution_value \<Rightarrow> body_type \<Rightarrow> body_type \<Rightarrow> execution_value option" where
  "convert_scalar_inner operand_value source target =
     (let to_integer = (\<lambda>v t. map_option (\<lambda>w. VInteger w t) (wrap_to_bits v (ty_bits t) (ty_signed t)))
      in case (operand_value, source, target) of
        (VInteger v _, TInteger _, TInteger t) \<Rightarrow> to_integer v t
      | (VInteger v _, TInteger _, TByte) \<Rightarrow> map_option VByte (wrap_to_bits v 8 False)
      | (VByte v, TByte, TInteger t) \<Rightarrow> to_integer v t
      | (VByte v, TByte, TByte) \<Rightarrow> Some (VByte v)
      | (VBoolean b, TBool, TInteger t) \<Rightarrow> to_integer (of_bool b) t
      | (VBoolean b, TNamed name, TInteger t) \<Rightarrow>
          if name = ''bool'' then to_integer (of_bool b) t else None
      | (VBoolean b, TBool, TByte) \<Rightarrow> Some (VByte (of_bool b))
      | (VBoolean b, TNamed name, TByte) \<Rightarrow>
          if name = ''bool'' then Some (VByte (of_bool b)) else None
      | _ \<Rightarrow> None)"


section \<open>Facts\<close>

lemma checked_sub_exp: "valid_bits b \<Longrightarrow> checked_sub (2 ^ b) 1 = Some (2 ^ b - 1)"
  using fits_in_i128 [of b False "2 ^ b - 1"]
  by (simp add: checked_sub_def checked_i128_def fits_def)

text \<open>The interpreter's copy of the range table is the model's.\<close>

lemma integer_limits_eq: "integer_limits b s = limits b s"
  using checked_sub_exp [of b]
  by (auto simp: integer_limits_def limits_def valid_bits_def Let_def)

lemma wrap_to_bits_eq: "wrap_to_bits v b s = wrap v b s"
  by (auto simp: wrap_to_bits_def wrap_def limits_def Let_def)

lemma evaluate_bitwise_eq: "evaluate_bitwise = bitwise"
  by (intro ext) (simp add: evaluate_bitwise_def bitwise_def integer_limits_eq)

lemma in_range_iff: "in_range v ty \<longleftrightarrow> valid_bits (ty_bits ty) \<and> fits_type ty v"
proof (cases "limits (ty_bits ty) (ty_signed ty)")
  case None
  then show ?thesis
    using limits_None_iff [of "ty_bits ty" "ty_signed ty"] by (simp add: in_range_def integer_limits_eq)
next
  case (Some lim)
  then obtain lo hi where "limits (ty_bits ty) (ty_signed ty) = Some (lo, hi)" by (cases lim) auto
  then show ?thesis
    by (auto simp: in_range_def integer_limits_eq limits_fits dest: limits_SomeD)
qed

lemma collect_options_Some:
  "collect_options xs = Some ys \<longleftrightarrow> xs = map Some ys"
  by (induction xs arbitrary: ys) (auto split: option.splits)

lemma fast_shift_exact:
  assumes valid: "valid_bits (ty_bits ty)" and "fits_type ty l" "fits_type ty r" "0 \<le> r"
    and op: "operator \<in> {''shl'', ''shr''}"
  shows "fast_shift operator ty l r =
    map_option (reduce (ty_bits ty) (ty_signed ty)) (exact_result operator (ty_bits ty) l r)"
proof -
  define b c where "b = ty_bits ty" and "c = nat (r mod int b)"
  have b: "1 \<le> b" "b \<le> 126" "b \<le> 128" using valid by (simp_all add: valid_bits_def b_def)
  have count: "nat (as_u128 r mod int b) = c"
    using shift_count [OF b(1) assms(4) fits_in_i128 [OF valid assms(3)]] by (simp add: c_def)
  have msk: "v AND (2 ^ b - 1) = v mod 2 ^ b" for v :: int
    by (simp flip: mask_eq_exp_minus_1 take_bit_eq_mask take_bit_eq_mod)
  have un: "as_u128 l AND (2 ^ b - 1) = l mod 2 ^ b"
    using b by (simp add: msk as_u128_mod)
  have tryf: "try_from_u128 (v mod 2 ^ b) = Some (v mod 2 ^ b)" for v
  proof -
    have "v mod 2 ^ b < 2 ^ b" by simp
    also have "\<dots> \<le> (2::int) ^ 126" by (rule power_increasing) (use b in auto)
    finally show ?thesis by (simp add: try_from_u128_def i128_max_def)
  qed
  have wrapped: "wrap_to_bits (v mod 2 ^ b) b s = Some (reduce b s v)" for v s
    using valid by (simp add: wrap_to_bits_eq wrap_valid b_def) (rule reduce_cong, simp)
  show ?thesis
  proof (cases "operator = ''shl''")
    case True
    have "as_u128 (push_bit c (l mod 2 ^ b)) AND (2 ^ b - 1) = (l * 2 ^ c) mod 2 ^ b"
      using b by (simp add: msk as_u128_mod push_bit_eq_mult mod_mult_left_eq)
    with True show ?thesis
      using assms(4) by (simp add: fast_shift_def Let_def count un tryf wrapped exact_result_def
          flip: b_def c_def del: push_bit_and drop_bit_and)
  next
    case False
    with op have shr: "operator = ''shr''" by simp
    have *: "drop_bit c (l mod 2 ^ b) = (l div 2 ^ c) mod 2 ^ b" if "\<not> ty_signed ty"
    proof -
      have l: "0 \<le> l" "l < 2 ^ b" using that assms(2) by (simp_all add: fits_def b_def)
      then have "0 \<le> l div 2 ^ c" "l div 2 ^ c < 2 ^ b"
        using zdiv_mono2 [of l 1 "2 ^ c"] by (simp_all add: pos_imp_zdiv_nonneg_iff)
      with l show ?thesis by (simp add: drop_bit_eq_div)
    qed
    have **: "as_u128 (drop_bit c l) AND (2 ^ b - 1) = (l div 2 ^ c) mod 2 ^ b"
      using b by (simp add: msk as_u128_mod drop_bit_eq_div)
    show ?thesis
      using assms(4) * **
      by (cases "ty_signed ty")
         (simp_all add: shr fast_shift_def Let_def count un tryf wrapped exact_result_def
           flip: b_def c_def del: push_bit_and drop_bit_and)
  qed
qed

lemma fast_wrapping_exact:
  assumes valid: "valid_bits (ty_bits ty)" and l: "fits_type ty l" and r: "fits_type ty r"
  shows "evaluate_wrapping_integer operator ty l r =
    map_option (reduce (ty_bits ty) (ty_signed ty)) (exact_result operator (ty_bits ty) l r)"
proof -
  have wrapped: "wrap_to_bits (wrapping_i128 v) (ty_bits ty) (ty_signed ty) =
      Some (reduce (ty_bits ty) (ty_signed ty) v)" for v
    using valid by (simp add: wrap_to_bits_eq wrap_wrapping_i128)
  show ?thesis
  proof (cases rule: operator_cases [of operator "{''add'', ''sub'', ''mul''}" _ "{''div'', ''mod''}"
        "{''and'', ''or'', ''xor''}" "{''shl'', ''shr''}" "0 \<le> r"])
    case ring
    then show ?thesis
      by (auto simp: evaluate_wrapping_integer_def exact_result_def wrapped wrapping_add_def
          wrapping_sub_def wrapping_mul_def)
  next
    case division
    then show ?thesis
      by (auto simp: evaluate_wrapping_integer_def exact_result_def wrapped wrapping_div_def
          wrapping_rem_def)
  next
    case bits
    then have "evaluate_wrapping_integer operator ty l r = bitwise operator ty l r"
      by (auto simp: evaluate_wrapping_integer_def evaluate_bitwise_eq)
    with bitwise_exact [OF valid bits] show ?thesis by simp
  next
    case shift
    then have "evaluate_wrapping_integer operator ty l r = fast_shift operator ty l r"
      by (auto simp: evaluate_wrapping_integer_def)
    with fast_shift_exact [OF valid l r shift(2,1)] show ?thesis by simp
  next
    case noshift
    then show ?thesis
      by (auto simp: evaluate_wrapping_integer_def exact_result_def)
  next
    case none
    then show ?thesis
      by (simp add: evaluate_wrapping_integer_def exact_result_def)
  qed
qed

interpretation fast_int: modular_evaluator evaluate_wrapping_integer "\<lambda>_ _ _ _. True"
  by unfold_locales (rule fast_wrapping_exact)

interpretation wrapping_pair:
  evaluator_pair evaluate_wrapping_integer "\<lambda>operator ty. evaluate_value operator ty Wrapping"
    "\<lambda>_ _ _ _. True" reference_dom
  by unfold_locales


section \<open>The fast path and the reference\<close>



lemma raw_shl_value:
  assumes "valid_bits b" and "0 \<le> r" and "in_i128 r"
  shows "raw_shift ''shl'' \<lparr>ty_bits = b, ty_signed = s\<rparr> l r =
     Some (reduce b s (if (l mod 2 ^ b * 2 ^ nat (r mod int b)) mod 2 ^ 128 < 2 ^ 127
                       then l * 2 ^ nat (r mod int b) else - 1))"
proof -
  define c u where "c = nat (r mod int b)" and "u = as_u128 (push_bit c (l mod 2 ^ b))"
  have b: "1 \<le> b" "b \<le> 127" "b \<le> 128" using assms(1) by (simp_all add: valid_bits_def)
  have count: "nat (as_u128 r mod int b) = c"
    using shift_count [OF b(1) assms(2,3)] by (simp add: c_def)
  have u: "u = (l mod 2 ^ b * 2 ^ c) mod 2 ^ 128"
    by (simp add: u_def as_u128_def push_bit_eq_mult)
  have small: "u \<le> i128_max \<longleftrightarrow> u < 2 ^ 127"
    by (simp only: i128_max_def zle_diff1_eq)
  have "u mod 2 ^ b = (l * 2 ^ c) mod 2 ^ b"
    using b by (simp add: u_def as_u128_mod push_bit_eq_mult mod_mult_left_eq)
  moreover have "i128_max mod 2 ^ b = (- 1) mod 2 ^ b"
  proof -
    have "(2::int) ^ b dvd 2 ^ 127" using b(2) by (rule le_imp_power_dvd)
    then show ?thesis by (simp only: i128_max_def mod_eq_dvd_iff) simp
  qed
  ultimately have "reduce b s (if u \<le> i128_max then u else i128_max) =
      reduce b s (if u \<le> i128_max then l * 2 ^ c else - 1)"
    by (auto intro: reduce_cong)
  then show ?thesis
    unfolding c_def [symmetric] u [symmetric] small [symmetric]
    using b assms(1)
    by (simp add: raw_shift_def Let_def count unsigned_domain_valid wrap_valid try_from_u128_def
        flip: u_def del: push_bit_and)
       (simp split: if_splits)
qed

text \<open>What the reference evaluator makes of every wrapping left shift: the reduced exact
  result as long as the shifted digits, cut to 128 bits, stay below \<open>2^127\<close>, and otherwise the
  all-ones value of the type, whatever the operand.  The fast path returns the reduced exact result in
  both cases, so the two differ on types of more than 64 bits.\<close>

theorem reference_shift_left:
  assumes "valid_bits (ty_bits ty)" "fits_type ty l" "fits_type ty r" "0 \<le> r"
  shows "evaluate_value ''shl'' ty Wrapping l r = Some (reduce (ty_bits ty) (ty_signed ty)
      (if (l mod 2 ^ ty_bits ty * 2 ^ nat (r mod int (ty_bits ty))) mod 2 ^ 128 < 2 ^ 127
       then l * 2 ^ nat (r mod int (ty_bits ty)) else - 1)) \<and>
    evaluate_wrapping_integer ''shl'' ty l r =
      Some (reduce (ty_bits ty) (ty_signed ty) (l * 2 ^ nat (r mod int (ty_bits ty))))"
proof -
  have i128: "in_i128 r" by (rule fits_in_i128 [OF assms(1,3)])
  obtain b s where ty: "ty = \<lparr>ty_bits = b, ty_signed = s\<rparr>" by (cases ty) auto
  have "raw_result (oper_of ''shl'' ty Wrapping l r) = map_option Some (raw_shift ''shl'' ty l r)"
    using assms(4) by (simp add: raw_result_def)
  with raw_shl_value [of b r s l] assms i128
  have ref: "evaluate_value ''shl'' ty Wrapping l r = Some (reduce b s
      (if (l mod 2 ^ b * 2 ^ nat (r mod int b)) mod 2 ^ 128 < 2 ^ 127
       then l * 2 ^ nat (r mod int b) else - 1))"
    using reference_wrapping_cases [OF assms(1), of "''shl''" l r]
    by (simp add: ty wrapping_value_def split del: if_split)
  show ?thesis
    using ref assms fast_int.eval_exact [OF assms(1-3), of "''shl''"]
    by (simp add: ty exact_result_def cong: if_cong split del: if_split)
qed

theorem reference_shift_left_witness:
  "evaluate_value ''shl'' \<lparr>ty_bits = 126, ty_signed = False\<rparr> Wrapping 7 125 = Some (2 ^ 126 - 1) \<and>
   evaluate_wrapping_integer ''shl'' \<lparr>ty_bits = 126, ty_signed = False\<rparr> 7 125 = Some (2 ^ 125)"
  using reference_shift_left [of "\<lparr>ty_bits = 126, ty_signed = False\<rparr>" 7 125]
  by (simp add: valid_bits_def fits_def reduce_def)


section \<open>What the interpreters compute\<close>

lemma evaluate_integer_SomeD:
  assumes "evaluate_integer operator ty intent l r = Some v"
  shows "valid_bits (ty_bits ty)" "fits_type ty l" "fits_type ty r"
    and "integer_operator_supported operator intent"
    and "arithmetic_result_type operator ty intent = Some (case intent of
           Widening n \<Rightarrow> \<lparr>ty_bits = n, ty_signed = ty_signed ty\<rparr> | _ \<Rightarrow> ty)"
    and "v \<in> set_option (if intent = Wrapping then evaluate_wrapping_integer operator ty l r
                        else evaluate_value operator ty intent l r)"
proof -
  have g: "in_range l ty" "in_range r ty" "integer_operator_supported operator intent"
    using assms by (auto simp: evaluate_integer_def split: if_splits)
  then show v: "valid_bits (ty_bits ty)" "fits_type ty l" "fits_type ty r"
    "integer_operator_supported operator intent"
    by (simp_all add: in_range_iff)
  have bw: "operator \<notin> {''and'', ''or'', ''xor''}" if "intent \<noteq> Wrapping"
    using g(3) that by (auto simp: integer_operator_supported_def)
  show "v \<in> set_option (if intent = Wrapping then evaluate_wrapping_integer operator ty l r
                        else evaluate_value operator ty intent l r)"
    using assms g v bw
    by (cases "intent = Wrapping") (auto simp: evaluate_integer_def Let_def split: if_splits)
  show "arithmetic_result_type operator ty intent = Some (case intent of
           Widening n \<Rightarrow> \<lparr>ty_bits = n, ty_signed = ty_signed ty\<rparr> | _ \<Rightarrow> ty)"
  proof (cases "intent = Wrapping")
    case True
    with v(1) show ?thesis by (simp add: arithmetic_result_type_def valid_bits_def)
  next
    case False
    then show ?thesis
      using assms g v bw
      by (cases intent)
         (auto simp: evaluate_integer_def Let_def intended_bits_def split: if_splits)
  qed
qed

lemma saturation_bound_between:
  "lo \<le> hi \<Longrightarrow> lo \<le> saturation_bound operator l r lo hi \<and> saturation_bound operator l r lo hi \<le> hi"
  by (simp add: saturation_bound_def)

lemma evaluate_integer_exact:
  assumes "evaluate_integer operator ty intent l r = Some v"
  shows "\<exists>rt. arithmetic_result_type operator ty intent = Some rt \<and> in_range v rt \<and>
    (intent = Wrapping \<longrightarrow> (\<exists>x. exact_result operator (ty_bits ty) l r = Some x \<and>
        v = reduce (ty_bits ty) (ty_signed ty) x)) \<and>
    (intent \<notin> {Wrapping, Saturating} \<longrightarrow> exact_result operator (ty_bits ty) l r = Some v)"
proof -
  note d = evaluate_integer_SomeD [OF assms]
  show ?thesis
  proof (cases "intent = Wrapping")
    case True
    then have e: "map_option (reduce (ty_bits ty) (ty_signed ty)) (exact_result operator (ty_bits ty) l r) = Some v"
      using d(6) fast_int.eval_exact [OF d(1-3), of operator] by simp
    have "fits_type ty v" if "v = reduce (ty_bits ty) (ty_signed ty) x" for x
      using d(1) that by (auto simp: valid_bits_def intro: reduce_fits)
    with e show ?thesis
      using d(1,5) True by (auto simp: in_range_iff)
  next
    case False
    then have arith: "operator \<in> arithmetic_operators" and ev: "evaluate_value operator ty intent l r = Some v"
      using d(4,6) by (auto simp: integer_operator_supported_def)
    define rt where "rt = (case intent of
      Widening n \<Rightarrow> \<lparr>ty_bits = n, ty_signed = ty_signed ty\<rparr> | _ \<Rightarrow> ty)"
    have rt: "arithmetic_result_type operator ty intent = Some rt"
      using d(5) by (simp add: rt_def)
    have rb: "ty_bits rt = intended_bits intent ty" "ty_signed rt = ty_signed ty"
      by (cases intent; simp add: rt_def)+
    have vb: "valid_bits (ty_bits rt)"
      using rt d(1) result_type_widening(3) [of operator ty "ty_bits rt" rt]
      by (cases intent) (auto simp: rt_def)
    obtain lo hi where lim: "limits (intended_bits intent ty) (ty_signed ty) = Some (lo, hi)"
      using limits_validE [OF vb, of "ty_signed ty"] rb by metis
    obtain e :: integer_evaluation where e: "ev_value e = Some v"
      "ev_overflow e \<longleftrightarrow> \<not> (\<exists>x. exact_result operator (ty_bits ty) l r = Some x \<and> fits_type rt x)"
      "intent \<noteq> Saturating \<Longrightarrow>
         ev_value e = (if ev_overflow e then None else exact_result operator (ty_bits ty) l r)"
      "intent = Saturating \<Longrightarrow> lo \<le> v \<and> v \<le> hi"
    proof -
      obtain e where e: "evaluate (oper_of operator ty intent l r) = Some e"
        "ev_overflow e \<longleftrightarrow> \<not> (\<exists>x. exact_result operator (ty_bits ty) l r = Some x \<and>
            fits (intended_bits intent ty) (ty_signed ty) x)"
        "intent \<noteq> Saturating \<longrightarrow>
           ev_value e = (if ev_overflow e then None else exact_result operator (ty_bits ty) l r)"
        "intent = Saturating \<longrightarrow>
           ev_value e = Some (case Option.bind (exact_result operator (ty_bits ty) l r) checked_i128 of
             Some v \<Rightarrow> max lo (min hi v) | None \<Rightarrow> saturation_bound operator l r lo hi)"
        using evaluate_arithmetic [OF arith d(1,2) lim False, of r] by blast
      moreover have "ev_value e = Some v" using ev e(1) by (simp add: evaluate_value_def)
      moreover have "intent = Saturating \<Longrightarrow> lo \<le> v \<and> v \<le> hi"
        using e(4) \<open>ev_value e = Some v\<close> limits_ordered [OF lim]
          saturation_bound_between [OF limits_ordered [OF lim], of operator l r]
        by (auto split: option.splits)
      ultimately show thesis using that [of e] by (simp add: rb)
    qed
    have "in_range v rt"
    proof (cases "intent = Saturating")
      case True
      then show ?thesis using e(4) lim vb by (simp add: in_range_iff limits_fits rb)
    next
      case False
      then show ?thesis using e vb by (auto simp: in_range_iff split: if_splits)
    qed
    moreover have "exact_result operator (ty_bits ty) l r = Some v" if "intent \<noteq> Saturating"
      using e(1) e(3) [OF that] by (simp split: if_splits)
    ultimately show ?thesis using rt False by auto
  qed
qed

text \<open>Property C25.  Whatever the operator string, the intent and the operands, an integer operation of
  the interpreters that returns a value returns one in the range of the type the static rule gives
  the operation; under the checked, trapping and widening intents the value is the exact result, and
  under the wrapping intent the exact result reduced to the type.\<close>

theorem evaluate_integer_sound:
  assumes "evaluate_integer operator ty intent l r = Some v"
  shows "\<exists>rt. arithmetic_result_type operator ty intent = Some rt \<and> in_range v rt \<and>
    (intent = Wrapping \<longrightarrow> (\<exists>x. exact_result operator (ty_bits ty) l r = Some x \<and>
        v = reduce (ty_bits ty) (ty_signed ty) x)) \<and>
    (intent \<notin> {Wrapping, Saturating} \<longrightarrow> exact_result operator (ty_bits ty) l r = Some v)"
  by (rule evaluate_integer_exact [OF assms])

theorem evaluate_integer_sound_witness:
  "evaluate_integer ''mul'' \<lparr>ty_bits = 8, ty_signed = True\<rparr> (Widening 16) (- 128) 127 = Some (- 16256) \<and>
   in_range (- 16256) \<lparr>ty_bits = 16, ty_signed = True\<rparr>"
proof -
  have e: "evaluate_integer ''mul'' \<lparr>ty_bits = 8, ty_signed = True\<rparr> (Widening 16) (- 128) 127 = Some (- 16256)"
    by (simp add: evaluate_integer_def in_range_iff valid_bits_def fits_def integer_operator_supported_def
        arithmetic_result_type_def minimum_widening_bits_def evaluate_value_def evaluate_def raw_result_def
        apply_intent_def limits_def outside_def i128_defs)
  have "\<exists>rt. arithmetic_result_type ''mul'' \<lparr>ty_bits = 8, ty_signed = True\<rparr> (Widening 16) = Some rt \<and>
      in_range (- 16256) rt"
    using evaluate_integer_sound [OF e] by blast
  with e show ?thesis
    by (simp add: arithmetic_result_type_def minimum_widening_bits_def)
qed


subsection \<open>Bytes are 8-bit words\<close>

lemma byte_domain_word [simp]: "byte_domain (uint (a :: 8 word))"
  using uint_lt2p [of a] by (simp add: byte_domain_def)

text \<open>The byte operators are the operators of the 8-bit word: bitwise and, or and xor,
  shifts by the count taken modulo 8 (a left shift drops the digits that leave the byte), and the
  unsigned comparisons.  In particular no byte operator leaves \<open>0..=255\<close>.\<close>

theorem byte_operators_are_words:
  fixes a b :: "8 word"
  shows "evaluate_byte_bitwise ''and'' (uint a) (uint b) = Some (uint (a AND b)) \<and>
    evaluate_byte_bitwise ''or'' (uint a) (uint b) = Some (uint (a OR b)) \<and>
    evaluate_byte_bitwise ''xor'' (uint a) (uint b) = Some (uint (a XOR b)) \<and>
    evaluate_byte_shift ''shl'' (uint a) (int n) = Some (uint (push_bit (n mod 8) a)) \<and>
    evaluate_byte_shift ''shr'' (uint a) (int n) = Some (uint (drop_bit (n mod 8) a)) \<and>
    compare_bytes ''lt'' (uint a) (uint b) = Some (a < b) \<and>
    compare_bytes ''le'' (uint a) (uint b) = Some (a \<le> b) \<and>
    compare_bytes ''eq'' (uint a) (uint b) = Some (a = b)"
proof -
  have c: "nat (int n mod 8) = n mod 8" by (simp add: nat_mod_distrib)
  have "push_bit c v AND 255 = take_bit 8 (push_bit c v)" for c and v :: int
    by (simp add: take_bit_eq_mask mask_eq_exp_minus_1)
  moreover have "take_bit 8 (uint a) = uint a"
    using uint_lt2p [of a] by (simp add: take_bit_int_eq_self_iff)
  ultimately show ?thesis
    by (simp add: evaluate_byte_bitwise_def evaluate_byte_shift_def compare_bytes_def compare_order_def
        Let_def c uint_and uint_or uint_xor word_less_def word_le_def unsigned_push_bit_eq
        unsigned_drop_bit_eq word_uint_eq_iff)
qed


subsection \<open>Conversions\<close>

text \<open>Integer conversion is reduction to the target: it always succeeds for a target width
  in \<open>1..=126\<close>, the result is in the target's range and congruent to the source modulo the target's
  size; converting in two steps through a type at least as wide as the final target is converting
  directly, and converting a value to a wider type and back gives the value.\<close>

theorem convert_scalar_reduces:
  assumes "valid_bits (ty_bits t)"
  shows "\<exists>w. convert_scalar_inner (VInteger v s) (TInteger s) (TInteger t) = Some (VInteger w t) \<and>
     in_range w t \<and> w mod 2 ^ ty_bits t = v mod 2 ^ ty_bits t \<and>
     (\<forall>u. ty_bits u \<le> ty_bits t \<longrightarrow>
        convert_scalar_inner (VInteger w t) (TInteger t) (TInteger u) =
        convert_scalar_inner (VInteger v s) (TInteger s) (TInteger u)) \<and>
     (in_range v s \<and> ty_bits s \<le> ty_bits t \<longrightarrow>
        convert_scalar_inner (VInteger w t) (TInteger t) (TInteger s) = Some (VInteger v s))"
proof -
  define w where "w = reduce (ty_bits t) (ty_signed t) v"
  have w: "wrap_to_bits v (ty_bits t) (ty_signed t) = Some w"
    using assms by (simp add: w_def wrap_to_bits_eq wrap_valid)
  have wmod: "w mod 2 ^ b = v mod 2 ^ b" if "b \<le> ty_bits t" for b
  proof -
    have "w mod 2 ^ ty_bits t mod 2 ^ b = v mod 2 ^ ty_bits t mod 2 ^ b"
      by (simp only: w_def reduce_mod)
    then show ?thesis
      using le_imp_power_dvd [OF that, of "2 :: int"] by (simp add: mod_mod_cancel)
  qed
  have narrow: "wrap_to_bits w b sg = wrap_to_bits v b sg" if "b \<le> ty_bits t" for b sg
    using reduce_cong [OF wmod [OF that]]
    by (cases "valid_bits b") (simp_all add: wrap_to_bits_eq wrap_valid wrap_None_iff [THEN iffD2])
  have returns: "wrap_to_bits v (ty_bits s) (ty_signed s) = Some v" if "in_range v s"
    using that by (simp add: in_range_iff wrap_to_bits_eq wrap_valid reduce_id valid_bits_def)
  have "in_range w t"
    using assms by (simp add: in_range_iff w_def reduce_fits valid_bits_def)
  then show ?thesis
    using w narrow returns by (auto simp: convert_scalar_inner_def wmod)
qed

theorem convert_scalar_reduces_witness:
  "convert_scalar_inner (VInteger 200 \<lparr>ty_bits = 8, ty_signed = False\<rparr>)
     (TInteger \<lparr>ty_bits = 8, ty_signed = False\<rparr>) (TInteger \<lparr>ty_bits = 16, ty_signed = True\<rparr>)
   = Some (VInteger 200 \<lparr>ty_bits = 16, ty_signed = True\<rparr>)"
  using convert_scalar_reduces [of "\<lparr>ty_bits = 16, ty_signed = True\<rparr>" 200 "\<lparr>ty_bits = 8, ty_signed = False\<rparr>"]
  by (auto simp: valid_bits_def convert_scalar_inner_def wrap_to_bits_def)


subsection \<open>Vector reductions\<close>

abbreviation integer_lanes :: "integer_type \<Rightarrow> int list \<Rightarrow> execution_value list" where
  "integer_lanes ty \<equiv> map (\<lambda>v. VInteger v ty)"

lemma reduce_wrapping_step:
  assumes "in_range l ty" "in_range r ty"
  shows "reduce_step ''sum'' ty Wrapping l r = Some (reduce (ty_bits ty) (ty_signed ty) (l + r))"
  using assms fast_int.eval_exact [of ty l r "''add''"]
  by (auto simp: reduce_step_def evaluate_integer_def in_range_iff integer_operator_supported_def
      exact_result_def valid_bits_def)

lemma reduce_add_reduce: "reduce b s (reduce b s l + r) = reduce b s (l + r)"
  by (rule reduce_cong) (metis mod_add_left_eq reduce_mod)

lemma in_range_reduce:
  "valid_bits (ty_bits ty) \<Longrightarrow> in_range (reduce (ty_bits ty) (ty_signed ty) v) ty"
  by (simp add: in_range_iff reduce_fits valid_bits_def)

lemma reduce_lanes_sum:
  assumes "valid_bits (ty_bits ty)" and "\<forall>v\<in>set vs. in_range v ty"
  shows "reduce_lanes ''sum'' ty Wrapping (reduce (ty_bits ty) (ty_signed ty) a) (integer_lanes ty vs) =
    Some (reduce (ty_bits ty) (ty_signed ty) (a + sum_list vs))"
  using assms
proof (induction vs arbitrary: a)
  case (Cons v vs)
  then show ?case
    using Cons.IH [of "a + v"]
    by (simp add: reduce_wrapping_step in_range_reduce reduce_add_reduce add.assoc)
qed simp

lemma reduce_lanes_min: "reduce_lanes ''min'' ty i a (integer_lanes ty vs) = Some (fold min vs a)"
  by (induction vs arbitrary: a) (simp_all add: reduce_step_def min.commute)

lemma reduce_lanes_max: "reduce_lanes ''max'' ty i a (integer_lanes ty vs) = Some (fold max vs a)"
  by (induction vs arbitrary: a) (simp_all add: reduce_step_def max.commute)

text \<open>Property C39.  Reducing a non-empty integer vector whose lanes are in range: the wrapping sum is the
  exact sum of the lanes reduced once at the end, and min and max are the least and the greatest
  lane.  So a reduction does not depend on the order of the lanes.\<close>

theorem vector_reduce_exact:
  assumes "valid_bits (ty_bits ty)" and "vs \<noteq> []" and "\<forall>v\<in>set vs. in_range v ty"
  shows "evaluate_vector_reduce ''sum'' (TInteger ty) Wrapping (integer_lanes ty vs) =
      Some (VInteger (reduce (ty_bits ty) (ty_signed ty) (sum_list vs)) ty) \<and>
    evaluate_vector_reduce ''min'' (TInteger ty) Wrapping (integer_lanes ty vs) =
      Some (VInteger (Min (set vs)) ty) \<and>
    evaluate_vector_reduce ''max'' (TInteger ty) Wrapping (integer_lanes ty vs) =
      Some (VInteger (Max (set vs)) ty)"
proof -
  obtain w ws where vs: "vs = w # ws" using assms(2) by (cases vs) auto
  have "reduce (ty_bits ty) (ty_signed ty) w = w"
    using assms by (simp add: vs in_range_iff reduce_id valid_bits_def)
  then have "reduce_lanes ''sum'' ty Wrapping w (integer_lanes ty ws) =
      Some (reduce (ty_bits ty) (ty_signed ty) (w + sum_list ws))"
    using reduce_lanes_sum [OF assms(1), of ws w] assms(3) by (simp add: vs)
  then show ?thesis
    by (simp add: vs evaluate_vector_reduce_def reduce_lanes_min reduce_lanes_max
        flip: Min.set_eq_fold Max.set_eq_fold)
qed

theorem vector_reduce_exact_witness:
  "evaluate_vector_reduce ''sum'' (TInteger \<lparr>ty_bits = 8, ty_signed = True\<rparr>) Wrapping
     (integer_lanes \<lparr>ty_bits = 8, ty_signed = True\<rparr> [100, 100, - 56]) =
   Some (VInteger (- 112) \<lparr>ty_bits = 8, ty_signed = True\<rparr>)"
  using vector_reduce_exact [of "\<lparr>ty_bits = 8, ty_signed = True\<rparr>" "[100, 100, - 56]"]
  by (simp add: valid_bits_def in_range_iff fits_def reduce_def Let_def)

end
