(* ===== verification/Proof_Kernel.thy ===== *)
theory Proof_Kernel
  imports Prelude
begin

text \<open>
  The reference checker of proof artifacts, from \<open>crates/mncs-model/src/proof_kernel.rs\<close>: one
  forward pass over a buffer of cells fills tables (\<open>advance_reference\<close>, one definition per
  cell tag here), then \<open>reference_check\<close> compares the proof's row with the proposition's.

  The fixed arrays \<open>args: [i64; 4]\<close>, \<open>rr: [Vec<i64>; 4]\<close> and \<open>tt: [Vec<i64>; 3]\<close> are unrolled
  into fields.  \<open>None\<close> is a panic: a table index out of range or an \<open>i64\<close> overflow.  Each arm
  of the match is a function that computes its row; \<open>advance_reference\<close> stores and settles it.
\<close>

section \<open>Tags, cells and verdicts\<close>

datatype proof_tag =
  Universe | Var | Pi | Lambda | Apply | Nat | Zero | Succ | Plus | NatElim | Eq | Refl | Unsupported

fun tag_code :: "proof_tag \<Rightarrow> int" where
  "tag_code Universe = 1"
| "tag_code Var = 2"
| "tag_code Pi = 3"
| "tag_code Lambda = 4"
| "tag_code Apply = 5"
| "tag_code Nat = 6"
| "tag_code Zero = 7"
| "tag_code Succ = 8"
| "tag_code Plus = 9"
| "tag_code NatElim = 10"
| "tag_code Eq = 11"
| "tag_code Refl = 12"
| "tag_code Unsupported = 0"

definition tag_from_name :: "string \<Rightarrow> proof_tag option" where
  "tag_from_name name = map_of
     [(''Universe'', Universe), (''Var'', Var), (''Pi'', Pi), (''Lambda'', Lambda),
      (''Apply'', Apply), (''Nat'', Nat), (''Zero'', Zero), (''Succ'', Succ), (''Plus'', Plus),
      (''NatElim'', NatElim), (''Eq'', Eq), (''Refl'', Refl), (''Unsupported'', Unsupported)] name"

definition is_binder :: "proof_tag \<Rightarrow> bool" where
  "is_binder tag \<longleftrightarrow> tag = Pi \<or> tag = Lambda"

record proof_cell =
  cell_tag :: proof_tag
  arg0 :: int
  arg1 :: int
  arg2 :: int
  arg3 :: int

datatype proof_verdict = Pass | Fail | Unknown

fun dominate :: "proof_verdict \<Rightarrow> proof_verdict \<Rightarrow> proof_verdict" where
  "dominate Fail _ = Fail"
| "dominate _ Fail = Fail"
| "dominate Unknown _ = Unknown"
| "dominate _ Unknown = Unknown"
| "dominate Pass Pass = Pass"

fun verdict_code :: "proof_verdict \<Rightarrow> int" where
  "verdict_code Pass = 0"
| "verdict_code Fail = 1"
| "verdict_code Unknown = 2"

fun verdict_rank :: "proof_verdict \<Rightarrow> nat" where
  "verdict_rank Pass = 0"
| "verdict_rank Unknown = 1"
| "verdict_rank Fail = 2"

lemma verdict_rank_dominate: "verdict_rank (dominate a b) = max (verdict_rank a) (verdict_rank b)"
  by (cases a; cases b) simp_all

interpretation verdict: verdict_lattice dominate verdict_rank Pass
proof unfold_locales
  show "verdict_rank a = verdict_rank b \<Longrightarrow> a = b" for a b
    by (cases a; cases b) simp_all
qed (simp_all add: verdict_rank_dominate)

lemma dominate_Pass_iff [verdict_simps]: "dominate a b = Pass \<longleftrightarrow> a = Pass \<and> b = Pass"
  by (cases a; cases b) simp_all

text \<open>The verdicts ordered from best to worst.\<close>

instantiation proof_verdict :: linorder
begin

definition less_eq_proof_verdict :: "proof_verdict \<Rightarrow> proof_verdict \<Rightarrow> bool" where
  "less_eq_proof_verdict a b \<longleftrightarrow> verdict_rank a \<le> verdict_rank b"

definition less_proof_verdict :: "proof_verdict \<Rightarrow> proof_verdict \<Rightarrow> bool" where
  "less_proof_verdict a b \<longleftrightarrow> verdict_rank a < verdict_rank b"

instance
proof
  show "a \<le> b \<Longrightarrow> b \<le> a \<Longrightarrow> a = b" for a b :: proof_verdict
    by (simp add: less_eq_proof_verdict_def verdict.rank_inject)
qed (auto simp: less_eq_proof_verdict_def less_proof_verdict_def)

end

lemma dominate_max: "dominate a b = max a b"
  by (rule verdict.rank_inject) (simp add: max_def less_eq_proof_verdict_def verdict_rank_dominate)


section \<open>The tables\<close>

record reference_tables =
  rtag :: "int list"
  rr0 :: "int list"
  rr1 :: "int list"
  rr2 :: "int list"
  rr3 :: "int list"
  rep :: "int list"
  tt0 :: "int list"
  tt1 :: "int list"
  tt2 :: "int list"
  nval :: "int list"
  mentions :: "int list"
  status :: proof_verdict

definition read :: "int list \<Rightarrow> int \<Rightarrow> bool \<Rightarrow> int \<Rightarrow> int option" where
  "read table raw ok fallback =
     (if ok then (if 0 \<le> raw \<and> nat raw < length table then Some (table ! nat raw) else None)
      else Some fallback)"

definition fresh :: "nat \<Rightarrow> reference_tables" where
  "fresh width =
     (let zeros = replicate width 0 in
      \<lparr>rtag = zeros, rr0 = zeros, rr1 = zeros, rr2 = zeros, rr3 = zeros, rep = zeros,
       tt0 = zeros, tt1 = zeros, tt2 = zeros, nval = replicate width (- 1), mentions = zeros,
       status = Pass\<rparr>)"

text \<open>What one arm of the pass writes.\<close>

record reference_row =
  row_tag :: int
  row_r0 :: int
  row_r1 :: int
  row_r2 :: int
  row_r3 :: int
  row_rep :: int
  row_nval :: int
  row_mentions :: int
  row_t0 :: int
  row_t1 :: int
  row_t2 :: int
  row_local :: proof_verdict

definition store_row :: "reference_tables \<Rightarrow> nat \<Rightarrow> reference_row \<Rightarrow> reference_tables option" where
  "store_row t index row =
     (if index < length (rtag t) \<and> index < length (rr0 t) \<and> index < length (rr1 t) \<and>
         index < length (rr2 t) \<and> index < length (rr3 t) \<and> index < length (rep t) \<and>
         index < length (nval t) \<and> index < length (mentions t)
      then Some (t\<lparr>rtag := (rtag t)[index := row_tag row], rr0 := (rr0 t)[index := row_r0 row],
              rr1 := (rr1 t)[index := row_r1 row], rr2 := (rr2 t)[index := row_r2 row],
              rr3 := (rr3 t)[index := row_r3 row], rep := (rep t)[index := row_rep row],
              nval := (nval t)[index := row_nval row],
              mentions := (mentions t)[index := row_mentions row]\<rparr>)
      else None)"

definition settle_row :: "reference_tables \<Rightarrow> nat \<Rightarrow> reference_row \<Rightarrow> reference_tables option" where
  "settle_row t index row =
     (if index < length (tt0 t) \<and> index < length (tt1 t) \<and> index < length (tt2 t)
      then Some (t\<lparr>tt0 := (tt0 t)[index := row_t0 row], tt1 := (tt1 t)[index := row_t1 row],
              tt2 := (tt2 t)[index := row_t2 row], status := dominate (status t) (row_local row)\<rparr>)
      else None)"

definition valid_child :: "int \<Rightarrow> nat \<Rightarrow> nat \<Rightarrow> nat option" where
  "valid_child raw parent cnt =
     (if 0 \<le> raw \<and> nat raw < parent \<and> nat raw < cnt then Some (nat raw) else None)"

definition is_child :: "int \<Rightarrow> nat \<Rightarrow> nat \<Rightarrow> bool" where
  "is_child raw parent cnt \<longleftrightarrow> valid_child raw parent cnt \<noteq> None"

type_synonym descriptor = "int \<times> int \<times> int"

definition denote :: "int \<Rightarrow> int \<Rightarrow> int \<Rightarrow> descriptor" where
  "denote tag first second =
     (if tag = 6 then (2, 0, 0)
      else if tag = 1 then (1, first, 0)
      else if tag = 3 then (3, first, second)
      else if tag = 11 then (4, first, 0)
      else (0, 0, 0))"

text \<open>The reads the rules repeat: the denotation of a row, its type descriptor, and the addition of
  two \<open>i64\<close>, which panics on overflow.\<close>

definition read_denote :: "reference_tables \<Rightarrow> int \<Rightarrow> bool \<Rightarrow> descriptor option" where
  "read_denote t raw ok = do {
     tag \<leftarrow> read (rtag t) raw ok 0;
     first \<leftarrow> read (rr0 t) raw ok 0;
     second \<leftarrow> read (rr1 t) raw ok 0;
     Some (denote tag first second) }"

definition read_type :: "reference_tables \<Rightarrow> int \<Rightarrow> bool \<Rightarrow> descriptor option" where
  "read_type t raw ok = do {
     a \<leftarrow> read (tt0 t) raw ok 0;
     b \<leftarrow> read (tt1 t) raw ok 0;
     c \<leftarrow> read (tt2 t) raw ok 0;
     Some (a, b, c) }"

definition add_i64 :: "int \<Rightarrow> int \<Rightarrow> int option" where
  "add_i64 a b = (if - (2 ^ 63) \<le> a + b \<and> a + b < 2 ^ 63 then Some (a + b) else None)"

definition read_mentioned :: "reference_tables \<Rightarrow> int \<Rightarrow> bool \<Rightarrow> int \<Rightarrow> bool \<Rightarrow> int option" where
  "read_mentioned t a ok_a b ok_b = do {
     ma \<leftarrow> read (mentions t) a ok_a 0;
     mb \<leftarrow> read (mentions t) b ok_b 0;
     s \<leftarrow> add_i64 ma mb;
     Some (of_bool (0 < s)) }"

definition make_row ::
  "int \<Rightarrow> int list \<Rightarrow> int \<Rightarrow> int \<Rightarrow> int \<Rightarrow> descriptor \<Rightarrow> proof_verdict \<Rightarrow> reference_row" where
  "make_row tag r rp value mentioned triple local =
     \<lparr>row_tag = tag, row_r0 = r ! 0, row_r1 = r ! 1, row_r2 = r ! 2, row_r3 = r ! 3,
      row_rep = rp, row_nval = value, row_mentions = mentioned,
      row_t0 = fst triple, row_t1 = fst (snd triple), row_t2 = snd (snd triple),
      row_local = local\<rparr>"


section \<open>The arms of the forward pass\<close>

definition verdict_if :: "bool \<Rightarrow> proof_verdict" where
  "verdict_if ok = (if ok then Pass else Fail)"

definition rule_universe :: "reference_tables \<Rightarrow> proof_cell \<Rightarrow> nat \<Rightarrow> nat \<Rightarrow> reference_row option" where
  "rule_universe t cell cnt index =
     (let level = arg0 cell;
          in_range = (0 \<le> level \<and> level \<le> 3);
          has_type = (in_range \<and> level < 3)
      in Some (make_row 1 [level, 0, 0, 0] (int index) (- 1) 0
           (if has_type then (1, level + 1, 0) else (0, 0, 0)) (verdict_if (in_range \<and> has_type))))"

definition rule_nat :: "reference_tables \<Rightarrow> proof_cell \<Rightarrow> nat \<Rightarrow> nat \<Rightarrow> reference_row option" where
  "rule_nat t cell cnt index = Some (make_row 6 [0, 0, 0, 0] (int index) (- 1) 0 (1, 0, 0) Pass)"

definition rule_zero :: "reference_tables \<Rightarrow> proof_cell \<Rightarrow> nat \<Rightarrow> nat \<Rightarrow> reference_row option" where
  "rule_zero t cell cnt index = Some (make_row 7 [0, 0, 0, 0] (int index) 0 0 (2, 0, 0) Pass)"

definition rule_var :: "reference_tables \<Rightarrow> proof_cell \<Rightarrow> nat \<Rightarrow> nat \<Rightarrow> reference_row option" where
  "rule_var t cell cnt index =
     (let ok = is_child (arg0 cell) index cnt;
          target = (if ok then arg0 cell else 0)
      in do {
        binder \<leftarrow> read (rtag t) target ok 0;
        let bound = (binder = 3 \<or> binder = 4);
        domain \<leftarrow> read (rr0 t) target (ok \<and> bound) 0;
        let found = (ok \<and> bound);
        denoted \<leftarrow> read_denote t domain found;
        let usable = (fst denoted \<noteq> 0);
        Some (make_row 2 [if ok then target else 0, 0, 0, 0] (int index) (- 1) 1
          (if found \<and> usable then denoted else (0, 0, 0)) (verdict_if (ok \<and> bound \<and> usable)))
      })"

definition rule_pi :: "reference_tables \<Rightarrow> proof_cell \<Rightarrow> nat \<Rightarrow> nat \<Rightarrow> reference_row option" where
  "rule_pi t cell cnt index =
     (let ok_domain = is_child (arg0 cell) index cnt;
          ok_codomain = is_child (arg1 cell) index cnt
      in do {
        domain_kind \<leftarrow> read (tt0 t) (arg0 cell) ok_domain 0;
        domain_level \<leftarrow> read (tt1 t) (arg0 cell) ok_domain 0;
        codomain_kind \<leftarrow> read (tt0 t) (arg1 cell) ok_codomain 0;
        codomain_level \<leftarrow> read (tt1 t) (arg1 cell) ok_codomain 0;
        let well_typed = (ok_domain \<and> ok_codomain \<and> domain_kind = 1 \<and> codomain_kind = 1);
        let joined = max domain_level codomain_level;
        let local = verdict_if (well_typed \<and> joined \<le> 3);
        domain_rep \<leftarrow> read (rep t) (arg0 cell) ok_domain (int index);
        codomain_rep \<leftarrow> read (rep t) (arg1 cell) ok_codomain (int index);
        mentioned \<leftarrow> read_mentioned t (arg0 cell) ok_domain (arg1 cell) ok_codomain;
        Some (make_row 3 [domain_rep, codomain_rep, 0, 0] (int index) (- 1) mentioned
          (if local = Pass then (1, joined, 0) else (0, 0, 0)) local)
      })"

definition rule_lambda :: "reference_tables \<Rightarrow> proof_cell \<Rightarrow> nat \<Rightarrow> nat \<Rightarrow> reference_row option" where
  "rule_lambda t cell cnt index =
     (let ok_domain = is_child (arg0 cell) index cnt;
          ok_body = is_child (arg1 cell) index cnt;
          ok_claim = is_child (arg2 cell) index cnt
      in do {
        domain_kind \<leftarrow> read (tt0 t) (arg0 cell) ok_domain 0;
        let domain_is_type = (domain_kind = 1);
        claim_tag \<leftarrow> read (rtag t) (arg2 cell) ok_claim 0;
        let claim_is_pi = (claim_tag = 3);
        claim_domain \<leftarrow> read (rr0 t) (arg2 cell) (ok_claim \<and> claim_is_pi) 0;
        claim_codomain \<leftarrow> read (rr1 t) (arg2 cell) (ok_claim \<and> claim_is_pi) 0;
        domain_rep \<leftarrow> read (rep t) (arg0 cell) ok_domain (int index);
        actual \<leftarrow> read_type t (arg1 cell) ok_body;
        let settled_claim = (ok_claim \<and> claim_is_pi);
        claimed \<leftarrow> read_denote t claim_codomain settled_claim;
        let refs_ok = (ok_domain \<and> ok_body \<and> ok_claim);
        let local = verdict_if (refs_ok \<and> domain_is_type \<and> claim_is_pi \<and>
                      claim_domain = domain_rep \<and> actual = claimed);
        body_rep \<leftarrow> read (rep t) (arg1 cell) ok_body (int index);
        mentioned \<leftarrow> read (mentions t) (arg1 cell) ok_body 0;
        Some (make_row 4 [domain_rep, body_rep, 0, 0] (int index) (- 1) mentioned
          (if local = Pass then (3, claim_domain, claim_codomain) else (0, 0, 0)) local)
      })"

definition rule_apply :: "reference_tables \<Rightarrow> proof_cell \<Rightarrow> nat \<Rightarrow> nat \<Rightarrow> reference_row option" where
  "rule_apply t cell cnt index =
     (let ok_fun = is_child (arg0 cell) index cnt;
          ok_arg = is_child (arg1 cell) index cnt
      in do {
        fun_kind \<leftarrow> read (tt0 t) (arg0 cell) ok_fun 0;
        domain \<leftarrow> read (tt1 t) (arg0 cell) ok_fun 0;
        codomain \<leftarrow> read (tt2 t) (arg0 cell) ok_fun 0;
        let is_pi = (fun_kind = 3);
        let usable = (ok_fun \<and> is_pi);
        required \<leftarrow> read_denote t domain usable;
        actual \<leftarrow> read_type t (arg1 cell) ok_arg;
        let applicable = (ok_fun \<and> ok_arg \<and> is_pi \<and> actual = required);
        codomain_mentions \<leftarrow> read (mentions t) codomain usable 0;
        let dependent = (0 < codomain_mentions);
        let local = (if \<not> applicable then Fail else if dependent then Unknown else Pass);
        produced \<leftarrow> read_denote t codomain usable;
        fun_rep \<leftarrow> read (rep t) (arg0 cell) ok_fun (int index);
        arg_rep \<leftarrow> read (rep t) (arg1 cell) ok_arg (int index);
        mentioned \<leftarrow> read_mentioned t (arg0 cell) ok_fun (arg1 cell) ok_arg;
        Some (make_row 5 [fun_rep, arg_rep, 0, 0] (int index) (- 1) mentioned
          (if local = Pass then produced else (0, 0, 0)) local)
      })"

definition rule_succ :: "reference_tables \<Rightarrow> proof_cell \<Rightarrow> nat \<Rightarrow> nat \<Rightarrow> reference_row option" where
  "rule_succ t cell cnt index =
     (let ok = is_child (arg0 cell) index cnt
      in do {
        kind \<leftarrow> read (tt0 t) (arg0 cell) ok 0;
        let is_nat = (kind = 2);
        let local = verdict_if (ok \<and> is_nat);
        pred_rep \<leftarrow> read (rep t) (arg0 cell) ok (int index);
        pred_value \<leftarrow> read (nval t) (arg0 cell) ok (- 1);
        v \<leftarrow> (if ok \<and> is_nat \<and> 0 \<le> pred_value then add_i64 pred_value 1 else Some (- 1));
        mentioned \<leftarrow> read (mentions t) (arg0 cell) ok 0;
        Some (make_row 8 [pred_rep, 0, 0, 0] (int index) v mentioned
          (if local = Pass then (2, 0, 0) else (0, 0, 0)) local)
      })"

definition rule_plus :: "reference_tables \<Rightarrow> proof_cell \<Rightarrow> nat \<Rightarrow> nat \<Rightarrow> reference_row option" where
  "rule_plus t cell cnt index =
     (let ok_left = is_child (arg0 cell) index cnt;
          ok_right = is_child (arg1 cell) index cnt
      in do {
        left_kind \<leftarrow> read (tt0 t) (arg0 cell) ok_left 0;
        right_kind \<leftarrow> (if left_kind = 2 then read (tt0 t) (arg1 cell) ok_right 0 else Some 0);
        let both_nat = (left_kind = 2 \<and> right_kind = 2);
        let local = verdict_if (ok_left \<and> ok_right \<and> both_nat);
        left_value \<leftarrow> read (nval t) (arg0 cell) ok_left (- 1);
        right_value \<leftarrow> read (nval t) (arg1 cell) ok_right (- 1);
        v \<leftarrow> (if ok_left \<and> ok_right \<and> both_nat \<and> 0 \<le> left_value \<and> 0 \<le> right_value
              then add_i64 left_value right_value else Some (- 1));
        left_rep \<leftarrow> read (rep t) (arg0 cell) ok_left (int index);
        right_rep \<leftarrow> read (rep t) (arg1 cell) ok_right (int index);
        mentioned \<leftarrow> read_mentioned t (arg0 cell) ok_left (arg1 cell) ok_right;
        Some (make_row 9 [left_rep, right_rep, 0, 0] (int index) v mentioned
          (if local = Pass then (2, 0, 0) else (0, 0, 0)) local)
      })"

definition rule_nat_elim :: "reference_tables \<Rightarrow> proof_cell \<Rightarrow> nat \<Rightarrow> nat \<Rightarrow> reference_row option" where
  "rule_nat_elim t cell cnt index =
     (let ok_motive = is_child (arg0 cell) index cnt;
          ok_zero = is_child (arg1 cell) index cnt;
          ok_succ = is_child (arg2 cell) index cnt;
          ok_target = is_child (arg3 cell) index cnt
      in do {
        motive_kind \<leftarrow> read (tt0 t) (arg0 cell) ok_motive 0;
        let motive_ok = (ok_motive \<and> motive_kind = 3);
        motive_domain \<leftarrow> read (tt1 t) (arg0 cell) motive_ok 0;
        motive_codomain \<leftarrow> read (tt2 t) (arg0 cell) motive_ok 0;
        domain_denotation \<leftarrow> read_denote t motive_domain motive_ok;
        cod_denotation \<leftarrow> read_denote t motive_codomain motive_ok;
        let motive_well_formed = (motive_ok \<and> fst domain_denotation = 2 \<and> fst cod_denotation = 1);
        codomain_mentions \<leftarrow> read (mentions t) motive_codomain motive_well_formed 0;
        let dependent = (0 < codomain_mentions);
        zero_actual \<leftarrow> read_type t (arg1 cell) ok_zero;
        succ_kind \<leftarrow> read (tt0 t) (arg2 cell) ok_succ 0;
        let succ_is_pi = (succ_kind = 3);
        succ_domain \<leftarrow> read (tt1 t) (arg2 cell) ok_succ 0;
        succ_codomain \<leftarrow> read (tt2 t) (arg2 cell) ok_succ 0;
        succ_domain_denotation \<leftarrow> read_denote t succ_domain (ok_succ \<and> succ_is_pi);
        succ_cod_denotation \<leftarrow> read_denote t succ_codomain (ok_succ \<and> succ_is_pi);
        target_kind \<leftarrow> read (tt0 t) (arg3 cell) ok_target 0;
        let target_is_nat = (target_kind = 2);
        let refs_ok = (ok_motive \<and> ok_zero \<and> ok_succ \<and> ok_target);
        let branches_ok = (motive_well_formed \<and> zero_actual = cod_denotation \<and> succ_is_pi \<and>
              fst succ_domain_denotation = 2 \<and> succ_cod_denotation = cod_denotation \<and> target_is_nat);
        target_value \<leftarrow> read (nval t) (arg3 cell) ok_target (- 1);
        let local = (if \<not> refs_ok \<or> \<not> motive_well_formed \<or> \<not> branches_ok then Fail
              else if dependent \<or> target_value \<noteq> 0 then Unknown else Pass);
        let settled = (local = Pass);
        let pick = (\<lambda>primary fallback. if settled then primary else (fallback :: int));
        motive_rep \<leftarrow> read (rep t) (arg0 cell) ok_motive (int index);
        zero_rep \<leftarrow> read (rep t) (arg1 cell) ok_zero (int index);
        succ_rep \<leftarrow> read (rep t) (arg2 cell) ok_succ (int index);
        target_rep \<leftarrow> read (rep t) (arg3 cell) ok_target (int index);
        zero_value \<leftarrow> read (nval t) (arg1 cell) ok_zero (- 1);
        zero_mentions \<leftarrow> read (mentions t) (arg1 cell) ok_zero 0;
        Some (make_row 10
          [pick zero_rep motive_rep, pick 0 zero_rep, pick 0 succ_rep, pick 0 target_rep]
          (pick zero_rep (int index)) (pick zero_value (- 1)) (pick zero_mentions 0)
          (if settled then zero_actual else (0, 0, 0)) local)
      })"

definition rule_eq :: "reference_tables \<Rightarrow> proof_cell \<Rightarrow> nat \<Rightarrow> nat \<Rightarrow> reference_row option" where
  "rule_eq t cell cnt index =
     (let ok_carrier = is_child (arg0 cell) index cnt;
          ok_left = is_child (arg1 cell) index cnt;
          ok_right = is_child (arg2 cell) index cnt
      in do {
        carrier_kind \<leftarrow> read (tt0 t) (arg0 cell) ok_carrier 0;
        let carrier_is_type = (carrier_kind = 1);
        carrier_level \<leftarrow> read (tt1 t) (arg0 cell) ok_carrier 0;
        carrier_rep \<leftarrow> read (rep t) (arg0 cell) ok_carrier (int index);
        required \<leftarrow> read_denote t carrier_rep ok_carrier;
        left_actual \<leftarrow> read_type t (arg1 cell) ok_left;
        right_actual \<leftarrow> read_type t (arg2 cell) ok_right;
        let refs_ok = (ok_carrier \<and> ok_left \<and> ok_right);
        let local = verdict_if (refs_ok \<and> carrier_is_type \<and> left_actual = required \<and>
                      right_actual = required);
        left_rep \<leftarrow> read (rep t) (arg1 cell) ok_left (int index);
        right_rep \<leftarrow> read (rep t) (arg2 cell) ok_right (int index);
        mentioned \<leftarrow> read_mentioned t (arg1 cell) ok_left (arg2 cell) ok_right;
        Some (make_row 11 [carrier_rep, left_rep, right_rep, 0] (int index) (- 1) mentioned
          (if local = Pass then (1, carrier_level, 0) else (0, 0, 0)) local)
      })"

definition rule_refl :: "reference_tables \<Rightarrow> proof_cell \<Rightarrow> nat \<Rightarrow> nat \<Rightarrow> reference_row option" where
  "rule_refl t cell cnt index =
     (let ok_witness = is_child (arg0 cell) index cnt;
          ok_claim = is_child (arg1 cell) index cnt
      in do {
        claim_tag \<leftarrow> read (rtag t) (arg1 cell) ok_claim 0;
        let local = verdict_if (ok_witness \<and> ok_claim \<and> claim_tag = 11);
        witness_rep \<leftarrow> read (rep t) (arg0 cell) ok_witness (int index);
        claim_rep \<leftarrow> read (rep t) (arg1 cell) ok_claim (int index);
        mentioned \<leftarrow> read_mentioned t (arg0 cell) ok_witness (arg1 cell) ok_claim;
        Some (make_row 12 [witness_rep, claim_rep, 0, 0] (int index) (- 1) mentioned (0, 0, 0) local)
      })"

definition rule_unsupported :: "reference_tables \<Rightarrow> proof_cell \<Rightarrow> nat \<Rightarrow> nat \<Rightarrow> reference_row option" where
  "rule_unsupported t cell cnt index =
     Some (make_row 0 [0, 0, 0, 0] (int index) (- 1) 0 (0, 0, 0) Unknown)"

fun reference_rule ::
  "proof_tag \<Rightarrow> reference_tables \<Rightarrow> proof_cell \<Rightarrow> nat \<Rightarrow> nat \<Rightarrow> reference_row option" where
  "reference_rule Universe = rule_universe"
| "reference_rule Nat = rule_nat"
| "reference_rule Zero = rule_zero"
| "reference_rule Var = rule_var"
| "reference_rule Pi = rule_pi"
| "reference_rule Lambda = rule_lambda"
| "reference_rule Apply = rule_apply"
| "reference_rule Succ = rule_succ"
| "reference_rule Plus = rule_plus"
| "reference_rule NatElim = rule_nat_elim"
| "reference_rule Eq = rule_eq"
| "reference_rule Refl = rule_refl"
| "reference_rule Unsupported = rule_unsupported"

definition advance_reference ::
  "reference_tables \<Rightarrow> proof_cell list \<Rightarrow> nat \<Rightarrow> nat \<Rightarrow> reference_tables option" where
  "advance_reference t cells cnt index =
     (if index < length cells then do {
        row \<leftarrow> reference_rule (cell_tag (cells ! index)) t (cells ! index) cnt index;
        stored \<leftarrow> store_row t index row;
        settle_row stored index row }
      else None)"

section \<open>Artifacts and the check\<close>

record proof_artifact =
  schema_version :: string
  artifact_identity :: semantic_id
  kernel :: string
  obligation :: semantic_id
  assumptions :: "semantic_id list"
  dependencies :: "semantic_id list"
  cells :: "proof_cell list"
  cell_count :: nat
  proof_index :: nat
  proposition_index :: nat

fun run_reference ::
  "reference_tables \<Rightarrow> proof_cell list \<Rightarrow> nat \<Rightarrow> nat list \<Rightarrow> reference_tables option" where
  "run_reference t cs cnt [] = Some t"
| "run_reference t cs cnt (index # rest) =
     do { advanced \<leftarrow> advance_reference t cs cnt index; run_reference advanced cs cnt rest }"

definition at :: "int list \<Rightarrow> nat \<Rightarrow> int option" where
  "at table i = (if i < length table then Some (table ! i) else None)"

definition as_usize :: "int \<Rightarrow> nat" where
  "as_usize v = nat (v mod 2 ^ 64)"

definition at_if :: "bool \<Rightarrow> int list \<Rightarrow> nat \<Rightarrow> nat option" where
  "at_if ok table i = (if ok then map_option as_usize (at table i) else Some 0)"

definition denote_at :: "reference_tables \<Rightarrow> nat \<Rightarrow> descriptor option" where
  "denote_at t i = do { tag \<leftarrow> at (rtag t) i; a \<leftarrow> at (rr0 t) i; b \<leftarrow> at (rr1 t) i; Some (denote tag a b) }"

definition type_at :: "reference_tables \<Rightarrow> nat \<Rightarrow> descriptor option" where
  "type_at t i = do { a \<leftarrow> at (tt0 t) i; b \<leftarrow> at (tt1 t) i; c \<leftarrow> at (tt2 t) i; Some (a, b, c) }"

text \<open>Definitional equality of a side of the equation and the witness.\<close>

definition side_matches :: "reference_tables \<Rightarrow> bool \<Rightarrow> nat \<Rightarrow> nat \<Rightarrow> bool option" where
  "side_matches t sides_defined witness side =
     (if \<not> sides_defined then Some False
      else do {
        rep_side \<leftarrow> at (rep t) side;
        rep_witness \<leftarrow> at (rep t) witness;
        if rep_side = rep_witness then Some True
        else do {
          v_side \<leftarrow> at (nval t) side;
          v_witness \<leftarrow> at (nval t) witness;
          Some (0 \<le> v_side \<and> 0 \<le> v_witness \<and> v_side = v_witness) } })"

text \<open>Whether a reflexivity proof at representative \<open>proof_rep\<close> proves the proposition at
  \<open>prop_rep\<close>.\<close>

definition refl_claim :: "reference_tables \<Rightarrow> nat \<Rightarrow> bool \<Rightarrow> nat \<Rightarrow> nat \<Rightarrow> bool option" where
  "refl_claim t cnt is_refl proof_rep prop_rep = do {
     witness \<leftarrow> map_option as_usize (at (rr0 t) proof_rep);
     equation \<leftarrow> map_option as_usize (at (rr1 t) proof_rep);
     let in_equation = (is_refl \<and> equation < cnt \<and> witness < cnt);
     eq_carrier \<leftarrow> at_if in_equation (rr0 t) equation;
     eq_left \<leftarrow> at_if in_equation (rr1 t) equation;
     eq_right \<leftarrow> at_if in_equation (rr2 t) equation;
     let sides_defined = (in_equation \<and> eq_carrier < cnt \<and> eq_left < cnt \<and> eq_right < cnt);
     witness_desc \<leftarrow> (if in_equation then type_at t witness else Some (0, 0, 0));
     carrier_denotation \<leftarrow> (if sides_defined then denote_at t eq_carrier else Some (0, 0, 0));
     left_matches \<leftarrow> side_matches t sides_defined witness eq_left;
     right_matches \<leftarrow> side_matches t sides_defined witness eq_right;
     Some (in_equation \<and> sides_defined \<and> equation = prop_rep \<and> left_matches \<and> right_matches \<and>
           witness_desc = carrier_denotation) }"

definition settle_claim :: "reference_tables \<Rightarrow> nat \<Rightarrow> nat \<Rightarrow> nat \<Rightarrow> proof_verdict option" where
  "settle_claim t cnt prf proposition =
     (let indices_ok = (prf < cnt \<and> proposition < cnt);
          last = max cnt 1 - 1
      in do {
        prop_rep \<leftarrow> at_if (proposition < cnt) (rep t) proposition;
        prop_denotation \<leftarrow> denote_at t prop_rep;
        let prop_is_type = (fst prop_denotation \<noteq> 0 \<and> indices_ok);
        proof_desc \<leftarrow> type_at t (min prf last);
        proof_rep \<leftarrow> at_if (prf < cnt) (rep t) prf;
        proof_tag \<leftarrow> at (rtag t) proof_rep;
        let is_refl = (proof_tag = 12 \<and> indices_ok);
        refl_holds \<leftarrow> refl_claim t cnt is_refl proof_rep prop_rep;
        let claim_holds = (if is_refl then refl_holds
                           else indices_ok \<and> proof_desc = prop_denotation);
        proof_mentions \<leftarrow> (if indices_ok then at (mentions t) prf else Some 0);
        let verdict = (if \<not> indices_ok \<or> \<not> prop_is_type \<or> \<not> claim_holds
                       then dominate (status t) Fail else status t);
        Some (if indices_ok \<and> 0 < proof_mentions then dominate verdict Unknown else verdict)
      })"

definition reference_check :: "proof_artifact \<Rightarrow> proof_verdict option" where
  "reference_check artifact =
     (if 16 < length (cells artifact) then Some Fail
      else if length (cells artifact) < cell_count artifact then Some Fail
      else do {
        t \<leftarrow> run_reference (fresh (max (cell_count artifact) 1)) (cells artifact)
               (cell_count artifact) [0..<cell_count artifact];
        settle_claim t (cell_count artifact) (proof_index artifact) (proposition_index artifact) })"

definition mk_cell :: "proof_tag \<Rightarrow> int list \<Rightarrow> proof_cell" where
  "mk_cell tag args = \<lparr>cell_tag = tag, arg0 = args ! 0, arg1 = args ! 1, arg2 = args ! 2, arg3 = args ! 3\<rparr>"

section \<open>The pass cannot panic\<close>

text \<open>\<open>holds P m\<close>: the computation \<open>m\<close> returns, and its result satisfies \<open>P\<close>.  One rule per kind of
  read discharges the index check from the invariant of the rows already written and hands the
  value read to the rest of the computation.\<close>

definition holds :: "('a \<Rightarrow> bool) \<Rightarrow> 'a option \<Rightarrow> bool" where
  "holds P m \<longleftrightarrow> (\<exists>x. m = Some x \<and> P x)"

lemma holds_Some: "P x \<Longrightarrow> holds P (Some x)"
  by (simp add: holds_def)

lemma holds_bind: "holds (\<lambda>x. holds P (f x)) m \<Longrightarrow> holds P (Option.bind m f)"
  by (auto simp: holds_def)

lemma holds_mono: "holds P m \<Longrightarrow> (\<And>x. P x \<Longrightarrow> Q x) \<Longrightarrow> holds Q m"
  by (auto simp: holds_def)

lemma holds_read:
  assumes "ok \<Longrightarrow> 0 \<le> raw \<and> nat raw < length table"
    and "\<And>x. (ok \<Longrightarrow> x = table ! nat raw) \<Longrightarrow> (\<not> ok \<Longrightarrow> x = fallback) \<Longrightarrow> P x"
  shows "holds P (read table raw ok fallback)"
  using assms by (auto simp: read_def holds_def)

lemma holds_add:
  assumes "- (2 ^ 63) \<le> a + b \<and> a + b < 2 ^ 63" and "P (a + b)"
  shows "holds P (add_i64 a b)"
  using assms by (simp add: add_i64_def holds_def)

definition index_upto :: "nat \<Rightarrow> int \<Rightarrow> bool" where
  "index_upto i v \<longleftrightarrow> 0 \<le> v \<and> v \<le> int i"

definition index_below :: "nat \<Rightarrow> int \<Rightarrow> bool" where
  "index_below i v \<longleftrightarrow> 0 \<le> v \<and> v < int i"

definition row_wf :: "nat \<Rightarrow> reference_row \<Rightarrow> bool" where
  "row_wf i row \<longleftrightarrow>
     index_upto i (row_rep row) \<and>
     (row_tag row \<noteq> 1 \<longrightarrow>
        index_upto i (row_r0 row) \<and> index_upto i (row_r1 row) \<and> index_upto i (row_r2 row)) \<and>
     (row_t0 row = 3 \<longrightarrow> index_below i (row_t1 row) \<and> index_below i (row_t2 row)) \<and>
     - 1 \<le> row_nval row \<and> row_nval row \<le> 2 ^ i \<and> row_mentions row \<in> {0, 1}"

definition row_at :: "reference_tables \<Rightarrow> nat \<Rightarrow> reference_row" where
  "row_at t i = \<lparr>row_tag = rtag t ! i, row_r0 = rr0 t ! i, row_r1 = rr1 t ! i, row_r2 = rr2 t ! i,
     row_r3 = rr3 t ! i, row_rep = rep t ! i, row_nval = nval t ! i, row_mentions = mentions t ! i,
     row_t0 = tt0 t ! i, row_t1 = tt1 t ! i, row_t2 = tt2 t ! i, row_local = Pass\<rparr>"

definition wf_tables :: "nat \<Rightarrow> nat \<Rightarrow> reference_tables \<Rightarrow> bool" where
  "wf_tables w k t \<longleftrightarrow>
     (\<forall>table \<in> {rtag t, rr0 t, rr1 t, rr2 t, rr3 t, rep t, tt0 t, tt1 t, tt2 t, nval t, mentions t}.
        length table = w) \<and>
     (\<forall>i<k. row_wf i (row_at t i))"

lemma wf_lengths:
  assumes "wf_tables w k t"
  shows "length (rtag t) = w" "length (rr0 t) = w" "length (rr1 t) = w" "length (rr2 t) = w"
    "length (rr3 t) = w" "length (rep t) = w" "length (tt0 t) = w" "length (tt1 t) = w"
    "length (tt2 t) = w" "length (nval t) = w" "length (mentions t) = w"
  using assms by (simp_all add: wf_tables_def)

lemma index_uptoD:
  assumes "index_upto i v" and "i < k"
  shows "0 \<le> v" "nat v < k" "nat v \<le> i" "index_upto k v"
  using assms by (auto simp: index_upto_def)

lemma index_belowD:
  assumes "index_below i v" and "i \<le> k"
  shows "0 \<le> v" "nat v < k" "nat v < i" "index_below k v"
  using assms by (auto simp: index_below_def)

lemma wf_row:
  assumes "wf_tables w k t" and "i < k"
  shows "index_upto i (rep t ! i)"
    and "rtag t ! i \<noteq> 1 \<Longrightarrow> index_upto i (rr0 t ! i)"
    and "rtag t ! i \<noteq> 1 \<Longrightarrow> index_upto i (rr1 t ! i)"
    and "rtag t ! i \<noteq> 1 \<Longrightarrow> index_upto i (rr2 t ! i)"
    and "tt0 t ! i = 3 \<Longrightarrow> index_below i (tt1 t ! i)"
    and "tt0 t ! i = 3 \<Longrightarrow> index_below i (tt2 t ! i)"
    and "- 1 \<le> nval t ! i" "nval t ! i \<le> 2 ^ i" "mentions t ! i = 0 \<or> mentions t ! i = 1"
  using assms by (auto simp: wf_tables_def row_wf_def row_at_def)

lemma is_childD: "is_child a k cnt \<Longrightarrow> 0 \<le> a \<and> nat a < k"
  by (simp add: is_child_def valid_child_def split: if_splits)

lemma holds_read_denote:
  assumes "wf_tables w k t" and "k \<le> w" and "ok \<Longrightarrow> 0 \<le> raw \<and> nat raw < k"
    and "\<And>d. (ok \<Longrightarrow> d = denote (rtag t ! nat raw) (rr0 t ! nat raw) (rr1 t ! nat raw)) \<Longrightarrow>
           (\<not> ok \<Longrightarrow> d = (0, 0, 0)) \<Longrightarrow> P d"
  shows "holds P (read_denote t raw ok)"
  unfolding read_denote_def
  using assms wf_lengths [OF assms(1)]
  by (intro holds_bind holds_read holds_Some) (auto simp: denote_def)

lemma holds_read_type:
  assumes "wf_tables w k t" and "k \<le> w" and "ok \<Longrightarrow> 0 \<le> raw \<and> nat raw < k"
    and "\<And>d. (ok \<Longrightarrow> d = (tt0 t ! nat raw, tt1 t ! nat raw, tt2 t ! nat raw)) \<Longrightarrow>
           (\<not> ok \<Longrightarrow> d = (0, 0, 0)) \<Longrightarrow> P d"
  shows "holds P (read_type t raw ok)"
  unfolding read_type_def
  using assms wf_lengths [OF assms(1)]
  by (intro holds_bind holds_read holds_Some) auto

lemma holds_read_mentioned:
  assumes "wf_tables w k t" and "k \<le> w" and "ok_a \<Longrightarrow> 0 \<le> a \<and> nat a < k" and "ok_b \<Longrightarrow> 0 \<le> b \<and> nat b < k"
    and "\<And>m. m \<in> {0, 1} \<Longrightarrow> (ok_a \<Longrightarrow> m = 0 \<Longrightarrow> mentions t ! nat a = 0) \<Longrightarrow>
           (ok_b \<Longrightarrow> m = 0 \<Longrightarrow> mentions t ! nat b = 0) \<Longrightarrow> P m"
  shows "holds P (read_mentioned t a ok_a b ok_b)"
proof -
  define ma where "ma = (if ok_a then mentions t ! nat a else 0)"
  define mb where "mb = (if ok_b then mentions t ! nat b else 0)"
  have r: "read (mentions t) a ok_a 0 = Some ma" "read (mentions t) b ok_b 0 = Some mb"
    using assms(2-4) wf_lengths(11) [OF assms(1)] by (auto simp: read_def ma_def mb_def)
  have m: "ma = 0 \<or> ma = 1" "mb = 0 \<or> mb = 1"
    using wf_row(9) [OF assms(1)] assms(3,4) by (auto simp: ma_def mb_def)
  then have s: "add_i64 ma mb = Some (ma + mb)" by (auto simp: add_i64_def)
  have "P (of_bool (0 < ma + mb))"
    by (rule assms(5)) (use m in \<open>auto simp: ma_def mb_def\<close>)
  then show ?thesis by (simp add: read_mentioned_def r s holds_def)
qed

lemma make_row_wf:
  "row_wf i (make_row tag [a, b, c, d] rp v m (k, x, y) local) \<longleftrightarrow>
     index_upto i rp \<and> (tag \<noteq> 1 \<longrightarrow> index_upto i a \<and> index_upto i b \<and> index_upto i c) \<and>
     (k = 3 \<longrightarrow> index_below i x \<and> index_below i y) \<and> - 1 \<le> v \<and> v \<le> 2 ^ i \<and> m \<in> {0, 1}"
  by (simp add: row_wf_def make_row_def)

lemma index_upto_simps [simp]: "index_upto i 0" "index_upto i (int i)"
  by (simp_all add: index_upto_def)


lemma denote_pi: "denote a b c = (x, y, z) \<Longrightarrow> x = 3 \<Longrightarrow> a = 3 \<and> y = b \<and> z = c"
  by (auto simp: denote_def split: if_splits)

text \<open>The denotation of an earlier row and the type of an earlier row are bounded by it.\<close>

lemma wf_denote:
  assumes "wf_tables w k t" and "i < k" and "denote (rtag t ! i) (rr0 t ! i) (rr1 t ! i) = (3, y, z)"
  shows "index_below k y" "index_below k z"
  using wf_row(2,3) [OF assms(1,2)] assms(2) denote_pi [OF assms(3)]
  by (auto simp: index_upto_def index_below_def)

lemma index_upto_less: "index_upto i v \<Longrightarrow> i < k \<Longrightarrow> index_upto k v"
  by (simp add: index_upto_def)

lemma wf_child:
  assumes "wf_tables w k t" and "is_child a k cnt"
  shows "0 \<le> a" "nat a < k" "index_below k a" "index_upto k a" "index_upto k (rep t ! nat a)"
    "rep t ! nat a < int k" "0 \<le> rep t ! nat a" "nat (rep t ! nat a) < k"
    "tt0 t ! nat a = 3 \<Longrightarrow> 0 \<le> tt1 t ! nat a \<and> nat (tt1 t ! nat a) < k \<and> index_below k (tt1 t ! nat a)"
    "tt0 t ! nat a = 3 \<Longrightarrow> 0 \<le> tt2 t ! nat a \<and> nat (tt2 t ! nat a) < k \<and> index_below k (tt2 t ! nat a)"
    "rtag t ! nat a \<noteq> 1 \<Longrightarrow> 0 \<le> rr0 t ! nat a \<and> nat (rr0 t ! nat a) < k \<and> index_below k (rr0 t ! nat a)"
    "rtag t ! nat a \<noteq> 1 \<Longrightarrow> 0 \<le> rr1 t ! nat a \<and> nat (rr1 t ! nat a) < k \<and> index_below k (rr1 t ! nat a)"
    "- 1 \<le> nval t ! nat a" "nval t ! nat a \<le> 2 ^ nat a" "mentions t ! nat a = 0 \<or> mentions t ! nat a = 1"
proof -
  show a: "0 \<le> a" "nat a < k" using is_childD [OF assms(2)] by auto
  note r = wf_row [OF assms(1) a(2)]
  have u: "0 \<le> v \<and> nat v < k \<and> v < int k \<and> index_below k v \<and> index_upto k v" if "index_upto (nat a) v" for v
    using that a by (auto simp: index_upto_def index_below_def)
  have b: "0 \<le> v \<and> nat v < k \<and> index_below k v" if "index_below (nat a) v" for v
    using that a by (auto simp: index_below_def)
  show "index_below k a" "index_upto k a" "index_upto k (rep t ! nat a)"
    "rep t ! nat a < int k" "0 \<le> rep t ! nat a" "nat (rep t ! nat a) < k"
    "tt0 t ! nat a = 3 \<Longrightarrow> 0 \<le> tt1 t ! nat a \<and> nat (tt1 t ! nat a) < k \<and> index_below k (tt1 t ! nat a)"
    "tt0 t ! nat a = 3 \<Longrightarrow> 0 \<le> tt2 t ! nat a \<and> nat (tt2 t ! nat a) < k \<and> index_below k (tt2 t ! nat a)"
    "rtag t ! nat a \<noteq> 1 \<Longrightarrow> 0 \<le> rr0 t ! nat a \<and> nat (rr0 t ! nat a) < k \<and> index_below k (rr0 t ! nat a)"
    "rtag t ! nat a \<noteq> 1 \<Longrightarrow> 0 \<le> rr1 t ! nat a \<and> nat (rr1 t ! nat a) < k \<and> index_below k (rr1 t ! nat a)"
    "- 1 \<le> nval t ! nat a" "nval t ! nat a \<le> 2 ^ nat a" "mentions t ! nat a = 0 \<or> mentions t ! nat a = 1"
    by (use a in \<open>simp add: index_below_def\<close>, use a in \<open>simp add: index_upto_def\<close>,
        (use u [OF r(1)] in simp)+, (use b r(5,6) in blast)+, (use u r(2,3) in blast)+,
        rule r(7), rule r(8), rule r(9))
qed

lemma verdict_if_Pass [simp]: "verdict_if b = Pass \<longleftrightarrow> b"
  by (simp add: verdict_if_def)

lemma index_below_upto: "index_below k v \<Longrightarrow> index_upto k v"
  by (simp add: index_below_def index_upto_def)

lemma index_belowD2: "index_below k v \<Longrightarrow> 0 \<le> v \<and> nat v < k"
  by (auto simp: index_below_def)

lemma holds_child:
  assumes "k \<le> w" and "length table = w"
    and "\<And>x. (is_child a k cnt \<Longrightarrow> x = table ! nat a) \<Longrightarrow> (\<not> is_child a k cnt \<Longrightarrow> x = fb) \<Longrightarrow> P x"
  shows "holds P (read table a (is_child a k cnt) fb)"
proof (rule holds_read)
  show "is_child a k cnt \<Longrightarrow> 0 \<le> a \<and> nat a < length table"
    using is_childD assms(1,2) by fastforce
qed (rule assms(3))

lemma holds_child_kind:
  assumes "wf_tables w k t" and "k \<le> w"
    and "\<And>x. (is_child a k cnt \<Longrightarrow> x = tt0 t ! nat a) \<Longrightarrow> (\<not> is_child a k cnt \<Longrightarrow> x = 0) \<Longrightarrow> P x"
  shows "holds P (read (tt0 t) a (is_child a k cnt) 0)"
  by (rule holds_child [OF assms(2) wf_lengths(7) [OF assms(1)]], rule assms(3)) blast+

lemma holds_child_level:
  assumes "wf_tables w k t" and "k \<le> w"
    and "\<And>x. (is_child a k cnt \<Longrightarrow> x = tt1 t ! nat a \<and> (tt0 t ! nat a = 3 \<longrightarrow> index_below k x)) \<Longrightarrow>
          (\<not> is_child a k cnt \<Longrightarrow> x = 0) \<Longrightarrow> P x"
  shows "holds P (read (tt1 t) a (is_child a k cnt) 0)"
  by (rule holds_child [OF assms(2) wf_lengths(8) [OF assms(1)]], rule assms(3))
     (use wf_child(9) [OF assms(1), of a cnt] in blast)+

lemma holds_child_codomain:
  assumes "wf_tables w k t" and "k \<le> w"
    and "\<And>x. (is_child a k cnt \<Longrightarrow> x = tt2 t ! nat a \<and> (tt0 t ! nat a = 3 \<longrightarrow> index_below k x)) \<Longrightarrow>
          (\<not> is_child a k cnt \<Longrightarrow> x = 0) \<Longrightarrow> P x"
  shows "holds P (read (tt2 t) a (is_child a k cnt) 0)"
  by (rule holds_child [OF assms(2) wf_lengths(9) [OF assms(1)]], rule assms(3))
     (use wf_child(10) [OF assms(1), of a cnt] in blast)+

lemma holds_child_tag:
  assumes "wf_tables w k t" and "k \<le> w"
    and "\<And>x. (is_child a k cnt \<Longrightarrow> x = rtag t ! nat a) \<Longrightarrow> (\<not> is_child a k cnt \<Longrightarrow> x = 0) \<Longrightarrow> P x"
  shows "holds P (read (rtag t) a (is_child a k cnt) 0)"
  by (rule holds_child [OF assms(2) wf_lengths(1) [OF assms(1)]], rule assms(3)) blast+

lemma holds_child_rep:
  assumes "wf_tables w k t" and "k \<le> w"
    and "\<And>x. index_upto k x \<Longrightarrow>
          (is_child a k cnt \<Longrightarrow> x = rep t ! nat a \<and> index_below k x) \<Longrightarrow> P x"
  shows "holds P (read (rep t) a (is_child a k cnt) (int k))"
proof (rule holds_child [OF assms(2) wf_lengths(6) [OF assms(1)]])
  fix x
  assume x: "is_child a k cnt \<Longrightarrow> x = rep t ! nat a" "\<not> is_child a k cnt \<Longrightarrow> x = int k"
  have c: "x = rep t ! nat a \<and> index_below k x" if "is_child a k cnt"
    using x(1) [OF that] wf_child(6,7) [OF assms(1) that] by (simp add: index_below_def)
  moreover have "index_upto k x"
    using c x(2) by (cases "is_child a k cnt") (auto simp: index_upto_def index_below_def)
  ultimately show "P x" by (rule assms(3) [rotated])
qed

lemma nval_bound [simp]: "- 1 \<le> (2::int) ^ k"
  by (rule order_trans [of _ 0]) simp_all

lemma holds_child_nval:
  assumes "wf_tables w k t" and "k \<le> w"
    and "\<And>x. - 1 \<le> x \<Longrightarrow> x + 1 \<le> 2 ^ k \<Longrightarrow> x \<le> 2 ^ k \<Longrightarrow>
          (is_child a k cnt \<Longrightarrow> x = nval t ! nat a \<and> 2 * x \<le> 2 ^ k) \<Longrightarrow>
          (\<not> is_child a k cnt \<Longrightarrow> x = - 1) \<Longrightarrow> P x"
  shows "holds P (read (nval t) a (is_child a k cnt) (- 1))"
proof (rule holds_child [OF assms(2) wf_lengths(10) [OF assms(1)]])
  fix x
  assume x: "is_child a k cnt \<Longrightarrow> x = nval t ! nat a" "\<not> is_child a k cnt \<Longrightarrow> x = - 1"
  have half: "2 * x \<le> 2 ^ k" "- 1 \<le> x" if c: "is_child a k cnt"
  proof -
    have "2 * (2::int) ^ nat a \<le> 2 ^ k"
      using wf_child(2) [OF assms(1) c] power_increasing [of "Suc (nat a)" k "2::int"] by simp
    then show "2 * x \<le> 2 ^ k" "- 1 \<le> x"
      using wf_child(13,14) [OF assms(1) c] x(1) [OF c] by simp_all
  qed
  have one: "1 \<le> (2::int) ^ k" by simp
  have "- 1 \<le> x \<and> x + 1 \<le> 2 ^ k \<and> x \<le> 2 ^ k"
  proof (cases "is_child a k cnt")
    case True
    then show ?thesis using half one by linarith
  next
    case False
    then show ?thesis using x(2) by simp
  qed
  then show "P x" using x half by (intro assms(3)) auto
qed

lemma holds_child_mentions:
  assumes "wf_tables w k t" and "k \<le> w"
    and "\<And>x. x = 0 \<or> x = 1 \<Longrightarrow> (is_child a k cnt \<Longrightarrow> x = mentions t ! nat a) \<Longrightarrow> P x"
  shows "holds P (read (mentions t) a (is_child a k cnt) 0)"
  by (intro holds_child [OF assms(2) wf_lengths(11) [OF assms(1)]] assms(3))
     (use wf_child(15) [OF assms(1), of a cnt] in auto)

lemma holds_child_type:
  assumes "wf_tables w k t" and "k \<le> w"
    and "\<And>x y z. (is_child a k cnt \<Longrightarrow> x = tt0 t ! nat a \<and> y = tt1 t ! nat a \<and> z = tt2 t ! nat a) \<Longrightarrow>
          (x = 3 \<Longrightarrow> is_child a k cnt \<and> index_below k y \<and> index_below k z) \<Longrightarrow> P (x, y, z)"
  shows "holds P (read_type t a (is_child a k cnt))"
  unfolding read_type_def
  by (intro holds_bind holds_Some holds_child_kind [OF assms(1,2)] holds_child_level [OF assms(1,2)]
      holds_child_codomain [OF assms(1,2)] assms(3)) auto

text \<open>The parts of an earlier binder's row.\<close>

lemma holds_binder_domain:
  assumes "wf_tables w k t" and "k \<le> w" and "is_child a k cnt \<Longrightarrow> q \<Longrightarrow> rtag t ! nat a \<noteq> 1"
    and "\<And>x. (is_child a k cnt \<Longrightarrow> q \<Longrightarrow> x = rr0 t ! nat a \<and> index_below k x) \<Longrightarrow> P x"
  shows "holds P (read (rr0 t) a (is_child a k cnt \<and> q) 0)"
  by (rule holds_read, use wf_lengths(2) [OF assms(1)] wf_child(1,2) [OF assms(1), of a cnt] assms(2) in simp,
      rule assms(4), use wf_child(11) [OF assms(1), of a cnt] assms(3) in blast)

lemma holds_binder_codomain:
  assumes "wf_tables w k t" and "k \<le> w" and "is_child a k cnt \<Longrightarrow> q \<Longrightarrow> rtag t ! nat a \<noteq> 1"
    and "\<And>x. (is_child a k cnt \<Longrightarrow> q \<Longrightarrow> x = rr1 t ! nat a \<and> index_below k x) \<Longrightarrow> P x"
  shows "holds P (read (rr1 t) a (is_child a k cnt \<and> q) 0)"
  by (rule holds_read, use wf_lengths(3) [OF assms(1)] wf_child(1,2) [OF assms(1), of a cnt] assms(2) in simp,
      rule assms(4), use wf_child(12) [OF assms(1), of a cnt] assms(3) in blast)

lemma holds_denote:
  assumes "wf_tables w k t" and "k \<le> w" and "ok \<Longrightarrow> index_below k raw"
    and "\<And>x y z. (ok \<Longrightarrow> denote (rtag t ! nat raw) (rr0 t ! nat raw) (rr1 t ! nat raw) = (x, y, z)) \<Longrightarrow>
          (\<not> ok \<Longrightarrow> x = 0) \<Longrightarrow> (x = 3 \<Longrightarrow> index_below k y \<and> index_below k z) \<Longrightarrow> P (x, y, z)"
  shows "holds P (read_denote t raw ok)"
proof (rule holds_read_denote [OF assms(1,2)])
  show "ok \<Longrightarrow> 0 \<le> raw \<and> nat raw < k" using assms(3) by (rule index_belowD2)
  fix d
  assume d: "ok \<Longrightarrow> d = denote (rtag t ! nat raw) (rr0 t ! nat raw) (rr1 t ! nat raw)" "\<not> ok \<Longrightarrow> d = (0, 0, 0)"
  obtain x y z where xyz: "d = (x, y, z)" by (cases d)
  have b: "index_below k y \<and> index_below k z" if "x = 3"
  proof (cases ok)
    case True
    then show ?thesis
      using wf_denote [OF assms(1), of "nat raw" y z] d that index_belowD2 [OF assms(3) [OF True]]
      by (simp add: xyz)
  next
    case False
    then show ?thesis using d(2) that by (simp add: xyz)
  qed
  have "P (x, y, z)"
    by (rule assms(4)) (use d b in \<open>simp_all add: xyz\<close>)
  then show "P d" by (simp add: xyz)
qed

lemma holds_mentions_at:
  assumes "wf_tables w k t" and "k \<le> w" and "ok \<Longrightarrow> index_below k raw"
    and "\<And>x. x = 0 \<or> x = 1 \<Longrightarrow> (ok \<Longrightarrow> x = mentions t ! nat raw) \<Longrightarrow> P x"
  shows "holds P (read (mentions t) raw ok 0)"
  by (rule holds_read, use index_belowD2 [OF assms(3)] assms(2) wf_lengths(11) [OF assms(1)] in force,
      rule assms(4), use wf_row(9) [OF assms(1)] index_belowD2 [OF assms(3)] in blast, blast)

lemma holds_pi_domain:
  assumes "wf_tables w k t" and "k \<le> w" and "is_child a k cnt \<Longrightarrow> q \<Longrightarrow> tt0 t ! nat a = 3"
    and "\<And>x. (is_child a k cnt \<Longrightarrow> q \<Longrightarrow> x = tt1 t ! nat a \<and> index_below k x) \<Longrightarrow> P x"
  shows "holds P (read (tt1 t) a (is_child a k cnt \<and> q) 0)"
  by (rule holds_read, use wf_lengths(8) [OF assms(1)] wf_child(1,2) [OF assms(1), of a cnt] assms(2) in simp,
      rule assms(4), use wf_child(9) [OF assms(1), of a cnt] assms(3) in blast)

lemma holds_pi_codomain:
  assumes "wf_tables w k t" and "k \<le> w" and "is_child a k cnt \<Longrightarrow> q \<Longrightarrow> tt0 t ! nat a = 3"
    and "\<And>x. (is_child a k cnt \<Longrightarrow> q \<Longrightarrow> x = tt2 t ! nat a \<and> index_below k x) \<Longrightarrow> P x"
  shows "holds P (read (tt2 t) a (is_child a k cnt \<and> q) 0)"
  by (rule holds_read, use wf_lengths(9) [OF assms(1)] wf_child(1,2) [OF assms(1), of a cnt] assms(2) in simp,
      rule assms(4), use wf_child(10) [OF assms(1), of a cnt] assms(3) in blast)

lemma holds_if: "(b \<Longrightarrow> holds P m) \<Longrightarrow> (\<not> b \<Longrightarrow> holds P n) \<Longrightarrow> holds P (if b then m else n)"
  by simp

lemmas child_reads = holds_child_kind holds_child_level holds_child_codomain holds_child_tag
  holds_child_rep holds_child_nval holds_child_mentions holds_child_type holds_binder_domain
  holds_binder_codomain holds_pi_domain holds_pi_codomain holds_denote holds_mentions_at

lemma rule_simple_wf:
  "holds (row_wf k) (rule_universe t c cnt k)" "holds (row_wf k) (rule_nat t c cnt k)"
  "holds (row_wf k) (rule_zero t c cnt k)" "holds (row_wf k) (rule_unsupported t c cnt k)"
  by (simp_all add: rule_universe_def rule_nat_def rule_zero_def rule_unsupported_def holds_def
      make_row_wf Let_def)

lemma rule_pi_wf:
  assumes "wf_tables w k t" and "k \<le> w"
  shows "holds (row_wf k) (rule_pi t c cnt k)"
  unfolding rule_pi_def Let_def
  by (intro holds_bind holds_Some child_reads [OF assms] holds_read_mentioned [OF assms])
     (auto simp: make_row_wf dest: is_childD)

lemma rule_lambda_wf:
  assumes "wf_tables w k t" and "k \<le> w"
  shows "holds (row_wf k) (rule_lambda t c cnt k)"
  unfolding rule_lambda_def Let_def
  by (intro holds_bind holds_Some child_reads [OF assms] holds_read_mentioned [OF assms])
     (auto simp: make_row_wf dest: is_childD)

lemma make_rowI:
  assumes "index_upto i rp" "index_upto i a" "index_upto i b" "index_upto i c"
    and "ok \<Longrightarrow> x = 3 \<Longrightarrow> index_below i y \<and> index_below i z"
    and "- 1 \<le> v" "v \<le> 2 ^ i" "m = 0 \<or> m = 1"
  shows "row_wf i (make_row tag [a, b, c, d] rp v m (if ok then (x, y, z) else (0, 0, 0)) local)"
  using assms by (cases ok) (simp_all add: make_row_wf)

lemma rule_apply_wf:
  assumes "wf_tables w k t" and "k \<le> w"
  shows "holds (row_wf k) (rule_apply t c cnt k)"
  unfolding rule_apply_def Let_def
  by (intro holds_bind holds_Some child_reads [OF assms] holds_read_mentioned [OF assms] make_rowI)
     (simp_all add: is_childD)

lemma rule_var_wf:
  assumes "wf_tables w k t" and "k \<le> w"
  shows "holds (row_wf k) (rule_var t c cnt k)"
proof (cases "is_child (arg0 c) k cnt")
  case False
  then show ?thesis by (simp add: rule_var_def read_def read_denote_def denote_def holds_def make_row_wf)
next
  case True
  then have "is_child (arg0 c) k cnt \<longleftrightarrow> True" by simp
  have "holds (row_wf k) (rule_var t c cnt k) \<longleftrightarrow> holds (row_wf k) (do {
        binder \<leftarrow> read (rtag t) (arg0 c) (is_child (arg0 c) k cnt) 0;
        domain \<leftarrow> read (rr0 t) (arg0 c) (is_child (arg0 c) k cnt \<and> (binder = 3 \<or> binder = 4)) 0;
        d \<leftarrow> read_denote t domain (binder = 3 \<or> binder = 4);
        Some (make_row 2 [arg0 c, 0, 0, 0] (int k) (- 1) 1
          (if (binder = 3 \<or> binder = 4) \<and> fst d \<noteq> 0 then d else (0, 0, 0))
          (verdict_if ((binder = 3 \<or> binder = 4) \<and> fst d \<noteq> 0))) })"
    using True by (simp add: rule_var_def Let_def)
  also have \<dots>
    by (intro holds_bind holds_Some child_reads [OF assms] make_rowI)
       (use True wf_child(4) [OF assms(1) True] in \<open>auto\<close>)
  finally show ?thesis .
qed

lemma rule_succ_wf:
  assumes "wf_tables w k t" and "k \<le> w" "k < 16"
  shows "holds (row_wf k) (rule_succ t c cnt k)"
proof -
  have k: "(2::int) ^ k \<le> 2 ^ 16" using assms(3) by (intro power_increasing) auto
  show ?thesis
    unfolding rule_succ_def Let_def
    by (intro holds_bind holds_Some child_reads [OF assms(1,2)] holds_if holds_add make_rowI)
       (use k in \<open>simp_all add: is_childD\<close>)
qed

lemma rule_plus_wf:
  assumes "wf_tables w k t" and "k \<le> w" "k < 16"
  shows "holds (row_wf k) (rule_plus t c cnt k)"
proof -
  have k: "(2::int) ^ k \<le> 2 ^ 16" using assms(3) by (intro power_increasing) auto
  show ?thesis
    unfolding rule_plus_def Let_def
    by (intro holds_bind holds_Some child_reads [OF assms(1,2)] holds_read_mentioned [OF assms(1,2)]
          holds_if holds_add make_rowI)
       (use k in \<open>simp_all add: is_childD\<close>)
qed

lemma if_bounds:
  "index_upto i a \<Longrightarrow> index_upto i b \<Longrightarrow> index_upto i (if s then a else b)"
  "- 1 \<le> u \<Longrightarrow> - 1 \<le> v \<Longrightarrow> - 1 \<le> (if s then u else v :: int)"
  "u \<le> p \<Longrightarrow> v \<le> p \<Longrightarrow> (if s then u else v :: int) \<le> p"
  "x = 0 \<or> x = 1 \<Longrightarrow> (if s then x else 0) = 0 \<or> (if s then x else 0) = (1 :: int)"
  by auto

lemma rule_nat_elim_wf:
  assumes "wf_tables w k t" and "k \<le> w"
  shows "holds (row_wf k) (rule_nat_elim t c cnt k)"
  unfolding rule_nat_elim_def Let_def
  by (intro holds_bind holds_Some child_reads [OF assms] make_rowI if_bounds)
     (assumption | erule is_childD | (simp (no_asm); fail) | (simp; fail))+

lemma rule_eq_wf:
  assumes "wf_tables w k t" and "k \<le> w"
  shows "holds (row_wf k) (rule_eq t c cnt k)"
  unfolding rule_eq_def Let_def
  by (intro holds_bind holds_Some child_reads [OF assms] holds_read_mentioned [OF assms])
     (auto simp: make_row_wf dest: is_childD)

lemma rule_refl_wf:
  assumes "wf_tables w k t" and "k \<le> w"
  shows "holds (row_wf k) (rule_refl t c cnt k)"
  unfolding rule_refl_def Let_def
  by (intro holds_bind holds_Some child_reads [OF assms] holds_read_mentioned [OF assms])
     (auto simp: make_row_wf dest: is_childD)

lemma reference_rule_wf:
  assumes "wf_tables w k t" and "k \<le> w" "k < 16"
  shows "holds (row_wf k) (reference_rule tag t c cnt k)"
  using assms rule_simple_wf
  by (cases tag)
     (simp_all add: rule_var_wf rule_pi_wf rule_lambda_wf rule_apply_wf rule_succ_wf rule_plus_wf
        rule_nat_elim_wf rule_eq_wf rule_refl_wf)

text \<open>Writing row \<open>k\<close> leaves the rows before it and appends one.\<close>

definition commit :: "reference_tables \<Rightarrow> nat \<Rightarrow> reference_row \<Rightarrow> reference_tables" where
  "commit t k row =
     t\<lparr>rtag := (rtag t)[k := row_tag row], rr0 := (rr0 t)[k := row_r0 row],
       rr1 := (rr1 t)[k := row_r1 row], rr2 := (rr2 t)[k := row_r2 row],
       rr3 := (rr3 t)[k := row_r3 row], rep := (rep t)[k := row_rep row],
       nval := (nval t)[k := row_nval row], mentions := (mentions t)[k := row_mentions row],
       tt0 := (tt0 t)[k := row_t0 row], tt1 := (tt1 t)[k := row_t1 row],
       tt2 := (tt2 t)[k := row_t2 row], status := dominate (status t) (row_local row)\<rparr>"

lemma store_settle:
  assumes "wf_tables w n t" and "k < w"
  shows "Option.bind (store_row t k row) (\<lambda>s. settle_row s k row) = Some (commit t k row)"
  using assms(2) wf_lengths [OF assms(1)] by (simp add: store_row_def settle_row_def commit_def)

lemma row_at_commit:
  assumes "wf_tables w n t" and "k < w"
  shows "row_at (commit t k row) i = (if i = k then row\<lparr>row_local := Pass\<rparr> else row_at t i)"
  using assms(2) wf_lengths [OF assms(1)]
  by (cases row) (simp add: row_at_def commit_def nth_list_update)

lemma commit_wf:
  assumes "wf_tables w k t" and "k < w" and "row_wf k row"
  shows "wf_tables w (Suc k) (commit t k row)"
proof -
  have "row_wf i (row_at (commit t k row) i)" if "i < Suc k" for i
    using that assms(1,3) row_at_commit [OF assms(1,2), of row i]
    by (auto simp: wf_tables_def less_Suc_eq row_wf_def)
  then show ?thesis
    using wf_lengths [OF assms(1)] by (simp add: wf_tables_def commit_def)
qed

lemma advance_reference_eq:
  assumes "wf_tables w k t" and "k < w" "k < 16" "k < length cs"
  shows "holds (\<lambda>row. row_wf k row \<and> advance_reference t cs cnt k = Some (commit t k row))
    (reference_rule (cell_tag (cs ! k)) t (cs ! k) cnt k)"
  using reference_rule_wf [OF assms(1) _ assms(3), of "cell_tag (cs ! k)" "cs ! k" cnt]
    store_settle [OF assms(1,2)] assms(2,4)
  by (auto simp: holds_def advance_reference_def)

lemma fresh_wf: "wf_tables w 0 (fresh w)"
  by (simp add: wf_tables_def fresh_def Let_def)

text \<open>One invariant for the whole pass: what holds of the fresh tables and is kept by every row
  holds at the end.\<close>

lemma run_reference_induct:
  assumes "cnt \<le> w" "cnt \<le> length cs" "cnt \<le> 16"
    and "I 0 (fresh w)"
    and step: "\<And>k t row. k < cnt \<Longrightarrow> wf_tables w k t \<Longrightarrow> I k t \<Longrightarrow> row_wf k row \<Longrightarrow>
      reference_rule (cell_tag (cs ! k)) t (cs ! k) cnt k = Some row \<Longrightarrow> I (Suc k) (commit t k row)"
  shows "holds (\<lambda>t. wf_tables w cnt t \<and> I cnt t) (run_reference (fresh w) cs cnt [0..<cnt])"
proof -
  have "holds (\<lambda>t. wf_tables w cnt t \<and> I cnt t) (run_reference t cs cnt [k..<cnt])"
    if "k \<le> cnt" "wf_tables w k t" "I k t" for k t
    using that
  proof (induction "cnt - k" arbitrary: k t)
    case 0
    then show ?case by (simp add: holds_def)
  next
    case (Suc n)
    then have k: "k < cnt" by simp
    obtain row where row: "row_wf k row" "advance_reference t cs cnt k = Some (commit t k row)"
      "reference_rule (cell_tag (cs ! k)) t (cs ! k) cnt k = Some row"
      using advance_reference_eq [OF Suc.prems(2), of cs cnt] k assms(1-3) by (auto simp: holds_def)
    have "holds (\<lambda>t. wf_tables w cnt t \<and> I cnt t) (run_reference (commit t k row) cs cnt [Suc k..<cnt])"
    proof (rule Suc.hyps(1))
      show "n = cnt - Suc k" using Suc.hyps(2) by simp
      show "wf_tables w (Suc k) (commit t k row)"
        using commit_wf [OF Suc.prems(2) _ row(1)] k assms(1) by simp
      show "I (Suc k) (commit t k row)"
        using step [OF k Suc.prems(2,3) row(1,3)] .
    qed (use k in simp)
    then show ?case using k by (simp add: upt_conv_Cons row(2))
  qed
  then show ?thesis using fresh_wf assms(4) by blast
qed

lemma at_Some: "i < length table \<Longrightarrow> at table i = Some (table ! i)"
  by (simp add: at_def)

lemma as_usize_index: "index_upto i v \<Longrightarrow> i < 16 \<Longrightarrow> as_usize v = nat v"
  by (auto simp: index_upto_def as_usize_def)

lemma holds_at: "i < length table \<Longrightarrow> P (table ! i) \<Longrightarrow> holds P (at table i)"
  by (simp add: at_def holds_def)

lemma holds_at_if:
  assumes "ok \<Longrightarrow> i < length table"
    and "\<And>x. (ok \<Longrightarrow> x = as_usize (table ! i)) \<Longrightarrow> (\<not> ok \<Longrightarrow> x = 0) \<Longrightarrow> P x"
  shows "holds P (at_if ok table i)"
  using assms by (auto simp: at_if_def at_def holds_def)

lemma holds_map: "holds (\<lambda>x. P (f x)) m \<Longrightarrow> holds P (map_option f m)"
  by (auto simp: holds_def)

lemma holds_denote_at:
  assumes "wf_tables w k t" and "i < w" and "P (denote (rtag t ! i) (rr0 t ! i) (rr1 t ! i))"
  shows "holds P (denote_at t i)"
  unfolding denote_at_def
  by (intro holds_bind holds_Some holds_at assms(3)) (use assms(2) wf_lengths [OF assms(1)] in simp_all)

lemma holds_type_at:
  assumes "wf_tables w k t" and "i < w" and "P (tt0 t ! i, tt1 t ! i, tt2 t ! i)"
  shows "holds P (type_at t i)"
  unfolding type_at_def
  by (intro holds_bind holds_Some holds_at assms(3)) (use assms(2) wf_lengths [OF assms(1)] in simp_all)

lemma holds_side_matches:
  assumes "wf_tables w k t" and "k \<le> w" and "sides \<Longrightarrow> side < k \<and> witness < k"
    and "\<And>b. (b \<Longrightarrow> sides \<and> (rep t ! side = rep t ! witness \<or>
           0 \<le> nval t ! side \<and> nval t ! side = nval t ! witness)) \<Longrightarrow> P b"
  shows "holds P (side_matches t sides witness side)"
  unfolding side_matches_def
  by (intro holds_if holds_bind holds_Some holds_at assms(4))
     (use assms(2,3) wf_lengths [OF assms(1)] in auto)

text \<open>What the claim check establishes when it succeeds.\<close>

definition equation_holds :: "reference_tables \<Rightarrow> nat \<Rightarrow> nat \<Rightarrow> bool" where
  "equation_holds t cnt equation \<longleftrightarrow>
     (\<exists>witness < cnt. \<forall>side \<in> {as_usize (rr1 t ! equation), as_usize (rr2 t ! equation)}.
        side < cnt \<and> (rep t ! side = rep t ! witness \<or>
          0 \<le> nval t ! side \<and> nval t ! side = nval t ! witness))"

lemma equation_holdsI:
  assumes "witness < cnt" "as_usize (rr1 t ! e) < cnt" "as_usize (rr2 t ! e) < cnt"
    and "rep t ! as_usize (rr1 t ! e) = rep t ! witness \<or>
      0 \<le> nval t ! as_usize (rr1 t ! e) \<and> nval t ! as_usize (rr1 t ! e) = nval t ! witness"
    and "rep t ! as_usize (rr2 t ! e) = rep t ! witness \<or>
      0 \<le> nval t ! as_usize (rr2 t ! e) \<and> nval t ! as_usize (rr2 t ! e) = nval t ! witness"
  shows "equation_holds t cnt e"
  unfolding equation_holds_def using assms by (intro exI [of _ witness]) simp

lemma holds_refl_claim:
  assumes "wf_tables w cnt t" and "cnt \<le> w" and "proof_rep < w"
    and "\<And>b. (b \<Longrightarrow> is_refl \<and> prop_rep < cnt \<and> equation_holds t cnt prop_rep) \<Longrightarrow> P b"
  shows "holds P (refl_claim t cnt is_refl proof_rep prop_rep)"
  unfolding refl_claim_def Let_def
  by (intro holds_map holds_bind holds_Some holds_at holds_at_if holds_if
      holds_type_at [OF assms(1)] holds_denote_at [OF assms(1)] holds_side_matches [OF assms(1,2)] assms(4);
      (use assms(2,3) wf_lengths [OF assms(1)] in simp)?;
      rule equation_holdsI [where witness = "as_usize (rr0 t ! proof_rep)"]; simp)

lemma holds_rep_at:
  assumes "wf_tables w cnt t" and "w = max cnt 1" and "cnt \<le> 16"
    and "\<And>x. x < w \<Longrightarrow> (i < cnt \<Longrightarrow> x = as_usize (rep t ! i) \<and> x < cnt) \<Longrightarrow> P x"
  shows "holds P (at_if (i < cnt) (rep t) i)"
proof (rule holds_at_if)
  show "i < cnt \<Longrightarrow> i < length (rep t)" using assms(2) wf_lengths(6) [OF assms(1)] by simp
  fix x
  assume x: "i < cnt \<Longrightarrow> x = as_usize (rep t ! i)" "\<not> i < cnt \<Longrightarrow> x = 0"
  have "x = as_usize (rep t ! i) \<and> x < cnt" if "i < cnt"
    using wf_row(1) [OF assms(1) that] that assms x(1) by (auto simp: as_usize_index index_upto_def)
  moreover from this have "x < w" using assms(2) x(2) by (cases "i < cnt") auto
  ultimately show "P x" by (rule assms(4) [rotated])
qed

lemma holds_settle_claim:
  assumes "wf_tables w cnt t" and "w = max cnt 1" and "cnt \<le> 16"
    and "\<And>v. (v = Pass \<Longrightarrow> status t = Pass \<and> p < cnt \<and> q < cnt \<and> mentions t ! p \<le> 0 \<and>
        (\<exists>r < cnt. r = as_usize (rep t ! q) \<and> fst (denote (rtag t ! r) (rr0 t ! r) (rr1 t ! r)) \<noteq> 0 \<and>
          (equation_holds t cnt r \<or>
           (tt0 t ! p, tt1 t ! p, tt2 t ! p) = denote (rtag t ! r) (rr0 t ! r) (rr1 t ! r)))) \<Longrightarrow> P v"
  shows "holds P (settle_claim t cnt p q)"
proof -
  have last: "min p (max cnt (Suc 0) - Suc 0) < w" "p < cnt \<Longrightarrow> min p (max cnt (Suc 0) - Suc 0) = p"
    using assms(2) by auto
  have w: "cnt \<le> w" using assms(2) by simp
  show ?thesis
    unfolding settle_claim_def Let_def
    by (intro holds_bind holds_Some holds_rep_at [OF assms(1-3)] holds_denote_at [OF assms(1)]
        holds_type_at [OF assms(1)] holds_refl_claim [OF assms(1) w] holds_if holds_at assms(4))
       (use w last wf_lengths [OF assms(1)] in \<open>auto simp: verdict_simps split: if_splits\<close>)
qed

text \<open>Property C22.  The reference checker is total: whatever artifact it is given, with any tags,
  arguments, counts and claims, it returns a verdict; no table index is out of range and no
  addition overflows.\<close>

theorem reference_check_total: "\<exists>v. reference_check artifact = Some v"
proof (cases "16 < length (cells artifact) \<or> length (cells artifact) < cell_count artifact")
  case True
  then show ?thesis by (auto simp: reference_check_def)
next
  case False
  define cnt where "cnt = cell_count artifact"
  have "holds (\<lambda>t. wf_tables (max cnt 1) cnt t \<and> True)
      (run_reference (fresh (max cnt 1)) (cells artifact) cnt [0..<cnt])"
    by (rule run_reference_induct) (use False in \<open>auto simp: cnt_def\<close>)
  then obtain t where t: "wf_tables (max cnt 1) cnt t"
    "run_reference (fresh (max cnt 1)) (cells artifact) cnt [0..<cnt] = Some t"
    by (auto simp: holds_def)
  have "holds (\<lambda>_. True) (settle_claim t cnt (proof_index artifact) (proposition_index artifact))"
    by (rule holds_settle_claim [OF t(1)]) (use False in \<open>auto simp: cnt_def\<close>)
  with False t(2) show ?thesis
    by (auto simp: reference_check_def holds_def cnt_def)
qed

section \<open>Meaning of cells, and soundness\<close>

text \<open>
  The specification: what a cell means, independently of the tables.  \<open>SNat n\<close> is a closed
  numeral; an eliminator whose target is zero means its zero branch; everything else is a node of a
  free algebra over the meanings of its children.  A child that is not an earlier cell is \<open>SBad\<close>.
\<close>

datatype sem = SNat nat | SEq sem sem sem | SNode proof_tag int "sem list" | SBad

fun sem_succ :: "sem \<Rightarrow> sem" where
  "sem_succ (SNat n) = SNat (Suc n)"
| "sem_succ m = SNode Succ 0 [m]"

fun sem_plus :: "sem \<Rightarrow> sem \<Rightarrow> sem" where
  "sem_plus (SNat m) (SNat n) = SNat (m + n)"
| "sem_plus m n = SNode Plus 0 [m, n]"

definition sem_elim :: "sem \<Rightarrow> sem \<Rightarrow> sem \<Rightarrow> sem \<Rightarrow> sem" where
  "sem_elim motive zero succ target =
     (if target = SNat 0 then zero else SNode NatElim 0 [motive, zero, succ, target])"

definition sem_cell :: "proof_cell \<Rightarrow> int \<Rightarrow> (int \<Rightarrow> sem) \<Rightarrow> sem" where
  "sem_cell c index child =
     (case cell_tag c of
        Universe \<Rightarrow> SNode Universe (arg0 c) []
      | Var \<Rightarrow> SNode Var (arg0 c) []
      | Pi \<Rightarrow> SNode Pi 0 [child (arg0 c), child (arg1 c)]
      | Lambda \<Rightarrow> SNode Lambda 0 [child (arg0 c), child (arg1 c), child (arg2 c)]
      | Apply \<Rightarrow> SNode Apply 0 [child (arg0 c), child (arg1 c)]
      | Nat \<Rightarrow> SNode Nat 0 []
      | Zero \<Rightarrow> SNat 0
      | Succ \<Rightarrow> sem_succ (child (arg0 c))
      | Plus \<Rightarrow> sem_plus (child (arg0 c)) (child (arg1 c))
      | NatElim \<Rightarrow> sem_elim (child (arg0 c)) (child (arg1 c)) (child (arg2 c)) (child (arg3 c))
      | Eq \<Rightarrow> SEq (child (arg0 c)) (child (arg1 c)) (child (arg2 c))
      | Refl \<Rightarrow> SNode Refl 0 [child (arg0 c), child (arg1 c)]
      | Unsupported \<Rightarrow> SNode Unsupported index [])"

function meaning :: "proof_cell list \<Rightarrow> nat \<Rightarrow> sem" where
  "meaning cs i =
     (if i < length cs
      then sem_cell (cs ! i) (int i)
             (\<lambda>a. if 0 \<le> a \<and> nat a < i then meaning cs (nat a) else SBad)
      else SBad)"
  by pat_completeness auto
termination by (relation "measure snd") auto

declare meaning.simps [simp del]

definition sub_meaning :: "proof_cell list \<Rightarrow> nat \<Rightarrow> int \<Rightarrow> sem" where
  "sub_meaning cs i a = (if 0 \<le> a \<and> nat a < i then meaning cs (nat a) else SBad)"

lemma meaning_cell: "i < length cs \<Longrightarrow> meaning cs i = sem_cell (cs ! i) (int i) (sub_meaning cs i)"
  by (subst meaning.simps) (simp add: sub_meaning_def [abs_def])

lemma sub_meaning_child: "is_child a k cnt \<Longrightarrow> sub_meaning cs k a = meaning cs (nat a)"
  using is_childD by (simp add: sub_meaning_def)

text \<open>A type descriptor whose values would be proofs of an equation, or functions that end in
  one.\<close>

inductive eqish :: "reference_tables \<Rightarrow> descriptor \<Rightarrow> bool" for t where
  eqish_eq: "eqish t (4, a, b)"
| eqish_pi: "eqish t (denote (rtag t ! nat b) (rr0 t ! nat b) (rr1 t ! nat b)) \<Longrightarrow> eqish t (3, a, b)"

inductive_cases eqish_piE: "eqish t (3, a, b)"

lemma eqish_pi_iff [simp]:
  "eqish t (3, a, b) \<longleftrightarrow> eqish t (denote (rtag t ! nat b) (rr0 t ! nat b) (rr1 t ! nat b))"
  by (auto elim: eqish_piE intro: eqish_pi)

lemma not_eqish [simp]: "\<not> eqish t (0, a, b)" "\<not> eqish t (1, a, b)" "\<not> eqish t (2, a, b)"
  by (auto elim: eqish.cases)

definition row_sound :: "reference_tables \<Rightarrow> proof_cell list \<Rightarrow> nat \<Rightarrow> reference_row \<Rightarrow> bool" where
  "row_sound t cs i row \<longleftrightarrow>
     row_tag row = tag_code (cell_tag (cs ! i)) \<and>
     (0 \<le> row_nval row \<longrightarrow> meaning cs i = SNat (nat (row_nval row))) \<and>
     meaning cs (nat (row_rep row)) = meaning cs i \<and>
     (row_mentions row = 0 \<longrightarrow> \<not> eqish t (row_t0 row, row_t1 row, row_t2 row)) \<and>
     (row_tag row = 11 \<longrightarrow> (\<exists>c. meaning cs i =
        SEq c (meaning cs (nat (row_r1 row))) (meaning cs (nat (row_r2 row)))))"

lemma make_row_sound:
  "row_sound t cs k (make_row tag [a, b, c, d] rp v m triple local) \<longleftrightarrow>
     tag = tag_code (cell_tag (cs ! k)) \<and>
     (0 \<le> v \<longrightarrow> meaning cs k = SNat (nat v)) \<and> meaning cs (nat rp) = meaning cs k \<and>
     (m = 0 \<longrightarrow> \<not> eqish t triple) \<and>
     (tag = 11 \<longrightarrow> (\<exists>u. meaning cs k = SEq u (meaning cs (nat b)) (meaning cs (nat c))))"
  by (cases triple) (simp add: row_sound_def make_row_def)

definition sound_upto :: "nat \<Rightarrow> reference_tables \<Rightarrow> proof_cell list \<Rightarrow> bool" where
  "sound_upto k t cs \<longleftrightarrow> (\<forall>i<k. row_sound t cs i (row_at t i))"

lemma sound_row:
  assumes "sound_upto k t cs" and "i < k"
  shows "rtag t ! i = tag_code (cell_tag (cs ! i))"
    and "0 \<le> nval t ! i \<Longrightarrow> meaning cs i = SNat (nat (nval t ! i))"
    and "meaning cs (nat (rep t ! i)) = meaning cs i"
    and "mentions t ! i = 0 \<Longrightarrow> \<not> eqish t (tt0 t ! i, tt1 t ! i, tt2 t ! i)"
    and "rtag t ! i = 11 \<Longrightarrow> \<exists>c. meaning cs i =
        SEq c (meaning cs (nat (rr1 t ! i))) (meaning cs (nat (rr2 t ! i)))"
  using assms by (auto simp: sound_upto_def row_sound_def row_at_def)

lemma sound_child:
  assumes "sound_upto k t cs" and "is_child a k cnt"
  shows "0 \<le> nval t ! nat a \<Longrightarrow> sub_meaning cs k a = SNat (nat (nval t ! nat a))"
    and "meaning cs (nat (rep t ! nat a)) = sub_meaning cs k a"
    and "mentions t ! nat a = 0 \<Longrightarrow> \<not> eqish t (tt0 t ! nat a, tt1 t ! nat a, tt2 t ! nat a)"
  using sound_row [OF assms(1), of "nat a"] is_childD [OF assms(2)] by (auto simp: sub_meaning_child [OF assms(2)])

abbreviation passes_soundly :: "reference_tables \<Rightarrow> proof_cell list \<Rightarrow> nat \<Rightarrow> reference_row \<Rightarrow> bool" where
  "passes_soundly t cs k row \<equiv> row_local row = Pass \<longrightarrow> row_sound t cs k row"

lemma make_row_local [simp]: "row_local (make_row tag r rp v m triple local) = local"
  by (simp add: make_row_def)

lemma make_row_soundI:
  assumes "tag = tag_code (cell_tag (cs ! k))"
    and "local = Pass \<Longrightarrow> 0 \<le> v \<Longrightarrow> meaning cs k = SNat (nat v)"
    and "local = Pass \<Longrightarrow> meaning cs (nat rp) = meaning cs k"
    and "local = Pass \<Longrightarrow> m = 0 \<Longrightarrow> \<not> eqish t triple"
    and "local = Pass \<Longrightarrow> tag = 11 \<Longrightarrow> \<exists>u. meaning cs k = SEq u (meaning cs (nat b)) (meaning cs (nat c))"
  shows "passes_soundly t cs k (make_row tag [a, b, c, d] rp v m triple local)"
  using assms by (simp add: make_row_sound)

lemma rule_simple_sound:
  assumes "k < length cs" 
  shows "cell_tag (cs ! k) = Universe \<Longrightarrow> holds (passes_soundly t cs k) (rule_universe t (cs ! k) cnt k)" 
    "cell_tag (cs ! k) = Nat \<Longrightarrow> holds (passes_soundly t cs k) (rule_nat t (cs ! k) cnt k)"
    "cell_tag (cs ! k) = Zero \<Longrightarrow> holds (passes_soundly t cs k) (rule_zero t (cs ! k) cnt k)"
    "holds (passes_soundly t cs k) (rule_unsupported t (cs ! k) cnt k)"
  using meaning_cell [OF assms]
  by (simp_all add: rule_universe_def rule_nat_def rule_zero_def rule_unsupported_def holds_def
      make_row_sound Let_def sem_cell_def)

lemma nested_Pass: "(if a then Fail else if b then Unknown else Pass) = Pass \<longleftrightarrow> \<not> a \<and> \<not> b"
  by simp

lemma rule_succ_sound:
  assumes "wf_tables w k t" and "k \<le> w" "k < 16" and s: "sound_upto k t cs"
    and k: "k < length cs" "cell_tag (cs ! k) = Succ"
  shows "holds (passes_soundly t cs k) (rule_succ t (cs ! k) cnt k)"
proof -
  have kb: "(2::int) ^ k \<le> 2 ^ 16" using assms(3) by (intro power_increasing) auto
  show ?thesis
    unfolding rule_succ_def Let_def
    by (intro holds_bind holds_Some child_reads [OF assms(1,2)] holds_if holds_add make_row_soundI)
       (use k(2) kb in \<open>auto simp: meaning_cell [OF k(1)] sem_cell_def sound_child(1) [OF s, where cnt = cnt] nat_add_distrib\<close>)
qed

lemma rule_plus_sound:
  assumes "wf_tables w k t" and "k \<le> w" "k < 16" and s: "sound_upto k t cs"
    and k: "k < length cs" "cell_tag (cs ! k) = Plus"
  shows "holds (passes_soundly t cs k) (rule_plus t (cs ! k) cnt k)"
proof -
  have kb: "(2::int) ^ k \<le> 2 ^ 16" using assms(3) by (intro power_increasing) auto
  show ?thesis
    unfolding rule_plus_def Let_def
    by (intro holds_bind holds_Some child_reads [OF assms(1,2)] holds_read_mentioned [OF assms(1,2)]
          holds_if holds_add make_row_soundI;
       (use k(2) kb in \<open>simp add: meaning_cell [OF k(1)] sem_cell_def sound_child(1) [OF s, where cnt = cnt] nat_add_distrib is_childD\<close>)?)
qed

lemma rule_var_sound:
  assumes "wf_tables w k t" and "k \<le> w" and "k < length cs" "cell_tag (cs ! k) = Var"
    and "rule_var t (cs ! k) cnt k = Some row"
  shows "passes_soundly t cs k row"
  using assms(4,5) 
  by (auto simp: rule_var_def Let_def bind_eq_Some_conv make_row_sound meaning_cell)

lemma rule_pi_sound:
  assumes "wf_tables w k t" and "k \<le> w"
    and k: "k < length cs" "cell_tag (cs ! k) = Pi"
  shows "holds (passes_soundly t cs k) (rule_pi t (cs ! k) cnt k)"
    unfolding rule_pi_def Let_def
    by (intro holds_bind holds_Some child_reads [OF assms(1,2)] holds_read_mentioned [OF assms(1,2)]
          make_row_soundI;
       (use k(2) in \<open>simp add: is_childD\<close>)?)

lemma rule_lambda_sound:
  assumes "wf_tables w k t" and "k \<le> w" and s: "sound_upto k t cs"
    and k: "k < length cs" "cell_tag (cs ! k) = Lambda"
  shows "holds (passes_soundly t cs k) (rule_lambda t (cs ! k) cnt k)"
    unfolding rule_lambda_def Let_def
    by (intro holds_bind holds_Some child_reads [OF assms(1,2)] holds_read_mentioned [OF assms(1,2)]
          make_row_soundI;
       (use k(2) in \<open>simp add: is_childD sound_child(3) [OF s, where cnt = cnt]\<close>)?)

lemma rule_apply_sound:
  assumes "wf_tables w k t" and "k \<le> w" and s: "sound_upto k t cs"
    and k: "k < length cs" "cell_tag (cs ! k) = Apply"
  shows "holds (passes_soundly t cs k) (rule_apply t (cs ! k) cnt k)"
    unfolding rule_apply_def Let_def
    by (intro holds_bind holds_Some child_reads [OF assms(1,2)] holds_read_mentioned [OF assms(1,2)]
          make_row_soundI;
       (use k(2) sound_child(3) [OF s, of "arg0 (cs ! k)" cnt] in \<open>simp add: is_childD nested_Pass\<close>)?)


lemma elim_row_soundI:
  assumes "cell_tag (cs ! k) = NatElim"
    and "\<not> A \<Longrightarrow> \<not> B \<Longrightarrow> (0 \<le> v \<longrightarrow> meaning cs k = SNat (nat v)) \<and>
      meaning cs (nat rp) = meaning cs k \<and> (m = 0 \<longrightarrow> \<not> eqish t triple)"
    and "local = (if A then Fail else if B then Unknown else Pass)"
  shows "passes_soundly t cs k (make_row 10 [a, b, c, d] (if local = Pass then rp else r')
    (if local = Pass then v else v') (if local = Pass then m else m')
    (if local = Pass then triple else (0, 0, 0)) local)"
  using assms by (auto simp: make_row_sound)

lemma elim_premises:
  "\<not> (\<not> (p0 \<and> p1 \<and> p2 \<and> p3) \<or> q \<or> \<not> (m \<and> d = e \<and> r)) \<Longrightarrow> p1 \<and> p3 \<and> d = e"
  by blast

lemma rule_nat_elim_sound:
  assumes "wf_tables w k t" and "k \<le> w" and s: "sound_upto k t cs"
    and k: "k < length cs" "cell_tag (cs ! k) = NatElim"
  shows "holds (passes_soundly t cs k) (rule_nat_elim t (cs ! k) cnt k)"
proof -
  have zero: "meaning cs k = sub_meaning cs k (arg1 (cs ! k))"
    if "is_child (arg3 (cs ! k)) k cnt" "nval t ! nat (arg3 (cs ! k)) = 0"
    using sound_child(1) [OF s that(1)] that(2) by (simp add: meaning_cell [OF k(1)] sem_cell_def sem_elim_def k(2))
  note z = sound_child [OF s, of "arg1 (cs ! k)" cnt]
  show ?thesis
    unfolding rule_nat_elim_def Let_def
    by (intro holds_bind holds_Some child_reads [OF assms(1,2)] elim_row_soundI [OF k(2) _ refl];
        (drule elim_premises, simp add: z zero | simp add: is_childD))
qed

lemma rule_eq_sound:
  assumes "wf_tables w k t" and "k \<le> w" and s: "sound_upto k t cs"
    and k: "k < length cs" "cell_tag (cs ! k) = Eq"
  shows "holds (passes_soundly t cs k) (rule_eq t (cs ! k) cnt k)"
    unfolding rule_eq_def Let_def
    by (intro holds_bind holds_Some child_reads [OF assms(1,2)] holds_read_mentioned [OF assms(1,2)]
          make_row_soundI;
       (use k(2) in \<open>simp add: is_childD sound_child(2) [OF s, where cnt = cnt] meaning_cell [OF k(1)]
          sem_cell_def\<close>)?)

lemma rule_refl_sound:
  assumes "wf_tables w k t" and "k \<le> w" and k: "k < length cs" "cell_tag (cs ! k) = Refl"
  shows "holds (passes_soundly t cs k) (rule_refl t (cs ! k) cnt k)"
    unfolding rule_refl_def Let_def
    by (intro holds_bind holds_Some child_reads [OF assms(1,2)] holds_read_mentioned [OF assms(1,2)]
          make_row_soundI;
       (use k(2) in \<open>simp add: is_childD\<close>)?)

lemma reference_rule_sound:
  assumes "wf_tables w k t" and "k \<le> w" "k < 16" and "sound_upto k t cs" and "k < length cs"
    and row: "reference_rule (cell_tag (cs ! k)) t (cs ! k) cnt k = Some row"
  shows "passes_soundly t cs k row"
proof -
  have "holds (passes_soundly t cs k) (reference_rule (cell_tag (cs ! k)) t (cs ! k) cnt k)"
  proof (cases "cell_tag (cs ! k) = Var")
    case True
    then show ?thesis using rule_var_sound [OF assms(1,2,5) True] row by (simp add: holds_def)
  next
    case False
    then show ?thesis
      using assms(1-5) rule_simple_sound [OF assms(5)]
      by (cases "cell_tag (cs ! k)")
         (simp_all add: rule_pi_sound rule_lambda_sound rule_apply_sound rule_succ_sound
            rule_plus_sound rule_nat_elim_sound rule_eq_sound rule_refl_sound)
  qed
  then show ?thesis using row by (simp add: holds_def)
qed

lemma commit_nth:
  assumes "wf_tables w n t" and "k < w" and "i \<noteq> k"
  shows "rtag (commit t k row) ! i = rtag t ! i" "rr0 (commit t k row) ! i = rr0 t ! i"
    "rr1 (commit t k row) ! i = rr1 t ! i"
  using assms by (simp_all add: commit_def)

text \<open>A later row does not change what the descriptors of earlier rows denote.\<close>

lemma eqish_commit:
  assumes wf: "wf_tables w k t" and "k < w"
    and "eqish (commit t k row) d" and "fst d = 3 \<Longrightarrow> index_below k (snd (snd d))"
  shows "eqish t d"
  using assms(3,4)
proof (induction rule: eqish.induct)
  case (eqish_eq a b)
  show ?case by (rule eqish.eqish_eq)
next
  case (eqish_pi b a)
  let ?d = "denote (rtag t ! nat b) (rr0 t ! nat b) (rr1 t ! nat b)"
  have b: "index_below k b" using eqish_pi.prems by simp
  then have lt: "nat b < k" by (simp add: index_belowD2)
  have d: "denote (rtag (commit t k row) ! nat b) (rr0 (commit t k row) ! nat b)
      (rr1 (commit t k row) ! nat b) = ?d"
    using lt commit_nth [OF wf assms(2)] by simp
  have "index_below k (snd (snd ?d))" if "fst ?d = 3"
    using that wf_denote(2) [OF wf lt] by (cases ?d) auto
  then have "eqish t ?d" using eqish_pi.IH d by simp
  then show ?case by simp
qed

lemma row_sound_commit:
  assumes "wf_tables w k t" and "k < w" and "row_sound t cs i row'"
    and "row_t0 row' = 3 \<Longrightarrow> index_below k (row_t2 row')"
  shows "row_sound (commit t k row) cs i row'"
  using assms(3,4) eqish_commit [OF assms(1,2), of row "(row_t0 row', row_t1 row', row_t2 row')"]
  by (auto simp: row_sound_def)

lemma sound_commit:
  assumes wf: "wf_tables w k t" and "k < w" "row_wf k row" and "sound_upto k t cs" and "row_sound t cs k row"
  shows "sound_upto (Suc k) (commit t k row) cs"
  unfolding sound_upto_def
proof (intro allI impI)
  fix i assume "i < Suc k"
  then consider "i < k" | "i = k" by linarith
  then show "row_sound (commit t k row) cs i (row_at (commit t k row) i)"
  proof cases
    case 1
    then have "row_sound t cs i (row_at t i)" "row_wf i (row_at t i)"
      using assms(4) wf by (simp_all add: sound_upto_def wf_tables_def)
    with 1 show ?thesis
      using row_at_commit [OF wf assms(2), of row i] row_sound_commit [OF wf assms(2), of cs i "row_at t i" row]
      by (auto simp: row_wf_def index_below_def)
  next
    case 2
    have "row_sound t cs k (row\<lparr>row_local := Pass\<rparr>)"
      using assms(5) by (simp add: row_sound_def)
    moreover have "row_t0 row = 3 \<Longrightarrow> index_below k (row_t2 row)"
      using assms(3) by (simp add: row_wf_def)
    ultimately show ?thesis
      using 2 row_at_commit [OF wf assms(2), of row k] row_sound_commit [OF wf assms(2), of cs k "row\<lparr>row_local := Pass\<rparr>" row]
      by simp
  qed
qed

text \<open>Passing tables are sound.\<close>

lemma run_reference_sound:
  assumes "cnt \<le> length cs" "cnt \<le> 16"
  shows "holds (\<lambda>t. wf_tables (max cnt 1) cnt t \<and> (status t = Pass \<longrightarrow> sound_upto cnt t cs))
    (run_reference (fresh (max cnt 1)) cs cnt [0..<cnt])"
proof (rule run_reference_induct)
  show "status (fresh (max cnt 1)) = Pass \<longrightarrow> sound_upto 0 (fresh (max cnt 1)) cs"
    by (simp add: sound_upto_def)
next
  fix k t row
  assume k: "k < cnt" and wf: "wf_tables (max cnt 1) k t" and I: "status t = Pass \<longrightarrow> sound_upto k t cs"
    and row: "row_wf k row" "reference_rule (cell_tag (cs ! k)) t (cs ! k) cnt k = Some row"
  have w: "k < max cnt 1" using k by simp
  show "status (commit t k row) = Pass \<longrightarrow> sound_upto (Suc k) (commit t k row) cs"
  proof
    assume "status (commit t k row) = Pass"
    then have p: "status t = Pass" "row_local row = Pass" by (simp_all add: commit_def verdict_simps)
    then have "row_sound t cs k row"
      using reference_rule_sound [OF wf _ _ _ _ row(2)] I k assms by simp
    then show "sound_upto (Suc k) (commit t k row) cs"
      using sound_commit [OF wf w row(1)] I p(1) by simp
  qed
qed (use assms in auto)

lemma pass_equation_sound:
  assumes "reference_check artifact = Some Pass"
    and "meaning (cells artifact) (proposition_index artifact) = SEq carrier left right"
  shows "left = right"
proof -
  define cs cnt p q where d: "cs = cells artifact" "cnt = cell_count artifact"
    "p = proof_index artifact" "q = proposition_index artifact"
  have bounds: "cnt \<le> length cs" "cnt \<le> 16"
    using assms(1) by (auto simp: reference_check_def d split: if_splits)
  obtain t where t: "wf_tables (max cnt 1) cnt t" "status t = Pass \<Longrightarrow> sound_upto cnt t cs"
    "run_reference (fresh (max cnt 1)) cs cnt [0..<cnt] = Some t"
    using run_reference_sound [OF bounds] by (auto simp: holds_def)
  let ?good = "\<lambda>v. v = Pass \<longrightarrow> status t = Pass \<and> p < cnt \<and> q < cnt \<and> mentions t ! p \<le> 0 \<and>
        (\<exists>r < cnt. r = as_usize (rep t ! q) \<and> fst (denote (rtag t ! r) (rr0 t ! r) (rr1 t ! r)) \<noteq> 0 \<and>
          (equation_holds t cnt r \<or>
           (tt0 t ! p, tt1 t ! p, tt2 t ! p) = denote (rtag t ! r) (rr0 t ! r) (rr1 t ! r)))"
  have "holds ?good (settle_claim t cnt p q)"
    by (rule holds_settle_claim [OF t(1) refl bounds(2)]) simp
  moreover have "settle_claim t cnt p q = Some Pass"
    using assms(1) bounds t(3) by (simp add: reference_check_def d split: if_splits)
  ultimately obtain r where r: "status t = Pass" "p < cnt" "q < cnt" "mentions t ! p \<le> 0" "r < cnt"
      "r = as_usize (rep t ! q)" "fst (denote (rtag t ! r) (rr0 t ! r) (rr1 t ! r)) \<noteq> 0"
      "equation_holds t cnt r \<or>
        (tt0 t ! p, tt1 t ! p, tt2 t ! p) = denote (rtag t ! r) (rr0 t ! r) (rr1 t ! r)"
    by (auto simp: holds_def)
  note s = sound_row [OF t(2) [OF r(1)]] and wfr = wf_row [OF t(1)]
  have r_eq: "r = nat (rep t ! q)" using r(3,6) bounds(2) wfr(1) [OF r(3)] by (simp add: as_usize_index)
  have eq: "meaning cs r = SEq carrier left right"
    using s(3) [OF r(3)] assms(2) by (simp add: r_eq d)
  have "rtag t ! r = 11"
    using r(7) eq s(1) [OF r(5)] bounds r(5) meaning_cell [of r cs]
    by (cases "cell_tag (cs ! r)") (auto simp: denote_def sem_cell_def)
  note tag = this
  have sides: "left = meaning cs (nat (rr1 t ! r))" "right = meaning cs (nat (rr2 t ! r))"
    using s(5) [OF r(5) tag] eq by auto
  from r(8) show ?thesis
  proof
    assume "equation_holds t cnt r"
    then obtain witness where wit: "witness < cnt"
      "\<forall>side \<in> {as_usize (rr1 t ! r), as_usize (rr2 t ! r)}. side < cnt \<and>
        (rep t ! side = rep t ! witness \<or> 0 \<le> nval t ! side \<and> nval t ! side = nval t ! witness)"
      by (auto simp: equation_holds_def)
    have same: "meaning cs side = meaning cs witness"
      if "side \<in> {as_usize (rr1 t ! r), as_usize (rr2 t ! r)}" for side
      using wit that s(2,3) by metis
    have "as_usize (rr1 t ! r) = nat (rr1 t ! r)" "as_usize (rr2 t ! r) = nat (rr2 t ! r)"
      using wfr(3,4) [OF r(5)] tag r(5) bounds(2) by (simp_all add: as_usize_index)
    then show ?thesis using same sides by simp
  next
    assume "(tt0 t ! p, tt1 t ! p, tt2 t ! p) = denote (rtag t ! r) (rr0 t ! r) (rr1 t ! r)"
    then have "eqish t (tt0 t ! p, tt1 t ! p, tt2 t ! p)"
      by (simp add: tag denote_def eqish.eqish_eq)
    moreover have "mentions t ! p = 0" using r(4) wfr(9) [OF r(2)] by auto
    ultimately show ?thesis using s(4) [OF r(2)] by simp
  qed
qed

text \<open>Property C1.  Soundness for equations: when the reference checker passes an artifact whose
  proposition means an equation, the two sides of the equation have the same meaning.  In
  particular two sides that are closed numerals are the same number.\<close>

theorem reference_check_sound:
  assumes "reference_check artifact = Some Pass"
    and "meaning (cells artifact) (proposition_index artifact) = SEq carrier left right"
  shows "left = right"
  by (rule pass_equation_sound [OF assms])

text \<open>\<open>Z + 1 = 1\<close> by reflexivity.\<close>

definition plus_cells :: "proof_cell list" where
  "plus_cells = [mk_cell Nat [0, 0, 0, 0], mk_cell Zero [0, 0, 0, 0], mk_cell Succ [1, 0, 0, 0],
     mk_cell Plus [1, 2, 0, 0], mk_cell Eq [0, 3, 2, 0], mk_cell Refl [2, 4, 0, 0]]"

definition mk_artifact :: "proof_cell list \<Rightarrow> nat \<Rightarrow> nat \<Rightarrow> proof_artifact" where
  "mk_artifact cs p q = \<lparr>schema_version = ''0.1'', artifact_identity = [], kernel = [],
     obligation = [], assumptions = [], dependencies = [], cells = cs, cell_count = length cs,
     proof_index = p, proposition_index = q\<rparr>"

lemma plus_cells_pass: "reference_check (mk_artifact plus_cells 5 4) = Some Pass"
  by code_simp

lemma plus_cells_meaning: "meaning plus_cells 4 = SEq (SNode Nat 0 []) (SNat (0 + 1)) (SNat 1)"
  by code_simp

theorem reference_check_sound_witness:
  "reference_check (mk_artifact plus_cells 5 4) = Some Pass \<and> SNat (0 + 1) = SNat 1"
  using reference_check_sound [OF plus_cells_pass, of "SNode Nat 0 []" "SNat (0 + 1)" "SNat 1"]
    plus_cells_pass plus_cells_meaning
  by (simp add: mk_artifact_def)

subsection \<open>What never passes\<close>

text \<open>An unsupported cell in the active prefix keeps an artifact from passing, wherever
  it stands and whether or not the proof refers to it.\<close>

theorem unsupported_never_passes:
  assumes "i < cell_count artifact" and "cell_tag (cells artifact ! i) = Unsupported"
  shows "reference_check artifact \<noteq> Some Pass"
proof
  assume pass: "reference_check artifact = Some Pass"
  define cs cnt where d: "cs = cells artifact" "cnt = cell_count artifact"
  have bounds: "cnt \<le> length cs" "cnt \<le> 16"
    using pass by (auto simp: reference_check_def d split: if_splits)
  have "holds (\<lambda>t. wf_tables (max cnt 1) cnt t \<and>
      (status t = Pass \<longrightarrow> (\<forall>j<cnt. cell_tag (cs ! j) \<noteq> Unsupported)))
    (run_reference (fresh (max cnt 1)) cs cnt [0..<cnt])"
    by (rule run_reference_induct)
       (use bounds in \<open>auto simp: commit_def verdict_simps less_Suc_eq rule_unsupported_def\<close>)
  then obtain t where t: "wf_tables (max cnt 1) cnt t"
    "status t = Pass \<Longrightarrow> \<forall>j<cnt. cell_tag (cs ! j) \<noteq> Unsupported"
    "run_reference (fresh (max cnt 1)) cs cnt [0..<cnt] = Some t"
    by (auto simp: holds_def)
  have "holds (\<lambda>v. v = Pass \<longrightarrow> status t = Pass)
      (settle_claim t cnt (proof_index artifact) (proposition_index artifact))"
    by (rule holds_settle_claim [OF t(1) refl bounds(2)]) simp
  then have "status t = Pass"
    using pass bounds t(3) by (auto simp: reference_check_def d holds_def split: if_splits)
  then show False using t(2) assms by (simp add: d)
qed

theorem unsupported_never_passes_witness:
  "reference_check (mk_artifact (plus_cells @ [mk_cell Unsupported [0, 0, 0, 0]]) 5 4) \<noteq> Some Pass"
  using unsupported_never_passes [of 6 "mk_artifact (plus_cells @ [mk_cell Unsupported [0, 0, 0, 0]]) 5 4"]
  by (simp add: mk_artifact_def plus_cells_def mk_cell_def)

text \<open>Whether a meaning contains a variable.\<close>

fun has_variable :: "sem \<Rightarrow> bool" where
  "has_variable (SNat n) = False"
| "has_variable (SEq c l r) = (has_variable c \<or> has_variable l \<or> has_variable r)"
| "has_variable (SNode tag n children) = (tag = Var \<or> list_ex has_variable children)"
| "has_variable SBad = False"

text \<open>\<open>\<lambda>x : X. 0\<close> as a proof of \<open>X \<rightarrow> Nat\<close>, where \<open>X\<close> (cell 3) is a free variable ranging over types.\<close>

definition open_cells :: "proof_cell list" where
  "open_cells = [mk_cell Universe [0, 0, 0, 0], mk_cell Nat [0, 0, 0, 0], mk_cell Pi [0, 1, 0, 0],
     mk_cell Var [2, 0, 0, 0], mk_cell Pi [3, 1, 0, 0], mk_cell Zero [0, 0, 0, 0],
     mk_cell Lambda [3, 5, 4, 0]]"

text \<open>The open-term check looks at a lambda's body only: a proof term in which a variable
  occurs in the domain of a lambda passes.\<close>

theorem open_proof_passes:
  "reference_check (mk_artifact open_cells 6 4) = Some Pass \<and> has_variable (meaning open_cells 6)"
proof
  show "reference_check (mk_artifact open_cells 6 4) = Some Pass" by code_simp
  show "has_variable (meaning open_cells 6)" by code_simp
qed

end
