(* ===== verification/Machine_Promise.thy ===== *)
theory Machine_Promise
  imports Proof_Kernel Machine_Int
begin

text \<open>
  Capabilities, obligations and backend promises, from the second half of
  \<open>crates/mncs-model/src/machine_intent.rs\<close>, and the sealing of proof artifacts and their
  bindings from \<open>proof_kernel.rs\<close>, which promise certificates consume.

  The JSON serializer and SHA-256 are parameters: a digest is a function from the material the
  identity covers to a string.
\<close>

section \<open>Obligations and capabilities\<close>

datatype obligation_status = ObPass | ObFail | ObUnknown

datatype evidence_freshness = FrCurrent | FrStale | FrUnknown

record obligation_fact =
  ob_identity :: semantic_id
  ob_subject :: semantic_id
  ob_requirement :: semantic_id
  ob_status :: obligation_status
  ob_freshness :: evidence_freshness
  ob_method :: string

record alignment_capability =
  al_identity :: semantic_id
  al_subject :: semantic_id
  al_scope :: string
  al_alignment :: nat
  al_evidence :: obligation_fact

definition alignment_permits :: "alignment_capability \<Rightarrow> semantic_id \<Rightarrow> string \<Rightarrow> nat \<Rightarrow> bool" where
  "alignment_permits c subject scope required \<longleftrightarrow>
     al_subject c = subject \<and> al_scope c = scope \<and> required \<le> al_alignment c \<and>
     ob_subject (al_evidence c) = subject \<and> ob_freshness (al_evidence c) = FrCurrent \<and>
     ob_status (al_evidence c) = ObPass"

record memory_range =
  mr_region :: semantic_id
  mr_epoch :: semantic_id
  mr_start :: nat
  mr_end :: nat

record disjoint_capability =
  dj_identity :: semantic_id
  dj_left :: memory_range
  dj_right :: memory_range
  dj_scope :: string
  dj_evidence :: obligation_fact

definition disjoint_permits :: "disjoint_capability \<Rightarrow> memory_range \<Rightarrow> memory_range \<Rightarrow> string \<Rightarrow> bool" where
  "disjoint_permits c left right scope \<longleftrightarrow>
     ((dj_left c = left \<and> dj_right c = right) \<or> (dj_left c = right \<and> dj_right c = left)) \<and>
     dj_scope c = scope \<and> ob_subject (dj_evidence c) = dj_identity c \<and>
     ob_freshness (dj_evidence c) = FrCurrent \<and> ob_status (dj_evidence c) = ObPass"

definition separated :: "memory_range \<Rightarrow> memory_range \<Rightarrow> bool" where
  "separated left right \<longleftrightarrow>
     mr_start left \<le> mr_end left \<and> mr_start right \<le> mr_end right \<and>
     mr_region left = mr_region right \<and> mr_epoch left = mr_epoch right \<and>
     (mr_end left \<le> mr_start right \<or> mr_end right \<le> mr_start left)"

definition disjoint_identity :: "memory_range \<Rightarrow> memory_range \<Rightarrow> semantic_id" where
  "disjoint_identity left right =
     ''mncs:capability:disjoint:'' @ mr_region left @ '':'' @ mr_epoch left @ '':'' @
     show_nat (mr_start left) @ '':'' @ show_nat (mr_end left) @ '':'' @ show_nat (mr_start right)"

definition derive_static :: "memory_range \<Rightarrow> memory_range \<Rightarrow> string \<Rightarrow> disjoint_capability" where
  "derive_static left right scope =
     (let identity = disjoint_identity left right in
      \<lparr>dj_identity = identity, dj_left = left, dj_right = right, dj_scope = scope,
       dj_evidence =
         \<lparr>ob_identity = identity @ '':evidence'', ob_subject = identity,
          ob_requirement = identity @ '':requirement'',
          ob_status = (if separated left right then ObPass else ObFail),
          ob_freshness = FrCurrent,
          ob_method = ''exact-static-half-open-range-separation-v0.1''\<rparr>\<rparr>)"


section \<open>Lowering to the high-level IR node\<close>

record named_fact =
  nf_identity :: semantic_id
  nf_statement :: string

record scoped_fact =
  sf_identity :: semantic_id
  sf_subject :: semantic_id
  sf_scope :: string
  sf_statement :: string

record requirement_fact =
  rq_identity :: semantic_id
  rq_subject :: semantic_id
  rq_statement :: string

record machine_intent_expression =
  me_operation :: integer_operation
  me_intent :: named_fact
  me_preferences :: "named_fact list"
  me_facts :: "scoped_fact list"
  me_requirements :: "requirement_fact list"
  me_obligations :: "obligation_fact list"

record high_level_ir_node =
  hl_operation_identity :: semantic_id
  hl_operation :: integer_operation
  hl_intent_identity :: semantic_id
  hl_fact_identities :: "semantic_id list"
  hl_requirement_identities :: "semantic_id list"
  hl_obligation_identities :: "semantic_id list"

definition lower_to_high_level_ir ::
  "(integer_operation \<Rightarrow> semantic_id) \<Rightarrow> machine_intent_expression \<Rightarrow> high_level_ir_node" where
  "lower_to_high_level_ir operation_identity e =
     \<lparr>hl_operation_identity = operation_identity (me_operation e), hl_operation = me_operation e,
      hl_intent_identity = nf_identity (me_intent e),
      hl_fact_identities = map sf_identity (me_facts e),
      hl_requirement_identities = map rq_identity (me_requirements e),
      hl_obligation_identities = map ob_identity (me_obligations e)\<rparr>"


section \<open>Sealed proof artifacts and their bindings\<close>

definition proof_kernel_id :: string where
  "proof_kernel_id = ''mncs:proof-kernel:0.1''"

definition proof_digest :: "(proof_artifact \<Rightarrow> string) \<Rightarrow> proof_artifact \<Rightarrow> semantic_id" where
  "proof_digest sha material = ''mncs:proof:'' @ sha material"

definition blank_identity :: "proof_artifact \<Rightarrow> proof_artifact" where
  "blank_identity a = a\<lparr>artifact_identity := []\<rparr>"

definition seal :: "(proof_artifact \<Rightarrow> string) \<Rightarrow> proof_artifact \<Rightarrow> proof_artifact" where
  "seal sha a = a\<lparr>artifact_identity := proof_digest sha (blank_identity a)\<rparr>"

definition artifact_new ::
  "(proof_artifact \<Rightarrow> string) \<Rightarrow> string \<Rightarrow> semantic_id \<Rightarrow> semantic_id list \<Rightarrow> semantic_id list \<Rightarrow>
   proof_cell list \<Rightarrow> nat \<Rightarrow> nat \<Rightarrow> nat \<Rightarrow> proof_artifact" where
  "artifact_new sha krn oblig assms deps cs cnt prf prop =
     seal sha \<lparr>schema_version = ''0.1'', artifact_identity = [], kernel = krn, obligation = oblig,
       assumptions = sort_dedup assms, dependencies = sort_dedup deps, cells = cs, cell_count = cnt,
       proof_index = prf, proposition_index = prop\<rparr>"

definition identity_is_valid :: "(proof_artifact \<Rightarrow> string) \<Rightarrow> proof_artifact \<Rightarrow> bool" where
  "identity_is_valid sha a \<longleftrightarrow>
     schema_version a = ''0.1'' \<and> artifact_identity a \<noteq> [] \<and>
     artifact_identity a = proof_digest sha (blank_identity a)"

record proof_binding =
  pb_proof :: semantic_id
  pb_kernel :: string
  pb_obligation :: semantic_id
  pb_assumptions :: "semantic_id list"
  pb_dependencies :: "semantic_id \<rightharpoonup> string"
  pb_outcome :: proof_verdict

definition bind_artifact ::
  "(proof_artifact \<Rightarrow> string) \<Rightarrow> proof_artifact \<Rightarrow> (semantic_id \<rightharpoonup> string) \<Rightarrow> proof_binding option" where
  "bind_artifact sha a deps =
     (if \<not> identity_is_valid sha a \<or> kernel a \<noteq> proof_kernel_id then None
      else if reference_check a \<noteq> Some Pass then None
      else Some \<lparr>pb_proof = artifact_identity a, pb_kernel = kernel a, pb_obligation = obligation a,
        pb_assumptions = sort_dedup (assumptions a), pb_dependencies = deps, pb_outcome = Pass\<rparr>)"

definition reusable_if ::
  "proof_binding \<Rightarrow> semantic_id \<Rightarrow> string \<Rightarrow> semantic_id \<Rightarrow> semantic_id list \<Rightarrow>
   (semantic_id \<rightharpoonup> string) \<Rightarrow> proof_verdict \<Rightarrow> bool" where
  "reusable_if b prf krn oblig assms deps outcome \<longleftrightarrow>
     pb_proof b = prf \<and> pb_kernel b = krn \<and> pb_obligation b = oblig \<and>
     pb_assumptions b = sort_dedup assms \<and> pb_dependencies b = deps \<and>
     pb_outcome b = outcome \<and> pb_outcome b = Pass"

section \<open>Backend promises\<close>

datatype backend_promise =
  NoOverflow | Alignment | InBounds | NonAliasing | TrappingArithmetic | WrappingArithmetic |
  Relaxation | BranchlessRealization

record promise_certificate =
  ce_schema :: string
  ce_identity :: semantic_id
  ce_promise :: backend_promise
  ce_selected_ssa :: semantic_id
  ce_subject :: semantic_id
  ce_obligation :: semantic_id
  ce_verifier :: semantic_id
  ce_method :: string
  ce_dependencies :: "semantic_id list"
  ce_proof_identity :: "semantic_id option"

type_synonym certificate_material =
  "backend_promise \<times> semantic_id \<times> semantic_id \<times> semantic_id \<times> semantic_id \<times> string \<times>
   semantic_id list \<times> semantic_id option"

definition certificate_material :: "promise_certificate \<Rightarrow> certificate_material" where
  "certificate_material c =
     (ce_promise c, ce_selected_ssa c, ce_subject c, ce_obligation c, ce_verifier c, ce_method c,
      ce_dependencies c, ce_proof_identity c)"

definition certificate_digest :: "(certificate_material \<Rightarrow> string) \<Rightarrow> certificate_material \<Rightarrow> semantic_id" where
  "certificate_digest sha m = ''mncs:0.5:backend-promise-certificate:'' @ sha m"

definition expected_identity :: "(certificate_material \<Rightarrow> string) \<Rightarrow> promise_certificate \<Rightarrow> semantic_id" where
  "expected_identity sha c = certificate_digest sha (certificate_material c)"

definition certificate_new ::
  "(certificate_material \<Rightarrow> string) \<Rightarrow> backend_promise \<Rightarrow> semantic_id \<Rightarrow> semantic_id \<Rightarrow> semantic_id \<Rightarrow>
   semantic_id \<Rightarrow> string \<Rightarrow> semantic_id list \<Rightarrow> promise_certificate" where
  "certificate_new sha promise ssa subject oblig ver meth deps =
     (let c = \<lparr>ce_schema = ''0.1'', ce_identity = [], ce_promise = promise, ce_selected_ssa = ssa,
            ce_subject = subject, ce_obligation = oblig, ce_verifier = ver, ce_method = meth,
            ce_dependencies = sort_dedup deps, ce_proof_identity = None\<rparr>
      in c\<lparr>ce_identity := expected_identity sha c\<rparr>)"

definition with_proof_binding ::
  "(certificate_material \<Rightarrow> string) \<Rightarrow> promise_certificate \<Rightarrow> proof_binding \<Rightarrow> promise_certificate option" where
  "with_proof_binding sha c b =
     (if pb_obligation b \<noteq> ce_obligation c \<or> pb_kernel b \<noteq> proof_kernel_id \<or> pb_outcome b \<noteq> Pass
      then None
      else
        let bound = c\<lparr>ce_proof_identity := Some (pb_proof b)\<rparr> in
        Some (bound\<lparr>ce_identity := expected_identity sha bound\<rparr>))"

text \<open>\<open>trim().is_empty()\<close>: only white space.\<close>

definition blank :: "string \<Rightarrow> bool" where
  "blank s \<longleftrightarrow> list_all (\<lambda>c. (of_char c :: nat) \<in> {9, 10, 11, 12, 13, 32, 133, 160}) s"

definition certificate_is_valid :: "(certificate_material \<Rightarrow> string) \<Rightarrow> promise_certificate \<Rightarrow> bool" where
  "certificate_is_valid sha c \<longleftrightarrow>
     ce_schema c = ''0.1'' \<and> \<not> blank (ce_method c) \<and> \<not> blank (ce_verifier c) \<and>
     ce_identity c = expected_identity sha c"

record promise_decision =
  de_promise :: backend_promise
  de_subject :: semantic_id
  de_permitted :: bool
  de_reason :: string
  de_obligation :: "semantic_id option"
  de_status :: "obligation_status option"
  de_freshness :: "evidence_freshness option"
  de_attribute :: "string option"
  de_certificate :: "promise_certificate option"

fun promise_suffix :: "backend_promise \<Rightarrow> string" where
  "promise_suffix NoOverflow = ''no-overflow''"
| "promise_suffix Alignment = ''alignment''"
| "promise_suffix InBounds = ''in-bounds''"
| "promise_suffix NonAliasing = ''non-aliasing''"
| "promise_suffix TrappingArithmetic = ''trapping-arithmetic''"
| "promise_suffix WrappingArithmetic = ''wrapping-arithmetic''"
| "promise_suffix Relaxation = ''relaxation''"
| "promise_suffix BranchlessRealization = ''realization-branchless''"

definition ends_with :: "string \<Rightarrow> string \<Rightarrow> bool" where
  "ends_with s sfx \<longleftrightarrow> length sfx \<le> length s \<and> drop (length s - length sfx) s = sfx"

fun status_debug :: "obligation_status \<Rightarrow> string" where
  "status_debug ObPass = ''Pass''"
| "status_debug ObFail = ''Fail''"
| "status_debug ObUnknown = ''Unknown''"

fun freshness_debug :: "evidence_freshness \<Rightarrow> string" where
  "freshness_debug FrCurrent = ''Current''"
| "freshness_debug FrStale = ''Stale''"
| "freshness_debug FrUnknown = ''Unknown''"

definition evaluate_promise ::
  "backend_promise \<Rightarrow> semantic_id \<Rightarrow> obligation_fact list \<Rightarrow> promise_decision" where
  "evaluate_promise promise subject obligations =
     (case find (\<lambda>ob. ob_subject ob = subject \<and> ends_with (ob_requirement ob) (promise_suffix promise))
             obligations of
        None \<Rightarrow>
          \<lparr>de_promise = promise, de_subject = subject, de_permitted = False,
           de_reason = ''required obligation is absent'', de_obligation = None, de_status = None,
           de_freshness = None, de_attribute = None, de_certificate = None\<rparr>
      | Some ob \<Rightarrow>
          let permitted = (ob_status ob = ObPass \<and> ob_freshness ob = FrCurrent) in
          \<lparr>de_promise = promise, de_subject = subject, de_permitted = permitted,
           de_reason =
             (if permitted then ''exact scoped obligation is current and PASS''
              else ''obligation is '' @ status_debug (ob_status ob) @ '' or '' @
                   freshness_debug (ob_freshness ob)),
           de_obligation = Some (ob_identity ob), de_status = Some (ob_status ob),
           de_freshness = Some (ob_freshness ob), de_attribute = None, de_certificate = None\<rparr>)"


section \<open>Capabilities are evidence of what they name\<close>

lemma range_inter_empty:
  fixes a b c d :: nat
  assumes "a \<le> b" "c \<le> d" "b \<le> c \<or> d \<le> a"
  shows "{a..<b} \<inter> {c..<d} = {}"
  using assms by auto

text \<open>A statically derived disjointness capability permits its own pair of ranges exactly when
  the separation test holds, and then no byte offset lies in both ranges; for two non-empty ranges
  of one allocation epoch it permits the pair exactly when they have no offset in common.\<close>

theorem derive_static_disjoint:
  "(disjoint_permits (derive_static l r scope) l r scope \<longrightarrow>
      mr_region l = mr_region r \<and> mr_epoch l = mr_epoch r \<and>
      {mr_start l..<mr_end l} \<inter> {mr_start r..<mr_end r} = {}) \<and>
   (mr_start l < mr_end l \<and> mr_start r < mr_end r \<and> mr_region l = mr_region r \<and> mr_epoch l = mr_epoch r \<longrightarrow>
      (disjoint_permits (derive_static l r scope) l r scope \<longleftrightarrow>
         {mr_start l..<mr_end l} \<inter> {mr_start r..<mr_end r} = {}))"
proof -
  have p: "disjoint_permits (derive_static l r scope) l r scope \<longleftrightarrow> separated l r"
    by (simp add: disjoint_permits_def derive_static_def Let_def)
  have "separated l r"
    if "mr_start l < mr_end l" "mr_start r < mr_end r" "mr_region l = mr_region r" "mr_epoch l = mr_epoch r"
      and d: "{mr_start l..<mr_end l} \<inter> {mr_start r..<mr_end r} = {}"
  proof (rule ccontr)
    assume "\<not> separated l r"
    then have "mr_start r < mr_end l" "mr_start l < mr_end r" using that by (auto simp: separated_def)
    then have "max (mr_start l) (mr_start r) \<in> {mr_start l..<mr_end l} \<inter> {mr_start r..<mr_end r}"
      using that(1,2) by (auto simp: max_def)
    then show False using d by blast
  qed
  then show ?thesis
    unfolding p using range_inter_empty [of "mr_start l" "mr_end l" "mr_start r" "mr_end r"]
    by (auto simp: separated_def)
qed

definition sample_range :: "nat \<Rightarrow> nat \<Rightarrow> memory_range" where
  "sample_range a b = \<lparr>mr_region = ''heap'', mr_epoch = ''e0'', mr_start = a, mr_end = b\<rparr>"

theorem derive_static_disjoint_witness:
  "disjoint_permits (derive_static (sample_range 10 20) (sample_range 5 10) []) (sample_range 10 20) (sample_range 5 10) [] \<and>
   \<not> disjoint_permits (derive_static (sample_range 10 20) (sample_range 5 15) []) (sample_range 10 20) (sample_range 5 15) []"
  using derive_static_disjoint [of "sample_range 10 20" "sample_range 5 10" "[]"]
    derive_static_disjoint [of "sample_range 10 20" "sample_range 5 15" "[]"]
  by (simp add: sample_range_def)

text \<open>The identity of a derived capability does not cover the end (nor the region and the
  epoch) of its right range, so evidence derived for one pair is accepted for any other pair with the
  same left range and the same right start: a capability for \<open>(l, r')\<close> that carries the evidence
  derived for \<open>(l, r)\<close> permits \<open>(l, r')\<close> exactly when \<open>l\<close> and \<open>r\<close> are separated, whether or not
  \<open>l\<close> and \<open>r'\<close> overlap.\<close>

theorem disjoint_evidence_transfers:
  assumes "mr_start r' = mr_start r"
  shows "disjoint_permits ((derive_static l r' scope)\<lparr>dj_evidence := dj_evidence (derive_static l r scope)\<rparr>) l r' scope \<longleftrightarrow>
    separated l r"
  using assms by (simp add: disjoint_permits_def derive_static_def Let_def disjoint_identity_def)

theorem disjoint_evidence_transfers_witness:
  "disjoint_permits ((derive_static (sample_range 10 20) (sample_range 5 15) [])
      \<lparr>dj_evidence := dj_evidence (derive_static (sample_range 10 20) (sample_range 5 10) [])\<rparr>)
     (sample_range 10 20) (sample_range 5 15) [] \<and>
   12 \<in> {10..<20::nat} \<inter> {5..<15}"
  using disjoint_evidence_transfers [of "sample_range 5 15" "sample_range 5 10" "sample_range 10 20" "[]"]
  by (simp add: sample_range_def separated_def)


section \<open>Sealing\<close>

interpretation proof_seal:
  sealed_artifact blank_identity "proof_digest sha" artifact_identity
    "\<lambda>a i. a\<lparr>artifact_identity := i\<rparr>" "\<lambda>_. True" for sha
proof unfold_locales
  show "a = b" if "blank_identity a = blank_identity b" "artifact_identity a = artifact_identity b" for a b
    using that by (cases a; cases b) (simp add: blank_identity_def)
qed (simp_all add: blank_identity_def)

interpretation certificate_seal:
  sealed_artifact certificate_material "certificate_digest sha" ce_identity
    "\<lambda>c i. c\<lparr>ce_identity := i\<rparr>" "\<lambda>c. ce_schema c = ''0.1''" for sha
  by unfold_locales (simp_all add: certificate_material_def)

lemma seal_is_valid [identity_simps]: "identity_is_valid sha (seal sha a) \<longleftrightarrow> schema_version a = ''0.1''"
  using proof_seal.seal_valid [where a = a and sha = sha]
  by (auto simp: identity_is_valid_def seal_def proof_digest_def)

text \<open>Property C32.  Tamper evidence.  A freshly built artifact has a valid identity whatever its fields, and
  its assumption and dependency lists are canonical: they depend only on the sets given.  Two
  artifacts with valid identities that carry the same identity are equal in every field, as long as
  the digest does not collide on the two.\<close>

theorem artifact_identity_seals:
  "identity_is_valid sha (artifact_new sha krn oblig assms deps cs cnt prf prop) \<and>
   (set assms = set assms' \<and> set deps = set deps' \<longrightarrow>
      artifact_new sha krn oblig assms deps cs cnt prf prop =
      artifact_new sha krn oblig assms' deps' cs cnt prf prop) \<and>
   (identity_is_valid sha a \<and> identity_is_valid sha b \<and> artifact_identity a = artifact_identity b \<and>
    (sha (blank_identity a) = sha (blank_identity b) \<longrightarrow> blank_identity a = blank_identity b) \<longrightarrow> a = b)"
proof -
  have "a = b"
    if "identity_is_valid sha a" "identity_is_valid sha b" "artifact_identity a = artifact_identity b"
      "sha (blank_identity a) = sha (blank_identity b) \<longrightarrow> blank_identity a = blank_identity b"
    by (rule proof_seal.sealed_unique [where sha = sha])
       (use that in \<open>simp_all add: identity_is_valid_def proof_digest_def\<close>)
  moreover have "artifact_new sha krn oblig assms deps cs cnt prf prop =
      artifact_new sha krn oblig assms' deps' cs cnt prf prop"
    if "set assms = set assms'" "set deps = set deps'"
    using sort_dedup_cong [OF that(1)] sort_dedup_cong [OF that(2)] by (simp add: artifact_new_def)
  ultimately show ?thesis by (simp add: artifact_new_def identity_simps)
qed

theorem artifact_identity_seals_witness:
  "artifact_new (\<lambda>_. ''d1'') [] [] [''b'', ''a'', ''b''] [] [] 0 0 0 =
     artifact_new (\<lambda>_. ''d1'') [] [] [''a'', ''b''] [] [] 0 0 0 \<and>
   identity_is_valid (\<lambda>_. ''d1'') (artifact_new (\<lambda>_. ''d1'') [] [] [''a'', ''b''] [] [] 0 0 0)"
  using artifact_identity_seals [of "\<lambda>_. ''d1''" "[]" "[]" "[''b'', ''a'', ''b'']" "[]" "[]" 0 0 0
      "[''a'', ''b'']" "[]" undefined undefined]
    artifact_identity_seals [of "\<lambda>_. ''d1''" "[]" "[]" "[''a'', ''b'']" "[]" "[]" 0 0 0
      "[''a'', ''b'']" "[]" undefined undefined]
  by auto

lemma reusable_unique:
  "reusable_if b prf krn oblig assms deps outcome \<longleftrightarrow>
     prf = pb_proof b \<and> krn = pb_kernel b \<and> oblig = pb_obligation b \<and>
     sort_dedup assms = pb_assumptions b \<and> deps = pb_dependencies b \<and> outcome = Pass \<and> pb_outcome b = Pass"
  by (auto simp: reusable_if_def)

text \<open>Property C31.  A binding is only ever made from an artifact that carries its valid identity and
  the current kernel version and that the reference checker passes, and it can be reused exactly for
  that proof, kernel, obligation and dependency map, for the same set of assumptions in any order,
  and for the Pass outcome.  So when the bound proposition is an equation, its sides have the same
  meaning.\<close>

theorem binding_is_checked:
  assumes "bind_artifact sha a deps = Some b"
  shows "identity_is_valid sha a \<and> reference_check a = Some Pass \<and>
    (\<forall>c l r. meaning (cells a) (proposition_index a) = SEq c l r \<longrightarrow> l = r) \<and>
    (\<forall>prf krn oblig assms ds outcome. reusable_if b prf krn oblig assms ds outcome \<longleftrightarrow>
       prf = artifact_identity a \<and> krn = proof_kernel_id \<and> oblig = obligation a \<and>
       set assms = set (assumptions a) \<and> ds = deps \<and> outcome = Pass)"
proof -
  have b: "identity_is_valid sha a" "kernel a = proof_kernel_id" "reference_check a = Some Pass"
    "b = \<lparr>pb_proof = artifact_identity a, pb_kernel = kernel a, pb_obligation = obligation a,
        pb_assumptions = sort_dedup (assumptions a), pb_dependencies = deps, pb_outcome = Pass\<rparr>"
    using assms by (auto simp: bind_artifact_def split: if_splits)
  have sides: "\<forall>c l r. meaning (cells a) (proposition_index a) = SEq c l r \<longrightarrow> l = r"
    using pass_equation_sound [OF b(3)] by blast
  have reuse: "\<forall>prf krn oblig assms ds outcome. reusable_if b prf krn oblig assms ds outcome \<longleftrightarrow>
       prf = artifact_identity a \<and> krn = proof_kernel_id \<and> oblig = obligation a \<and>
       set assms = set (assumptions a) \<and> ds = deps \<and> outcome = Pass"
    by (auto simp: b(2,4) reusable_unique sort_dedup_eq_iff)
  show ?thesis using b(1,3) sides reuse by blast
qed

theorem binding_is_checked_witness:
  "\<exists>b. bind_artifact (\<lambda>_. ''d'') (seal (\<lambda>_. ''d'') ((mk_artifact plus_cells 5 4)\<lparr>kernel := proof_kernel_id\<rparr>)) Map.empty = Some b \<and>
     reusable_if b ''mncs:proof:d'' proof_kernel_id [] [] Map.empty Pass"
proof -
  let ?a = "seal (\<lambda>_. ''d'') ((mk_artifact plus_cells 5 4)\<lparr>kernel := proof_kernel_id\<rparr>)"
  have c: "reference_check ?a = reference_check (mk_artifact plus_cells 5 4)"
    by (simp add: reference_check_def seal_def)
  have "\<exists>b. bind_artifact (\<lambda>_. ''d'') ?a Map.empty = Some b"
    using plus_cells_pass by (simp add: bind_artifact_def c identity_simps) (simp add: seal_def mk_artifact_def)
  then obtain b where b: "bind_artifact (\<lambda>_. ''d'') ?a Map.empty = Some b" ..
  have "reusable_if b ''mncs:proof:d'' proof_kernel_id [] [] Map.empty Pass"
    using binding_is_checked [OF b] by (simp add: seal_def mk_artifact_def proof_digest_def)
  with b show ?thesis by blast
qed



definition promise_match :: "backend_promise \<Rightarrow> semantic_id \<Rightarrow> obligation_fact \<Rightarrow> bool" where
  "promise_match promise subject ob \<longleftrightarrow>
     ob_subject ob = subject \<and> ends_with (ob_requirement ob) (promise_suffix promise)"

text \<open>Property C34.  A backend promise is permitted exactly when the first obligation on the subject whose
  requirement ends in the promise's suffix is a current Pass.  Without such an obligation it is
  refused, and a first obligation that is stale, failed or unknown is not outvoted by later ones.\<close>

theorem promise_needs_first_obligation:
  "de_permitted (evaluate_promise promise subject obs) \<longleftrightarrow>
     (\<exists>i<length obs. promise_match promise subject (obs ! i) \<and>
        (\<forall>j<i. \<not> promise_match promise subject (obs ! j)) \<and>
        ob_status (obs ! i) = ObPass \<and> ob_freshness (obs ! i) = FrCurrent)"
proof -
  have "de_permitted (evaluate_promise promise subject obs) \<longleftrightarrow>
      (\<exists>ob. find (promise_match promise subject) obs = Some ob \<and> ob_status ob = ObPass \<and> ob_freshness ob = FrCurrent)"
    by (simp add: evaluate_promise_def promise_match_def [abs_def] Let_def split: option.splits)
  then show ?thesis by (auto simp: find_Some_iff)
qed

definition sample_obligation :: "obligation_status \<Rightarrow> evidence_freshness \<Rightarrow> obligation_fact" where
  "sample_obligation st fr = \<lparr>ob_identity = ''o'', ob_subject = ''s'', ob_requirement = ''r:in-bounds'',
     ob_status = st, ob_freshness = fr, ob_method = []\<rparr>"

theorem promise_needs_first_obligation_witness:
  "de_permitted (evaluate_promise InBounds ''s'' [sample_obligation ObPass FrCurrent]) \<and>
   \<not> de_permitted (evaluate_promise InBounds ''s''
       [sample_obligation ObPass FrStale, sample_obligation ObPass FrCurrent])"
proof -
  have m: "promise_match InBounds ''s'' (sample_obligation st fr)" for st fr
    by (simp add: promise_match_def sample_obligation_def ends_with_def)
  show ?thesis
    using m by (auto simp: promise_needs_first_obligation sample_obligation_def less_Suc_eq)
qed

end
