(* ===== verification/Verifier.thy ===== *)
theory Verifier
  imports Machine_Promise
begin

text \<open>
  The deterministic verifier, its requests and results (\<open>crates/mncs-model/src/verifier.rs\<close>),
  and the kernel-backed range result of \<open>proof_kernel.rs\<close>.  SHA-256 is a parameter on strings.
  \<open>None\<close> of an evaluation is the panic of the integer evaluator; a rejected artifact is a value of
  \<open>verifier_artifact_error\<close>.
\<close>

section \<open>Requests and results\<close>

datatype evidence_authority =
  AuVerifier | AuKernelProof | AuDiagnosticObservation | AuProposalResult | AuDevelopmentMeasurement

datatype verifier_independence =
  Generator | Compiler | IndependentImplementation | IndependentEnvironment | External

record verifier_identity =
  vi_identity :: semantic_id
  vi_name :: string
  vi_version :: string
  vi_independence :: verifier_independence

datatype verifier_method = MIntegerRange | MAlignment | MCapabilityConsistency | MKernelProof

datatype verifier_input =
  IntegerInput integer_operation
| AlignmentInput alignment_capability nat
| CapabilityInput "bool option"

record obligation_record =
  or_schema :: string
  or_identity :: semantic_id
  or_subject :: semantic_id
  or_requirement :: semantic_id
  or_status :: obligation_status
  or_method :: string
  or_assumptions :: "semantic_id list"
  or_dependencies :: "semantic_id list"
  or_freshness :: evidence_freshness
  or_fallback :: "string option"

record verifier_request =
  vq_schema :: string
  vq_obligation :: obligation_record
  vq_subject :: semantic_id
  vq_scope :: string
  vq_input :: verifier_input
  vq_assumptions :: "semantic_id list"
  vq_dependencies :: "semantic_id list"
  vq_fingerprints :: "semantic_id \<rightharpoonup> string"

record verifier_result =
  vr_schema :: string
  vr_obligation :: semantic_id
  vr_subject :: semantic_id
  vr_scope :: string
  vr_status :: obligation_status
  vr_verifier :: verifier_identity
  vr_authority :: evidence_authority
  vr_method :: verifier_method
  vr_assumptions :: "semantic_id list"
  vr_dependencies :: "semantic_id list"
  vr_fingerprints :: "semantic_id \<rightharpoonup> string"
  vr_artifact :: "string option"
  vr_limitations :: "string list"
  vr_freshness :: evidence_freshness

datatype verifier_artifact_error =
  SchemaError string string | SubjectMismatch | ScopeMismatch | DependencyMismatch | MissingVerifier

definition new_verifier :: "(string \<Rightarrow> string) \<Rightarrow> string \<Rightarrow> string \<Rightarrow> verifier_identity" where
  "new_verifier sha name version =
     \<lparr>vi_identity = ''mncs:0.2:verifier:'' @ sha (name @ '':'' @ version), vi_name = name,
      vi_version = version, vi_independence = IndependentImplementation\<rparr>"


section \<open>Verification\<close>

definition judge_input ::
  "verifier_request \<Rightarrow> (verifier_method \<times> obligation_status \<times> string list) option" where
  "judge_input request =
     (case vq_input request of
        IntegerInput operation \<Rightarrow>
          (case evaluate operation of
             None \<Rightarrow> None
           | Some evaluation \<Rightarrow> Some (MIntegerRange,
               if ev_overflow evaluation then ObFail else ObPass,
               [''bounded integer evaluation only; no general symbolic proof'']))
      | AlignmentInput capability required \<Rightarrow>
          Some (MAlignment,
            if alignment_permits capability (vq_subject request) (vq_scope request) required
            then ObPass else ObFail,
            [''exact subject and scope alignment check''])
      | CapabilityInput authorized \<Rightarrow>
          Some (MCapabilityConsistency,
            case authorized of Some True \<Rightarrow> ObPass | Some False \<Rightarrow> ObFail | None \<Rightarrow> ObUnknown,
            [''declared effect/capability relationship check'']))"

definition verify ::
  "(string \<Rightarrow> string) \<Rightarrow> verifier_identity \<Rightarrow> verifier_request \<Rightarrow> verifier_result option" where
  "verify sha verifier request =
     do {
       (meth, st, limitations) \<leftarrow>
         (if or_subject (vq_obligation request) \<noteq> vq_subject request
          then Some (MIntegerRange, ObFail, [''request subject does not match obligation subject''])
          else judge_input request);
       Some \<lparr>vr_schema = ''0.2'', vr_obligation = or_identity (vq_obligation request),
         vr_subject = vq_subject request, vr_scope = vq_scope request, vr_status = st,
         vr_verifier = verifier, vr_authority = AuVerifier, vr_method = meth,
         vr_assumptions = vq_assumptions request, vr_dependencies = vq_dependencies request,
         vr_fingerprints = vq_fingerprints request,
         vr_artifact = Some (''evidence://'' @ sha (or_identity (vq_obligation request) @ '':'' @
           vq_subject request @ '':'' @ status_debug st)),
         vr_limitations = limitations, vr_freshness = FrCurrent\<rparr>
     }"


section \<open>Import and freshness\<close>

type_synonym identity_records = "(semantic_id \<times> string) list"

definition fingerprint :: "identity_records \<Rightarrow> semantic_id \<Rightarrow> string option" where
  "fingerprint current i = map_option snd (find (\<lambda>r. fst r = i) current)"

definition refresh :: "verifier_result \<Rightarrow> identity_records \<Rightarrow> verifier_result" where
  "refresh r current =
     r\<lparr>vr_freshness :=
         (if list_all (\<lambda>d. case fingerprint current d of
                None \<Rightarrow> False | Some f \<Rightarrow> vr_fingerprints r d = Some f) (vr_dependencies r)
          then FrCurrent else FrStale)\<rparr>"

definition validate_against ::
  "verifier_result \<Rightarrow> verifier_request \<Rightarrow> identity_records \<Rightarrow> verifier_artifact_error + verifier_result" where
  "validate_against r request current =
     (if vr_schema r \<noteq> vq_schema request then Inl (SchemaError (vr_schema r) (vq_schema request))
      else if vr_obligation r \<noteq> or_identity (vq_obligation request) \<or> vr_subject r \<noteq> vq_subject request
      then Inl SubjectMismatch
      else if vr_scope r \<noteq> vq_scope request then Inl ScopeMismatch
      else if vr_assumptions r \<noteq> vq_assumptions request \<or>
              vr_dependencies r \<noteq> vq_dependencies request \<or>
              vr_fingerprints r \<noteq> vq_fingerprints request
      then Inl DependencyMismatch
      else if blank (vi_identity (vr_verifier r)) then Inl MissingVerifier
      else Inr (refresh (r\<lparr>vr_freshness := FrUnknown\<rparr>) current))"

definition can_satisfy :: "verifier_result \<Rightarrow> obligation_record \<Rightarrow> semantic_id \<Rightarrow> bool" where
  "can_satisfy r obl subject \<longleftrightarrow>
     vr_obligation r = or_identity obl \<and> vr_subject r = subject \<and> vr_status r = ObPass \<and>
     vr_freshness r = FrCurrent \<and> vr_authority r = AuVerifier"


section \<open>Kernel-backed results\<close>

definition kernel_identity :: verifier_identity where
  "kernel_identity =
     \<lparr>vi_identity = proof_kernel_id @ '':reference'', vi_name = ''mncs-proof-kernel'',
      vi_version = ''0.1'', vi_independence = IndependentImplementation\<rparr>"

definition kernel_failure :: "verifier_request \<Rightarrow> proof_binding \<Rightarrow> verifier_result" where
  "kernel_failure request b =
     \<lparr>vr_schema = ''0.2'', vr_obligation = or_identity (vq_obligation request),
      vr_subject = vq_subject request, vr_scope = vq_scope request, vr_status = ObFail,
      vr_verifier = kernel_identity, vr_authority = AuKernelProof, vr_method = MKernelProof,
      vr_assumptions = vq_assumptions request, vr_dependencies = vq_dependencies request,
      vr_fingerprints = vq_fingerprints request, vr_artifact = Some (pb_proof b),
      vr_limitations =
        [''kernel proof covers closed Nat computation identity only'',
         ''machine-integer range established by exact constant evaluation, not by the Nat proof alone'',
         ''valid only for the bound obligation, kernel version, assumptions, and dependencies''],
      vr_freshness = FrCurrent\<rparr>"

definition kernel_backed_range_result ::
  "verifier_request \<Rightarrow> integer_operation \<Rightarrow> proof_binding \<Rightarrow> verifier_result option" where
  "kernel_backed_range_result request operation b =
     (let result = kernel_failure request b;
          binding_ok =
            (reusable_if b (pb_proof b) proof_kernel_id (or_identity (vq_obligation request))
               (vq_assumptions request) (vq_fingerprints request) Pass \<and>
             pb_dependencies b = vq_fingerprints request \<and>
             or_subject (vq_obligation request) = vq_subject request)
      in
      if \<not> binding_ok then Some result
      else
        (case evaluate operation of
           None \<Rightarrow> None
         | Some evaluation \<Rightarrow>
             if ev_overflow evaluation \<or> ev_value evaluation = None then Some result
             else Some (result\<lparr>vr_status := ObPass\<rparr>)))"


section \<open>What a result establishes\<close>

lemma checked_no_overflow:
  assumes "op_operator oper \<in> arithmetic_operators" and "valid_bits (ty_bits (op_type oper))"
    and "fits_type (op_type oper) (op_left oper)" and "op_intent oper \<in> {Checked, Trapping}"
    and "evaluate oper = Some e" and "\<not> ev_overflow e"
  shows "\<exists>x. exact_result (op_operator oper) (ty_bits (op_type oper)) (op_left oper) (op_right oper) = Some x \<and>
    fits_type (op_type oper) x"
proof -
  have o: "oper_of (op_operator oper) (op_type oper) (op_intent oper) (op_left oper) (op_right oper) = oper"
    by (cases oper) (simp add: oper_of_def)
  have b: "intended_bits (op_intent oper) (op_type oper) = ty_bits (op_type oper)" "op_intent oper \<noteq> Wrapping"
    using assms(4) by auto
  obtain lo hi where "limits (intended_bits (op_intent oper) (op_type oper)) (ty_signed (op_type oper)) = Some (lo, hi)"
    unfolding b(1) by (rule limits_validE [OF assms(2)])
  from evaluate_arithmetic [OF assms(1-3) this b(2), of "op_right oper"] show ?thesis
    using assms(5,6) unfolding o b(1) by auto
qed

text \<open>Property C27.  A result of the verifier on an integer request can satisfy an obligation only if it is the
  obligation of the request on the request's own subject; and if the operation is a checked or
  trapping arithmetic one on in-range operands, its exact result exists and is representable.\<close>

theorem satisfied_range_obligation:
  assumes "verify sha verifier request = Some res" and "can_satisfy res obl subject"
    and "vq_input request = IntegerInput oper"
    and "op_operator oper \<in> arithmetic_operators" "valid_bits (ty_bits (op_type oper))"
    and "fits_type (op_type oper) (op_left oper)" "op_intent oper \<in> {Checked, Trapping}"
  shows "or_identity obl = or_identity (vq_obligation request) \<and> subject = vq_subject request \<and>
    or_subject (vq_obligation request) = subject \<and>
    (\<exists>x. exact_result (op_operator oper) (ty_bits (op_type oper)) (op_left oper) (op_right oper) = Some x \<and>
      fits_type (op_type oper) x)"
proof -
  have s: "or_subject (vq_obligation request) = vq_subject request"
    using assms(1,2) by (auto simp: verify_def can_satisfy_def split: if_splits)
  then obtain e where e: "evaluate oper = Some e" "\<not> ev_overflow e"
    using assms(1-3)
    by (auto simp: verify_def can_satisfy_def judge_input_def bind_eq_Some_conv split: option.splits if_splits)
  have ids: "or_identity obl = or_identity (vq_obligation request)" "subject = vq_subject request"
    using assms(1,2) by (auto simp: verify_def can_satisfy_def bind_eq_Some_conv)
  show ?thesis using checked_no_overflow [OF assms(4-7) e] s ids by simp
qed

definition sample_operation :: integer_operation where
  "sample_operation = oper_of ''add'' \<lparr>ty_bits = 8, ty_signed = True\<rparr> Checked 1 2"

definition sample_request :: verifier_request where
  "sample_request =
     \<lparr>vq_schema = ''0.2'',
      vq_obligation = \<lparr>or_schema = ''0.2'', or_identity = ''obligation:range'', or_subject = ''op'',
        or_requirement = ''requirement:no-overflow'', or_status = ObUnknown, or_method = ''request'',
        or_assumptions = [], or_dependencies = [''op''], or_freshness = FrUnknown,
        or_fallback = Some ''conservative''\<rparr>,
      vq_subject = ''op'', vq_scope = ''expression'', vq_input = IntegerInput sample_operation,
      vq_assumptions = [], vq_dependencies = [''op''],
      vq_fingerprints = [''op'' \<mapsto> ''operation-fingerprint'']\<rparr>"

lemma sample_evaluation:
  "evaluate sample_operation =
     Some \<lparr>ev_value = Some 3, ev_overflow = False, ev_trapped = False, ev_result_bits = 8\<rparr>"
  by (simp add: sample_operation_def evaluate_def raw_result_def limits_def apply_intent_def
      outside_def i128_defs)

theorem satisfied_range_obligation_witness:
  "\<exists>res. verify (\<lambda>s. s) (new_verifier (\<lambda>s. s) ''range'' ''1'') sample_request = Some res \<and>
     can_satisfy res (vq_obligation sample_request) ''op'' \<and>
     exact_result ''add'' 8 1 2 = Some 3 \<and> fits 8 True 3"
proof -
  obtain res where res: "verify (\<lambda>s. s) (new_verifier (\<lambda>s. s) ''range'' ''1'') sample_request = Some res"
    "can_satisfy res (vq_obligation sample_request) ''op''"
    by (simp add: verify_def sample_request_def judge_input_def sample_evaluation can_satisfy_def)
  have "\<exists>x. exact_result ''add'' 8 1 2 = Some x \<and> fits 8 True x"
    using satisfied_range_obligation [OF res, of sample_operation]
    by (simp add: sample_request_def sample_operation_def valid_bits_def fits_def)
  then have "exact_result ''add'' 8 1 2 = Some 3" "fits 8 True 3"
    by (auto simp: exact_result_def)
  with res show ?thesis by blast
qed

lemma refresh_freshness:
  "vr_freshness (refresh r current) = FrCurrent \<longleftrightarrow>
     (\<forall>d\<in>set (vr_dependencies r). \<exists>f. fingerprint current d = Some f \<and> vr_fingerprints r d = Some f)"
  by (auto simp: refresh_def list_all_iff split: option.splits)

lemma refresh_other:
  "refresh r current = r\<lparr>vr_freshness := vr_freshness (refresh r current)\<rparr>"
  by (simp add: refresh_def)

lemma refresh_forgets: "refresh (r\<lparr>vr_freshness := fr\<rparr>) current = refresh r current"
  by (simp add: refresh_def cong: option.case_cong)

text \<open>Property C35.  Importing a result: it is accepted exactly when it was made for the request (schema,
  obligation, subject, scope, assumptions, dependencies and fingerprints) by a named verifier.  The
  freshness it claims is discarded: the accepted result is the imported one, current if every
  dependency's present fingerprint is the recorded one and stale otherwise.\<close>

theorem import_revalidates:
  "(\<forall>r'. validate_against r request current = Inr r' \<longrightarrow>
      r' = r\<lparr>vr_freshness :=
        (if \<forall>d\<in>set (vr_dependencies r). \<exists>f. fingerprint current d = Some f \<and> vr_fingerprints r d = Some f
         then FrCurrent else FrStale)\<rparr>) \<and>
   ((\<exists>r'. validate_against r request current = Inr r') \<longleftrightarrow>
      vr_schema r = vq_schema request \<and> vr_obligation r = or_identity (vq_obligation request) \<and>
      vr_subject r = vq_subject request \<and> vr_scope r = vq_scope request \<and>
      vr_assumptions r = vq_assumptions request \<and> vr_dependencies r = vq_dependencies request \<and>
      vr_fingerprints r = vq_fingerprints request \<and> \<not> blank (vi_identity (vr_verifier r)))"
proof -
  have cases: "vr_freshness (refresh r current) = FrCurrent \<or> vr_freshness (refresh r current) = FrStale"
    by (simp add: refresh_def)
  have "refresh r current = r\<lparr>vr_freshness :=
        (if \<forall>d\<in>set (vr_dependencies r). \<exists>f. fingerprint current d = Some f \<and> vr_fingerprints r d = Some f
         then FrCurrent else FrStale)\<rparr>"
    using cases refresh_freshness [of r current] by (subst refresh_other) auto
  then show ?thesis
    by (auto simp: validate_against_def refresh_forgets)
qed

theorem import_revalidates_witness:
  "\<exists>res r'. verify (\<lambda>s. s) (new_verifier (\<lambda>s. s) ''range'' ''1'') sample_request = Some res \<and>
     validate_against res sample_request [(''op'', ''changed'')] = Inr r' \<and> vr_freshness r' = FrStale"
proof -
  obtain res where res: "verify (\<lambda>s. s) (new_verifier (\<lambda>s. s) ''range'' ''1'') sample_request = Some res"
    "vr_schema res = ''0.2''" "vr_obligation res = ''obligation:range''" "vr_subject res = ''op''"
    "vr_scope res = ''expression''" "vr_assumptions res = []" "vr_dependencies res = [''op'']"
    "vr_fingerprints res = [''op'' \<mapsto> ''operation-fingerprint'']"
    "\<not> blank (vi_identity (vr_verifier res))"
    by (simp add: verify_def sample_request_def judge_input_def sample_evaluation new_verifier_def blank_def)
  then have "\<exists>r'. validate_against res sample_request [(''op'', ''changed'')] = Inr r'"
    using import_revalidates [of res sample_request "[(''op'', ''changed'')]"] by (simp add: sample_request_def)
  then obtain r' where r': "validate_against res sample_request [(''op'', ''changed'')] = Inr r'" ..
  have "vr_freshness r' = FrStale"
    using import_revalidates [of res sample_request "[(''op'', ''changed'')]"] r' res(7,8)
    by (auto simp: fingerprint_def)
  with res(1) r' show ?thesis by blast
qed



end
