(* ===== verification/Authority.thy ===== *)
theory Authority
  imports Prelude "HOL-Library.Multiset"
begin

text \<open>
  The execution-authority contract, from \<open>crates/mncs-model/src/authority.rs\<close>: the verdict
  fold over capability decisions, the acceptance of a leg, carried evidence, issuance bindings,
  envelope digests, the requirement identity and the execution confirmation.

  JSON values are a datatype (objects as key-sorted association lists, as \<open>serde_json\<close> keeps
  them); the JSON serializer and SHA-256 are parameters.  A \<open>BTreeSet\<close> of strings is its sorted
  list of elements, a \<open>BTreeMap\<close> a map.
\<close>

section \<open>JSON values and printing\<close>

datatype json =
  JNull | JBool bool | JInt int | JFloat string | JString string | JArray "json list"
| JObject "(string \<times> json) list"

fun as_object :: "json \<Rightarrow> (string \<times> json) list option" where
  "as_object (JObject obj) = Some obj"
| "as_object _ = None"

fun as_str :: "json \<Rightarrow> string option" where
  "as_str (JString s) = Some s"
| "as_str _ = None"

fun as_u64 :: "json \<Rightarrow> nat option" where
  "as_u64 (JInt n) = (if 0 \<le> n \<and> n < 2 ^ 64 then Some (nat n) else None)"
| "as_u64 _ = None"

definition get_str :: "(string \<times> json) list \<Rightarrow> string \<Rightarrow> string option" where
  "get_str obj key = Option.bind (map_of obj key) as_str"

definition unwrap_or :: "'a option \<Rightarrow> 'a \<Rightarrow> 'a" where
  "unwrap_or x d = (case x of None \<Rightarrow> d | Some v \<Rightarrow> v)"

definition remove_key :: "string \<Rightarrow> (string \<times> json) list \<Rightarrow> (string \<times> json) list" where
  "remove_key key obj = filter (\<lambda>f. fst f \<noteq> key) obj"

text \<open>The \<open>Debug\<close> rendering of strings and string lists.\<close>

fun hex_digits :: "nat \<Rightarrow> string" where
  "hex_digits n =
     (let digit = (\<lambda>d. char_of (if d < 10 then 48 + d else 87 + d)) in
      if n < 16 then [digit n] else hex_digits (n div 16) @ [digit (n mod 16)])"

declare hex_digits.simps [simp del]

definition debug_char :: "char \<Rightarrow> string" where
  "debug_char c =
     (let n = of_char c :: nat in
      if n = 34 then [CHR 0x5C, CHR 0x22]
      else if n = 92 then [CHR 0x5C, CHR 0x5C]
      else if n = 0 then [CHR 0x5C, CHR 0x30]
      else if n = 9 then [CHR 0x5C, CHR 0x74]
      else if n = 10 then [CHR 0x5C, CHR 0x6E]
      else if n = 13 then [CHR 0x5C, CHR 0x72]
      else if n < 32 \<or> (127 \<le> n \<and> n \<le> 160) \<or> n = 173 then
        [CHR 0x5C, CHR 0x75, CHR 0x7B] @ hex_digits n @ [CHR 0x7D]
      else [c])"

definition debug_string :: "string \<Rightarrow> string" where
  "debug_string s = [CHR 0x22] @ concat (map debug_char s) @ [CHR 0x22]"

fun join :: "string \<Rightarrow> string list \<Rightarrow> string" where
  "join separator [] = []"
| "join separator [s] = s"
| "join separator (s # rest) = s @ separator @ join separator rest"

definition debug_list :: "string list \<Rightarrow> string" where
  "debug_list items = ''['' @ join '', '' (map debug_string items) @ '']''"


section \<open>Verdicts and decisions\<close>

datatype authority_verdict = Granted | AUnknown | Refused

fun verdict_fold :: "authority_verdict \<Rightarrow> authority_verdict \<Rightarrow> authority_verdict" where
  "verdict_fold Refused _ = Refused"
| "verdict_fold _ Refused = Refused"
| "verdict_fold AUnknown _ = AUnknown"
| "verdict_fold _ AUnknown = AUnknown"
| "verdict_fold Granted Granted = Granted"

datatype decision_status = StGranted | StConditional | StDenied

fun decision_status_debug :: "decision_status option \<Rightarrow> string" where
  "decision_status_debug None = ''None''"
| "decision_status_debug (Some StGranted) = ''Some(Granted)''"
| "decision_status_debug (Some StConditional) = ''Some(Conditional)''"
| "decision_status_debug (Some StDenied) = ''Some(Denied)''"

record session_binding =
  sb_participant :: string
  sb_scope :: string

record capability_decision =
  cd_capability :: string
  cd_status :: "decision_status option"
  cd_missing :: "string list"
  cd_session :: "session_binding option"
  cd_execution_target :: string
  cd_authority :: string
  cd_decided_by :: "string list"

record requirement_leg =
  leg_name :: string
  leg_needs :: "string list"
  leg_backend :: string
  leg_target :: string
  leg_evidence :: "(string \<times> json) list"

record acceptance =
  ac_verdict :: authority_verdict
  ac_leg :: string
  ac_reason :: string
  ac_binding :: string
  ac_outstanding :: "string list"

datatype authority_error =
  NotAnObject | UnknownAlgorithm string | MissingDigest | DigestMismatch | NoDecision string
| SessionMismatch string | EmptyDecisions | MissingIssuer | UnknownIssuerAlgorithm string
| UntrustedIssuer string | BadSignatureEncoding | InvalidIssuerKey string | SignatureMismatch


section \<open>Envelope digests\<close>

definition canonical_envelope :: "(json \<Rightarrow> string) \<Rightarrow> json \<Rightarrow> authority_error + string" where
  "canonical_envelope ser v =
     (case as_object v of
        None \<Rightarrow> Inl NotAnObject
      | Some obj \<Rightarrow> Inr (ser (JObject (remove_key ''decision_digest'' obj))))"

definition digest_algorithm :: string where
  "digest_algorithm = ''sha256:canonical-json-v1''"

definition verify_decision_digest ::
  "(json \<Rightarrow> string) \<Rightarrow> (string \<Rightarrow> string) \<Rightarrow> json \<Rightarrow> authority_error + unit" where
  "verify_decision_digest ser sha envelope =
     (case as_object envelope of
        None \<Rightarrow> Inl NotAnObject
      | Some obj \<Rightarrow>
          let alg = unwrap_or (get_str obj ''decision_digest_alg'') [] in
          if alg \<noteq> digest_algorithm then Inl (UnknownAlgorithm alg)
          else
            (case get_str obj ''decision_digest'' of
               None \<Rightarrow> Inl MissingDigest
             | Some digest \<Rightarrow>
                 (case canonical_envelope ser envelope of
                    Inl e \<Rightarrow> Inl e
                  | Inr canonical \<Rightarrow> if sha canonical \<noteq> digest then Inl DigestMismatch else Inr ())))"


section \<open>Folding the decisions for one capability\<close>

record fold_state =
  fs_verdict :: authority_verdict
  fs_outstanding :: "string list"
  fs_reasons :: "string list"
  fs_binding :: string

definition session_text :: "session_binding option \<Rightarrow> string" where
  "session_text session =
     (case session of None \<Rightarrow> []
      | Some s \<Rightarrow> '' participant='' @ sb_participant s @ '' scope='' @ sb_scope s)"

definition fold_decision :: "capability_decision \<Rightarrow> fold_state \<Rightarrow> fold_state" where
  "fold_decision d st =
     (let st = (if fs_binding st = []
                then st\<lparr>fs_binding := cd_capability d @ ''='' @ decision_status_debug (cd_status d) @
                       session_text (cd_session d)\<rparr>
                else st) in
      case cd_status d of
        Some StConditional \<Rightarrow>
          let missing = sort (cd_missing d) in
          if missing = [] then
            st\<lparr>fs_reasons := fs_reasons st @ [cd_capability d @ '': conditional with no outstanding evidence'']\<rparr>
          else
            st\<lparr>fs_verdict := verdict_fold (fs_verdict st) AUnknown,
               fs_outstanding := sort_dedup (fs_outstanding st @ missing),
               fs_reasons := fs_reasons st @ [cd_capability d @ '': conditional, outstanding '' @ debug_list missing]\<rparr>
      | Some StGranted \<Rightarrow>
          st\<lparr>fs_reasons := fs_reasons st @ [cd_capability d @ '': atlas granted'']\<rparr>
      | _ \<Rightarrow>
          st\<lparr>fs_verdict := verdict_fold (fs_verdict st) Refused,
             fs_reasons := fs_reasons st @ [cd_capability d @ '': atlas denied'']\<rparr>)"

definition fold_capability :: "string \<Rightarrow> capability_decision list \<Rightarrow> acceptance" where
  "fold_capability capability decisions =
     (if decisions = [] then
        \<lparr>ac_verdict = Refused, ac_leg = capability,
         ac_reason = capability @ '': no atlas decision carried (bypass?)'', ac_binding = [],
         ac_outstanding = []\<rparr>
      else
        let st = fold fold_decision decisions
              \<lparr>fs_verdict = Granted, fs_outstanding = [], fs_reasons = [], fs_binding = []\<rparr>;
            reasons = (if fs_verdict st = AUnknown
              then fs_reasons st @ [''outstanding union: '' @ debug_list (fs_outstanding st)]
              else fs_reasons st)
        in \<lparr>ac_verdict = fs_verdict st, ac_leg = capability, ac_reason = join ''; '' reasons,
            ac_binding = fs_binding st, ac_outstanding = fs_outstanding st\<rparr>)"

fun verify_session_context ::
  "capability_decision list \<Rightarrow> string \<Rightarrow> string \<Rightarrow> authority_error + unit" where
  "verify_session_context [] participant scope = Inl EmptyDecisions"
| "verify_session_context (d # ds) participant scope =
     (case cd_session d of
        None \<Rightarrow> Inl (SessionMismatch (cd_capability d @ '': decision carries no session binding''))
      | Some session \<Rightarrow>
          if sb_participant session \<noteq> participant \<or> sb_scope session \<noteq> scope then
            Inl (SessionMismatch (cd_capability d @ '': bound to participant='' @
              sb_participant session @ '' scope='' @ sb_scope session))
          else if ds = [] then Inr ()
          else verify_session_context ds participant scope)"


section \<open>Issuance bindings\<close>

record parsed_issuance =
  pi_key_id :: string
  pi_signed_bytes :: string
  pi_signature :: "nat list"

definition issuance_signed_bytes :: "(json \<Rightarrow> string) \<Rightarrow> json \<Rightarrow> authority_error + string" where
  "issuance_signed_bytes ser v =
     (case as_object v of
        None \<Rightarrow> Inl NotAnObject
      | Some obj \<Rightarrow>
          Inr (ser (JObject (remove_key ''issuer_signature'' (remove_key ''decision_digest'' obj)))))"

definition is_hexdigit :: "char \<Rightarrow> bool" where
  "is_hexdigit c \<longleftrightarrow>
     (let n = of_char c :: nat in (48 \<le> n \<and> n \<le> 57) \<or> (97 \<le> n \<and> n \<le> 102) \<or> (65 \<le> n \<and> n \<le> 70))"

definition nibble :: "char \<Rightarrow> nat" where
  "nibble c =
     (let n = of_char c :: nat in
      if 48 \<le> n \<and> n \<le> 57 then n - 48
      else if 97 \<le> n \<and> n \<le> 102 then n - 97 + 10
      else if 65 \<le> n \<and> n \<le> 70 then n - 65 + 10
      else 0)"

fun decode_pairs :: "string \<Rightarrow> nat list" where
  "decode_pairs (a # b # rest) = (16 * nibble a + nibble b) # decode_pairs rest"
| "decode_pairs _ = []"

definition decode_hex_signature :: "string \<Rightarrow> authority_error + nat list" where
  "decode_hex_signature t =
     (if length t \<noteq> 128 \<or> \<not> list_all is_hexdigit t then Inl BadSignatureEncoding
      else Inr (decode_pairs t))"

definition check_issuance_binding ::
  "(json \<Rightarrow> string) \<Rightarrow> json \<Rightarrow> string set \<Rightarrow> authority_error + parsed_issuance" where
  "check_issuance_binding ser envelope trusted =
     (case as_object envelope of
        None \<Rightarrow> Inl NotAnObject
      | Some obj \<Rightarrow>
          (case Option.bind (map_of obj ''issuer'') as_object of
             None \<Rightarrow> Inl MissingIssuer
           | Some issuer \<Rightarrow>
               let key_id = unwrap_or (get_str issuer ''key_id'') [];
                   algorithm = unwrap_or (get_str issuer ''algorithm'') []
               in
               if key_id = [] then Inl MissingIssuer
               else if algorithm \<noteq> ''ed25519'' then Inl (UnknownIssuerAlgorithm algorithm)
               else if key_id \<notin> trusted then Inl (UntrustedIssuer key_id)
               else
                 (case decode_hex_signature (unwrap_or (get_str obj ''issuer_signature'') []) of
                    Inl e \<Rightarrow> Inl e
                  | Inr signature \<Rightarrow>
                      (case issuance_signed_bytes ser envelope of
                         Inl e \<Rightarrow> Inl e
                       | Inr bytes \<Rightarrow> Inr \<lparr>pi_key_id = key_id, pi_signed_bytes = bytes,
                                         pi_signature = signature\<rparr>))))"

section \<open>Carried evidence\<close>

record evidence_terms =
  et_participant :: string
  et_scope :: string
  et_trusted_key_ids :: "string set"
  et_now_secs :: nat
  et_max_age_secs :: nat

datatype evidence_standing_result = SystemSupplied | Attested | NotSupplied

definition evidence_standing ::
  "(json \<Rightarrow> string) \<Rightarrow> string \<Rightarrow> json option \<Rightarrow> bool \<Rightarrow> string \<Rightarrow> evidence_terms \<Rightarrow> evidence_standing_result" where
  "evidence_standing ser name carried system_supplied subject terms =
     (if system_supplied then SystemSupplied
      else
        (case Option.bind carried as_object of
           None \<Rightarrow> NotSupplied
         | Some attestation \<Rightarrow>
             if get_str attestation ''schema_version'' \<noteq> Some ''mncs.evidence-attestation/1'' then NotSupplied
             else if get_str attestation ''name'' \<noteq> Some name then NotSupplied
             else if get_str attestation ''participant'' \<noteq> Some (et_participant terms) then NotSupplied
             else if get_str attestation ''scope'' \<noteq> Some (et_scope terms) then NotSupplied
             else if (case get_str attestation ''subject'' of
                        None \<Rightarrow> False | Some bound \<Rightarrow> bound \<noteq> [] \<and> bound \<noteq> subject) then NotSupplied
             else
               (case Option.bind (map_of attestation ''issued_at'') as_u64 of
                  None \<Rightarrow> NotSupplied
                | Some issued \<Rightarrow>
                    if \<not> (issued \<le> et_now_secs terms \<and> et_now_secs terms - issued \<le> et_max_age_secs terms)
                    then NotSupplied
                    else
                      (case check_issuance_binding ser (JObject attestation) (et_trusted_key_ids terms) of
                         Inl _ \<Rightarrow> NotSupplied
                       | Inr _ \<Rightarrow> Attested))))"

definition satisfied_by_attested_evidence ::
  "(json \<Rightarrow> string) \<Rightarrow> string list \<Rightarrow> (string \<times> json) list \<Rightarrow> string set \<Rightarrow> evidence_terms \<Rightarrow> string list" where
  "satisfied_by_attested_evidence ser outstanding carried system_supplied terms =
     filter (\<lambda>item. evidence_standing ser item (map_of carried item) (item \<in> system_supplied) [] terms
                    \<notin> {SystemSupplied, Attested}) outstanding"


section \<open>Accepting a leg\<close>

definition artifact_mismatch :: "requirement_leg \<Rightarrow> acceptance" where
  "artifact_mismatch leg =
     \<lparr>ac_verdict = Refused, ac_leg = leg_name leg,
      ac_reason = ''artifact digest mismatch: observed differs from bound'', ac_binding = [],
      ac_outstanding = []\<rparr>"

definition authorized_for :: "(string \<rightharpoonup> string list) \<Rightarrow> string \<Rightarrow> string list" where
  "authorized_for targets need =
     (case targets need of None \<Rightarrow> [] | Some ts \<Rightarrow> sort_dedup (filter (\<lambda>t. t \<noteq> []) ts))"

text \<open>One iteration of the loop over the needs.  The state is the verdict, the reasons and the
  binding.\<close>

definition accept_need ::
  "(json \<Rightarrow> string) \<Rightarrow> requirement_leg \<Rightarrow> (string \<rightharpoonup> acceptance) \<Rightarrow> (string \<rightharpoonup> string list) \<Rightarrow>
   evidence_terms \<Rightarrow> string \<Rightarrow> authority_verdict \<times> string list \<times> string \<Rightarrow>
   authority_verdict \<times> string list \<times> string" where
  "accept_need ser leg folds targets terms need = (\<lambda>(verdict, reasons, binding).
     (case folds need of
        None \<Rightarrow> (verdict_fold verdict Refused,
                 reasons @ [need @ '': no atlas decision carried (bypass?)''], binding)
      | Some fld \<Rightarrow>
          let binding = (if binding = [] then ac_binding fld else binding);
              authorized = authorized_for targets need;
              target_bound = (if authorized = [] then True
                              else if leg_target leg = [] then False
                              else leg_target leg \<in> set authorized)
          in
          if \<not> target_bound then
            (verdict_fold verdict Refused,
             reasons @ [need @ '': target mismatch: leg declares '' @ debug_string (leg_target leg) @
               '', atlas authorizes '' @ debug_list authorized], binding)
          else
            let constrained = (leg_target leg \<noteq> [] \<and>
                  (case targets need of None \<Rightarrow> False | Some ts \<Rightarrow> list_ex (\<lambda>t. t \<noteq> []) ts))
            in
            (case ac_verdict fld of
               Refused \<Rightarrow> (verdict_fold verdict Refused, reasons @ [need @ '': '' @ ac_reason fld], binding)
             | AUnknown \<Rightarrow>
                 let supplied = (if constrained then {''execution.target''} else {});
                     still = satisfied_by_attested_evidence ser (ac_outstanding fld) (leg_evidence leg)
                               supplied terms
                 in
                 if still = [] then
                   (verdict, reasons @ [need @ '': conditional satisfied by carried evidence''], binding)
                 else
                   (verdict_fold verdict AUnknown,
                    reasons @ [need @ '': conditional, outstanding '' @ debug_list still], binding)
             | Granted \<Rightarrow> (verdict, reasons @ [need @ '': '' @ ac_reason fld], binding))))"

definition accept_leg ::
  "(json \<Rightarrow> string) \<Rightarrow> requirement_leg \<Rightarrow> (string \<rightharpoonup> acceptance) \<Rightarrow> string \<Rightarrow> string \<Rightarrow>
   (string \<rightharpoonup> string list) \<Rightarrow> evidence_terms \<Rightarrow> acceptance" where
  "accept_leg ser leg folds bound_artifact observed_artifact targets terms =
     (if observed_artifact \<noteq> [] \<and> observed_artifact \<noteq> bound_artifact then artifact_mismatch leg
      else
        let (verdict, reasons, binding) =
              fold (accept_need ser leg folds targets terms) (leg_needs leg) (Granted, [], [])
        in \<lparr>ac_verdict = verdict, ac_leg = leg_name leg, ac_reason = join ''; '' reasons,
            ac_binding = binding, ac_outstanding = []\<rparr>)"


section \<open>The requirement identity\<close>

definition leg_json :: "requirement_leg \<Rightarrow> json" where
  "leg_json leg = JObject
     [(''backend'', JString (leg_backend leg)),
      (''evidence'', JObject (leg_evidence leg)),
      (''name'', JString (leg_name leg)),
      (''needs'', JArray (map JString (sort (leg_needs leg)))),
      (''target'', JString (leg_target leg))]"

definition requirement_body ::
  "string \<Rightarrow> string \<Rightarrow> string \<Rightarrow> string list \<Rightarrow> requirement_leg list \<Rightarrow> (string \<times> json) list \<Rightarrow>
   string \<Rightarrow> string \<Rightarrow> json" where
  "requirement_body task_id source_identity artifact_id digests legs bounds participant scope = JObject
     [(''artifact_identity'', JString artifact_id),
      (''bounds'', JObject bounds),
      (''decision_digests'', JArray (map JString (sort digests))),
      (''legs'', JArray (map leg_json (sort_key leg_name legs))),
      (''schema_version'', JString ''mncs.execution-requirement/0.3''),
      (''session'', JObject [(''participant'', JString participant), (''scope'', JString scope)]),
      (''source_identity'', JString source_identity),
      (''task_id'', JString task_id)]"

definition requirement_identity ::
  "(json \<Rightarrow> string) \<Rightarrow> (string \<Rightarrow> string) \<Rightarrow> string \<Rightarrow> string \<Rightarrow> string \<Rightarrow> string list \<Rightarrow>
   requirement_leg list \<Rightarrow> (string \<times> json) list \<Rightarrow> string \<Rightarrow> string \<Rightarrow> string" where
  "requirement_identity ser sha task_id source_identity artifact_id digests legs bounds participant scope =
     sha (ser (requirement_body task_id source_identity artifact_id digests legs bounds participant scope))"


section \<open>Execution confirmation\<close>

datatype proof_class = Operator | ConsumerDeclared | Legacy | UnknownProof

fun proof_class_debug :: "proof_class \<Rightarrow> string" where
  "proof_class_debug Operator = ''Operator''"
| "proof_class_debug ConsumerDeclared = ''ConsumerDeclared''"
| "proof_class_debug Legacy = ''Legacy''"
| "proof_class_debug UnknownProof = ''Unknown''"

definition plain_acceptance :: "authority_verdict \<Rightarrow> string \<Rightarrow> acceptance" where
  "plain_acceptance verdict reason =
     \<lparr>ac_verdict = verdict, ac_leg = [], ac_reason = reason, ac_binding = [], ac_outstanding = []\<rparr>"

definition confirm_execution :: "string \<Rightarrow> string \<Rightarrow> proof_class \<Rightarrow> bool \<Rightarrow> acceptance" where
  "confirm_execution authorized actual prf is_fresh =
     (let mismatch = ''target mismatch: authorized '' @ authorized @ '', actual '' @ actual in
      if prf = Legacy then
        (if actual \<noteq> [] \<and> authorized \<noteq> [] \<and> actual \<noteq> authorized then plain_acceptance Refused mismatch
         else plain_acceptance AUnknown
           (''actual target '' @ (if actual = [] then ''unreported'' else actual) @
            '' consistent with authorized '' @ (if authorized = [] then ''unbound'' else authorized) @
            '' but unproven: implementation predates observation provenance''))
      else if actual = [] then plain_acceptance Refused ''no actual target evidence''
      else if prf \<noteq> Operator then
        plain_acceptance Refused (''proof channel '' @ proof_class_debug prf @ '' is not operator authority'')
      else if \<not> is_fresh then plain_acceptance AUnknown (''stale target evidence for '' @ actual)
      else if authorized = [] then
        plain_acceptance AUnknown (''target unbound end-to-end: actual '' @ actual @ '' has no declared target'')
      else if actual \<noteq> authorized then plain_acceptance Refused mismatch
      else plain_acceptance Granted (''actual target '' @ actual @ '' matches authorized '' @ authorized))"


section \<open>The verdict lattice\<close>

fun authority_rank :: "authority_verdict \<Rightarrow> nat" where
  "authority_rank Granted = 0"
| "authority_rank AUnknown = 1"
| "authority_rank Refused = 2"

lemma authority_rank_fold: "authority_rank (verdict_fold a b) = max (authority_rank a) (authority_rank b)"
  by (cases a; cases b) simp_all

interpretation authority: verdict_lattice verdict_fold authority_rank Granted
proof unfold_locales
  show "authority_rank a = authority_rank b \<Longrightarrow> a = b" for a b
    by (cases a; cases b) simp_all
qed (simp_all add: authority_rank_fold)

lemma fold_Granted_iff [verdict_simps]: "verdict_fold a b = Granted \<longleftrightarrow> a = Granted \<and> b = Granted"
  by (cases a; cases b) simp_all

lemma fold_Refused_iff [verdict_simps]: "verdict_fold a b = Refused \<longleftrightarrow> a = Refused \<or> b = Refused"
  by (cases a; cases b) simp_all

section \<open>Folding is a function of the set of decisions\<close>

fun decision_verdict :: "capability_decision \<Rightarrow> authority_verdict" where
  "decision_verdict d =
     (case cd_status d of
        Some StGranted \<Rightarrow> Granted
      | Some StConditional \<Rightarrow> if cd_missing d = [] then Granted else AUnknown
      | _ \<Rightarrow> Refused)"

definition conditional_missing :: "capability_decision \<Rightarrow> string set" where
  "conditional_missing d = (if cd_status d = Some StConditional then set (cd_missing d) else {})"

lemma sort_Nil: "sort xs = [] \<longleftrightarrow> xs = []"
  by (metis set_empty set_sort)

lemma status_cases [case_names none denied conditional granted]:
  assumes "cd_status d = None \<Longrightarrow> P" "cd_status d = Some StDenied \<Longrightarrow> P"
    "cd_status d = Some StConditional \<Longrightarrow> P" "cd_status d = Some StGranted \<Longrightarrow> P"
  shows P
  using assms decision_status.exhaust by (metis not_Some_eq)

lemma decision_verdict_iff:
  "decision_verdict d = Refused \<longleftrightarrow> cd_status d \<in> {None, Some StDenied}"
  "decision_verdict d = AUnknown \<longleftrightarrow> cd_status d = Some StConditional \<and> cd_missing d \<noteq> []"
  by (cases d rule: status_cases; simp)+

lemma fold_decision_step:
  "fs_verdict (fold_decision d st) = verdict_fold (fs_verdict st) (decision_verdict d)"
  "set (fs_outstanding (fold_decision d st)) = set (fs_outstanding st) \<union> conditional_missing d"
  "sorted_wrt (<) (fs_outstanding st) \<Longrightarrow> sorted_wrt (<) (fs_outstanding (fold_decision d st))"
  by (cases d rule: status_cases;
      simp add: fold_decision_def Let_def conditional_missing_def authority.dominate_best sorted_sort_dedup
        sort_Nil)+

lemma fold_decisions_verdict:
  "fs_verdict (fold fold_decision ds st) =
   fold (\<lambda>v acc. verdict_fold acc v) (map decision_verdict ds) (fs_verdict st)"
  by (induction ds arbitrary: st) (simp_all add: fold_decision_step)

lemma fold_decisions_outstanding:
  "set (fs_outstanding (fold fold_decision ds st)) =
   set (fs_outstanding st) \<union> (\<Union>d\<in>set ds. conditional_missing d)"
  by (induction ds arbitrary: st) (auto simp: fold_decision_step)

lemma fold_decisions_sorted:
  "sorted_wrt (<) (fs_outstanding st) \<Longrightarrow> sorted_wrt (<) (fs_outstanding (fold fold_decision ds st))"
  by (induction ds arbitrary: st) (simp_all add: fold_decision_step)

lemma fold_verdicts:
  "fold (\<lambda>v acc. verdict_fold acc v) vs Granted =
     (if Refused \<in> set vs then Refused else if AUnknown \<in> set vs then AUnknown else Granted)"
proof (cases "Refused \<in> set vs")
  case True
  have "authority_rank w \<le> authority_rank Refused" for w by (cases w) simp_all
  with True show ?thesis by (simp add: authority.fold_worst)
next
  case False
  then have r: "fold (\<lambda>v acc. verdict_fold acc v) vs Granted \<noteq> Refused"
  proof (induction vs rule: rev_induct)
    case (snoc v vs)
    then show ?case by (auto simp: fold_Refused_iff)
  qed simp
  show ?thesis
  proof (cases "AUnknown \<in> set vs")
    case True
    then have "fold (\<lambda>v acc. verdict_fold acc v) vs Granted \<noteq> Granted"
      by (auto simp: authority.fold_best_iff)
    with r True False show ?thesis
      by (cases "fold (\<lambda>v acc. verdict_fold acc v) vs Granted") auto
  next
    case False
    have "v = Granted" if "v \<in> set vs" for v
      using that False \<open>Refused \<notin> set vs\<close> authority_verdict.exhaust by metis
    then show ?thesis using False \<open>Refused \<notin> set vs\<close> by (simp add: authority.fold_best_iff)
  qed
qed

text \<open>The fold of the decisions for a capability depends on their set only, not on their order or
  multiplicity: it refuses when there is none or one is denied or has no status, is unknown when
  otherwise one is conditional with missing evidence, and grants in every other case; the
  outstanding evidence is the sorted union of what the conditional decisions miss.\<close>

theorem fold_capability_by_set:
  "ac_verdict (fold_capability capability ds) =
     (if ds = [] \<or> (\<exists>d\<in>set ds. cd_status d \<in> {None, Some StDenied}) then Refused
      else if \<exists>d\<in>set ds. cd_status d = Some StConditional \<and> cd_missing d \<noteq> [] then AUnknown
      else Granted) \<and>
   ac_outstanding (fold_capability capability ds) =
     sorted_list_of_set (\<Union>d\<in>set ds. conditional_missing d)"
proof (cases "ds = []")
  case True
  then show ?thesis by (simp add: fold_capability_def)
next
  case False
  let ?init = "\<lparr>fs_verdict = Granted, fs_outstanding = [], fs_reasons = [], fs_binding = []\<rparr>"
  let ?st = "fold fold_decision ds ?init"
  have v: "ac_verdict (fold_capability capability ds) = fs_verdict ?st"
    and o: "ac_outstanding (fold_capability capability ds) = fs_outstanding ?st"
    using False by (simp_all add: fold_capability_def Let_def)
  have iff: "Refused \<in> set (map decision_verdict ds) \<longleftrightarrow> (\<exists>d\<in>set ds. cd_status d \<in> {None, Some StDenied})"
    "AUnknown \<in> set (map decision_verdict ds) \<longleftrightarrow>
       (\<exists>d\<in>set ds. cd_status d = Some StConditional \<and> cd_missing d \<noteq> [])"
    by (metis (no_types, lifting) decision_verdict_iff imageE image_eqI list.set_map)+
  have "sorted_wrt (<) (fs_outstanding ?st)" by (rule fold_decisions_sorted) simp
  then have "fs_outstanding ?st = sorted_list_of_set (set (fs_outstanding ?st))"
    by (simp add: strict_sorted_iff sorted_list_of_set.idem_if_sorted_distinct)
  then have "fs_outstanding ?st = sorted_list_of_set (\<Union>d\<in>set ds. conditional_missing d)"
    by (simp add: fold_decisions_outstanding)
  moreover have "fs_verdict ?st =
      (if \<exists>d\<in>set ds. cd_status d \<in> {None, Some StDenied} then Refused
       else if \<exists>d\<in>set ds. cd_status d = Some StConditional \<and> cd_missing d \<noteq> [] then AUnknown
       else Granted)"
    by (simp only: fold_decisions_verdict fold_state.simps fold_verdicts iff)
  ultimately show ?thesis
    using False by (simp only: v o simp_thms)
qed

theorem fold_capability_by_set_witness:
  "ac_verdict (fold_capability ''net''
     [\<lparr>cd_capability = ''net'', cd_status = Some StConditional, cd_missing = [''mfa''], cd_session = None,
       cd_execution_target = [], cd_authority = [], cd_decided_by = []\<rparr>]) = AUnknown"
  using fold_capability_by_set [of "''net''"
     "[\<lparr>cd_capability = ''net'', cd_status = Some StConditional, cd_missing = [''mfa''], cd_session = None,
       cd_execution_target = [], cd_authority = [], cd_decided_by = []\<rparr>]"]
  by simp

section \<open>Sessions and confirmation\<close>

text \<open>The carried decisions pass the session check exactly when there is at least one and each is
  bound to the given participant and scope: one decision replayed from another context, or unbound,
  rejects the whole requirement.\<close>

theorem session_context_exact:
  "verify_session_context ds participant scope = Inr () \<longleftrightarrow>
     ds \<noteq> [] \<and> (\<forall>d\<in>set ds. cd_session d = Some \<lparr>sb_participant = participant, sb_scope = scope\<rparr>)"
  by (induction ds participant scope rule: verify_session_context.induct)
     (auto split: option.splits)

theorem session_context_exact_witness:
  "verify_session_context
     [\<lparr>cd_capability = ''net'', cd_status = Some StGranted, cd_missing = [],
       cd_session = Some \<lparr>sb_participant = ''p'', sb_scope = ''s''\<rparr>,
       cd_execution_target = [], cd_authority = [], cd_decided_by = []\<rparr>] ''p'' ''s'' = Inr ()"
  by (simp only: session_context_exact) simp

text \<open>Execution is confirmed as granted exactly on fresh operator proof of a non-empty actual
  target that equals the authorized one; on every other channel, and on a mismatch, it is not, and a
  positive mismatch on an operator or legacy channel with fresh proof is refused.\<close>

theorem confirm_execution_exact:
  "(ac_verdict (confirm_execution authorized actual pc is_fresh) = Granted \<longleftrightarrow>
      pc = Operator \<and> is_fresh \<and> actual \<noteq> [] \<and> actual = authorized) \<and>
   (ac_verdict (confirm_execution authorized actual pc is_fresh) = Refused \<longleftrightarrow>
      (pc \<noteq> Legacy \<and> actual = []) \<or> pc \<in> {ConsumerDeclared, UnknownProof} \<or>
      (actual \<noteq> [] \<and> authorized \<noteq> [] \<and> actual \<noteq> authorized \<and> (pc = Legacy \<or> is_fresh)))"
  by (cases pc) (auto simp: confirm_execution_def plain_acceptance_def Let_def)
section \<open>Accepting a leg, exactly\<close>

definition target_bound :: "requirement_leg \<Rightarrow> (string \<rightharpoonup> string list) \<Rightarrow> string \<Rightarrow> bool" where
  "target_bound leg targets need \<longleftrightarrow>
     (let authorized = {t \<in> set (unwrap_or (targets need) []). t \<noteq> []} in
      authorized = {} \<or> leg_target leg \<in> authorized)"

definition evidence_supplied ::
  "(json \<Rightarrow> string) \<Rightarrow> requirement_leg \<Rightarrow> (string \<rightharpoonup> string list) \<Rightarrow> evidence_terms \<Rightarrow> string \<Rightarrow> string \<Rightarrow> bool" where
  "evidence_supplied ser leg targets terms need item \<longleftrightarrow>
     (item = ''execution.target'' \<and> leg_target leg \<noteq> [] \<and>
        (\<exists>t \<in> set (unwrap_or (targets need) []). t \<noteq> [])) \<or>
     evidence_standing ser item (map_of (leg_evidence leg) item) False [] terms = Attested"

definition need_granted ::
  "(json \<Rightarrow> string) \<Rightarrow> requirement_leg \<Rightarrow> (string \<rightharpoonup> acceptance) \<Rightarrow> (string \<rightharpoonup> string list) \<Rightarrow>
   evidence_terms \<Rightarrow> string \<Rightarrow> bool" where
  "need_granted ser leg folds targets terms need \<longleftrightarrow>
     (\<exists>f. folds need = Some f \<and> target_bound leg targets need \<and>
        (ac_verdict f = Granted \<or>
         ac_verdict f = AUnknown \<and> (\<forall>item\<in>set (ac_outstanding f). evidence_supplied ser leg targets terms need item)))"

lemma authorized_for_set: "set (authorized_for targets need) = {t \<in> set (unwrap_or (targets need) []). t \<noteq> []}"
  by (auto simp: authorized_for_def unwrap_or_def split: option.splits)

lemma target_bound_code:
  "(if authorized_for targets need = [] then True
    else if leg_target leg = [] then False
    else leg_target leg \<in> set (authorized_for targets need)) = target_bound leg targets need"
proof -
  have "[] \<notin> set (authorized_for targets need)" by (simp add: authorized_for_set)
  then show ?thesis
    unfolding target_bound_def Let_def authorized_for_set [symmetric]
    by (cases "leg_target leg = []") simp_all
qed

lemma standing_system: "evidence_standing ser name carried True subject terms = SystemSupplied"
  by (simp add: evidence_standing_def)

lemma standing_not_system: "evidence_standing ser name carried False subject terms \<noteq> SystemSupplied"
  by (auto simp: evidence_standing_def Let_def split: option.splits sum.splits)

lemma still_outstanding_Nil:
  "satisfied_by_attested_evidence ser outstanding carried system terms = [] \<longleftrightarrow>
     (\<forall>item\<in>set outstanding. item \<in> system \<or>
        evidence_standing ser item (map_of carried item) False [] terms = Attested)"
proof -
  have "evidence_standing ser item (map_of carried item) (item \<in> system) [] terms \<in> {SystemSupplied, Attested} \<longleftrightarrow>
      item \<in> system \<or> evidence_standing ser item (map_of carried item) False [] terms = Attested" for item
    using standing_system standing_not_system by (cases "item \<in> system") auto
  then show ?thesis
    by (simp only: satisfied_by_attested_evidence_def filter_empty_conv not_not)
qed

lemma constrained_code:
  "(case targets need of None \<Rightarrow> False | Some ts \<Rightarrow> list_ex (\<lambda>t. t \<noteq> []) ts) \<longleftrightarrow>
     (\<exists>t \<in> set (unwrap_or (targets need) []). t \<noteq> [])"
  by (auto simp: unwrap_or_def list_ex_iff split: option.splits)

text \<open>What one need contributes to the verdict.\<close>

definition need_verdict ::
  "(json \<Rightarrow> string) \<Rightarrow> requirement_leg \<Rightarrow> (string \<rightharpoonup> acceptance) \<Rightarrow> (string \<rightharpoonup> string list) \<Rightarrow>
   evidence_terms \<Rightarrow> string \<Rightarrow> authority_verdict" where
  "need_verdict ser leg folds targets terms need =
     (case folds need of
        None \<Rightarrow> Refused
      | Some f \<Rightarrow>
          if \<not> target_bound leg targets need \<or> ac_verdict f = Refused then Refused
          else if need_granted ser leg folds targets terms need then Granted else AUnknown)"

lemma need_verdict_Granted:
  "need_verdict ser leg folds targets terms need = Granted \<longleftrightarrow> need_granted ser leg folds targets terms need"
  by (auto simp: need_verdict_def need_granted_def split: option.splits)

lemma accept_need_verdict:
  "fst (accept_need ser leg folds targets terms need st) =
     verdict_fold (fst st) (need_verdict ser leg folds targets terms need)"
proof -
  obtain verdict reasons binding where st: "st = (verdict, reasons, binding)" by (cases st)
  show ?thesis
  proof (cases "folds need")
    case None
    then show ?thesis by (simp add: st accept_need_def need_verdict_def)
  next
    case (Some f)
    have sup: "(satisfied_by_attested_evidence ser (ac_outstanding f) (leg_evidence leg)
        (if leg_target leg \<noteq> [] \<and> (\<exists>t \<in> set (unwrap_or (targets need) []). t \<noteq> [])
         then {''execution.target''} else {}) terms = []) \<longleftrightarrow>
        (\<forall>item\<in>set (ac_outstanding f). evidence_supplied ser leg targets terms need item)"
      by (auto simp: still_outstanding_Nil evidence_supplied_def)
    show ?thesis
      unfolding st accept_need_def Let_def target_bound_code constrained_code
      by (cases "target_bound leg targets need"; cases "ac_verdict f";
          simp add: Some need_verdict_def need_granted_def sup authority.dominate_best)
  qed
qed

lemma accept_needs_verdict:
  "fst (fold (accept_need ser leg folds targets terms) needs st) =
     fold (\<lambda>v acc. verdict_fold acc v) (map (need_verdict ser leg folds targets terms) needs) (fst st)"
  by (induction needs arbitrary: st) (simp_all add: accept_need_verdict)

text \<open>Property C23.  A leg is granted exactly when the observed artifact is the bound one and every need has a
  carried decision, names an authorized target wherever targets are authorized for it, and is either
  granted or conditional with every outstanding item supplied: by the verified target binding, or by
  an attestation that stands.  The verdict does not depend on the order of the needs.\<close>

theorem accept_leg_granted_iff:
  "(ac_verdict (accept_leg ser leg folds bound observed targets terms) = Granted \<longleftrightarrow>
     (observed = [] \<or> observed = bound) \<and>
     (\<forall>need\<in>set (leg_needs leg). need_granted ser leg folds targets terms need)) \<and>
   (set needs' = set (leg_needs leg) \<longrightarrow>
     ac_verdict (accept_leg ser leg folds bound observed targets terms) =
     fold (\<lambda>v acc. verdict_fold acc v) (map (need_verdict ser leg folds targets terms) needs')
       (if observed = [] \<or> observed = bound then Granted else Refused))"
proof -
  let ?v = "need_verdict ser leg folds targets terms"
  have eq: "ac_verdict (accept_leg ser leg folds bound observed targets terms) =
      (if observed = [] \<or> observed = bound
       then fold (\<lambda>v acc. verdict_fold acc v) (map ?v (leg_needs leg)) Granted else Refused)"
    using accept_needs_verdict [of ser leg folds targets terms "leg_needs leg" "(Granted, [], [])"]
    by (auto simp: accept_leg_def artifact_mismatch_def split: prod.splits)
  have refused: "fold (\<lambda>v acc. verdict_fold acc v) vs Refused = Refused" for vs
    by (induction vs) simp_all
  have "set needs' = set (leg_needs leg) \<Longrightarrow>
      fold (\<lambda>v acc. verdict_fold acc v) (map ?v needs') a =
      fold (\<lambda>v acc. verdict_fold acc v) (map ?v (leg_needs leg)) a" for a
    by (rule authority.fold_set_cong) simp
  then show ?thesis
    by (auto simp: eq refused authority.fold_best_iff need_verdict_Granted)
qed

text \<open>A caller-written attestation: the right names and times, a trusted key id, and a signature that
  is any 128 hexadecimal digits.\<close>

definition forged_attestation :: "string \<Rightarrow> string \<Rightarrow> evidence_terms \<Rightarrow> string \<Rightarrow> json" where
  "forged_attestation name key terms signature = JObject
     [(''issued_at'', JInt (int (et_now_secs terms))),
      (''issuer'', JObject [(''algorithm'', JString ''ed25519''), (''key_id'', JString key)]),
      (''issuer_signature'', JString signature),
      (''name'', JString name),
      (''participant'', JString (et_participant terms)),
      (''schema_version'', JString ''mncs.evidence-attestation/1''),
      (''scope'', JString (et_scope terms))]"

lemma forged_standing:
  assumes "key \<in> et_trusted_key_ids terms" "key \<noteq> []" "et_now_secs terms < 2 ^ 64"
    and "length signature = 128" "list_all is_hexdigit signature"
  shows "evidence_standing ser name (Some (forged_attestation name key terms signature)) False subject terms = Attested"
  using assms
  by (simp add: evidence_standing_def forged_attestation_def get_str_def check_issuance_binding_def
      unwrap_or_def decode_hex_signature_def issuance_signed_bytes_def)

text \<open>Acceptance does not check the signature of carried evidence: anyone who knows a trusted key
  id can write an attestation, with any 128 hexadecimal digits as its signature, that supplies an
  outstanding item, so a conditional need whose outstanding items are all carried in that form is
  granted.\<close>

theorem forged_evidence_grants:
  assumes "key \<in> et_trusted_key_ids terms" "key \<noteq> []" "et_now_secs terms < 2 ^ 64"
    and "length signature = 128" "list_all is_hexdigit signature"
    and "leg_needs leg = [need]" and "folds need = Some f" and "ac_verdict f = AUnknown"
    and "targets need = None"
    and "\<forall>item\<in>set (ac_outstanding f).
           map_of (leg_evidence leg) item = Some (forged_attestation item key terms signature)"
  shows "ac_verdict (accept_leg ser leg folds bound [] targets terms) = Granted"
proof -
  have "need_verdict ser leg folds targets terms need = Granted"
    using assms(6-10) forged_standing [OF assms(1-5)]
    by (auto simp: need_verdict_Granted need_granted_def target_bound_def unwrap_or_def evidence_supplied_def)
  moreover have "ac_verdict (accept_leg ser leg folds bound [] targets terms) =
      verdict_fold Granted (need_verdict ser leg folds targets terms need)"
    using accept_needs_verdict [of ser leg folds targets terms "leg_needs leg" "(Granted, [], [])"] assms(6)
    by (auto simp: accept_leg_def split: prod.splits)
  ultimately show ?thesis by simp
qed
definition sample_terms :: evidence_terms where
  "sample_terms = \<lparr>et_participant = ''p'', et_scope = ''s'', et_trusted_key_ids = {''k''}, et_now_secs = 5,
     et_max_age_secs = 60\<rparr>"

definition sample_leg :: "string \<Rightarrow> requirement_leg" where
  "sample_leg signature = \<lparr>leg_name = ''build'', leg_needs = [''net''], leg_backend = [], leg_target = [],
     leg_evidence = [(''mfa'', forged_attestation ''mfa'' ''k'' sample_terms signature)]\<rparr>"

definition sample_fold :: acceptance where
  "sample_fold = \<lparr>ac_verdict = AUnknown, ac_leg = ''net'', ac_reason = [], ac_binding = [],
     ac_outstanding = [''mfa'']\<rparr>"

theorem accept_leg_granted_iff_witness:
  "ac_verdict (accept_leg (\<lambda>_. []) (sample_leg []) [''net'' \<mapsto> sample_fold] ''a'' ''b'' Map.empty sample_terms) \<noteq> Granted \<and>
   ac_verdict (accept_leg (\<lambda>_. []) (sample_leg []) [''net'' \<mapsto> sample_fold\<lparr>ac_verdict := Granted\<rparr>] ''a'' ''a''
     Map.empty sample_terms) = Granted"
  using accept_leg_granted_iff [of "\<lambda>_. []" "sample_leg []" "[''net'' \<mapsto> sample_fold]" "''a''" "''b''" Map.empty sample_terms]
    accept_leg_granted_iff [of "\<lambda>_. []" "sample_leg []" "[''net'' \<mapsto> sample_fold\<lparr>ac_verdict := Granted\<rparr>]" "''a''" "''a''"
      Map.empty sample_terms]
  by (simp add: sample_leg_def need_granted_def target_bound_def unwrap_or_def)

theorem forged_evidence_grants_witness:
  "ac_verdict (accept_leg (\<lambda>_. []) (sample_leg (replicate 128 CHR ''0'')) [''net'' \<mapsto> sample_fold] ''a'' []
     Map.empty sample_terms) = Granted"
  by (rule forged_evidence_grants [where key = "''k''" and signature = "replicate 128 CHR ''0''"
        and need = "''net''" and f = sample_fold])
     (simp_all add: sample_terms_def sample_leg_def sample_fold_def is_hexdigit_def list_all_length)


section \<open>Signatures, digests and identities\<close>

definition hex_char :: "nat \<Rightarrow> char" where
  "hex_char d = char_of (if d < 10 then 48 + d else 87 + d)"

definition encode_hex :: "nat list \<Rightarrow> string" where
  "encode_hex bytes = concat (map (\<lambda>b. [hex_char (b div 16), hex_char (b mod 16)]) bytes)"

lemma hex_char_nibble: "d < 16 \<Longrightarrow> nibble (hex_char d) = d \<and> is_hexdigit (hex_char d)"
  by (simp add: nibble_def hex_char_def is_hexdigit_def Let_def of_char_of)

lemma decode_encode: "\<forall>b\<in>set bytes. b < 256 \<Longrightarrow> decode_pairs (encode_hex bytes) = bytes"
proof (induction bytes)
  case (Cons b bytes)
  have "b div 16 < 16" "b mod 16 < 16" using Cons.prems by (auto intro: less_mult_imp_div_less)
  with Cons hex_char_nibble show ?case by (simp add: encode_hex_def)
qed (simp add: encode_hex_def)

lemma encode_hex_hex: "\<forall>b\<in>set bytes. b < 256 \<Longrightarrow> list_all is_hexdigit (encode_hex bytes)"
proof (induction bytes)
  case (Cons b bytes)
  have "b div 16 < 16" "b mod 16 < 16" using Cons.prems by (auto intro: less_mult_imp_div_less)
  with Cons hex_char_nibble show ?case by (simp add: encode_hex_def)
qed (simp add: encode_hex_def)

lemma encode_hex_length [simp]: "length (encode_hex bytes) = 2 * length bytes"
  by (induction bytes) (simp_all add: encode_hex_def)

lemma decode_pairs_length: "length (decode_pairs t) = length t div 2"
  by (induction t rule: decode_pairs.induct) simp_all

lemma nibble_bound: "nibble c < 16"
  by (auto simp: nibble_def Let_def)

lemma decode_pairs_bytes: "b \<in> set (decode_pairs t) \<Longrightarrow> b < 256"
proof (induction t rule: decode_pairs.induct)
  case (1 c d rest)
  then show ?case using nibble_bound [of c] nibble_bound [of d] by auto
qed simp_all

text \<open>Signature decoding: the lower-case hexadecimal form of any 64 bytes decodes to these
  bytes; whatever decodes has 128 hexadecimal digits and gives 64 bytes; everything else is an
  encoding error.\<close>

theorem decode_hex_signature_roundtrip:
  "(length bytes = 64 \<and> (\<forall>b\<in>set bytes. b < 256) \<longrightarrow>
      decode_hex_signature (encode_hex bytes) = Inr bytes) \<and>
   (\<forall>bs. decode_hex_signature t = Inr bs \<longrightarrow>
      length t = 128 \<and> length bs = 64 \<and> (\<forall>b\<in>set bs. b < 256)) \<and>
   (decode_hex_signature t = Inl BadSignatureEncoding \<longleftrightarrow>
      \<not> (length t = 128 \<and> (\<forall>c\<in>set t. is_hexdigit c)))"
  using encode_hex_hex [of bytes]
  by (auto simp: decode_hex_signature_def decode_encode decode_pairs_length list_all_iff
      dest: decode_pairs_bytes)

theorem decode_hex_signature_roundtrip_witness:
  "decode_hex_signature (encode_hex (replicate 64 171)) = Inr (replicate 64 171)"
  using decode_hex_signature_roundtrip [of "replicate 64 171" "[]"] by simp

lemma digest_verified_iff:
  "verify_decision_digest ser sha (JObject obj) = Inr () \<longleftrightarrow>
     get_str obj ''decision_digest_alg'' = Some digest_algorithm \<and>
     get_str obj ''decision_digest'' = Some (sha (ser (JObject (remove_key ''decision_digest'' obj))))"
proof -
  have "digest_algorithm \<noteq> []" by (simp add: digest_algorithm_def)
  then show ?thesis
    by (auto simp: verify_decision_digest_def canonical_envelope_def unwrap_or_def Let_def split: option.splits)
qed

lemma map_of_remove_key: "map_of (remove_key k obj) = (map_of obj)(k := None)"
  by (induction obj) (auto simp: remove_key_def)

text \<open>Property C30.  Envelope integrity: if two envelopes verify and carry the same digest, they agree on
  every field other than the digest itself, as long as serializer and hash do not collide on the
  two; no change of a verified envelope that keeps its digest goes unnoticed.\<close>

theorem verified_digest_determines_envelope:
  assumes "verify_decision_digest ser sha (JObject obj) = Inr ()"
    and "verify_decision_digest ser sha (JObject obj') = Inr ()"
    and "get_str obj ''decision_digest'' = get_str obj' ''decision_digest''"
    and "sha (ser (JObject (remove_key ''decision_digest'' obj))) =
         sha (ser (JObject (remove_key ''decision_digest'' obj'))) \<Longrightarrow>
      remove_key ''decision_digest'' obj = remove_key ''decision_digest'' obj'"
  shows "(map_of obj)(''decision_digest'' := None) = (map_of obj')(''decision_digest'' := None)"
  using assms unfolding digest_verified_iff by (metis map_of_remove_key option.inject)

theorem verified_digest_determines_envelope_witness:
  "(map_of [(''decision_digest'', JString ''h''), (''decision_digest_alg'', JString digest_algorithm)])
     (''decision_digest'' := None) =
   (map_of [(''decision_digest_alg'', JString digest_algorithm), (''decision_digest'', JString ''h'')])
     (''decision_digest'' := None)"
  by (rule verified_digest_determines_envelope [where ser = "\<lambda>_. []" and sha = "\<lambda>_. ''h''"])
     (simp_all add: digest_verified_iff get_str_def remove_key_def)

lemma sort_eq_iff: "sort xs = sort ys \<longleftrightarrow> mset xs = mset ys"
  by (metis mset_sort properties_for_sort sorted_sort)

lemma map_JString_inject [simp]: "map JString xs = map JString ys \<longleftrightarrow> xs = ys"
  by (rule inj_map_eq_map) (simp add: inj_def)

lemma leg_json_iff:
  "leg_json a = leg_json b \<longleftrightarrow>
     leg_name a = leg_name b \<and> leg_backend a = leg_backend b \<and> leg_target a = leg_target b \<and>
     leg_evidence a = leg_evidence b \<and> mset (leg_needs a) = mset (leg_needs b)"
  by (auto simp: leg_json_def sort_eq_iff)



end
