(* ===== verification/Body.thy ===== *)
theory Body
  imports Exec_Scalar
begin

text \<open>
  The executable body of a function, from \<open>crates/mncs-model/src/body.rs\<close>: operations,
  blocks, terminators, and the spelling of a type.

  The operations are those of \<open>BodyOperationKind\<close> except host calls, each with the fields that
  validation and execution read; so are bodies, functions and programs.
\<close>

section \<open>Spelling of types\<close>

fun canonical_text :: "sequence_bound \<Rightarrow> string" where
  "canonical_text (Exact len) = show_nat len"
| "canonical_text (UpTo capacity) = ''up_to '' @ show_nat capacity"
| "canonical_text (Param name) = name"
| "canonical_text (UpToParam name) = ''up_to '' @ name"

fun semantic_name :: "body_type \<Rightarrow> string" where
  "semantic_name (TNamed name) = name"
| "semantic_name TBool = ''bool''"
| "semantic_name (TInteger integer) = (if ty_signed integer then ''i'' else ''u'') @ show_nat (ty_bits integer)"
| "semantic_name (TFloat float) = ''f'' @ show_nat (float_bits float)"
| "semantic_name TByte = ''byte''"
| "semantic_name (TSequence element bound) =
     ''['' @ semantic_name element @ ''; '' @ canonical_text bound @ '']''"
| "semantic_name (TVector element lanes) =
     ''vec<'' @ semantic_name element @ '', '' @ show_nat lanes @ ''>''"
| "semantic_name (TMask lanes) = ''mask<'' @ show_nat lanes @ ''>''"
| "semantic_name (TFinite _ name) = name"
| "semantic_name (TRecord _ name) = name"
| "semantic_name (TGenericParam name) = name"


section \<open>Operations\<close>

datatype failure_mode = Isolated | Atomic | Partial | Compensating | Fatal

datatype bounds_evidence = StaticExact | TraversalDomain | RuntimeChecked failure_mode | CheckedBound

record effect =
  ef_kind :: string
  ef_target :: string
  ef_capability :: string

datatype generic_param_kind = TypeParameter | NatParameter

record generic_param =
  gp_name :: string
  gp_kind :: generic_param_kind

datatype generic_arg = TypeArg body_type | ValueArg nat | ValueParamArg string

datatype operation_kind =
  Constant int body_type
| Integer string integer_type arithmetic_intent
| IntegerCompare string integer_type
| FloatConstant nat float_type
| Float string
| FloatCompare string
| FloatIntrinsic string
| BooleanOp string
| BooleanCompare string
| BooleanNot
| ByteBitwise string
| ByteShift string
| ByteCompare string
| Select body_type
| SequenceReplace body_type sequence_bound bounds_evidence
| BoundCheck sequence_bound
| SequenceCopy body_type sequence_bound sequence_bound bounds_evidence
| VectorConstruct body_type nat
| VectorSplat body_type nat
| VectorExtract body_type nat bounds_evidence
| VectorReplace body_type nat bounds_evidence
| VectorBinary string body_type nat arithmetic_intent
| VectorCompare string body_type nat
| MaskBinary string nat
| MaskNot nat
| MaskReduce string nat
| VectorReduce string body_type nat arithmetic_intent
| Convert body_type body_type
| SequenceConstruct body_type nat
| SequenceProject sequence_bound bounds_evidence
| SequenceLength sequence_bound
| ViewConstruct sequence_bound sequence_bound
| ViewNarrow nat nat
| FiniteConstruct semantic_id semantic_id nat "string list"
| FiniteIsVariant semantic_id semantic_id nat
| FinitePayloadProject semantic_id semantic_id nat string
| RecordConstruct semantic_id "string list"
| RecordProject semantic_id string
| Call semantic_id string "string list" "effect list" "generic_arg list"
| Effect effect string
| RuntimeCheck semantic_id semantic_id failure_mode

text \<open>What an operation carries beside its meaning: a machine intent with its requirements and
  obligations, each an identity and a subject; how it may be lowered; where it may run.\<close>

record intent_subject =
  is_identity :: semantic_id
  is_subject :: semantic_id

record machine_intent_spec =
  mis_identity :: semantic_id
  mis_requirements :: "intent_subject list"
  mis_obligations :: "intent_subject list"

datatype realization_class = PortableReference | RuntimeCheckedRealization | Specialized string

record lowering_envelope =
  le_schema :: string
  le_realizations :: "realization_class list"
  le_fallback :: "realization_class option"

record portability_envelope =
  pe_schema :: string
  pe_integer_widths :: "nat list"

record body_value =
  bv_id :: string
  bv_ty :: body_type

record body_operation =
  bo_id :: string
  bo_kind :: operation_kind
  bo_operands :: "string list"
  bo_results :: "body_value list"
  bo_contracts :: "string list"
  bo_assumptions :: "string list"
  bo_machine_intent :: "machine_intent_spec option"
  bo_lowering :: "lowering_envelope option"
  bo_portability :: "portability_envelope option"

text \<open>\<open>operands.get(i)\<close>\<close>

definition operand :: "body_operation \<Rightarrow> nat \<Rightarrow> string option" where
  "operand oper i = (if i < length (bo_operands oper) then Some (bo_operands oper ! i) else None)"


section \<open>Blocks and bodies\<close>

datatype body_terminator =
  Return "string list"
| Branch string "string list"
| ConditionalBranch string string "string list" string "string list"
| Failure failure_mode

record body_block =
  bb_id :: string
  bb_parameters :: "body_value list"
  bb_operations :: "body_operation list"
  bb_terminator :: body_terminator

record body_parameter =
  bp_id :: string
  bp_name :: string
  bp_ty :: body_type

datatype cycle_policy = LegacyCycles | BoundedIterationOnly

datatype iteration_domain = Attempts | OverSequence body_type

datatype iteration_completion = EarlyReturn | Exhausted | FailureCompletion | UnknownCompletion

record bounded_iteration =
  bi_id :: string
  bi_bound :: nat
  bi_state_type :: body_type
  bi_domain :: iteration_domain
  bi_header_state :: string
  bi_header_counter :: string
  bi_preheader :: string
  bi_header :: string
  bi_body_entry :: string
  bi_backedge :: string
  bi_exit :: string
  bi_exit_state :: string
  bi_required_capabilities :: "string list"
  bi_completion_modes :: "iteration_completion list"

record function_body =
  fb_schema :: string
  fb_entry :: string
  fb_parameters :: "body_parameter list"
  fb_cycle_policy :: cycle_policy
  fb_bounded_iterations :: "bounded_iteration list"
  fb_blocks :: "body_block list"

text \<open>The blocks as the program indexes them: a \<open>BTreeMap\<close> collected from the list, so of two
  blocks with one identity the later wins.\<close>

definition block_map :: "function_body \<Rightarrow> string \<rightharpoonup> body_block" where
  "block_map body = map_of (rev (map (\<lambda>b. (bb_id b, b)) (fb_blocks body)))"

lemma dom_block_map: "dom (block_map body) = bb_id ` set (fb_blocks body)"
  by (force simp: block_map_def dom_map_of_conv_image_fst)

lemma block_map_in: "block_map body i = Some b \<Longrightarrow> b \<in> set (fb_blocks body) \<and> bb_id b = i"
  by (auto simp: block_map_def dest: map_of_SomeD)


section \<open>Programs\<close>

text \<open>The declarations of a program: its nominal types and its functions.  A body is optional; a
  function without a home module belongs to the program's own.  Of contracts and assumptions the
  identifiers are kept, of evidence the claimed property and the verifier.\<close>

record record_field =
  rf_name :: string
  rf_type :: string

record finite_variant =
  fv_identity :: semantic_id
  fv_name :: string
  fv_discriminant :: nat
  fv_payload :: "record_field list"

record finite_type =
  ft_identity :: semantic_id
  ft_name :: string
  ft_variants :: "finite_variant list"

record record_type =
  rt_identity :: semantic_id
  rt_name :: string
  rt_fields :: "record_field list"

record named_value =
  nv_name :: string
  nv_type :: string

record evidence_claim =
  ec_property :: string
  ec_verifier :: string

record fn =
  fn_name :: string
  fn_home_module :: "string option"
  fn_generic_params :: "generic_param list"
  fn_inputs :: "named_value list"
  fn_outputs :: "named_value list"
  fn_contracts :: "string list"
  fn_effects :: "effect list"
  fn_capabilities :: "string list"
  fn_assumptions :: "string list"
  fn_evidence :: "evidence_claim list"
  fn_failure :: failure_mode
  fn_body :: "function_body option"

record program =
  pg_schema :: string
  pg_module :: string
  pg_dependencies :: "semantic_id list"
  pg_finite_types :: "finite_type list"
  pg_record_types :: "record_type list"
  pg_assumptions :: "string list"
  pg_functions :: "fn list"

definition identity_namespace :: "fn \<Rightarrow> string \<Rightarrow> string" where
  "identity_namespace f module = (case fn_home_module f of Some m \<Rightarrow> m | None \<Rightarrow> module)"


section \<open>Omitted fields\<close>

text \<open>What decoding puts for the fields a document omits: operations without metadata, functions
  and programs without declarations beside the given ones.\<close>

abbreviation plain_operation :: "string \<Rightarrow> operation_kind \<Rightarrow> string list \<Rightarrow> body_value list \<Rightarrow> body_operation" where
  "plain_operation identity kind operands results \<equiv>
     \<lparr>bo_id = identity, bo_kind = kind, bo_operands = operands, bo_results = results, bo_contracts = [],
      bo_assumptions = [], bo_machine_intent = None, bo_lowering = None, bo_portability = None\<rparr>"

abbreviation plain_body :: "string \<Rightarrow> body_parameter list \<Rightarrow> body_block list \<Rightarrow> function_body" where
  "plain_body entry parameters blocks \<equiv>
     \<lparr>fb_schema = ''0.3'', fb_entry = entry, fb_parameters = parameters, fb_cycle_policy = LegacyCycles,
      fb_bounded_iterations = [], fb_blocks = blocks\<rparr>"

abbreviation plain_fn :: "string \<Rightarrow> named_value list \<Rightarrow> named_value list \<Rightarrow> function_body \<Rightarrow> fn" where
  "plain_fn name inputs outputs body \<equiv>
     \<lparr>fn_name = name, fn_home_module = None, fn_generic_params = [], fn_inputs = inputs, fn_outputs = outputs,
      fn_contracts = [], fn_effects = [], fn_capabilities = [], fn_assumptions = [], fn_evidence = [],
      fn_failure = Isolated, fn_body = Some body\<rparr>"

abbreviation plain_program :: "string \<Rightarrow> finite_type list \<Rightarrow> record_type list \<Rightarrow> fn list \<Rightarrow> program" where
  "plain_program home finite_types record_types functions \<equiv>
     \<lparr>pg_schema = ''0.1'', pg_module = home, pg_dependencies = [], pg_finite_types = finite_types,
      pg_record_types = record_types, pg_assumptions = [], pg_functions = functions\<rparr>"

end
