(* ===== verification/Identity.thy ===== *)
theory Identity
  imports Prelude
begin

text \<open>
  Semantic identities, \<open>crates/mncs-model/src/identity.rs\<close>: how an identity is built from a kind
  and its components, how the components are read back, and the difference of two identity
  tables.  A string is the list of its UTF-8 bytes.
\<close>

section \<open>Kinds and components\<close>

datatype identity_kind =
  IProgram | IModule | IFiniteType | IFiniteVariant | IRecordType | IRecordField | IFunction |
  ITest | ITestCase | IContract | IAssumption | IEffect | ICapability | IEvidence | IBody |
  IIteration | IBlock | IOperation | IValue | IRuntimeCheck | IMachineIntent | IFact |
  IRequirement | IObligation | IRealization | ITransformation | IScope | IBinding | IReference |
  IGenericParam | IInstantiation | ISpecialization

fun kind_name :: "identity_kind \<Rightarrow> string" where
  "kind_name IProgram = ''program''"
| "kind_name IModule = ''module''"
| "kind_name IFiniteType = ''finite-type''"
| "kind_name IFiniteVariant = ''finite-variant''"
| "kind_name IRecordType = ''record-type''"
| "kind_name IRecordField = ''record-field''"
| "kind_name IFunction = ''function''"
| "kind_name ITest = ''test''"
| "kind_name ITestCase = ''test-case''"
| "kind_name IContract = ''contract''"
| "kind_name IAssumption = ''assumption''"
| "kind_name IEffect = ''effect''"
| "kind_name ICapability = ''capability''"
| "kind_name IEvidence = ''evidence''"
| "kind_name IBody = ''body''"
| "kind_name IIteration = ''iteration''"
| "kind_name IBlock = ''block''"
| "kind_name IOperation = ''operation''"
| "kind_name IValue = ''value''"
| "kind_name IRuntimeCheck = ''runtime-check''"
| "kind_name IMachineIntent = ''machine-intent''"
| "kind_name IFact = ''fact''"
| "kind_name IRequirement = ''requirement''"
| "kind_name IObligation = ''obligation''"
| "kind_name IRealization = ''realization''"
| "kind_name ITransformation = ''transformation''"
| "kind_name IScope = ''scope''"
| "kind_name IBinding = ''binding''"
| "kind_name IReference = ''reference''"
| "kind_name IGenericParam = ''generic-param''"
| "kind_name IInstantiation = ''instantiation''"
| "kind_name ISpecialization = ''specialization''"

definition upper_hex :: "nat \<Rightarrow> char" where
  "upper_hex d = char_of (if d < 10 then 48 + d else 55 + d)"

definition plain_byte :: "char \<Rightarrow> bool" where
  "plain_byte c \<longleftrightarrow>
     (CHR ''a'' \<le> c \<and> c \<le> CHR ''z'') \<or> (CHR ''A'' \<le> c \<and> c \<le> CHR ''Z'') \<or>
     (CHR ''0'' \<le> c \<and> c \<le> CHR ''9'') \<or> c \<in> {CHR ''_'', CHR ''-'', CHR ''.''}"

definition encode_byte :: "char \<Rightarrow> string" where
  "encode_byte c =
     (if plain_byte c then [c] else [CHR ''%'', upper_hex (of_char c div 16), upper_hex (of_char c mod 16)])"

definition encode_component :: "string \<Rightarrow> string" where
  "encode_component v = concat (map encode_byte v)"

text \<open>\<open>char::to_digit(16)\<close>, and \<open>u8::from_str_radix(_, 16)\<close> on two bytes, which also accepts a
  leading plus sign.\<close>

definition hex_digit :: "char \<Rightarrow> nat option" where
  "hex_digit c =
     (let n = of_char c in
      if 48 \<le> n \<and> n \<le> 57 then Some (n - 48)
      else if 65 \<le> n \<and> n \<le> 70 then Some (n - 55)
      else if 97 \<le> n \<and> n \<le> 102 then Some (n - 87)
      else None)"

definition hex_byte :: "char \<Rightarrow> char \<Rightarrow> char option" where
  "hex_byte a b =
     (if a = CHR ''+'' then map_option char_of (hex_digit b)
      else case (hex_digit a, hex_digit b) of
        (Some h, Some l) \<Rightarrow> Some (char_of (16 * h + l))
      | _ \<Rightarrow> None)"

fun decode_bytes :: "string \<Rightarrow> string option" where
  "decode_bytes [] = Some []"
| "decode_bytes (c # cs) =
     (if c = CHR ''%'' then
        (case cs of
           a # b # rest \<Rightarrow>
             (case hex_byte a b of
                None \<Rightarrow> None
              | Some byte \<Rightarrow> map_option ((#) byte) (decode_bytes rest))
         | _ \<Rightarrow> None)
      else map_option ((#) c) (decode_bytes cs))"

text \<open>Well-formed UTF-8, as \<open>String::from_utf8\<close> checks it.\<close>

fun valid_utf8 :: "nat list \<Rightarrow> bool" where
  "valid_utf8 [] = True"
| "valid_utf8 (a # bs) =
     (let cont = (\<lambda>n. 128 \<le> n \<and> n \<le> (191 :: nat)) in
      if a < 128 then valid_utf8 bs
      else if 194 \<le> a \<and> a \<le> 223 then
        (case bs of b # r \<Rightarrow> cont b \<and> valid_utf8 r | _ \<Rightarrow> False)
      else if 224 \<le> a \<and> a \<le> 239 then
        (case bs of b # c # r \<Rightarrow>
           (if a = 224 then 160 \<le> b \<and> b \<le> 191
            else if a = 237 then 128 \<le> b \<and> b \<le> 159 else cont b) \<and> cont c \<and> valid_utf8 r
         | _ \<Rightarrow> False)
      else if 240 \<le> a \<and> a \<le> 244 then
        (case bs of b # c # d # r \<Rightarrow>
           (if a = 240 then 144 \<le> b \<and> b \<le> 191
            else if a = 244 then 128 \<le> b \<and> b \<le> 143 else cont b) \<and> cont c \<and> cont d \<and> valid_utf8 r
         | _ \<Rightarrow> False)
      else False)"

definition is_utf8 :: "string \<Rightarrow> bool" where
  "is_utf8 s \<longleftrightarrow> valid_utf8 (map of_char s)"

definition decode_component :: "string \<Rightarrow> string option" where
  "decode_component v =
     (case decode_bytes v of
        None \<Rightarrow> None
      | Some out \<Rightarrow> if is_utf8 out then Some out else None)"


section \<open>Identities\<close>

fun join_with :: "string \<Rightarrow> string list \<Rightarrow> string" where
  "join_with sep [] = []"
| "join_with sep [x] = x"
| "join_with sep (x # y # xs) = x @ sep @ join_with sep (y # xs)"

definition id_prefix :: "string \<Rightarrow> string" where
  "id_prefix kind = ''mncs:0.2:'' @ kind @ '':''"

definition make_id :: "identity_kind \<Rightarrow> string list \<Rightarrow> semantic_id" where
  "make_id kind components =
     id_prefix (kind_name kind) @ join_with ''::'' (map encode_component components)"

definition strip_prefix :: "string \<Rightarrow> string \<Rightarrow> string option" where
  "strip_prefix pre s = (if take (length pre) s = pre then Some (drop (length pre) s) else None)"

text \<open>\<open>split("::")\<close>: the pieces between the separators, scanning from the left.\<close>

fun split_colons :: "string \<Rightarrow> string list" where
  "split_colons (a # b # cs) =
     (if a = CHR '':'' \<and> b = CHR '':'' then [] # split_colons cs
      else case split_colons (b # cs) of [] \<Rightarrow> [[a]] | p # ps \<Rightarrow> (a # p) # ps)"
| "split_colons s = [s]"

definition nth_piece :: "nat \<Rightarrow> string list \<Rightarrow> string option" where
  "nth_piece i ps = (if i < length ps then Some (ps ! i) else None)"

definition identity_component :: "semantic_id \<Rightarrow> string \<Rightarrow> nat \<Rightarrow> string option" where
  "identity_component identity kind i =
     (case strip_prefix (id_prefix kind) identity of
        None \<Rightarrow> None
      | Some encoded \<Rightarrow> Option.bind (nth_piece i (split_colons encoded)) decode_component)"

text \<open>The first kind whose prefix the identity has decides.\<close>

definition declaring_module :: "semantic_id \<Rightarrow> string option" where
  "declaring_module identity =
     (case List.map_filter (\<lambda>kind. strip_prefix (id_prefix kind) identity)
        [''finite-type'', ''record-type'', ''function'', ''module''] of
        [] \<Rightarrow> None
      | encoded # _ \<Rightarrow> Option.bind (nth_piece 0 (split_colons encoded)) decode_component)"

definition identity_module_name :: "semantic_id \<Rightarrow> string option" where
  "identity_module_name identity =
     Option.bind (strip_prefix ''mncs:0.2:module:'' identity) decode_component"

definition program_id :: "string \<Rightarrow> semantic_id" where
  "program_id module = make_id IProgram [module]"

definition module_id :: "string \<Rightarrow> semantic_id" where
  "module_id name = make_id IModule [name]"

definition scope_id :: "semantic_id \<Rightarrow> semantic_id \<Rightarrow> string \<Rightarrow> semantic_id" where
  "scope_id namespace owner path = make_id IScope [namespace, owner, path]"

definition binding_id :: "semantic_id \<Rightarrow> string \<Rightarrow> nat \<Rightarrow> semantic_id" where
  "binding_id scope kind slot = make_id IBinding [scope, kind, show_nat slot]"

definition binding_id_for :: "semantic_id \<Rightarrow> string \<Rightarrow> semantic_id \<Rightarrow> semantic_id" where
  "binding_id_for scope kind dcl = make_id IBinding [scope, kind, dcl]"

definition reference_id :: "semantic_id \<Rightarrow> semantic_id \<Rightarrow> nat \<Rightarrow> semantic_id" where
  "reference_id namespace owner slot = make_id IReference [namespace, owner, show_nat slot]"

definition finite_type_id :: "string \<Rightarrow> string \<Rightarrow> semantic_id" where
  "finite_type_id module name = make_id IFiniteType [module, name]"

definition record_type_id :: "string \<Rightarrow> string \<Rightarrow> (string \<times> string) list \<Rightarrow> semantic_id" where
  "record_type_id module name fs =
     make_id IRecordType [module, name,
       concat (map (\<lambda>(field, ty). field @ '':'' @ ty @ '';'') (sort_key fst (sort_key snd fs)))]"

definition record_field_id :: "string \<Rightarrow> string \<Rightarrow> string \<Rightarrow> semantic_id" where
  "record_field_id module rcd field = make_id IRecordField [module, rcd, field]"

definition finite_variant_id :: "string \<Rightarrow> string \<Rightarrow> string \<Rightarrow> semantic_id" where
  "finite_variant_id module type_name variant = make_id IFiniteVariant [module, type_name, variant]"

definition function_id :: "string \<Rightarrow> string \<Rightarrow> semantic_id" where
  "function_id module function_name = make_id IFunction [module, function_name]"

definition test_declaration_id :: "string \<Rightarrow> string \<Rightarrow> semantic_id" where
  "test_declaration_id module test = make_id ITest [module, test]"

definition test_case_id :: "string \<Rightarrow> string \<Rightarrow> string \<Rightarrow> semantic_id" where
  "test_case_id module test finger = make_id ITestCase [module, test, finger]"

definition generic_param_id :: "string \<Rightarrow> string \<Rightarrow> string \<Rightarrow> semantic_id" where
  "generic_param_id module function_name param = make_id IGenericParam [module, function_name, param]"

definition instantiation_id :: "semantic_id \<Rightarrow> string \<Rightarrow> semantic_id" where
  "instantiation_id generic args = make_id IInstantiation [generic, args]"

definition specialization_id :: "semantic_id \<Rightarrow> string \<Rightarrow> semantic_id" where
  "specialization_id generic args = make_id ISpecialization [generic, args]"

definition contract_id :: "string \<Rightarrow> string \<Rightarrow> string \<Rightarrow> semantic_id" where
  "contract_id module function_name contract = make_id IContract [module, function_name, contract]"

definition assumption_id :: "string \<Rightarrow> string \<Rightarrow> semantic_id" where
  "assumption_id module assumption = make_id IAssumption [module, assumption]"

definition capability_id :: "string \<Rightarrow> string \<Rightarrow> string \<Rightarrow> semantic_id" where
  "capability_id module function_name capability = make_id ICapability [module, function_name, capability]"

definition body_id :: "string \<Rightarrow> string \<Rightarrow> semantic_id" where
  "body_id module function_name = make_id IBody [module, function_name]"

definition iteration_id :: "string \<Rightarrow> string \<Rightarrow> string \<Rightarrow> semantic_id" where
  "iteration_id module function_name iteration = make_id IIteration [module, function_name, iteration]"

definition block_id :: "string \<Rightarrow> string \<Rightarrow> string \<Rightarrow> semantic_id" where
  "block_id module function_name block = make_id IBlock [module, function_name, block]"

definition operation_id :: "string \<Rightarrow> string \<Rightarrow> string \<Rightarrow> string \<Rightarrow> semantic_id" where
  "operation_id module function_name block oper = make_id IOperation [module, function_name, block, oper]"

definition parameter_id :: "string \<Rightarrow> string \<Rightarrow> string \<Rightarrow> semantic_id" where
  "parameter_id module function_name v = make_id IValue [module, function_name, ''parameter'', v]"

definition value_id :: "string \<Rightarrow> string \<Rightarrow> string \<Rightarrow> string \<Rightarrow> string \<Rightarrow> semantic_id" where
  "value_id module function_name block oper v = make_id IValue [module, function_name, block, oper, v]"

definition runtime_check_id :: "string \<Rightarrow> string \<Rightarrow> string \<Rightarrow> string \<Rightarrow> semantic_id" where
  "runtime_check_id module function_name block oper =
     make_id IRuntimeCheck [module, function_name, block, oper]"

definition machine_intent_id :: "string \<Rightarrow> string \<Rightarrow> string \<Rightarrow> string \<Rightarrow> semantic_id" where
  "machine_intent_id module function_name block oper =
     make_id IMachineIntent [module, function_name, block, oper]"

text \<open>\<open>sha\<close> is \<open>sha256_hex\<close>.\<close>

definition effect_id :: "(string \<Rightarrow> string) \<Rightarrow> string \<Rightarrow> string \<Rightarrow> string \<Rightarrow> nat \<Rightarrow> semantic_id" where
  "effect_id sha module function_name canonical occurrence =
     make_id IEffect [module, function_name, sha canonical @ '':'' @ show_nat occurrence]"

definition evidence_id :: "(string \<Rightarrow> string) \<Rightarrow> string \<Rightarrow> string \<Rightarrow> string \<Rightarrow> nat \<Rightarrow> semantic_id" where
  "evidence_id sha module function_name canonical occurrence =
     make_id IEvidence [module, function_name, sha canonical @ '':'' @ show_nat occurrence]"


section \<open>Identity tables and their difference\<close>

record identity_record =
  ir_identity :: semantic_id
  ir_kind :: identity_kind
  ir_fingerprint :: string

record identity_change =
  ic_identity :: semantic_id
  ic_before :: string
  ic_after :: string

record semantic_diff =
  sd_added :: "identity_record list"
  sd_removed :: "identity_record list"
  sd_changed :: "identity_change list"

definition find_record :: "identity_record list \<Rightarrow> semantic_id \<Rightarrow> identity_record option" where
  "find_record objects identity = find (\<lambda>r. ir_identity r = identity) objects"

definition find_fingerprint :: "identity_record list \<Rightarrow> semantic_id \<Rightarrow> string option" where
  "find_fingerprint objects identity = map_option ir_fingerprint (find_record objects identity)"

text \<open>Collecting the records into a map keeps the last of those with one identity.\<close>

definition record_map :: "identity_record list \<Rightarrow> semantic_id \<rightharpoonup> identity_record" where
  "record_map objects = map_of (rev (map (\<lambda>r. (ir_identity r, r)) objects))"

definition classify :: "(semantic_id \<rightharpoonup> identity_record) \<Rightarrow> (semantic_id \<rightharpoonup> identity_record) \<Rightarrow>
    semantic_id \<Rightarrow> semantic_diff \<Rightarrow> semantic_diff" where
  "classify before after identity d =
     (case (before identity, after identity) of
        (None, Some r) \<Rightarrow> d\<lparr>sd_added := sd_added d @ [r]\<rparr>
      | (Some r, None) \<Rightarrow> d\<lparr>sd_removed := sd_removed d @ [r]\<rparr>
      | (Some l, Some r) \<Rightarrow>
          if ir_fingerprint l \<noteq> ir_fingerprint r
          then d\<lparr>sd_changed := sd_changed d @ [\<lparr>ic_identity = identity, ic_before = ir_fingerprint l,
                   ic_after = ir_fingerprint r\<rparr>]\<rparr>
          else d
      | (None, None) \<Rightarrow> d)"

definition diff_identities :: "identity_record list \<Rightarrow> identity_record list \<Rightarrow> semantic_diff" where
  "diff_identities before after =
     fold (classify (record_map before) (record_map after))
       (sort_dedup (map ir_identity before @ map ir_identity after))
       \<lparr>sd_added = [], sd_removed = [], sd_changed = []\<rparr>"

section \<open>Reading the components back\<close>

lemma hex_digit_upper: "d < 16 \<Longrightarrow> hex_digit (upper_hex d) = Some d"
  by (auto simp: hex_digit_def upper_hex_def Let_def)

lemma upper_hex_not: "d < 16 \<Longrightarrow> upper_hex d \<noteq> CHR ''+''" "d < 16 \<Longrightarrow> upper_hex d \<noteq> CHR '':''"
proof -
  have "of_char (upper_hex d) \<noteq> (of_char (CHR ''+'') :: nat) \<and> of_char (upper_hex d) \<noteq> (of_char (CHR '':'') :: nat)"
    if "d < 16" using that by (auto simp: upper_hex_def)
  then show "d < 16 \<Longrightarrow> upper_hex d \<noteq> CHR ''+''" "d < 16 \<Longrightarrow> upper_hex d \<noteq> CHR '':''"
    by auto
qed

lemma hex_byte_upper: "hex_byte (upper_hex (of_char c div 16)) (upper_hex (of_char c mod 16)) = Some c"
proof -
  have "of_char c div 16 < (16 :: nat)"
    using nat_of_char_less_256 [of c] by (simp add: less_mult_imp_div_less del: nat_of_char_less_256)
  then show ?thesis
    by (simp add: hex_byte_def upper_hex_not hex_digit_upper)
qed

lemma decode_encode_byte: "decode_bytes (encode_byte c @ s) = map_option ((#) c) (decode_bytes s)"
proof (cases "plain_byte c")
  case True
  moreover have "\<not> plain_byte CHR ''%''" by (simp add: plain_byte_def less_eq_char_def)
  ultimately show ?thesis by (auto simp: encode_byte_def)
next
  case False
  then show ?thesis by (simp add: encode_byte_def hex_byte_upper)
qed

lemma decode_encode_bytes: "decode_bytes (encode_component v) = Some v"
  by (induction v) (simp_all add: encode_component_def decode_encode_byte)

lemma decode_encode_component: "is_utf8 v \<Longrightarrow> decode_component (encode_component v) = Some v"
  by (simp add: decode_component_def decode_encode_bytes)

lemma encode_no_colon: "CHR '':'' \<notin> set (encode_component v)"
proof -
  have "CHR '':'' \<notin> set (encode_byte c)" for c
  proof (cases "plain_byte c")
    case True
    moreover have "\<not> plain_byte CHR '':''" by (simp add: plain_byte_def less_eq_char_def)
    ultimately show ?thesis by (auto simp: encode_byte_def)
  next
    case False
    have "of_char c div 16 < (16 :: nat)"
      using nat_of_char_less_256 [of c] by (simp add: less_mult_imp_div_less del: nat_of_char_less_256)
    with False show ?thesis
      using upper_hex_not(2) [of "of_char c div 16"] upper_hex_not(2) [of "of_char c mod 16"]
      by (auto simp: encode_byte_def)
  qed
  then show ?thesis by (simp add: encode_component_def)
qed

lemma split_colons_piece: "CHR '':'' \<notin> set p \<Longrightarrow> split_colons (p @ ''::'' @ s) = p # split_colons s"
proof (induction p)
  case (Cons a p)
  then show ?case by (cases p) auto
qed simp

lemma split_colons_last: "CHR '':'' \<notin> set p \<Longrightarrow> split_colons p = [p]"
  by (induction p rule: split_colons.induct) auto

lemma split_join:
  "ps \<noteq> [] \<Longrightarrow> (\<And>p. p \<in> set ps \<Longrightarrow> CHR '':'' \<notin> set p) \<Longrightarrow> split_colons (join_with ''::'' ps) = ps"
proof (induction ps rule: induct_list012)
  case (3 x y xs)
  then show ?case using split_colons_piece [of x] by simp
qed (simp_all add: split_colons_last)

lemma split_encoded:
  "cs \<noteq> [] \<Longrightarrow> split_colons (join_with ''::'' (map encode_component cs)) = map encode_component cs"
  by (rule split_join) (auto simp: encode_no_colon)

lemma strip_prefix_append [simp]: "strip_prefix pre (pre @ s) = Some s"
  by (simp add: strip_prefix_def)

lemma encode_component_inject: "encode_component v = encode_component w \<longleftrightarrow> v = w"
  by (metis decode_encode_bytes option.inject)

lemma inj_encode_component: "inj encode_component"
  by (rule injI) (simp add: encode_component_inject)

lemma kind_no_colon: "CHR '':'' \<notin> set (kind_name k)"
  by (cases k) simp_all

definition all_kinds :: "identity_kind list" where
  "all_kinds =
     [IProgram, IModule, IFiniteType, IFiniteVariant, IRecordType, IRecordField, IFunction,
      ITest, ITestCase, IContract, IAssumption, IEffect, ICapability, IEvidence, IBody,
      IIteration, IBlock, IOperation, IValue, IRuntimeCheck, IMachineIntent, IFact, IRequirement,
      IObligation, IRealization, ITransformation, IScope, IBinding, IReference, IGenericParam,
      IInstantiation, ISpecialization]"

lemma all_kinds: "k \<in> set all_kinds"
  by (cases k) (simp_all add: all_kinds_def)

lemma kind_names_distinct: "distinct (map kind_name all_kinds)"
  unfolding all_kinds_def by code_simp

lemma kind_name_inject: "kind_name k = kind_name l \<longleftrightarrow> k = l"
proof -
  have "inj_on kind_name (set all_kinds)"
    using kind_names_distinct by (simp only: distinct_map)
  then show ?thesis by (rule inj_on_eq_iff [OF _ all_kinds all_kinds])
qed

lemma before_colon:
  "CHR '':'' \<notin> set p \<Longrightarrow> CHR '':'' \<notin> set q \<Longrightarrow> p @ CHR '':'' # r = q @ CHR '':'' # s \<longleftrightarrow> p = q \<and> r = s"
  by (auto simp: append_eq_append_conv2 append_eq_Cons_conv Cons_eq_append_conv)

lemma make_id_inject:
  assumes "cs \<noteq> []" "ds \<noteq> []"
  shows "make_id k cs = make_id l ds \<longleftrightarrow> k = l \<and> cs = ds"
proof
  assume "make_id k cs = make_id l ds"
  then have "kind_name k @ CHR '':'' # join_with ''::'' (map encode_component cs) =
      kind_name l @ CHR '':'' # join_with ''::'' (map encode_component ds)"
    by (simp add: make_id_def id_prefix_def)
  then have kind: "kind_name k = kind_name l"
    and rest: "join_with ''::'' (map encode_component cs) = join_with ''::'' (map encode_component ds)"
    by (simp_all add: before_colon kind_no_colon)
  have "k = l" using kind by (simp only: kind_name_inject)
  moreover have "map encode_component cs = map encode_component ds"
    using arg_cong [OF rest, of split_colons] unfolding split_encoded [OF assms(1)] split_encoded [OF assms(2)] .
  ultimately show "k = l \<and> cs = ds"
    using inj_map_eq_map [OF inj_encode_component] by blast
qed simp

lemma identity_component_make:
  assumes "i < length cs" and "is_utf8 (cs ! i)"
  shows "identity_component (make_id k cs) (kind_name k) i = Some (cs ! i)"
proof -
  have "cs \<noteq> []" using assms(1) by auto
  then show ?thesis
    using assms by (simp add: identity_component_def make_id_def split_encoded nth_piece_def decode_encode_component)
qed

lemma strip_prefix_other:
  "k \<noteq> l \<Longrightarrow> strip_prefix (id_prefix (kind_name l)) (make_id k cs) = None"
proof -
  assume "k \<noteq> l"
  have "kind_name k = kind_name l" if "make_id k cs = id_prefix (kind_name l) @ s" for s
    using that by (simp add: make_id_def id_prefix_def before_colon kind_no_colon)
  with \<open>k \<noteq> l\<close> show ?thesis
    by (metis append_take_drop_id kind_name_inject strip_prefix_def)
qed

lemma declaring_module_make:
  assumes "k \<in> {IFiniteType, IRecordType, IFunction, IModule}" and "is_utf8 m"
  shows "declaring_module (make_id k (m # cs)) = Some m"
proof -
  have own: "strip_prefix (id_prefix (kind_name k)) (make_id k (m # cs)) =
      Some (join_with ''::'' (map encode_component (m # cs)))"
    by (simp add: make_id_def)
  have "List.map_filter (\<lambda>kind. strip_prefix (id_prefix kind) (make_id k (m # cs)))
      (map kind_name [IFiniteType, IRecordType, IFunction, IModule]) =
      [join_with ''::'' (map encode_component (m # cs))]"
    using assms(1) own strip_prefix_other [of k IFiniteType] strip_prefix_other [of k IRecordType]
      strip_prefix_other [of k IFunction] strip_prefix_other [of k IModule]
    by (auto simp: List.map_filter_simps)
  then show ?thesis
    using split_encoded [of "m # cs"] assms(2)
    by (simp add: declaring_module_def nth_piece_def decode_encode_component)
qed

text \<open>Property C19.  An identity determines what it names: the kind and every component are read back from it,
  so no two different things share an identity, whatever bytes their names contain.\<close>

theorem identity_roundtrip:
  assumes "cs \<noteq> []" and "\<forall>c\<in>set cs. is_utf8 c"
  shows "map (identity_component (make_id k cs) (kind_name k)) [0..<length cs] = map Some cs \<and>
    {(l, ds). ds \<noteq> [] \<and> make_id l ds = make_id k cs} = {(k, cs)}"
proof
  show "map (identity_component (make_id k cs) (kind_name k)) [0..<length cs] = map Some cs"
    by (rule nth_equalityI) (use assms(2) in \<open>simp_all add: identity_component_make\<close>)
  show "{(l, ds). ds \<noteq> [] \<and> make_id l ds = make_id k cs} = {(k, cs)}"
    using assms(1) make_id_inject by auto
qed

theorem identity_roundtrip_witness:
  "map (identity_component (make_id IFunction [''a::b'', ''main'']) (kind_name IFunction)) [0..<2] =
     [Some ''a::b'', Some ''main'']"
  using identity_roundtrip [of "[''a::b'', ''main'']" IFunction]
  by (simp add: is_utf8_def numeral_2_eq_2)


section \<open>The difference of two tables\<close>

lemma record_map_dom: "record_map objects i = None \<longleftrightarrow> i \<notin> ir_identity ` set objects"
  by (auto simp: record_map_def map_of_eq_None_iff image_image)

lemma fold_classify:
  "sd_added (fold (classify b a) ids d) =
     sd_added d @ List.map_filter (\<lambda>i. case (b i, a i) of (None, Some r) \<Rightarrow> Some r | _ \<Rightarrow> None) ids"
  "sd_removed (fold (classify b a) ids d) =
     sd_removed d @ List.map_filter (\<lambda>i. case (b i, a i) of (Some r, None) \<Rightarrow> Some r | _ \<Rightarrow> None) ids"
  "map ic_identity (sd_changed (fold (classify b a) ids d)) = map ic_identity (sd_changed d) @
     filter (\<lambda>i. case (b i, a i) of (Some l, Some r) \<Rightarrow> ir_fingerprint l \<noteq> ir_fingerprint r | _ \<Rightarrow> False) ids"
  by (induction ids arbitrary: d)
     (auto simp: classify_def List.map_filter_simps split: option.splits)

lemma map_filter_eq: "List.map_filter f xs = map (the \<circ> f) (filter (\<lambda>x. f x \<noteq> None) xs)"
  by (induction xs) (auto simp: List.map_filter_simps)

lemma record_map_identity: "record_map objects i = Some r \<Longrightarrow> ir_identity r = i \<and> r \<in> set objects"
  by (auto simp: record_map_def dest!: map_of_SomeD)


end
