(* ===== verification/Type_Names.thy ===== *)
theory Type_Names
  imports Body Identity "HOL-Library.Sublist"
begin

text \<open>
  Reading the spelling of a type, from \<open>crates/mncs-model/src/body.rs\<close>: \<open>from_semantic_name\<close>
  for a spelling on its own and \<open>from_program_in_module\<close> for a spelling in the namespace of a
  module.  Texts are ASCII: of the characters that Rust counts as white space, alphabetic or
  numeric, the model knows the ASCII ones.
\<close>

section \<open>Text\<close>

definition is_space :: "char \<Rightarrow> bool" where
  "is_space c \<longleftrightarrow> c = CHR '' '' \<or> (9 \<le> (of_char c :: nat) \<and> of_char c \<le> (13 :: nat))"

definition trim :: "string \<Rightarrow> string" where
  "trim s = rev (dropWhile is_space (rev (dropWhile is_space s)))"

definition strip_suffix :: "string \<Rightarrow> string \<Rightarrow> string option" where
  "strip_suffix suf s = map_option rev (strip_prefix (rev suf) (rev s))"

text \<open>The texts before and after the last occurrence of a character (\<open>rfind\<close>).\<close>

definition split_last :: "char \<Rightarrow> string \<Rightarrow> (string \<times> string) option" where
  "split_last c s =
     (if c \<in> set s
      then Some (rev (tl (dropWhile (\<lambda>x. x \<noteq> c) (rev s))), rev (takeWhile (\<lambda>x. x \<noteq> c) (rev s)))
      else None)"

definition is_digit :: "char \<Rightarrow> bool" where
  "is_digit c \<longleftrightarrow> CHR ''0'' \<le> c \<and> c \<le> CHR ''9''"

definition digits_value :: "string \<Rightarrow> nat" where
  "digits_value s = foldl (\<lambda>n c. 10 * n + (of_char c - 48)) 0 s"

text \<open>\<open>parse\<close> into an unsigned integer of \<open>w\<close> bits: an optional plus sign, then at least one
  digit; leading zeros are accepted, a value out of range is not.\<close>

definition parse_unsigned :: "nat \<Rightarrow> string \<Rightarrow> nat option" where
  "parse_unsigned w s =
     (let digits = (case s of c # cs \<Rightarrow> if c = CHR ''+'' then cs else s | [] \<Rightarrow> s) in
      if digits = [] \<or> \<not> list_all is_digit digits then None
      else if digits_value digits < 2 ^ w then Some (digits_value digits) else None)"

definition is_alpha :: "char \<Rightarrow> bool" where
  "is_alpha c \<longleftrightarrow> (CHR ''a'' \<le> c \<and> c \<le> CHR ''z'') \<or> (CHR ''A'' \<le> c \<and> c \<le> CHR ''Z'')"

definition is_valid_ident :: "string \<Rightarrow> bool" where
  "is_valid_ident s =
     (case s of
        [] \<Rightarrow> False
      | c # cs \<Rightarrow> (c = CHR ''_'' \<or> is_alpha c) \<and> list_all (\<lambda>c. c = CHR ''_'' \<or> is_alpha c \<or> is_digit c) cs)"


section \<open>Spellings\<close>

definition max_vector_lanes :: nat where
  "max_vector_lanes = 64"

definition parse_bound :: "string \<Rightarrow> sequence_bound option" where
  "parse_bound bound_text =
     (case strip_prefix ''up_to'' bound_text of
        Some capacity \<Rightarrow>
          let cap_text = trim capacity in
          (case parse_unsigned 32 cap_text of
             Some c \<Rightarrow> if max_sequence_bound < c then None else Some (UpTo c)
           | None \<Rightarrow> if is_valid_ident cap_text then Some (UpToParam cap_text) else None)
      | None \<Rightarrow>
          (case parse_unsigned 32 bound_text of
             Some len \<Rightarrow> if max_sequence_bound < len then None else Some (Exact len)
           | None \<Rightarrow> if is_valid_ident bound_text then Some (Param bound_text) else None))"

definition bracketed :: "string \<Rightarrow> string \<Rightarrow> char \<Rightarrow> string \<Rightarrow> (string \<times> string) option" where
  "bracketed opening closing separator name =
     do {
       rest \<leftarrow> strip_prefix opening name;
       inner \<leftarrow> strip_suffix closing rest;
       (left, right) \<leftarrow> split_last separator inner;
       Some (trim left, trim right)
     }"

definition sequence_parts :: "string \<Rightarrow> (string \<times> sequence_bound) option" where
  "sequence_parts name =
     do {
       (element_text, bound_text) \<leftarrow> bracketed ''['' '']'' (CHR '';'') name;
       bound \<leftarrow> parse_bound bound_text;
       if element_text = [] then None else Some (element_text, bound)
     }"

definition parse_lanes :: "string \<Rightarrow> nat option" where
  "parse_lanes s =
     (case parse_unsigned 32 s of
        None \<Rightarrow> None
      | Some lanes \<Rightarrow> if lanes = 0 \<or> max_vector_lanes < lanes then None else Some lanes)"

definition parse_mask_name :: "string \<Rightarrow> body_type option" where
  "parse_mask_name name =
     do {
       rest \<leftarrow> strip_prefix ''mask<'' name;
       inner \<leftarrow> strip_suffix ''>'' rest;
       lanes \<leftarrow> parse_lanes (trim inner);
       Some (TMask lanes)
     }"

definition parse_width :: "string \<Rightarrow> string \<Rightarrow> nat option" where
  "parse_width pre name =
     (case strip_prefix pre name of
        None \<Rightarrow> None
      | Some digits \<Rightarrow>
          (case parse_unsigned 16 digits of
             None \<Rightarrow> None
           | Some bits \<Rightarrow> if 0 < bits then Some bits else None))"

definition scalar_name :: "string \<Rightarrow> body_type" where
  "scalar_name name =
     (if name = ''bool'' then TBool
      else if name = ''byte'' then TByte
      else case parse_width ''f'' name of
        Some bits \<Rightarrow> TFloat \<lparr>float_bits = bits\<rparr>
      | None \<Rightarrow>
          (case parse_width ''i'' name of
             Some bits \<Rightarrow> TInteger \<lparr>ty_bits = bits, ty_signed = True\<rparr>
           | None \<Rightarrow>
               (case parse_width ''u'' name of
                  Some bits \<Rightarrow> TInteger \<lparr>ty_bits = bits, ty_signed = False\<rparr>
                | None \<Rightarrow> TNamed name)))"

lemma strip_prefix_Some: "strip_prefix pre s = Some r \<longleftrightarrow> s = pre @ r"
  by (auto simp: strip_prefix_def split: if_splits) (metis append_take_drop_id)

lemma strip_suffix_Some: "strip_suffix suf s = Some r \<longleftrightarrow> s = r @ suf"
  by (auto simp: strip_suffix_def strip_prefix_Some) (metis rev_append rev_rev_ident)

lemma length_trim: "length (trim s) \<le> length s"
  by (metis length_dropWhile_le length_rev order_trans trim_def)

lemma split_last_unique: "c \<notin> set r \<Longrightarrow> split_last c (l @ c # r) = Some (l, r)"
proof -
  assume "c \<notin> set r"
  then have "takeWhile (\<lambda>x. x \<noteq> c) (rev r @ c # rev l) = rev r"
    and "dropWhile (\<lambda>x. x \<noteq> c) (rev r @ c # rev l) = c # rev l"
    by (auto simp: takeWhile_append dropWhile_append)
  then show ?thesis by (simp add: split_last_def)
qed

lemma split_last_Some: "split_last c s = Some (l, r) \<longleftrightarrow> s = l @ c # r \<and> c \<notin> set r"
proof
  assume some: "split_last c s = Some (l, r)"
  then have "c \<in> set s" by (simp add: split_last_def split: if_splits)
  then obtain l' r' where s: "s = l' @ c # r'" "c \<notin> set r'" by (metis split_list_last)
  with some split_last_unique [of c r' l'] show "s = l @ c # r \<and> c \<notin> set r" by simp
qed (simp add: split_last_unique)

lemma bracketed_Some:
  "bracketed p q c name = Some (l, r) \<longleftrightarrow>
     (\<exists>x y. name = p @ (x @ c # y) @ q \<and> c \<notin> set y \<and> l = trim x \<and> r = trim y)"
proof
  assume "bracketed p q c name = Some (l, r)"
  then show "\<exists>x y. name = p @ (x @ c # y) @ q \<and> c \<notin> set y \<and> l = trim x \<and> r = trim y"
    unfolding bracketed_def by (auto simp: bind_eq_Some_conv strip_prefix_Some strip_suffix_Some split_last_Some)
      blast
next
  assume "\<exists>x y. name = p @ (x @ c # y) @ q \<and> c \<notin> set y \<and> l = trim x \<and> r = trim y"
  then obtain x y where name: "name = p @ (x @ c # y) @ q"
    and y: "c \<notin> set y" and "l = trim x" "r = trim y" by blast
  moreover have "strip_prefix p name = Some ((x @ c # y) @ q)" by (simp add: strip_prefix_Some name)
  moreover have "strip_suffix q ((x @ c # y) @ q) = Some (x @ c # y)" by (simp add: strip_suffix_Some)
  moreover have "split_last c (x @ c # y) = Some (x, y)" using y by (rule split_last_unique)
  ultimately show "bracketed p q c name = Some (l, r)" by (simp only: bracketed_def bind.simps prod.case)
qed

lemma bracketed_length: "bracketed p q c name = Some (l, r) \<Longrightarrow> length l < length name"
proof -
  assume "bracketed p q c name = Some (l, r)"
  then obtain x y where "name = p @ (x @ c # y) @ q" "l = trim x" by (auto simp: bracketed_Some)
  with length_trim [of x] show ?thesis by simp
qed

lemma sequence_parts_length: "sequence_parts name = Some (e, b) \<Longrightarrow> length e < length name"
  by (auto simp: sequence_parts_def bind_eq_Some_conv split: if_splits dest: bracketed_length)

text \<open>\<open>from_semantic_name\<close> tries a vector, a mask and a sequence before the scalar names.  The
  element of a vector must be an integer type.\<close>

definition vector_of :: "body_type \<Rightarrow> string \<Rightarrow> body_type option" where
  "vector_of element lanes_text =
     (case element of
        TInteger integer \<Rightarrow> map_option (TVector (TInteger integer)) (parse_lanes lanes_text)
      | _ \<Rightarrow> None)"

function from_semantic_name :: "string \<Rightarrow> body_type" where
  "from_semantic_name name =
     (case (case bracketed ''vec<'' ''>'' (CHR '','') name of
              None \<Rightarrow> None
            | Some parts \<Rightarrow> vector_of (from_semantic_name (fst parts)) (snd parts)) of
        Some ty \<Rightarrow> ty
      | None \<Rightarrow>
          (case parse_mask_name name of
             Some ty \<Rightarrow> ty
           | None \<Rightarrow>
               (case sequence_parts name of
                  Some parts \<Rightarrow> TSequence (from_semantic_name (fst parts)) (snd parts)
                | None \<Rightarrow> scalar_name name)))"
  by auto
termination
  by (relation "measure length") (auto dest: bracketed_length sequence_parts_length)

declare from_semantic_name.simps [simp del]

text \<open>Resolution in the namespace of a module: a nominal type by its identity or, in its own
  module, by its name; then a sequence whose element resolves; then the spelling itself.\<close>

definition find_finite_in :: "program \<Rightarrow> string \<Rightarrow> string \<Rightarrow> finite_type option" where
  "find_finite_in program name module =
     find (\<lambda>ft. ft_identity ft = name \<or>
                (ft_name ft = name \<and> declaring_module (ft_identity ft) = Some module))
       (pg_finite_types program)"

definition find_record_in :: "program \<Rightarrow> string \<Rightarrow> string \<Rightarrow> record_type option" where
  "find_record_in program name module =
     find (\<lambda>rt. rt_identity rt = name \<or>
                (rt_name rt = name \<and> declaring_module (rt_identity rt) = Some module))
       (pg_record_types program)"

definition concrete_bound :: "string \<Rightarrow> sequence_bound option" where
  "concrete_bound bound_text =
     (case strip_prefix ''up_to'' bound_text of
        Some capacity \<Rightarrow> map_option UpTo (parse_unsigned 32 (trim capacity))
      | None \<Rightarrow> map_option Exact (parse_unsigned 32 bound_text))"

definition sequence_in_module_parts :: "string \<Rightarrow> (string \<times> sequence_bound) option" where
  "sequence_in_module_parts name =
     do {
       (element_text, bound_text) \<leftarrow> bracketed ''['' '']'' (CHR '';'') name;
       bound \<leftarrow> concrete_bound bound_text;
       if max_sequence_bound < ceiling bound then None else Some (element_text, bound)
     }"

lemma sequence_in_module_parts_length:
  "sequence_in_module_parts name = Some (e, b) \<Longrightarrow> length e < length name"
  by (auto simp: sequence_in_module_parts_def bind_eq_Some_conv split: if_splits dest: bracketed_length)

text \<open>\<open>from_program\<close>, the resolution without a module, which \<open>from_program_in_module\<close> falls into
  for the element of a sequence when the module is empty.\<close>

definition nominal_by_identity :: "program \<Rightarrow> string \<Rightarrow> body_type option" where
  "nominal_by_identity program name =
     (case find (\<lambda>ft. ft_identity ft = name) (pg_finite_types program) of
        Some ft \<Rightarrow> Some (TFinite (ft_identity ft) (ft_name ft))
      | None \<Rightarrow> map_option (\<lambda>rt. TRecord (rt_identity rt) (rt_name rt))
                  (find (\<lambda>rt. rt_identity rt = name) (pg_record_types program)))"

definition nominal_by_name :: "program \<Rightarrow> string \<Rightarrow> body_type option" where
  "nominal_by_name program name =
     (case find (\<lambda>rt. rt_name rt = name) (pg_record_types program) of
        Some rt \<Rightarrow> Some (TRecord (rt_identity rt) (rt_name rt))
      | None \<Rightarrow> map_option (\<lambda>ft. TFinite (ft_identity ft) (ft_name ft))
                  (find (\<lambda>ft. ft_name ft = name) (pg_finite_types program)))"


definition named_or_spelled :: "program \<Rightarrow> string \<Rightarrow> body_type" where
  "named_or_spelled program name =
     (case nominal_by_name program name of Some ty \<Rightarrow> ty | None \<Rightarrow> from_semantic_name name)"

function from_program :: "program \<Rightarrow> string \<Rightarrow> body_type" where
  "from_program program name =
     (case nominal_by_identity program name of
        Some ty \<Rightarrow> ty
      | None \<Rightarrow>
          (case sequence_in_module_parts name of
             None \<Rightarrow> named_or_spelled program name
           | Some parts \<Rightarrow>
               if has_unresolved_named (from_program program (fst parts)) then named_or_spelled program name
               else TSequence (from_program program (fst parts)) (snd parts)))"
  by auto
termination
  by (relation "measure (\<lambda>(_, name). length name)") (auto dest: sequence_in_module_parts_length)

declare from_program.simps [simp del]

function from_program_in_module :: "program \<Rightarrow> string \<Rightarrow> string \<Rightarrow> body_type" where
  "from_program_in_module program name module =
     (case find_finite_in program name module of
        Some ft \<Rightarrow> TFinite (ft_identity ft) (ft_name ft)
      | None \<Rightarrow>
          (case find_record_in program name module of
             Some rt \<Rightarrow> TRecord (rt_identity rt) (rt_name rt)
           | None \<Rightarrow>
               (case sequence_in_module_parts name of
                  None \<Rightarrow> from_semantic_name name
                | Some parts \<Rightarrow>
                    if has_unresolved_named
                         (if module = [] then from_program program (fst parts)
                          else from_program_in_module program (fst parts) module)
                    then from_semantic_name name
                    else TSequence
                         (if module = [] then from_program program (fst parts)
                          else from_program_in_module program (fst parts) module) (snd parts))))"
  by auto
termination
  by (relation "measure (\<lambda>(_, name, _). length name)") (auto dest: sequence_in_module_parts_length)

declare from_program_in_module.simps [simp del]



section \<open>Reading back a canonical spelling\<close>

text \<open>The types whose spelling names them: supported widths, lane counts and bounds, integer
  elements of vectors, and names that are identifiers outside the scalar names.  (A bound parameter
  whose name begins with \<open>up_to\<close> is read as a capacity.)\<close>

fun canonical_bound :: "sequence_bound \<Rightarrow> bool" where
  "canonical_bound (Exact len) \<longleftrightarrow> len \<le> max_sequence_bound"
| "canonical_bound (UpTo capacity) \<longleftrightarrow> capacity \<le> max_sequence_bound"
| "canonical_bound (Param name) \<longleftrightarrow> is_valid_ident name \<and> strip_prefix ''up_to'' name = None"
| "canonical_bound (UpToParam name) \<longleftrightarrow> is_valid_ident name"

fun canonical_type :: "body_type \<Rightarrow> bool" where
  "canonical_type TBool \<longleftrightarrow> True"
| "canonical_type TByte \<longleftrightarrow> True"
| "canonical_type (TInteger integer) \<longleftrightarrow> 0 < ty_bits integer \<and> ty_bits integer < 2 ^ 16"
| "canonical_type (TFloat float) \<longleftrightarrow> 0 < float_bits float \<and> float_bits float < 2 ^ 16"
| "canonical_type (TMask lanes) \<longleftrightarrow> 0 < lanes \<and> lanes \<le> max_vector_lanes"
| "canonical_type (TVector element lanes) \<longleftrightarrow>
     (case element of TInteger _ \<Rightarrow> canonical_type element | _ \<Rightarrow> False) \<and>
     0 < lanes \<and> lanes \<le> max_vector_lanes"
| "canonical_type (TSequence element bound) \<longleftrightarrow> canonical_type element \<and> canonical_bound bound"
| "canonical_type (TNamed name) \<longleftrightarrow>
     is_valid_ident name \<and> name \<noteq> ''bool'' \<and> name \<noteq> ''byte'' \<and>
     \<not> (hd name \<in> {CHR ''f'', CHR ''i'', CHR ''u''} \<and> parse_unsigned 16 (tl name) \<notin> {None, Some 0})"
| "canonical_type (TFinite _ _) \<longleftrightarrow> False"
| "canonical_type (TRecord _ _) \<longleftrightarrow> False"
| "canonical_type (TGenericParam _) \<longleftrightarrow> False"

definition solid :: "string \<Rightarrow> bool" where
  "solid s \<longleftrightarrow> s \<noteq> [] \<and> \<not> is_space (hd s) \<and> \<not> is_space (last s)"

lemma trim_solid: "solid s \<Longrightarrow> trim s = s"
proof -
  assume s: "solid s"
  then have "dropWhile is_space s = s" by (cases s) (auto simp: solid_def)
  moreover from s have "dropWhile is_space (rev s) = rev s"
    by (cases s rule: rev_cases) (auto simp: solid_def)
  ultimately show ?thesis by (simp add: trim_def)
qed

lemma trim_blank: "trim (CHR '' '' # s) = trim s"
  by (simp add: trim_def is_space_def)

lemma digit_char:
  assumes "d < 10"
  shows "is_digit (char_of (48 + d))" "of_char (char_of (48 + d) :: char) - (48 :: nat) = d"
proof -
  from assms have "of_char (char_of (48 + d) :: char) = 48 + d" by simp
  with assms show "is_digit (char_of (48 + d))" "of_char (char_of (48 + d) :: char) - (48 :: nat) = d"
    by (simp_all add: is_digit_def less_eq_char_def)
qed

lemma show_nat_digits: "list_all is_digit (show_nat n)"
  by (induction n rule: show_nat.induct) (subst show_nat.simps, auto simp: digit_char)

lemma show_nat_not_Nil [simp]: "show_nat n \<noteq> []"
  by (subst show_nat.simps) simp

lemma digits_value_snoc: "digits_value (s @ [c]) = 10 * digits_value s + (of_char c - 48)"
  by (simp add: digits_value_def)

lemma digits_value_show_nat: "digits_value (show_nat n) = n"
proof (induction n rule: show_nat.induct)
  case (1 n)
  show ?case
  proof (cases "n < 10")
    case True
    then show ?thesis
      by (subst show_nat.simps) (simp add: digits_value_def digit_char(2) del: of_char_of)
  next
    case False
    then have "show_nat n = show_nat (n div 10) @ [char_of (48 + n mod 10)]" by (subst show_nat.simps) simp
    with False 1 show ?thesis by (simp add: digits_value_snoc digit_char(2) del: of_char_of)
  qed
qed

lemma char_classes:
  "is_digit c \<Longrightarrow> \<not> is_alpha c \<and> c \<noteq> CHR ''_'' \<and> \<not> is_space c \<and>
     c \<noteq> CHR ''+'' \<and> c \<noteq> CHR '';'' \<and> c \<noteq> CHR '','' \<and> c \<noteq> CHR ''<'' \<and> c \<noteq> CHR ''[''"
  "is_alpha c \<Longrightarrow> c \<noteq> CHR ''_'' \<and> \<not> is_space c \<and>
     c \<noteq> CHR ''+'' \<and> c \<noteq> CHR '';'' \<and> c \<noteq> CHR '','' \<and> c \<noteq> CHR ''<'' \<and> c \<noteq> CHR ''[''"
  by (auto simp: is_digit_def is_alpha_def is_space_def less_eq_char_def)


definition is_ident_char :: "char \<Rightarrow> bool" where
  "is_ident_char c \<longleftrightarrow> c = CHR ''_'' \<or> is_alpha c \<or> is_digit c"

lemma ident_char:
  "is_ident_char c \<Longrightarrow> \<not> is_space c \<and> c \<noteq> CHR ''+'' \<and> c \<noteq> CHR '';'' \<and> c \<noteq> CHR '','' \<and> c \<noteq> CHR ''<'' \<and> c \<noteq> CHR ''[''"
proof -
  assume "is_ident_char c"
  then consider (us) "c = CHR ''_''" | (al) "is_alpha c" | (di) "is_digit c" by (auto simp only: is_ident_char_def)
  then show ?thesis
  proof cases
    case us
    then show ?thesis by (simp add: is_space_def)
  next
    case al
    then show ?thesis using char_classes(2) by simp
  next
    case di
    then show ?thesis using char_classes(1) by simp
  qed
qed

lemma ident_solid: "s \<noteq> [] \<Longrightarrow> list_all is_ident_char s \<Longrightarrow> solid s"
  using ident_char by (simp add: solid_def list_all_iff)

lemma valid_ident_chars: "is_valid_ident s \<Longrightarrow> s \<noteq> [] \<and> list_all is_ident_char s \<and> \<not> is_digit (hd s)"
  using char_classes(1)
  by (auto simp: is_valid_ident_def is_ident_char_def list_all_iff split: list.splits)

lemma show_nat_chars: "list_all is_ident_char (show_nat n)"
  using show_nat_digits by (auto simp: list_all_iff is_ident_char_def)

lemma parse_unsigned_show_nat: "n < 2 ^ w \<Longrightarrow> parse_unsigned w (show_nat n) = Some n"
proof -
  assume n: "n < 2 ^ w"
  obtain c cs where s: "show_nat n = c # cs" by (cases "show_nat n") simp_all
  moreover have "c \<noteq> CHR ''+''" using show_nat_digits [of n] char_classes(1) by (auto simp: s)
  ultimately show ?thesis
    using n show_nat_digits [of n] digits_value_show_nat [of n] by (simp add: parse_unsigned_def)
qed

lemma parse_unsigned_ident: "is_valid_ident s \<Longrightarrow> parse_unsigned w s = None"
proof -
  assume s: "is_valid_ident s"
  then obtain c cs where "s = c # cs" by (auto simp: is_valid_ident_def split: list.splits)
  with valid_ident_chars [OF s] ident_char [of c] show ?thesis by (simp add: parse_unsigned_def)
qed

lemma trim_ident: "s \<noteq> [] \<Longrightarrow> list_all is_ident_char s \<Longrightarrow> trim s = s"
  by (simp add: trim_solid ident_solid)

lemma parse_bound_canonical: "canonical_bound b \<Longrightarrow> parse_bound (canonical_text b) = Some b"
proof (cases b)
  case (Exact n)
  have "CHR ''u'' \<noteq> c" if "is_digit c" for c using that by (auto simp: is_digit_def less_eq_char_def)
  then have "strip_prefix ''up_to'' (show_nat n) = None"
    using show_nat_digits [of n] by (cases "show_nat n") (auto simp: strip_prefix_def)
  moreover assume "canonical_bound b"
  ultimately show ?thesis
    using Exact by (simp add: parse_bound_def parse_unsigned_show_nat max_sequence_bound_def)
next
  case (UpTo n)
  have "strip_prefix ''up_to'' (''up_to '' @ show_nat n) = Some (CHR '' '' # show_nat n)"
    by (simp add: strip_prefix_Some)
  moreover assume "canonical_bound b"
  ultimately show ?thesis
    using UpTo by (simp add: parse_bound_def trim_blank trim_ident show_nat_chars parse_unsigned_show_nat
        max_sequence_bound_def)
next
  case (Param p)
  moreover assume "canonical_bound b"
  ultimately show ?thesis by (simp add: parse_bound_def parse_unsigned_ident)
next
  case (UpToParam p)
  have "strip_prefix ''up_to'' (''up_to '' @ p) = Some (CHR '' '' # p)" by (simp add: strip_prefix_Some)
  moreover assume "canonical_bound b"
  ultimately show ?thesis
    using UpToParam valid_ident_chars [of p]
    by (simp add: parse_bound_def trim_blank trim_ident parse_unsigned_ident)
qed

lemma canonical_text_chars:
  "canonical_bound b \<Longrightarrow> solid (canonical_text b) \<and> CHR '';'' \<notin> set (canonical_text b)"
proof -
  have join: "solid (''up_to '' @ s) \<and> CHR '';'' \<notin> set (''up_to '' @ s)"
    if "s \<noteq> []" "list_all is_ident_char s" for s
    using that ident_solid [OF that] by (auto simp: solid_def is_space_def list_all_iff dest: ident_char)
  have plain: "solid s \<and> CHR '';'' \<notin> set s" if "s \<noteq> []" "list_all is_ident_char s" for s
    using that ident_solid [OF that] by (auto simp: list_all_iff dest: ident_char)
  assume "canonical_bound b"
  then show ?thesis
    by (cases b) (use plain join valid_ident_chars show_nat_chars in auto)
qed

text \<open>A name without brackets can only be a scalar name.\<close>

lemma from_semantic_name_scalar:
  assumes "CHR ''<'' \<notin> set name" "CHR ''['' \<notin> set name"
  shows "from_semantic_name name = scalar_name name"
proof -
  have none: "strip_prefix pre name = None" if "c \<in> set pre" "c \<notin> set name" for c pre
  proof (cases "strip_prefix pre name")
    case (Some r)
    with that show ?thesis by (simp add: strip_prefix_Some)
  qed
  from assms have "strip_prefix ''vec<'' name = None" "strip_prefix ''mask<'' name = None"
    "strip_prefix ''['' name = None"
    using none [of "CHR ''<''" "''vec<''"] none [of "CHR ''<''" "''mask<''"] none [of "CHR ''[''" "''[''"]
    by simp_all
  then show ?thesis
    by (simp add: from_semantic_name.simps [of name] bracketed_def parse_mask_name_def sequence_parts_def)
qed

lemma ident_scalar: "list_all is_ident_char name \<Longrightarrow> from_semantic_name name = scalar_name name"
  using ident_char by (intro from_semantic_name_scalar) (auto simp only: list_all_iff)


lemma scalar_name_number:
  assumes "0 < n" "n < 2 ^ 16"
  shows "scalar_name (CHR ''f'' # show_nat n) = TFloat \<lparr>float_bits = n\<rparr>"
    and "scalar_name (CHR ''i'' # show_nat n) = TInteger \<lparr>ty_bits = n, ty_signed = True\<rparr>"
    and "scalar_name (CHR ''u'' # show_nat n) = TInteger \<lparr>ty_bits = n, ty_signed = False\<rparr>"
  using assms parse_unsigned_show_nat [of n 16]
  by (simp_all add: scalar_name_def parse_width_def strip_prefix_def)

lemma scalar_name_named:
  assumes "canonical_type (TNamed name)"
  shows "scalar_name name = TNamed name"
proof -
  from assms obtain c cs where name: "name = c # cs" by (auto simp: is_valid_ident_def split: list.splits)
  have "parse_width [k] name = None" if "k \<in> {CHR ''f'', CHR ''i'', CHR ''u''}" for k
    using assms that name by (auto simp: parse_width_def strip_prefix_def split: option.splits)
  then have "parse_width ''f'' name = None" "parse_width ''i'' name = None" "parse_width ''u'' name = None"
    by simp_all
  with assms show ?thesis by (simp add: scalar_name_def)
qed

lemma scalar_spelling_chars:
  "list_all is_ident_char (semantic_name (TInteger integer))"
  "list_all is_ident_char (semantic_name (TFloat float))"
  "list_all is_ident_char (semantic_name TBool)"
  "list_all is_ident_char (semantic_name TByte)"
  using show_nat_chars by (simp_all add: is_ident_char_def is_alpha_def less_eq_char_def)

lemma semantic_name_solid: "canonical_type ty \<Longrightarrow> solid (semantic_name ty)"
proof (cases ty)
  case (TNamed name)
  moreover assume "canonical_type ty"
  ultimately show ?thesis using valid_ident_chars [of name] ident_solid by simp
next
  case (TInteger integer)
  then show ?thesis using ident_solid [OF _ scalar_spelling_chars(1)] by simp
next
  case (TFloat float)
  then show ?thesis using ident_solid [OF _ scalar_spelling_chars(2)] by simp
qed (simp_all add: solid_def is_space_def)

lemma parse_lanes_show_nat: "0 < n \<Longrightarrow> n \<le> max_vector_lanes \<Longrightarrow> parse_lanes (show_nat n) = Some n"
  by (simp add: parse_lanes_def max_vector_lanes_def parse_unsigned_show_nat)

lemma bracketed_spelling:
  assumes "solid l" "solid r" "c \<notin> set r" "c \<noteq> CHR '' ''"
  shows "bracketed p q c (p @ l @ [c, CHR '' ''] @ r @ q) = Some (l, r)"
  unfolding bracketed_Some using assms by (intro exI [of _ l] exI [of _ "CHR '' '' # r"])
    (simp add: trim_solid trim_blank)

text \<open>Property C17.  Reading a spelling inverts writing it: for every type with supported widths,
  lane counts and bounds and without nominal identities, \<open>from_semantic_name\<close> of its semantic name
  is the type again, at any nesting of sequences.\<close>

theorem type_spelling_roundtrip:
  "canonical_type ty \<Longrightarrow> from_semantic_name (semantic_name ty) = ty"
proof (induction ty)
  case (TNamed name)
  then show ?case using valid_ident_chars [of name] scalar_name_named by (simp add: ident_scalar)
next
  case TBool
  show ?case using ident_scalar [OF scalar_spelling_chars(3)] by (simp add: scalar_name_def)
next
  case (TInteger integer)
  then have "scalar_name (semantic_name (TInteger integer)) = TInteger integer"
    by (simp add: scalar_name_number)
  then show ?case using ident_scalar [OF scalar_spelling_chars(1)] by simp
next
  case (TFloat float)
  then have "scalar_name (semantic_name (TFloat float)) = TFloat float"
    by (simp add: scalar_name_number)
  then show ?case using ident_scalar [OF scalar_spelling_chars(2)] by simp
next
  case TByte
  show ?case using ident_scalar [OF scalar_spelling_chars(4)] by (simp add: scalar_name_def)
next
  case (TSequence element bound)
  have "bracketed ''['' '']'' (CHR '';'') (semantic_name (TSequence element bound)) =
      Some (semantic_name element, canonical_text bound)"
    using bracketed_spelling [of "semantic_name element" "canonical_text bound" "CHR '';''" "''[''" "'']''"]
      TSequence.prems semantic_name_solid [of element] canonical_text_chars [of bound] by simp
  then have parts: "sequence_parts (semantic_name (TSequence element bound)) = Some (semantic_name element, bound)"
    using TSequence.prems semantic_name_solid [of element]
    by (simp add: sequence_parts_def parse_bound_canonical solid_def)
  have "bracketed ''vec<'' ''>'' (CHR '','') (semantic_name (TSequence element bound)) = None"
    "parse_mask_name (semantic_name (TSequence element bound)) = None"
    by (simp_all add: bracketed_def parse_mask_name_def strip_prefix_def)
  with parts TSequence show ?case
    by (subst from_semantic_name.simps) (simp del: semantic_name.simps)
next
  case (TVector element lanes)
  then obtain integer where element: "element = TInteger integer" by (cases element) simp_all
  have lanes: "solid (show_nat lanes)" "CHR '','' \<notin> set (show_nat lanes)"
    using ident_solid [OF show_nat_not_Nil show_nat_chars] show_nat_chars [of lanes] ident_char
    by (auto simp only: list_all_iff)
  have "bracketed ''vec<'' ''>'' (CHR '','') (semantic_name (TVector element lanes)) =
      Some (semantic_name element, show_nat lanes)"
    using bracketed_spelling [of "semantic_name element" "show_nat lanes" "CHR '',''" "''vec<''" "''>''"]
      TVector.prems semantic_name_solid [of element] lanes by (simp add: element)
  then show ?case
    using TVector element
    by (subst from_semantic_name.simps) (simp add: vector_of_def parse_lanes_show_nat del: semantic_name.simps)
next
  case (TMask lanes)
  have "strip_prefix ''mask<'' (semantic_name (TMask lanes)) = Some (show_nat lanes @ ''>'')"
    by (simp add: strip_prefix_def)
  moreover have "strip_suffix ''>'' (show_nat lanes @ ''>'') = Some (show_nat lanes)" by (simp add: strip_suffix_Some)
  ultimately have "parse_mask_name (semantic_name (TMask lanes)) = Some (TMask lanes)"
    using TMask by (simp add: parse_mask_name_def trim_ident show_nat_chars parse_lanes_show_nat)
  moreover have "bracketed ''vec<'' ''>'' (CHR '','') (semantic_name (TMask lanes)) = None"
    by (simp add: bracketed_def strip_prefix_def)
  ultimately show ?case by (subst from_semantic_name.simps) simp
qed simp_all


lemma roundtrip_example:
  "semantic_name (TSequence (TVector (TInteger \<lparr>ty_bits = 32, ty_signed = True\<rparr>) 4) (UpTo 8)) =
     ''[vec<i32, 4>; up_to 8]''"
  by code_simp

theorem type_spelling_roundtrip_witness:
  "from_semantic_name ''[vec<i32, 4>; up_to 8]'' =
     TSequence (TVector (TInteger \<lparr>ty_bits = 32, ty_signed = True\<rparr>) 4) (UpTo 8)"
  using type_spelling_roundtrip
    [of "TSequence (TVector (TInteger \<lparr>ty_bits = 32, ty_signed = True\<rparr>) 4) (UpTo 8)"]
  unfolding roundtrip_example by (simp add: max_vector_lanes_def max_sequence_bound_def)

text \<open>Spellings that no type writes are read too: a sign, leading zeros, blanks, or no blank
  after \<open>up_to\<close>.\<close>

lemma noncanonical_spellings:
  "parse_bound ''+8'' = Some (Exact 8)"
  "parse_bound ''008'' = Some (Exact 8)"
  "parse_bound ''up_to3'' = Some (UpTo 3)"
  "scalar_name ''u+8'' = TInteger \<lparr>ty_bits = 8, ty_signed = False\<rparr>"
  by (simp_all add: parse_bound_def strip_prefix_def parse_unsigned_def is_digit_def less_eq_char_def
      digits_value_def max_sequence_bound_def trim_def is_space_def scalar_name_def parse_width_def)


section \<open>Resolution stays in the namespace\<close>

fun nominal_identities :: "body_type \<Rightarrow> semantic_id set" where
  "nominal_identities (TFinite identity _) = {identity}"
| "nominal_identities (TRecord identity _) = {identity}"
| "nominal_identities (TSequence element _) = nominal_identities element"
| "nominal_identities (TVector element _) = nominal_identities element"
| "nominal_identities _ = {}"

definition declared_in :: "program \<Rightarrow> semantic_id set" where
  "declared_in program = ft_identity ` set (pg_finite_types program) \<union> rt_identity ` set (pg_record_types program)"

lemma nominal_identities_scalar_name [simp]: "nominal_identities (scalar_name name) = {}"
  by (simp add: scalar_name_def split: option.splits)

lemma nominal_identities_vector_of:
  "vector_of element lanes = Some ty \<Longrightarrow> nominal_identities ty = {}"
  by (auto simp: vector_of_def split: body_type.splits)

lemma nominal_identities_spelling [simp]: "nominal_identities (from_semantic_name name) = {}"
proof (induction name rule: from_semantic_name.induct)
  case (1 name)
  have mask: "nominal_identities ty = {}" if "parse_mask_name name = Some ty" for ty
    using that by (auto simp: parse_mask_name_def bind_eq_Some_conv)
  have element: "nominal_identities (from_semantic_name (fst parts)) = {}"
    if "sequence_parts name = Some parts" "parse_mask_name name = None"
      "(case bracketed ''vec<'' ''>'' (CHR '','') name of
          None \<Rightarrow> None | Some parts \<Rightarrow> vector_of (from_semantic_name (fst parts)) (snd parts)) = None" for parts
    using 1(2) that by blast
  show ?case
    by (subst from_semantic_name.simps)
      (auto simp: element split: option.splits dest: nominal_identities_vector_of mask)
qed

lemma bracketed_sublist: "bracketed p q c name = Some (l, r) \<Longrightarrow> sublist l name"
proof -
  have trim_part: "sublist (trim x) x" for x
    unfolding trim_def
    by (metis rev_rev_ident suffix_dropWhile suffix_imp_sublist sublist_order.order_trans sublist_rev)
  assume "bracketed p q c name = Some (l, r)"
  then obtain x y where name: "name = p @ x @ c # y @ q" and l: "l = trim x" by (auto simp: bracketed_Some)
  have "sublist x name" by (simp add: name sublist_appendI)
  then show ?thesis unfolding l using trim_part by (rule sublist_order.order_trans [rotated])
qed

lemma sequence_in_module_parts_sublist:
  "sequence_in_module_parts name = Some (e, b) \<Longrightarrow> sublist e name"
  by (auto simp: sequence_in_module_parts_def bind_eq_Some_conv split: if_splits dest: bracketed_sublist)

text \<open>Property C18.  A spelling resolved in the namespace of a module never selects another module's
  declaration by its short name: every nominal type in the result, however deep in sequences, is
  declared by the program, and either its declaring module is that module or the spelling itself
  contains its full identity.\<close>

theorem resolution_stays_in_module:
  "module \<noteq> [] \<Longrightarrow> identity \<in> nominal_identities (from_program_in_module program name module) \<Longrightarrow>
     identity \<in> declared_in program \<and>
     (declaring_module identity = Some module \<or> sublist identity name)"
proof (induction program name module rule: from_program_in_module.induct)
  case (1 program name module)
  consider
    (fin) ft where "find_finite_in program name module = Some ft"
  | (rec) rt where "find_finite_in program name module = None" "find_record_in program name module = Some rt"
  | (seq) e b where "find_finite_in program name module = None" "find_record_in program name module = None"
      "sequence_in_module_parts name = Some (e, b)"
      "\<not> has_unresolved_named (from_program_in_module program e module)"
      "identity \<in> nominal_identities (from_program_in_module program e module)"
    using 1(3,4)
    by (subst (asm) from_program_in_module.simps) (auto split: option.splits if_splits)
  then show ?case
  proof cases
    case fin
    with 1(4) have "identity = ft_identity ft" by (simp add: from_program_in_module.simps)
    with fin show ?thesis by (auto simp: find_finite_in_def find_Some_iff declared_in_def)
  next
    case rec
    with 1(4) have "identity = rt_identity rt" by (simp add: from_program_in_module.simps)
    with rec show ?thesis by (auto simp: find_record_in_def find_Some_iff declared_in_def)
  next
    case seq
    with 1 have "identity \<in> declared_in program \<and>
        (declaring_module identity = Some module \<or> sublist identity e)" by auto
    with sequence_in_module_parts_sublist [OF seq(3)] show ?thesis by (metis sublist_order.order_trans)
  qed
qed


text \<open>Two linked modules with a record of one name: each module resolves its own.\<close>

definition twin_records :: program where
  "twin_records =
     plain_program ''app'' []
        [\<lparr>rt_identity = ''mncs:0.2:record-type:a::Entry'', rt_name = ''Entry'', rt_fields = []\<rparr>,
         \<lparr>rt_identity = ''mncs:0.2:record-type:b::Entry'', rt_name = ''Entry'', rt_fields = []\<rparr>] []"

lemma twin_records_resolution:
  "from_program_in_module twin_records ''Entry'' ''b'' = TRecord ''mncs:0.2:record-type:b::Entry'' ''Entry''"
proof -
  have "find_finite_in twin_records ''Entry'' ''b'' = None" by code_simp
  moreover have "find_record_in twin_records ''Entry'' ''b'' =
      Some \<lparr>rt_identity = ''mncs:0.2:record-type:b::Entry'', rt_name = ''Entry'', rt_fields = []\<rparr>"
    by code_simp
  ultimately show ?thesis by (simp add: from_program_in_module.simps)
qed

theorem resolution_stays_in_module_witness:
  "''mncs:0.2:record-type:b::Entry'' \<in> declared_in twin_records \<and>
   (declaring_module ''mncs:0.2:record-type:b::Entry'' = Some ''b'' \<or>
    sublist ''mncs:0.2:record-type:b::Entry'' ''Entry'')"
  by (rule resolution_stays_in_module) (simp_all add: twin_records_resolution)

end
