(* ===== verification/Cfg.thy ===== *)
theory Cfg
  imports Body
begin

text \<open>
  Control-flow facts of a function body, \<open>crates/mncs-model/src/cfg.rs\<close>: successors and
  predecessors, reachability by a worklist, dominators by iteration to a fixed point, and the
  queries of \<open>Cfg\<close>.  A \<open>BTreeSet\<close> is a set, read in increasing order where the code iterates
  over it; a \<open>BTreeMap\<close> is a map.  Both loops are unbounded in the source, so they are partial
  functions here and their termination is proved.  The abstract side is the set of walks that
  control can take from the entry block.
\<close>

section \<open>Construction\<close>

record cfg_block =
  cb_id :: string
  cb_predecessors :: "string list"
  cb_successors :: "string list"
  cb_reachable :: bool

record cfg =
  cfg_schema_version :: string
  cfg_identity :: semantic_id
  cfg_entry :: string
  cfg_blocks :: "cfg_block list"
  cfg_reachable :: "string list"
  cfg_unreachable :: "string list"
  cfg_dominators :: "string \<rightharpoonup> string list"

fun terminator_targets :: "body_terminator \<Rightarrow> string list" where
  "terminator_targets (Return _) = []"
| "terminator_targets (Branch target _) = [target]"
| "terminator_targets (Failure _) = []"
| "terminator_targets (ConditionalBranch _ then_target _ else_target _) = [then_target, else_target]"

definition block_ids :: "function_body \<Rightarrow> string set" where
  "block_ids body = set (map bb_id (fb_blocks body))"

definition successors :: "function_body \<Rightarrow> string \<rightharpoonup> string set" where
  "successors body =
     fold (\<lambda>block m. m(bb_id block \<mapsto>
         set (filter (\<lambda>target. target \<in> block_ids body) (terminator_targets (bb_terminator block)))))
       (fb_blocks body) Map.empty"

text \<open>Every block starts with no predecessor; then each edge is recorded at its target.\<close>

definition add_predecessor ::
  "string \<Rightarrow> string \<Rightarrow> (string \<rightharpoonup> string set) \<Rightarrow> (string \<rightharpoonup> string set)" where
  "add_predecessor source target m =
     m(target \<mapsto> insert source (case m target of None \<Rightarrow> {} | Some sources \<Rightarrow> sources))"

definition predecessors :: "function_body \<Rightarrow> string \<rightharpoonup> string set" where
  "predecessors body =
     fold (\<lambda>source. case successors body source of
             None \<Rightarrow> id
           | Some targets \<Rightarrow> fold (add_predecessor source) (sorted_list_of_set targets))
       (sorted_list_of_set (block_ids body))
       (\<lambda>i. if i \<in> block_ids body then Some {} else None)"

partial_function (option) reach_loop ::
  "(string \<rightharpoonup> string set) \<Rightarrow> string list \<Rightarrow> string set \<Rightarrow> string set option" where
  "reach_loop succ queue reachable =
     (case queue of
        [] \<Rightarrow> Some reachable
      | block # rest \<Rightarrow>
          if block \<in> reachable then reach_loop succ rest reachable
          else reach_loop succ
            (rest @ (case succ block of None \<Rightarrow> [] | Some targets \<Rightarrow> sorted_list_of_set targets))
            (insert block reachable))"

definition reachable_blocks :: "function_body \<Rightarrow> string set option" where
  "reachable_blocks body =
     (if fb_entry body \<in> block_ids body then reach_loop (successors body) [fb_entry body] {}
      else Some {})"

definition initial_dominators :: "string \<Rightarrow> string set \<Rightarrow> string \<rightharpoonup> string set" where
  "initial_dominators entry reachable =
     (\<lambda>block. if block \<notin> reachable then None
       else if block = entry then Some {block} else Some reachable)"

text \<open>One block of one pass.  A block none of whose predecessors has a dominator set is skipped;
  the flag records whether any set changed.\<close>

definition dominator_step ::
  "(string \<rightharpoonup> string set) \<Rightarrow> string set \<Rightarrow> string \<Rightarrow>
     (string \<rightharpoonup> string set) \<times> bool \<Rightarrow> (string \<rightharpoonup> string set) \<times> bool" where
  "dominator_step preds reachable block state =
     (let (sets, changed) = state;
          sources = (case preds block of None \<Rightarrow> [] | Some ps \<Rightarrow> sorted_list_of_set ps);
          known = List.map_filter sets (filter (\<lambda>p. p \<in> reachable) sources)
      in case known of
           [] \<Rightarrow> state
         | first # rest \<Rightarrow>
             let update = insert block (fold (\<lambda>s acc. acc \<inter> s) rest first) in
             if sets block \<noteq> Some update then (sets(block \<mapsto> update), True) else state)"

definition dominator_pass ::
  "string \<Rightarrow> (string \<rightharpoonup> string set) \<Rightarrow> string set \<Rightarrow> (string \<rightharpoonup> string set) \<Rightarrow>
     (string \<rightharpoonup> string set) \<times> bool" where
  "dominator_pass entry preds reachable sets =
     fold (dominator_step preds reachable)
       (filter (\<lambda>block. block \<noteq> entry) (sorted_list_of_set reachable)) (sets, False)"

partial_function (option) dominator_loop ::
  "string \<Rightarrow> (string \<rightharpoonup> string set) \<Rightarrow> string set \<Rightarrow> (string \<rightharpoonup> string set) \<Rightarrow>
     (string \<rightharpoonup> string set) option" where
  "dominator_loop entry preds reachable sets =
     (case dominator_pass entry preds reachable sets of (sets', changed) \<Rightarrow>
        if changed then dominator_loop entry preds reachable sets' else Some sets')"

text \<open>\<open>digest\<close> stands for \<open>sha256_hex\<close> over the canonical JSON of its argument.\<close>

definition from_body ::
  "(semantic_id \<times> string \<times> cfg_block list \<times> string list \<Rightarrow> string) \<Rightarrow> function_body \<Rightarrow>
     semantic_id \<Rightarrow> cfg option" where
  "from_body digest body body_identity = do {
     reachable \<leftarrow> reachable_blocks body;
     sets \<leftarrow> dominator_loop (fb_entry body) (predecessors body) reachable
               (initial_dominators (fb_entry body) reachable);
     let listed = (\<lambda>m i. sorted_list_of_set (case m i of None \<Rightarrow> {} | Some s \<Rightarrow> s));
     let blocks = sort_key cb_id
           (map (\<lambda>i. \<lparr>cb_id = i, cb_predecessors = listed (predecessors body) i,
                        cb_successors = listed (successors body) i, cb_reachable = (i \<in> reachable)\<rparr>)
              (sorted_list_of_set (block_ids body)));
     let reachable_list = sorted_list_of_set reachable;
     let unreachable = sorted_list_of_set (block_ids body - reachable);
     let dominators = map_option sorted_list_of_set \<circ> sets;
     let material = (body_identity, fb_entry body, blocks, reachable_list);
     Some \<lparr>cfg_schema_version = ''0.1'', cfg_identity = ''mncs:0.3:cfg:'' @ digest material,
           cfg_entry = fb_entry body, cfg_blocks = blocks, cfg_reachable = reachable_list,
           cfg_unreachable = unreachable, cfg_dominators = dominators\<rparr>
   }"

definition dominates :: "cfg \<Rightarrow> string \<Rightarrow> string \<Rightarrow> bool" where
  "dominates cfg dfn use_block \<longleftrightarrow>
     (case cfg_dominators cfg use_block of None \<Rightarrow> False | Some blocks \<Rightarrow> dfn \<in> set blocks)"

definition find_block :: "cfg \<Rightarrow> string \<Rightarrow> cfg_block option" where
  "find_block cfg i = find (\<lambda>b. cb_id b = i) (cfg_blocks cfg)"


section \<open>Walks\<close>

text \<open>The edges control can follow, and the walks from the entry, latest block first.\<close>

definition flows :: "function_body \<Rightarrow> string \<Rightarrow> string \<Rightarrow> bool" where
  "flows body source target \<longleftrightarrow>
     (\<exists>block. block_map body source = Some block \<and> target \<in> block_ids body \<and>
        target \<in> set (terminator_targets (bb_terminator block)))"

inductive walk :: "function_body \<Rightarrow> string list \<Rightarrow> string \<Rightarrow> bool" for body where
  walk_entry: "fb_entry body \<in> block_ids body \<Longrightarrow> walk body [fb_entry body] (fb_entry body)"
| walk_step: "walk body p a \<Longrightarrow> flows body a b \<Longrightarrow> walk body (b # p) b"

inductive_cases walk_NilE: "walk body [] b"
inductive_simps walk_entry_iff: "walk body [a] b"

section \<open>Edges\<close>

lemma finite_block_ids [simp]: "finite (block_ids body)"
  by (simp add: block_ids_def)

lemma fold_upd_apply:
  "fold (\<lambda>x m. m(f x \<mapsto> g x)) xs m i =
     (case map_of (rev (map (\<lambda>x. (f x, x)) xs)) i of None \<Rightarrow> m i | Some x \<Rightarrow> Some (g x))"
  by (induction xs arbitrary: m) (auto split: option.splits simp: map_add_def)

lemma successors_eq:
  "successors body i =
     map_option (\<lambda>b. {t \<in> block_ids body. t \<in> set (terminator_targets (bb_terminator b))}) (block_map body i)"
  by (auto simp: successors_def fold_upd_apply block_map_def split: option.splits)

lemma dom_successors: "dom (successors body) = block_ids body"
  using dom_block_map [of body] by (auto simp: successors_eq block_ids_def dom_def)

lemma successors_finite: "successors body i = Some ts \<Longrightarrow> finite ts"
  by (auto simp: successors_eq)

lemma successors_in: "successors body i = Some ts \<Longrightarrow> ts \<subseteq> block_ids body"
  by (auto simp: successors_eq)

lemma flows_iff: "flows body a b \<longleftrightarrow> (\<exists>ts. successors body a = Some ts \<and> b \<in> ts)"
  by (auto simp: flows_def successors_eq)

lemma flows_in: "flows body a b \<Longrightarrow> a \<in> block_ids body \<and> b \<in> block_ids body"
  using dom_block_map [of body] by (auto simp: flows_def block_ids_def dom_def)

definition sources_of :: "(string \<rightharpoonup> string set) \<Rightarrow> string \<Rightarrow> string set" where
  "sources_of m i = (case m i of None \<Rightarrow> {} | Some s \<Rightarrow> s)"

lemma add_predecessors:
  "sources_of (fold (add_predecessor source) targets m) i =
     sources_of m i \<union> (if i \<in> set targets then {source} else {})"
  "dom (fold (add_predecessor source) targets m) = dom m \<union> set targets"
  by (induction targets arbitrary: m) (auto simp: add_predecessor_def sources_of_def split: option.splits if_splits)

lemma fold_edges:
  assumes "\<And>a. a \<in> set as \<Longrightarrow> \<exists>ts. succ a = Some ts \<and> finite ts"
  shows "sources_of (fold (\<lambda>a. case succ a of None \<Rightarrow> id
             | Some ts \<Rightarrow> fold (add_predecessor a) (sorted_list_of_set ts)) as m) i =
           sources_of m i \<union> {a \<in> set as. i \<in> the (succ a)}"
    and "dom (fold (\<lambda>a. case succ a of None \<Rightarrow> id
             | Some ts \<Rightarrow> fold (add_predecessor a) (sorted_list_of_set ts)) as m) =
           dom m \<union> (\<Union>a\<in>set as. the (succ a))"
  using assms
proof (induction as arbitrary: m)
  case (Cons a as)
  {
    case 1
    obtain ts where ts: "succ a = Some ts" "finite ts" using 1 by auto
    show ?case using Cons.IH(1) 1 ts by (auto simp: add_predecessors split: if_splits)
  next
    case 2
    obtain ts where ts: "succ a = Some ts" "finite ts" using 2 by auto
    show ?case using Cons.IH(2) 2 ts by (auto simp: add_predecessors)
  }
qed simp_all

lemma sources_of_predecessors: "sources_of (predecessors body) b = {a. flows body a b}"
proof -
  have *: "\<exists>ts. successors body a = Some ts \<and> finite ts" if "a \<in> set (sorted_list_of_set (block_ids body))" for a
    using that dom_successors [of body] successors_finite [of body a] by (auto simp: dom_def)
  have "sources_of (predecessors body) b =
      {a \<in> set (sorted_list_of_set (block_ids body)). b \<in> the (successors body a)}"
    unfolding predecessors_def by (subst fold_edges(1)) (use * in \<open>auto simp: sources_of_def\<close>)
  also have "\<dots> = {a. flows body a b}"
    using flows_in * by (fastforce simp: flows_iff)
  finally show ?thesis .
qed

lemma dom_predecessors: "dom (predecessors body) = block_ids body"
proof -
  have *: "\<exists>ts. successors body a = Some ts \<and> finite ts" if "a \<in> set (sorted_list_of_set (block_ids body))" for a
    using that dom_successors [of body] successors_finite [of body a] by (auto simp: dom_def)
  show ?thesis
    unfolding predecessors_def
    by (subst fold_edges(2)) (use * successors_in in \<open>fastforce split: if_splits\<close>)+
qed

section \<open>Reachability\<close>

text \<open>The worklist loop returns the set closed under the edges that its queue starts.\<close>

definition edges :: "(string \<rightharpoonup> string set) \<Rightarrow> (string \<times> string) set" where
  "edges succ = {(a, b). \<exists>ts. succ a = Some ts \<and> b \<in> ts}"

lemma rtrancl_Image_step: "E\<^sup>* `` (E `` {b}) \<subseteq> E\<^sup>* `` {b}"
  by (blast intro: converse_rtrancl_into_rtrancl)

lemma closed_rtrancl: "(a, b) \<in> E\<^sup>* \<Longrightarrow> E `` R \<subseteq> R \<Longrightarrow> a \<in> R \<Longrightarrow> b \<in> R"
  by (induction rule: rtrancl_induct) auto

lemma reach_loop_returns:
  assumes fin: "finite (dom succ)" and fints: "\<And>a ts. succ a = Some ts \<Longrightarrow> finite ts"
    and "edges succ `` r \<subseteq> r \<union> set q"
  shows "\<exists>R. reach_loop succ q r = Some R \<and> r \<union> set q \<subseteq> R \<and>
    R \<subseteq> r \<union> (edges succ)\<^sup>* `` set q \<and> edges succ `` R \<subseteq> R"
  using assms(3)
proof (induction "(card (dom succ - r), length q)" arbitrary: q r
    rule: wf_induct_rule [OF wf_lex_prod [OF wf_less wf_less]])
  case 1
  show ?case
  proof (cases q)
    case Nil
    then show ?thesis using 1(2) by (subst reach_loop.simps) auto
  next
    case (Cons b rest)
    show ?thesis
    proof (cases "b \<in> r")
      case True
      then have "edges succ `` r \<subseteq> r \<union> set rest" using 1(2) Cons by auto
      moreover have "reach_loop succ q r = reach_loop succ rest r"
        by (subst reach_loop.simps) (simp add: Cons True)
      ultimately obtain R where "reach_loop succ q r = Some R" "r \<union> set rest \<subseteq> R"
          "R \<subseteq> r \<union> (edges succ)\<^sup>* `` set rest" "edges succ `` R \<subseteq> R"
        using 1(1) [of r rest] Cons by auto
      moreover have "r \<union> set q = r \<union> set rest" "(edges succ)\<^sup>* `` set rest \<subseteq> (edges succ)\<^sup>* `` set q"
        using True Cons by auto
      ultimately show ?thesis by (intro exI [of _ R]) blast
    next
      case new: False
      define ts where "ts = (case succ b of None \<Rightarrow> [] | Some targets \<Rightarrow> sorted_list_of_set targets)"
      have ts: "set ts = edges succ `` {b}"
        using fints [of b] by (cases "succ b") (auto simp: ts_def edges_def)
      have step: "reach_loop succ q r = reach_loop succ (rest @ ts) (insert b r)"
        by (subst reach_loop.simps) (simp add: Cons new ts_def)
      have closed: "edges succ `` insert b r \<subseteq> insert b r \<union> set (rest @ ts)"
        using 1(2) Cons ts by auto
      have less: "((card (dom succ - insert b r), length (rest @ ts)), card (dom succ - r), length q)
          \<in> {(x, y). x < y} <*lex*> {(x, y). x < y}"
      proof (cases "b \<in> dom succ")
        case True
        then have "card (dom succ - insert b r) < card (dom succ - r)"
          using fin new by (intro psubset_card_mono) auto
        then show ?thesis by simp
      next
        case False
        then have "ts = []" and "dom succ - insert b r = dom succ - r"
          by (auto simp: ts_def split: option.splits)
        then show ?thesis using Cons by simp
      qed
      define X where "X = (edges succ)\<^sup>* `` set q"
      define Y where "Y = (edges succ)\<^sup>* `` set (rest @ ts)"
      have "Y = (edges succ)\<^sup>* `` set rest \<union> (edges succ)\<^sup>* `` (edges succ `` {b})"
        by (simp only: Y_def set_append Image_Un ts)
      also have "\<dots> \<subseteq> X \<union> X"
        unfolding X_def
        by (intro Un_mono Image_mono subset_refl subset_trans [OF rtrancl_Image_step]) (auto simp: Cons)
      finally have "Y \<subseteq> X" by simp
      moreover have "b \<in> X"
        unfolding X_def by (rule ImageI [OF rtrancl_refl]) (simp add: Cons)
      moreover have "r \<union> set q \<subseteq> insert b r \<union> set (rest @ ts)"
        using Cons by auto
      moreover obtain R where "reach_loop succ q r = Some R" "insert b r \<union> set (rest @ ts) \<subseteq> R"
          "R \<subseteq> insert b r \<union> Y" "edges succ `` R \<subseteq> R"
        unfolding Y_def using 1(1) [OF less closed] step by auto
      ultimately show ?thesis
        unfolding X_def [symmetric] by (intro exI [of _ R] conjI) blast+
    qed
  qed
qed

definition reaches :: "function_body \<Rightarrow> string \<Rightarrow> bool" where
  "reaches body b \<longleftrightarrow> (\<exists>p. walk body p b)"

lemma edges_successors: "edges (successors body) = {(a, b). flows body a b}"
  by (auto simp: edges_def flows_iff)

lemma reaches_rtrancl:
  "reaches body b \<longleftrightarrow> fb_entry body \<in> block_ids body \<and> (fb_entry body, b) \<in> {(a, b). flows body a b}\<^sup>*"
proof
  assume "reaches body b"
  then obtain p where "walk body p b" by (auto simp: reaches_def)
  then show "fb_entry body \<in> block_ids body \<and> (fb_entry body, b) \<in> {(a, b). flows body a b}\<^sup>*"
    by induction (auto intro: rtrancl_into_rtrancl)
next
  assume "fb_entry body \<in> block_ids body \<and> (fb_entry body, b) \<in> {(a, b). flows body a b}\<^sup>*"
  then have "fb_entry body \<in> block_ids body" and "(fb_entry body, b) \<in> {(a, b). flows body a b}\<^sup>*" by auto
  from this(2,1) show "reaches body b"
    by induction (auto simp: reaches_def intro: walk_entry walk_step)
qed

lemma reachable_blocks_eq: "reachable_blocks body = Some {b. reaches body b}"
proof (cases "fb_entry body \<in> block_ids body")
  case True
  have "finite (dom (successors body))" by (simp add: dom_successors)
  with reach_loop_returns [of "successors body" "{}" "[fb_entry body]"] successors_finite [of body]
  obtain R where R: "reach_loop (successors body) [fb_entry body] {} = Some R" "fb_entry body \<in> R"
    "R \<subseteq> {(a, b). flows body a b}\<^sup>* `` {fb_entry body}" "{(a, b). flows body a b} `` R \<subseteq> R"
    by (auto simp: edges_successors)
  have "R = {b. reaches body b}"
    using R(2,3) True closed_rtrancl [OF _ R(4) R(2)] by (auto simp: reaches_rtrancl)
  then show ?thesis using R(1) True by (simp add: reachable_blocks_def)
qed (simp add: reachable_blocks_def reaches_rtrancl)

lemma reaches_in: "reaches body b \<Longrightarrow> b \<in> block_ids body"
  unfolding reaches_def by (elim exE, erule walk.cases) (auto dest: flows_in)

lemma finite_reaches [simp]: "finite {b. reaches body b}"
  by (rule finite_subset [of _ "block_ids body"]) (auto dest: reaches_in)

lemma walk_reaches: "walk body p b \<Longrightarrow> a \<in> set p \<Longrightarrow> reaches body a"
  by (induction rule: walk.induct) (auto simp: reaches_def intro: walk_entry walk_step)

section \<open>Dominators\<close>

text \<open>\<open>b\<close> is dominated by the blocks on every walk to it.\<close>

definition dominators_of :: "function_body \<Rightarrow> string \<Rightarrow> string set" where
  "dominators_of body b = {d. \<forall>p. walk body p b \<longrightarrow> d \<in> set p}"

text \<open>The set a pass computes for \<open>b\<close> from the sets of its reachable predecessors.\<close>

definition candidate :: "function_body \<Rightarrow> (string \<rightharpoonup> string set) \<Rightarrow> string \<Rightarrow> string set" where
  "candidate body sets b = insert b (\<Inter>p\<in>{p. flows body p b \<and> reaches body p}. the (sets p))"

text \<open>The invariant of the iteration: the sets only ever shrink, and never below the dominators.\<close>

definition dominator_inv :: "function_body \<Rightarrow> (string \<rightharpoonup> string set) \<Rightarrow> bool" where
  "dominator_inv body sets \<longleftrightarrow>
     dom sets = {b. reaches body b} \<and>
     (\<forall>b. reaches body b \<longrightarrow> the (sets b) \<subseteq> {b. reaches body b} \<and> dominators_of body b \<subseteq> the (sets b) \<and>
       (if b = fb_entry body then sets b = Some {b} else candidate body sets b \<subseteq> the (sets b)))"

definition dominator_size :: "function_body \<Rightarrow> (string \<rightharpoonup> string set) \<Rightarrow> nat" where
  "dominator_size body sets = (\<Sum>b\<in>{b. reaches body b}. card (the (sets b)))"

lemma reaches_cases:
  assumes "reaches body b" "b \<noteq> fb_entry body"
  obtains p where "flows body p b" "reaches body p"
  using assms by (auto simp: reaches_def elim: walk.cases)

lemma dominators_of_entry:
  "reaches body (fb_entry body) \<Longrightarrow> dominators_of body (fb_entry body) = {fb_entry body}"
  using reaches_in walk_entry [of body]
  by (fastforce simp: dominators_of_def elim: walk.cases)

lemma dominators_of_candidate:
  assumes "reaches body b" and "\<And>p. flows body p b \<Longrightarrow> reaches body p \<Longrightarrow> dominators_of body p \<subseteq> the (sets p)"
  shows "dominators_of body b \<subseteq> candidate body sets b"
proof
  fix d assume d: "d \<in> dominators_of body b"
  show "d \<in> candidate body sets b"
  proof (cases "d = b")
    case False
    have "d \<in> the (sets p)" if p: "flows body p b" "reaches body p" for p
    proof -
      have "d \<in> set q" if "walk body q p" for q
        using d walk_step [OF that p(1)] False by (auto simp: dominators_of_def)
      then show ?thesis using assms(2) [OF p] by (auto simp: dominators_of_def)
    qed
    then show ?thesis by (auto simp: candidate_def)
  qed (simp add: candidate_def)
qed

lemma dominators_of_subset: "reaches body b \<Longrightarrow> dominators_of body b \<subseteq> {b. reaches body b}"
  by (auto simp: dominators_of_def reaches_def [of body b] dest: walk_reaches)

lemma initial_dominators_inv:
  "dominator_inv body (initial_dominators (fb_entry body) {b. reaches body b})"
proof -
  let ?sets = "initial_dominators (fb_entry body) {b. reaches body b}"
  have "candidate body ?sets b \<subseteq> {b. reaches body b}" if b: "reaches body b" "b \<noteq> fb_entry body" for b
  proof -
    obtain p where p: "flows body p b" "reaches body p" using b by (rule reaches_cases)
    then have "the (?sets p) \<subseteq> {b. reaches body b}" by (auto simp: initial_dominators_def)
    with p b show ?thesis unfolding candidate_def by blast
  qed
  then show ?thesis
    using dominators_of_subset dominators_of_entry
    by (auto simp: dominator_inv_def initial_dominators_def split: if_splits)
qed

lemma dominator_invD:
  assumes "dominator_inv body sets" and "reaches body b"
  shows "sets b = Some (the (sets b))" and "the (sets b) \<subseteq> {b. reaches body b}"
    and "dominators_of body b \<subseteq> the (sets b)"
    and "b = fb_entry body \<Longrightarrow> sets b = Some {b}"
    and "b \<noteq> fb_entry body \<Longrightarrow> candidate body sets b \<subseteq> the (sets b)"
proof -
  have "b \<in> dom sets" using assms by (simp add: dominator_inv_def)
  then show "sets b = Some (the (sets b))" by auto
qed (use assms in \<open>simp_all add: dominator_inv_def\<close>)

lemma map_filter_total: "(\<And>x. x \<in> set xs \<Longrightarrow> f x = Some (g x)) \<Longrightarrow> List.map_filter f xs = map g xs"
  by (induction xs) (simp_all add: List.map_filter_simps)

lemma fold_inter: "fold (\<lambda>s acc. acc \<inter> s) ss (s :: 'a set) = s \<inter> \<Inter> (set ss)"
  by (induction ss arbitrary: s) auto

text \<open>Under the invariant a step never skips a block and its \<open>expect\<close> never fails.\<close>

lemma dominator_step_eq:
  assumes inv: "dominator_inv body sets" and b: "reaches body b" "b \<noteq> fb_entry body"
  shows "dominator_step (predecessors body) {b. reaches body b} b (sets, changed) =
    (if sets b = Some (candidate body sets b) then (sets, changed)
     else (sets(b \<mapsto> candidate body sets b), True))"
proof -
  define sources where "sources = filter (\<lambda>p. p \<in> {b. reaches body b})
      (case predecessors body b of None \<Rightarrow> [] | Some ps \<Rightarrow> sorted_list_of_set ps)"
  have fin: "finite {a. flows body a b}"
    by (rule finite_subset [of _ "block_ids body"]) (auto dest: flows_in)
  have sources: "set sources = {p. flows body p b \<and> reaches body p}"
    using sources_of_predecessors [of body b] fin
    by (auto simp: sources_def sources_of_def split: option.splits)
  have known: "List.map_filter sets sources = map (the \<circ> sets) sources"
    unfolding comp_def by (rule map_filter_total) (use dominator_invD(1) [OF inv] sources in blast)
  have "sources \<noteq> []"
    using reaches_cases [OF b] sources by (metis (mono_tags, lifting) empty_iff list.set(1) mem_Collect_eq)
  then obtain p ps where ps: "sources = p # ps" by (cases sources) auto
  have "insert b (fold (\<lambda>s acc. acc \<inter> s) (map (the \<circ> sets) ps) (the (sets p))) = candidate body sets b"
    unfolding fold_inter candidate_def sources [symmetric] ps by (auto simp: image_image)
  then show ?thesis
    unfolding dominator_step_def Let_def sources_def [symmetric]
    by (simp add: known [unfolded ps] ps del: List.map_filter_simps)
qed

lemma candidate_mono:
  "(\<And>p. reaches body p \<Longrightarrow> the (sets' p) \<subseteq> the (sets p)) \<Longrightarrow> candidate body sets' b \<subseteq> candidate body sets b"
  unfolding candidate_def by blast

lemma dominator_inv_update:
  assumes inv: "dominator_inv body sets" and b: "reaches body b" "b \<noteq> fb_entry body"
  shows "dominator_inv body (sets(b \<mapsto> candidate body sets b))"
    and "sets b \<noteq> Some (candidate body sets b) \<Longrightarrow>
      dominator_size body (sets(b \<mapsto> candidate body sets b)) < dominator_size body sets"
proof -
  let ?sets = "sets(b \<mapsto> candidate body sets b)"
  have shrink: "candidate body sets b \<subseteq> the (sets b)" using inv b by (auto simp: dominator_inv_def)
  then have below: "the (?sets p) \<subseteq> the (sets p)" for p by auto
  have doms: "dominators_of body b \<subseteq> candidate body sets b"
    by (rule dominators_of_candidate) (use inv b in \<open>auto simp: dominator_inv_def\<close>)
  have "the (?sets c) \<subseteq> {b. reaches body b} \<and> dominators_of body c \<subseteq> the (?sets c) \<and>
      (if c = fb_entry body then ?sets c = Some {c} else candidate body ?sets c \<subseteq> the (?sets c))"
    if c: "reaches body c" for c
  proof -
    have old: "the (sets c) \<subseteq> {b. reaches body b} \<and> dominators_of body c \<subseteq> the (sets c) \<and>
        (if c = fb_entry body then sets c = Some {c} else candidate body sets c \<subseteq> the (sets c))"
      using dominator_invD [OF inv c] by auto
    have "candidate body ?sets c \<subseteq> candidate body sets c"
      by (rule candidate_mono) (rule below)
    then have "candidate body ?sets c \<subseteq> the (?sets c)" if "c \<noteq> fb_entry body"
      using old that by (cases "c = b") (auto dest: subsetD)
    moreover have "the (?sets c) \<subseteq> {b. reaches body b} \<and> dominators_of body c \<subseteq> the (?sets c)"
    proof (cases "c = b")
      case True
      with doms subset_trans [OF shrink dominator_invD(2) [OF inv b(1)]] show ?thesis by simp
    qed (use old in simp)
    moreover have "?sets c = Some {c}" if "c = fb_entry body"
      using that b(2) dominator_invD(4) [OF inv c] by simp
    ultimately show ?thesis by presburger
  qed
  moreover have "dom ?sets = {b. reaches body b}"
    using inv b(1) by (auto simp: dominator_inv_def)
  ultimately show "dominator_inv body ?sets"
    unfolding dominator_inv_def by blast
  assume "sets b \<noteq> Some (candidate body sets b)"
  moreover have "b \<in> dom sets" using inv b by (simp add: dominator_inv_def)
  ultimately have strict: "candidate body sets b \<subset> the (sets b)" using shrink by auto
  have fin: "finite (the (sets c))" if "reaches body c" for c
    by (rule finite_subset [OF dominator_invD(2) [OF inv that] finite_reaches])
  show "dominator_size body ?sets < dominator_size body sets"
    unfolding dominator_size_def
  proof (rule sum_strict_mono_ex1)
    show "\<forall>c\<in>{b. reaches body b}. card (the (?sets c)) \<le> card (the (sets c))"
      by (intro ballI card_mono fin below) simp
    show "\<exists>c\<in>{b. reaches body b}. card (the (?sets c)) < card (the (sets c))"
      using strict fin b by (intro bexI [of _ b]) (auto intro!: psubset_card_mono)
  qed simp
qed

text \<open>A pass either finds every set stable or makes progress.\<close>

lemma dominator_pass_steps:
  assumes "dominator_inv body sets" and "\<And>b. b \<in> set bs \<Longrightarrow> reaches body b \<and> b \<noteq> fb_entry body"
    and "fold (dominator_step (predecessors body) {b. reaches body b}) bs (sets, changed) = (sets', changed')"
  shows "dominator_inv body sets' \<and> dominator_size body sets' \<le> dominator_size body sets \<and>
    (changed' \<longrightarrow> changed \<or> dominator_size body sets' < dominator_size body sets) \<and>
    (\<not> changed' \<longrightarrow> \<not> changed \<and> sets' = sets \<and> (\<forall>b\<in>set bs. sets b = Some (candidate body sets b)))"
  using assms
proof (induction bs arbitrary: sets changed)
  case (Cons b bs)
  have b: "reaches body b" "b \<noteq> fb_entry body" using Cons.prems(2) by auto
  note step = dominator_step_eq [OF Cons.prems(1) b]
  show ?case
  proof (cases "sets b = Some (candidate body sets b)")
    case True
    then show ?thesis using Cons.IH [OF Cons.prems(1)] Cons.prems step by auto
  next
    case False
    then show ?thesis
      using Cons.IH [OF dominator_inv_update(1) [OF Cons.prems(1) b]] Cons.prems(2,3) step
        dominator_inv_update(2) [OF Cons.prems(1) b False]
      by fastforce
  qed
qed simp

lemma dominator_loop_returns:
  assumes "dominator_inv body sets"
  shows "\<exists>sets'. dominator_loop (fb_entry body) (predecessors body) {b. reaches body b} sets = Some sets' \<and>
    dominator_inv body sets' \<and>
    (\<forall>b. reaches body b \<and> b \<noteq> fb_entry body \<longrightarrow> sets' b = Some (candidate body sets' b))"
  using assms
proof (induction "dominator_size body sets" arbitrary: sets rule: less_induct)
  case less
  obtain sets' changed where
    pass: "dominator_pass (fb_entry body) (predecessors body) {b. reaches body b} sets = (sets', changed)"
    by (cases "dominator_pass (fb_entry body) (predecessors body) {b. reaches body b} sets")
  have set: "set (filter (\<lambda>block. block \<noteq> fb_entry body) (sorted_list_of_set {b. reaches body b})) =
      {b. reaches body b \<and> b \<noteq> fb_entry body}" by auto
  note steps = dominator_pass_steps [OF less.prems _ pass [unfolded dominator_pass_def], unfolded set]
  show ?case
    using steps pass less.hyps [of sets'] by (subst dominator_loop.simps) auto
qed

text \<open>At a fixed point the set of a block lies on every walk to it.\<close>

lemma stable_sound:
  assumes inv: "dominator_inv body sets"
    and stable: "\<And>b. reaches body b \<Longrightarrow> b \<noteq> fb_entry body \<Longrightarrow> sets b = Some (candidate body sets b)"
    and "walk body p b" and "d \<in> the (sets b)"
  shows "d \<in> set p"
  using assms(3,4)
proof (induction arbitrary: d)
  case walk_entry
  then have "reaches body (fb_entry body)" by (auto simp: reaches_def intro: walk.walk_entry)
  then show ?case using inv walk_entry by (simp add: dominator_inv_def)
next
  case (walk_step p a b)
  have ra: "reaches body a" and rb: "reaches body b"
    using walk_step.hyps by (auto simp: reaches_def intro: walk.walk_step)
  show ?case
  proof (cases "b = fb_entry body")
    case True
    then show ?thesis using inv rb walk_step.prems by (simp add: dominator_inv_def)
  next
    case False
    then have "d \<in> candidate body sets b" using stable [OF rb] walk_step.prems by simp
    then have "d = b \<or> d \<in> the (sets a)" using walk_step.hyps(2) ra by (auto simp: candidate_def)
    then show ?thesis using walk_step.IH by auto
  qed
qed

lemma dominator_loop_exact:
  "\<exists>sets. dominator_loop (fb_entry body) (predecessors body) {b. reaches body b}
       (initial_dominators (fb_entry body) {b. reaches body b}) = Some sets \<and>
     (\<forall>b. sets b = (if reaches body b then Some (dominators_of body b) else None))"
proof -
  obtain sets where loop: "dominator_loop (fb_entry body) (predecessors body) {b. reaches body b}
       (initial_dominators (fb_entry body) {b. reaches body b}) = Some sets"
    and inv: "dominator_inv body sets"
    and stable: "\<And>b. reaches body b \<Longrightarrow> b \<noteq> fb_entry body \<Longrightarrow> sets b = Some (candidate body sets b)"
    using dominator_loop_returns [OF initial_dominators_inv] by blast
  have "sets b = (if reaches body b then Some (dominators_of body b) else None)" for b
  proof (cases "reaches body b")
    case True
    then obtain s where s: "sets b = Some s" "dominators_of body b \<subseteq> s"
      using dominator_invD(1,3) [OF inv] by metis
    then have "s \<subseteq> dominators_of body b"
      using stable_sound [OF inv stable, of _ b] by (auto simp: dominators_of_def)
    with s True show ?thesis by auto
  next
    case False
    then show ?thesis using inv by (auto simp: dominator_inv_def dom_def)
  qed
  then show ?thesis using loop by blast
qed

section \<open>Properties\<close>

lemma from_body_eq:
  "\<exists>cfg. from_body digest body body_identity = Some cfg \<and>
     cfg_entry cfg = fb_entry body \<and>
     map cb_id (cfg_blocks cfg) = sorted_list_of_set (block_ids body) \<and>
     cfg_reachable cfg = sorted_list_of_set {b. reaches body b} \<and>
     cfg_unreachable cfg = sorted_list_of_set (block_ids body - {b. reaches body b}) \<and>
     (\<forall>i. cfg_dominators cfg i =
        (if reaches body i then Some (sorted_list_of_set (dominators_of body i)) else None)) \<and>
     (\<forall>block\<in>set (cfg_blocks cfg).
        cb_predecessors block = sorted_list_of_set {a. flows body a (cb_id block)} \<and>
        cb_successors block = sorted_list_of_set {b. flows body (cb_id block) b} \<and>
        (cb_reachable block \<longleftrightarrow> reaches body (cb_id block)))"
proof -
  obtain sets where "dominator_loop (fb_entry body) (predecessors body) {b. reaches body b}
       (initial_dominators (fb_entry body) {b. reaches body b}) = Some sets"
    and sets: "\<And>b. sets b = (if reaches body b then Some (dominators_of body b) else None)"
    using dominator_loop_exact by blast
  moreover have "(case predecessors body i of None \<Rightarrow> {} | Some s \<Rightarrow> s) = {a. flows body a i}" for i
    using sources_of_predecessors [of body i] by (simp add: sources_of_def)
  moreover have "(case successors body i of None \<Rightarrow> {} | Some s \<Rightarrow> s) = {b. flows body i b}" for i
    by (auto simp: flows_iff split: option.splits)
  moreover have "sort_key cb_id (map f (sorted_list_of_set (block_ids body))) =
      map f (sorted_list_of_set (block_ids body))" if "\<And>i. cb_id (f i) = i" for f :: "string \<Rightarrow> cfg_block"
    using that by (intro sort_key_id_if_sorted) (simp add: comp_def)
  ultimately show ?thesis
    by (auto simp: from_body_def reachable_blocks_eq Let_def comp_def)
qed

text \<open>Property C28. Building the control-flow graph always ends, and reports exactly the blocks that a
  walk from the entry block can reach, the rest being unreachable.\<close>

theorem cfg_reachability_exact:
  "\<exists>cfg. from_body digest body body_identity = Some cfg \<and>
     set (cfg_reachable cfg) = {b. \<exists>p. walk body p b} \<and>
     set (cfg_unreachable cfg) = block_ids body - {b. \<exists>p. walk body p b} \<and>
     distinct (cfg_reachable cfg @ cfg_unreachable cfg)"
proof -
  obtain cfg where "from_body digest body body_identity = Some cfg"
    and "cfg_reachable cfg = sorted_list_of_set {b. reaches body b}"
    and "cfg_unreachable cfg = sorted_list_of_set (block_ids body - {b. reaches body b})"
    using from_body_eq [of digest body body_identity] by blast
  moreover have "{b. \<exists>p. walk body p b} = {b. reaches body b}" by (simp add: reaches_def)
  ultimately show ?thesis by (intro exI [of _ cfg]) auto
qed

lemma dominates_iff:
  assumes "from_body digest body body_identity = Some cfg"
  shows "dominates cfg d b \<longleftrightarrow> reaches body b \<and> d \<in> dominators_of body b"
proof -
  have doms: "cfg_dominators cfg b = (if reaches body b then Some (sorted_list_of_set (dominators_of body b)) else None)"
    using from_body_eq [of digest body body_identity] assms by auto
  have "set (sorted_list_of_set (dominators_of body b)) = dominators_of body b" if "reaches body b"
    using finite_subset [OF dominators_of_subset [OF that] finite_reaches] by simp
  with doms show ?thesis by (simp add: dominates_def)
qed

text \<open>Property C2. A block dominates another in the graph built exactly when the second is reachable and
  the first lies on every walk to it: the fixed-point iteration ends with the dominators, not
  with an approximation of them.\<close>

theorem dominators_exact:
  "\<exists>cfg. from_body digest body body_identity = Some cfg \<and>
     (\<forall>d b. dominates cfg d b \<longleftrightarrow>
        (\<exists>p. walk body p b) \<and> {p. walk body p b} \<subseteq> {p. d \<in> set p})"
proof -
  obtain cfg where cfg: "from_body digest body body_identity = Some cfg"
    using from_body_eq [of digest body body_identity] by blast
  then show ?thesis
    by (intro exI [of _ cfg]) (auto simp: dominates_iff reaches_def dominators_of_def)
qed

end
