(* ===== verification/Body_Valid.thy ===== *)
theory Body_Valid
  imports Type_Names Cfg "HOL-Library.Product_Lexorder"
begin

text \<open>
  Validation of an executable body, from \<open>crates/mncs-model/src/body.rs\<close>: \<open>FunctionBody::validate\<close>
  and the checks it is made of, one definition per kind of operation in the order of the source.

  A check yields the codes of the diagnostics it pushes, in the order it pushes them; paths and
  messages are left out.  \<open>available\<close> gives the types of the identities that are defined where
  the operation stands.
\<close>

section \<open>Diagnostics\<close>

type_synonym code = string

type_synonym types = "string \<rightharpoonup> body_type"

definition complain :: "bool \<Rightarrow> code \<Rightarrow> code list" where
  "complain b code = (if b then [code] else [])"

lemma complain_Nil [simp]: "complain b code = [] \<longleftrightarrow> \<not> b"
  by (simp add: complain_def)

text \<open>A check that may return before the metadata of the operation is looked at.\<close>

datatype findings = Proceed "code list" | Bail "code list"


section \<open>Operands and results\<close>

text \<open>\<open>available.get(operands.get(i).unwrap_or(&String::new()))\<close>: a missing operand looks up the
  empty name.\<close>

definition operand_ty :: "body_operation \<Rightarrow> types \<Rightarrow> nat \<Rightarrow> body_type option" where
  "operand_ty oper available i = available (case operand oper i of None \<Rightarrow> [] | Some x \<Rightarrow> x)"

text \<open>\<open>results.first().is_some_and(p)\<close>\<close>

definition first_result :: "body_operation \<Rightarrow> (body_type \<Rightarrow> bool) \<Rightarrow> bool" where
  "first_result oper p = (case bo_results oper of [] \<Rightarrow> False | r # _ \<Rightarrow> p (bv_ty r))"

text \<open>\<open>results.first().is_none_or(|r| r.ty != ty)\<close>\<close>

definition first_result_differs :: "body_operation \<Rightarrow> body_type \<Rightarrow> bool" where
  "first_result_differs oper ty = (case bo_results oper of [] \<Rightarrow> True | r # _ \<Rightarrow> bv_ty r \<noteq> ty)"

definition arity_differs :: "body_operation \<Rightarrow> nat \<Rightarrow> bool" where
  "arity_differs oper n \<longleftrightarrow> length (bo_operands oper) \<noteq> n \<or> length (bo_results oper) \<noteq> 1"

definition u64_type :: body_type where
  "u64_type = TInteger \<lparr>ty_bits = 64, ty_signed = False\<rparr>"

abbreviation each_operand :: "body_operation \<Rightarrow> (string \<Rightarrow> bool) \<Rightarrow> code \<Rightarrow> code list" where
  "each_operand oper bad code \<equiv> concat (map (\<lambda>x. complain (bad x) code) (bo_operands oper))"

text \<open>\<open>available.get(x).is_some_and(p)\<close>\<close>

definition has_type :: "types \<Rightarrow> (body_type \<Rightarrow> bool) \<Rightarrow> string \<Rightarrow> bool" where
  "has_type available p x = (case available x of None \<Rightarrow> False | Some ty \<Rightarrow> p ty)"

definition is_float64 :: "body_type \<Rightarrow> bool" where
  "is_float64 ty = (case ty of TFloat float \<Rightarrow> float_is_supported float | _ \<Rightarrow> False)"

definition comparison :: "string \<Rightarrow> bool" where
  "comparison predicate \<longleftrightarrow> predicate \<in> {''eq'', ''ne'', ''lt'', ''le'', ''gt'', ''ge''}"


section \<open>Scalars\<close>

definition valid_constant :: "body_type \<Rightarrow> body_operation \<Rightarrow> code list" where
  "valid_constant ty oper =
     (if bo_operands oper = [] \<and> length (bo_results oper) = 1
      then complain (bv_ty (bo_results oper ! 0) \<noteq> ty) ''MNB013''
      else [''MNB014''])"

definition valid_integer ::
  "string \<Rightarrow> integer_type \<Rightarrow> arithmetic_intent \<Rightarrow> body_operation \<Rightarrow> types \<Rightarrow> code list" where
  "valid_integer operator operand_type intent oper available =
     (let result_type = arithmetic_result_type operator operand_type intent in
      complain (operator \<notin> {''add'', ''sub'', ''mul'', ''div'', ''mod'', ''and'', ''or'', ''xor'', ''shl'', ''shr''})
        ''MNB015'' @
      complain (operator \<in> {''and'', ''or'', ''xor'', ''shl'', ''shr''} \<and> intent \<noteq> Wrapping) ''MNB043'' @
      complain (arity_differs oper 2) ''MNB016'' @
      concat (map (\<lambda>(i, x). complain
          (\<not> (operator \<in> {''shl'', ''shr''} \<and> i = 1 \<and> available x = Some u64_type) \<and>
           available x \<noteq> Some (TInteger operand_type)) ''MNB017'')
        (zip [0..<length (bo_operands oper)] (bo_operands oper))) @
      complain (result_type = None) ''MNB058'' @
      complain (first_result oper (\<lambda>actual. case result_type of None \<Rightarrow> False | Some ty \<Rightarrow> actual \<noteq> TInteger ty))
        ''MNB018'')"

definition valid_integer_compare :: "string \<Rightarrow> integer_type \<Rightarrow> body_operation \<Rightarrow> types \<Rightarrow> code list" where
  "valid_integer_compare predicate operand_type oper available =
     complain (\<not> comparison predicate) ''MNB039'' @
     complain (arity_differs oper 2) ''MNB040'' @
     each_operand oper (\<lambda>x. available x \<noteq> Some (TInteger operand_type)) ''MNB041'' @
     complain (first_result oper (\<lambda>ty. \<not> is_boolean ty)) ''MNB042''"

definition valid_float_constant :: "float_type \<Rightarrow> body_operation \<Rightarrow> code list" where
  "valid_float_constant ty oper =
     complain (\<not> float_is_supported ty) ''MNB126'' @
     (if bo_operands oper = [] \<and> length (bo_results oper) = 1
      then complain (bv_ty (bo_results oper ! 0) \<noteq> TFloat ty) ''MNB013''
      else [''MNB014''])"

definition valid_float :: "string \<Rightarrow> body_operation \<Rightarrow> types \<Rightarrow> code list" where
  "valid_float operator oper available =
     complain (operator \<notin> {''add'', ''sub'', ''mul'', ''div''}) ''MNB127'' @
     complain (arity_differs oper 2) ''MNB128'' @
     each_operand oper (\<lambda>x. \<not> has_type available is_float64 x) ''MNB129'' @
     complain (first_result oper (\<lambda>ty. \<not> is_float64 ty)) ''MNB130''"

definition valid_float_compare :: "string \<Rightarrow> body_operation \<Rightarrow> types \<Rightarrow> code list" where
  "valid_float_compare predicate oper available =
     complain (\<not> comparison predicate) ''MNB131'' @
     complain (arity_differs oper 2) ''MNB132'' @
     each_operand oper (\<lambda>x. \<not> has_type available is_float64 x) ''MNB133'' @
     complain (first_result oper (\<lambda>ty. \<not> is_boolean ty)) ''MNB042''"

definition valid_float_intrinsic :: "string \<Rightarrow> body_operation \<Rightarrow> types \<Rightarrow> code list" where
  "valid_float_intrinsic intrinsic oper available =
     complain (intrinsic \<notin> {''sin'', ''cos'', ''neg''}) ''MNB134'' @
     complain (arity_differs oper 1) ''MNB135'' @
     each_operand oper (\<lambda>x. \<not> has_type available is_float64 x) ''MNB136'' @
     complain (first_result oper (\<lambda>ty. \<not> is_float64 ty)) ''MNB137''"

definition valid_boolean_op :: "string \<Rightarrow> body_operation \<Rightarrow> types \<Rightarrow> code list" where
  "valid_boolean_op operator oper available =
     complain (operator \<notin> {''and'', ''or''}) ''MNB067'' @
     complain (arity_differs oper 2) ''MNB068'' @
     each_operand oper (\<lambda>x. \<not> has_type available (\<lambda>ty. same_type ty TBool) x) ''MNB069'' @
     complain (first_result oper (\<lambda>ty. \<not> same_type ty TBool)) ''MNB070''"

definition valid_boolean_compare :: "string \<Rightarrow> body_operation \<Rightarrow> types \<Rightarrow> code list" where
  "valid_boolean_compare predicate oper available =
     complain (predicate \<notin> {''eq'', ''ne''}) ''MNB138'' @
     complain (arity_differs oper 2) ''MNB139'' @
     each_operand oper (\<lambda>x. \<not> has_type available (\<lambda>ty. same_type ty TBool) x) ''MNB140'' @
     complain (first_result oper (\<lambda>ty. \<not> same_type ty TBool)) ''MNB141''"

definition valid_boolean_not :: "body_operation \<Rightarrow> types \<Rightarrow> code list" where
  "valid_boolean_not oper available =
     complain (arity_differs oper 1) ''MNB139'' @
     each_operand oper (\<lambda>x. \<not> has_type available (\<lambda>ty. same_type ty TBool) x) ''MNB140'' @
     complain (first_result oper (\<lambda>ty. \<not> same_type ty TBool)) ''MNB141''"

text \<open>\<open>validate_byte_operands\<close>, shared by the bitwise operations and the comparisons on bytes.\<close>

definition validate_byte_operands :: "bool \<Rightarrow> body_operation \<Rightarrow> types \<Rightarrow> code list" where
  "validate_byte_operands produces_bool oper available =
     (if arity_differs oper 2 then [''MNB096'']
      else each_operand oper (\<lambda>x. available x \<noteq> Some TByte) ''MNB097'' @
           complain (first_result_differs oper (if produces_bool then TBool else TByte))
             (if produces_bool then ''MNB098'' else ''MNB099''))"

definition valid_byte_bitwise :: "string \<Rightarrow> body_operation \<Rightarrow> types \<Rightarrow> code list" where
  "valid_byte_bitwise operator oper available =
     complain (operator \<notin> {''and'', ''or'', ''xor''}) ''MNB071'' @ validate_byte_operands False oper available"

definition valid_byte_shift :: "string \<Rightarrow> body_operation \<Rightarrow> types \<Rightarrow> code list" where
  "valid_byte_shift operator oper available =
     complain (operator \<notin> {''shl'', ''shr''}) ''MNB072'' @
     complain (arity_differs oper 2) ''MNB073'' @
     complain (operand_ty oper available 0 \<noteq> Some TByte \<or> operand_ty oper available 1 \<noteq> Some u64_type) ''MNB074'' @
     complain (first_result oper (\<lambda>ty. ty \<noteq> TByte)) ''MNB075''"

definition valid_byte_compare :: "string \<Rightarrow> body_operation \<Rightarrow> types \<Rightarrow> code list" where
  "valid_byte_compare predicate oper available =
     complain (\<not> comparison predicate) ''MNB076'' @ validate_byte_operands True oper available"

definition is_convertible_scalar :: "body_type \<Rightarrow> bool" where
  "is_convertible_scalar ty =
     (case ty of
        TByte \<Rightarrow> True
      | TInteger integer \<Rightarrow> 1 \<le> ty_bits integer \<and> ty_bits integer \<le> 64
      | TBool \<Rightarrow> True
      | TNamed name \<Rightarrow> name = ''bool''
      | TFloat float \<Rightarrow> float_is_supported float
      | _ \<Rightarrow> False)"

definition valid_convert :: "body_type \<Rightarrow> body_type \<Rightarrow> body_operation \<Rightarrow> types \<Rightarrow> code list" where
  "valid_convert source target oper available =
     complain (\<not> is_convertible_scalar source \<or> \<not> is_convertible_scalar target) ''MNB077'' @
     complain (arity_differs oper 1) ''MNB078'' @
     complain (operand_ty oper available 0 \<noteq> Some source) ''MNB079'' @
     complain (first_result oper (\<lambda>ty. ty \<noteq> target)) ''MNB080''"


section \<open>Sequences and views\<close>

definition body_view_widening :: "body_type \<Rightarrow> body_type \<Rightarrow> bool" where
  "body_view_widening actual expected \<longleftrightarrow> classify_compatibility actual expected = ViewWidening"

definition valid_sequence_construct :: "body_type \<Rightarrow> nat \<Rightarrow> body_operation \<Rightarrow> types \<Rightarrow> code list" where
  "valid_sequence_construct element_type len oper available =
     complain (max_sequence_bound < len) ''MNB081'' @
     complain (arity_differs oper len) ''MNB082'' @
     each_operand oper (\<lambda>x. available x \<noteq> Some element_type) ''MNB083'' @
     complain (first_result oper (\<lambda>ty. case ty of
         TSequence element (Exact result_length) \<Rightarrow> \<not> (element = element_type \<and> result_length = len)
       | TSequence element (UpTo capacity) \<Rightarrow> \<not> (element = element_type \<and> len \<le> capacity)
       | _ \<Rightarrow> True)) ''MNB084''"

definition valid_sequence_project :: "sequence_bound \<Rightarrow> body_operation \<Rightarrow> types \<Rightarrow> code list" where
  "valid_sequence_project bound oper available =
     (let element = (case bo_results oper of [] \<Rightarrow> TNamed ''invalid'' | r # _ \<Rightarrow> bv_ty r);
          expected = TSequence element bound in
      complain (arity_differs oper 2) ''MNB085'' @
      complain (operand_ty oper available 1 \<noteq> Some u64_type) ''MNB086'' @
      complain (case operand_ty oper available 0 of
          None \<Rightarrow> True
        | Some actual \<Rightarrow> \<not> (actual = expected \<or> body_view_widening actual expected)) ''MNB087'')"

definition valid_select :: "body_type \<Rightarrow> body_operation \<Rightarrow> types \<Rightarrow> findings" where
  "valid_select operand_type oper available =
     (if arity_differs oper 3 then Bail [''MNB102'']
      else
        let condition_type = (case operand_type of TVector _ lanes \<Rightarrow> TMask lanes | _ \<Rightarrow> TBool) in
        Proceed
          (complain (\<not> has_type available (\<lambda>ty. same_type ty condition_type) (bo_operands oper ! 0)) ''MNB103'' @
           concat (map (\<lambda>x. complain (available x \<noteq> Some operand_type) ''MNB104'') (take 2 (drop 1 (bo_operands oper)))) @
           complain (first_result oper (\<lambda>ty. ty \<noteq> operand_type)) ''MNB105''))"

definition valid_sequence_replace :: "body_type \<Rightarrow> sequence_bound \<Rightarrow> body_operation \<Rightarrow> types \<Rightarrow> code list" where
  "valid_sequence_replace element_type bound oper available =
     (let expected = TSequence element_type bound in
      complain (case bound of UpTo _ \<Rightarrow> True | _ \<Rightarrow> False) ''MNB106'' @
      complain (arity_differs oper 3) ''MNB107'' @
      complain (operand_ty oper available 1 \<noteq> Some u64_type) ''MNB108'' @
      complain (operand_ty oper available 2 \<noteq> Some element_type) ''MNB109'' @
      complain (operand_ty oper available 0 \<noteq> Some expected) ''MNB110'' @
      complain (first_result oper (\<lambda>ty. ty \<noteq> expected)) ''MNB111'')"

definition valid_bound_check :: "body_operation \<Rightarrow> types \<Rightarrow> findings" where
  "valid_bound_check oper available =
     (if arity_differs oper 2 then Bail [''MNB155'']
      else Proceed
        (complain (case operand_ty oper available 0 of Some (TSequence _ _) \<Rightarrow> False | _ \<Rightarrow> True) ''MNB157'' @
         complain (operand_ty oper available 1 \<noteq> Some u64_type) ''MNB156'' @
         complain (first_result oper (\<lambda>ty. ty \<noteq> u64_type)) ''MNB158''))"

definition valid_sequence_copy ::
  "body_type \<Rightarrow> sequence_bound \<Rightarrow> sequence_bound \<Rightarrow> body_operation \<Rightarrow> types \<Rightarrow> code list" where
  "valid_sequence_copy element_type dst_bound src_bound oper available =
     (let destination = TSequence element_type dst_bound; source = TSequence element_type src_bound in
      complain (case dst_bound of Exact _ \<Rightarrow> False | _ \<Rightarrow> True) ''MNB142'' @
      complain (arity_differs oper 5) ''MNB144'' @
      concat (map (\<lambda>position. complain (operand_ty oper available position \<noteq> Some u64_type) ''MNB145'') [1, 3, 4]) @
      complain (operand_ty oper available 0 \<noteq> Some destination) ''MNB146'' @
      complain (case operand_ty oper available 2 of
          None \<Rightarrow> True
        | Some actual \<Rightarrow> \<not> (actual = source \<or> body_view_widening actual source)) ''MNB147'' @
      complain (first_result oper (\<lambda>ty. ty \<noteq> destination)) ''MNB148'')"

definition valid_sequence_length :: "body_operation \<Rightarrow> findings" where
  "valid_sequence_length oper =
     (if arity_differs oper 1 then Bail [''MNB088'']
      else Proceed (complain (first_result oper (\<lambda>ty. ty \<noteq> u64_type)) ''MNB089''))"

definition valid_view_construct :: "sequence_bound \<Rightarrow> sequence_bound \<Rightarrow> body_operation \<Rightarrow> types \<Rightarrow> findings" where
  "valid_view_construct source_bound view_bound oper available =
     (if arity_differs oper 3 then Bail [''MNB090'']
      else
        let endpoints = complain (operand_ty oper available 1 \<noteq> Some u64_type \<or>
                                  operand_ty oper available 2 \<noteq> Some u64_type) ''MNB091'' in
        case view_bound of
          UpTo capacity \<Rightarrow>
            let element = (case operand_ty oper available 0 of Some (TSequence e _) \<Rightarrow> e | _ \<Rightarrow> TNamed ''invalid'');
                expected = TSequence element view_bound in
            Proceed
              (endpoints @
               complain (case operand_ty oper available 0 of
                   Some (TSequence _ bound) \<Rightarrow> bound \<noteq> source_bound | _ \<Rightarrow> True) ''MNB093'' @
               complain (first_result oper (\<lambda>ty. \<not> same_type ty expected)) ''MNB094'' @
               complain (first_result oper (\<lambda>_. max_sequence_bound < capacity)) ''MNB095'')
        | _ \<Rightarrow> Bail (endpoints @ [''MNB092'']))"

definition valid_view_narrow :: "nat \<Rightarrow> nat \<Rightarrow> body_operation \<Rightarrow> types \<Rightarrow> findings" where
  "valid_view_narrow source_cap new_cap oper available =
     (let widened = complain (source_cap < new_cap) ''MNB149'' in
      if arity_differs oper 1 then Bail (widened @ [''MNB150''])
      else
        case operand_ty oper available 0 of
          Some (TSequence element bound) \<Rightarrow>
            Proceed
              (widened @
               complain (bound \<noteq> UpTo source_cap) ''MNB152'' @
               complain (first_result oper (\<lambda>ty. ty \<noteq> TSequence element (UpTo new_cap))) ''MNB153'' @
               complain (max_sequence_bound < new_cap) ''MNB154'')
        | _ \<Rightarrow> Bail (widened @ [''MNB151'']))"


section \<open>Vectors and masks\<close>

definition valid_vector_construct :: "body_type \<Rightarrow> nat \<Rightarrow> body_operation \<Rightarrow> types \<Rightarrow> code list" where
  "valid_vector_construct element_type lanes oper available =
     complain
       (lanes = 0 \<or> max_vector_lanes < lanes \<or> arity_differs oper lanes \<or>
        list_ex (\<lambda>x. available x \<noteq> Some element_type) (bo_operands oper) \<or>
        first_result_differs oper (TVector element_type lanes)) ''MNB112''"

definition valid_vector_splat :: "body_type \<Rightarrow> nat \<Rightarrow> body_operation \<Rightarrow> types \<Rightarrow> code list" where
  "valid_vector_splat element_type lanes oper available =
     complain
       (arity_differs oper 1 \<or> operand_ty oper available 0 \<noteq> Some element_type \<or>
        first_result_differs oper (TVector element_type lanes)) ''MNB113''"

definition valid_vector_extract :: "body_type \<Rightarrow> nat \<Rightarrow> body_operation \<Rightarrow> types \<Rightarrow> code list" where
  "valid_vector_extract element_type lanes oper available =
     complain
       (arity_differs oper 2 \<or> operand_ty oper available 0 \<noteq> Some (TVector element_type lanes) \<or>
        operand_ty oper available 1 \<noteq> Some u64_type \<or> first_result_differs oper element_type) ''MNB114''"

definition valid_vector_replace :: "body_type \<Rightarrow> nat \<Rightarrow> body_operation \<Rightarrow> types \<Rightarrow> code list" where
  "valid_vector_replace element_type lanes oper available =
     complain
       (arity_differs oper 3 \<or> operand_ty oper available 0 \<noteq> Some (TVector element_type lanes) \<or>
        operand_ty oper available 1 \<noteq> Some u64_type \<or> operand_ty oper available 2 \<noteq> Some element_type \<or>
        first_result_differs oper (TVector element_type lanes)) ''MNB115''"

definition is_integer_type :: "body_type \<Rightarrow> bool" where
  "is_integer_type ty = (case ty of TInteger _ \<Rightarrow> True | _ \<Rightarrow> False)"

definition valid_vector_binary :: "string \<Rightarrow> body_type \<Rightarrow> nat \<Rightarrow> body_operation \<Rightarrow> types \<Rightarrow> code list" where
  "valid_vector_binary operator element_type lanes oper available =
     complain
       (\<not> is_integer_type element_type \<or>
        operator \<notin> {''add'', ''sub'', ''mul'', ''and'', ''or'', ''xor'', ''shl'', ''shr'', ''min'', ''max''} \<or>
        arity_differs oper 2 \<or>
        list_ex (\<lambda>x. available x \<noteq> Some (TVector element_type lanes)) (bo_operands oper) \<or>
        first_result_differs oper (TVector element_type lanes)) ''MNB116''"

definition valid_vector_compare :: "string \<Rightarrow> body_type \<Rightarrow> nat \<Rightarrow> body_operation \<Rightarrow> types \<Rightarrow> code list" where
  "valid_vector_compare predicate element_type lanes oper available =
     complain
       (\<not> is_integer_type element_type \<or> \<not> comparison predicate \<or> arity_differs oper 2 \<or>
        list_ex (\<lambda>x. available x \<noteq> Some (TVector element_type lanes)) (bo_operands oper) \<or>
        first_result_differs oper (TMask lanes)) ''MNB117''"

definition valid_mask_binary :: "string \<Rightarrow> nat \<Rightarrow> body_operation \<Rightarrow> types \<Rightarrow> code list" where
  "valid_mask_binary operator lanes oper available =
     complain
       (operator \<notin> {''and'', ''or'', ''xor''} \<or> arity_differs oper 2 \<or>
        list_ex (\<lambda>x. available x \<noteq> Some (TMask lanes)) (bo_operands oper) \<or>
        first_result_differs oper (TMask lanes)) ''MNB118''"

definition valid_mask_not :: "nat \<Rightarrow> body_operation \<Rightarrow> types \<Rightarrow> code list" where
  "valid_mask_not lanes oper available =
     complain
       (arity_differs oper 1 \<or> operand_ty oper available 0 \<noteq> Some (TMask lanes) \<or>
        first_result_differs oper (TMask lanes)) ''MNB119''"

definition valid_mask_reduce :: "string \<Rightarrow> nat \<Rightarrow> body_operation \<Rightarrow> types \<Rightarrow> code list" where
  "valid_mask_reduce operator lanes oper available =
     complain
       (operator \<notin> {''any'', ''all'', ''none''} \<or> arity_differs oper 1 \<or>
        operand_ty oper available 0 \<noteq> Some (TMask lanes) \<or>
        \<not> first_result oper (\<lambda>ty. same_type ty TBool)) ''MNB120''"

definition valid_vector_reduce :: "string \<Rightarrow> body_type \<Rightarrow> nat \<Rightarrow> body_operation \<Rightarrow> types \<Rightarrow> code list" where
  "valid_vector_reduce operator element_type lanes oper available =
     complain
       (operator \<notin> {''sum'', ''min'', ''max''} \<or> arity_differs oper 1 \<or>
        operand_ty oper available 0 \<noteq> Some (TVector element_type lanes) \<or>
        first_result_differs oper element_type) ''MNB121''"


section \<open>Nominal types\<close>

definition declared_finite :: "program \<Rightarrow> semantic_id \<Rightarrow> finite_type option" where
  "declared_finite program identity = find (\<lambda>ft. ft_identity ft = identity) (pg_finite_types program)"

definition declared_variant :: "finite_type option \<Rightarrow> semantic_id \<Rightarrow> nat \<Rightarrow> finite_variant option" where
  "declared_variant ft identity discriminant =
     Option.bind ft (\<lambda>ft. find (\<lambda>var. fv_identity var = identity \<and> fv_discriminant var = discriminant) (ft_variants ft))"

definition declared_record :: "program \<Rightarrow> semantic_id \<Rightarrow> record_type option" where
  "declared_record program identity = find (\<lambda>rt. rt_identity rt = identity) (pg_record_types program)"

definition finite_body_type :: "finite_type \<Rightarrow> body_type" where
  "finite_body_type ft = TFinite (ft_identity ft) (ft_name ft)"

definition record_body_type :: "record_type \<Rightarrow> body_type" where
  "record_body_type rt = TRecord (rt_identity rt) (rt_name rt)"

definition semantic_record_field_type :: "program \<Rightarrow> record_field \<Rightarrow> string option \<Rightarrow> body_type" where
  "semantic_record_field_type program field module =
     (case module of
        None \<Rightarrow> from_program program (rf_type field)
      | Some m \<Rightarrow> from_program_in_module program (rf_type field) m)"

definition valid_finite_construct ::
  "program \<Rightarrow> semantic_id \<Rightarrow> semantic_id \<Rightarrow> nat \<Rightarrow> string list \<Rightarrow> body_operation \<Rightarrow> types \<Rightarrow> code list" where
  "valid_finite_construct program type_identity variant_identity discriminant payload_fields oper available =
     (let ft = declared_finite program type_identity;
          variant = declared_variant ft variant_identity discriminant in
      complain (length (bo_results oper) \<noteq> 1) ''MNB044'' @
      complain (ft = None \<or> variant = None) ''MNB045'' @
      complain (\<not> sorted_wrt (<) payload_fields) ''MNB060'' @
      (case variant of
         Some var \<Rightarrow>
           complain (map rf_name (fv_payload var) \<noteq> payload_fields \<or>
                     length (bo_operands oper) \<noteq> length payload_fields) ''MNB061''
       | None \<Rightarrow> complain (payload_fields \<noteq> [] \<or> bo_operands oper \<noteq> []) ''MNB062'') @
      concat (map (\<lambda>i.
          let expected = Option.bind (if i < length payload_fields then Some (payload_fields ! i) else None)
                (\<lambda>name. Option.bind variant (\<lambda>var.
                   map_option (\<lambda>field. semantic_record_field_type program field
                       (Option.bind ft (\<lambda>item. declaring_module (ft_identity item))))
                     (find (\<lambda>field. rf_name field = name) (fv_payload var))));
              actual = (if bo_results oper = [] then None else available (bo_operands oper ! i))
          in complain (expected \<noteq> None \<and> actual \<noteq> None \<and> expected \<noteq> actual) ''MNB063'')
        [0..<length (bo_operands oper)]) @
      complain (first_result oper (\<lambda>ty. map_option finite_body_type ft \<noteq> Some ty)) ''MNB046'')"

text \<open>The operand of a test or a projection: a missing operand equals a missing declaration.\<close>

definition first_operand_ty :: "body_operation \<Rightarrow> types \<Rightarrow> body_type option" where
  "first_operand_ty oper available = Option.bind (operand oper 0) available"

definition valid_finite_is_variant ::
  "program \<Rightarrow> semantic_id \<Rightarrow> semantic_id \<Rightarrow> nat \<Rightarrow> body_operation \<Rightarrow> types \<Rightarrow> code list" where
  "valid_finite_is_variant program type_identity variant_identity discriminant oper available =
     (let ft = declared_finite program type_identity in
      complain (arity_differs oper 1) ''MNB047'' @
      complain
        (ft = None \<or> declared_variant ft variant_identity discriminant = None \<or>
         first_operand_ty oper available \<noteq> map_option finite_body_type ft \<or>
         first_result oper (\<lambda>ty. \<not> is_boolean ty)) ''MNB048'')"

definition valid_finite_payload_project ::
  "program \<Rightarrow> semantic_id \<Rightarrow> semantic_id \<Rightarrow> nat \<Rightarrow> string \<Rightarrow> body_operation \<Rightarrow> types \<Rightarrow> code list" where
  "valid_finite_payload_project program type_identity variant_identity discriminant field oper available =
     (let ft = declared_finite program type_identity;
          variant = declared_variant ft variant_identity discriminant;
          payload_field = Option.bind variant (\<lambda>var. find (\<lambda>item. rf_name item = field) (fv_payload var)) in
      complain (arity_differs oper 1) ''MNB064'' @
      complain
        (ft = None \<or> variant = None \<or> payload_field = None \<or>
         first_operand_ty oper available \<noteq> map_option finite_body_type ft) ''MNB065'' @
      complain (case payload_field of
          None \<Rightarrow> False
        | Some item \<Rightarrow> first_result oper (\<lambda>ty. semantic_record_field_type program item
              (Option.bind ft (\<lambda>t. declaring_module (ft_identity t))) \<noteq> ty)) ''MNB066'')"

text \<open>The operands of a construction are compared with the declared fields in declaration order,
  although \<open>field_names\<close>, and so the operands, are in sorted order.\<close>

definition valid_record_construct ::
  "program \<Rightarrow> semantic_id \<Rightarrow> string list \<Rightarrow> body_operation \<Rightarrow> types \<Rightarrow> findings" where
  "valid_record_construct program type_identity field_names oper available =
     (let several = complain (length (bo_results oper) \<noteq> 1) ''MNB048'' in
      case declared_record program type_identity of
        None \<Rightarrow> Bail (several @ [''MNB049''])
      | Some rt \<Rightarrow>
          let canonical = sort (map rf_name (rt_fields rt));
              supplied = sort_dedup field_names;
              order = complain (supplied \<noteq> field_names) ''MNB050'' in
          if supplied \<noteq> canonical \<or> length field_names \<noteq> length (bo_operands oper)
          then Bail (several @ order @ [''MNB051''])
          else Proceed
            (several @ order @
             concat (map (\<lambda>(field, x). complain
                 (available x \<noteq> Some (semantic_record_field_type program field (declaring_module (rt_identity rt))))
                 ''MNB052'') (zip (rt_fields rt) (bo_operands oper))) @
             complain (first_result oper (\<lambda>ty. ty \<noteq> record_body_type rt)) ''MNB053''))"

definition valid_record_project :: "program \<Rightarrow> semantic_id \<Rightarrow> string \<Rightarrow> body_operation \<Rightarrow> types \<Rightarrow> findings" where
  "valid_record_project program type_identity field oper available =
     (if arity_differs oper 1 then Bail [''MNB054'']
      else
        case declared_record program type_identity of
          None \<Rightarrow> Bail [''MNB049'']
        | Some rt \<Rightarrow>
            Proceed
              (complain (first_operand_ty oper available \<noteq> Some (record_body_type rt)) ''MNB055'' @
               (case find (\<lambda>item. rf_name item = field) (rt_fields rt) of
                  None \<Rightarrow> [''MNB056'']
                | Some item \<Rightarrow>
                    complain (first_result_differs oper
                        (semantic_record_field_type program item (declaring_module (rt_identity rt)))) ''MNB057'')))"


section \<open>Calls\<close>

definition type_param :: "fn \<Rightarrow> string \<Rightarrow> bool" where
  "type_param f name = list_ex (\<lambda>p. gp_name p = name \<and> gp_kind p = TypeParameter) (fn_generic_params f)"

fun generic_type_references_are_foreign :: "body_type \<Rightarrow> fn \<Rightarrow> bool" where
  "generic_type_references_are_foreign (TGenericParam name) f = (\<not> type_param f name)"
| "generic_type_references_are_foreign (TSequence element _) f = generic_type_references_are_foreign element f"
| "generic_type_references_are_foreign (TVector element _) f = generic_type_references_are_foreign element f"
| "generic_type_references_are_foreign _ f = False"

definition resolve_sequence_element :: "program \<Rightarrow> fn \<Rightarrow> body_type \<Rightarrow> body_type" where
  "resolve_sequence_element program f element =
     (case element of
        TNamed n \<Rightarrow>
          if type_param f n then TGenericParam n
          else (case from_program_in_module program n (identity_namespace f (pg_module program)) of
                  TRecord identity name \<Rightarrow> TRecord identity name
                | TFinite identity name \<Rightarrow> TFinite identity name
                | _ \<Rightarrow> TNamed n)
      | other \<Rightarrow> other)"

definition body_type_for_function_value :: "program \<Rightarrow> fn \<Rightarrow> string \<Rightarrow> body_type" where
  "body_type_for_function_value program f value_type =
     (if type_param f value_type then TGenericParam value_type
      else
        let resolved = from_program_in_module program value_type (identity_namespace f (pg_module program));
            spelled = (case dropWhile is_space value_type of c # _ \<Rightarrow> c = CHR ''['' | [] \<Rightarrow> False);
            base = (case resolved of TSequence _ _ \<Rightarrow> resolved | _ \<Rightarrow> from_semantic_name value_type) in
        case (spelled, base) of
          (True, TSequence element bound) \<Rightarrow> TSequence (resolve_sequence_element program f element) bound
        | _ \<Rightarrow> resolved)"

text \<open>The substitution a call makes for the generic parameters of its callee; of parameters with one
  name the last counts.\<close>

record substitution =
  su_types :: "string \<rightharpoonup> body_type"
  su_values :: "string \<rightharpoonup> nat"
  su_forwarded :: "string \<rightharpoonup> string"

definition add_argument :: "generic_param \<times> generic_arg \<Rightarrow> substitution \<Rightarrow> substitution" where
  "add_argument entry su =
     (case (gp_kind (fst entry), snd entry) of
        (TypeParameter, TypeArg ty) \<Rightarrow> su\<lparr>su_types := (su_types su)(gp_name (fst entry) \<mapsto> ty)\<rparr>
      | (NatParameter, ValueArg v) \<Rightarrow> su\<lparr>su_values := (su_values su)(gp_name (fst entry) \<mapsto> v)\<rparr>
      | (NatParameter, ValueParamArg n) \<Rightarrow> su\<lparr>su_forwarded := (su_forwarded su)(gp_name (fst entry) \<mapsto> n)\<rparr>
      | _ \<Rightarrow> su)"

definition call_substitution :: "fn \<Rightarrow> generic_arg list \<Rightarrow> substitution" where
  "call_substitution target generic_args =
     fold add_argument (zip (fn_generic_params target) generic_args)
       \<lparr>su_types = Map.empty, su_values = Map.empty, su_forwarded = Map.empty\<rparr>"

fun substitute_bound :: "substitution \<Rightarrow> sequence_bound \<Rightarrow> sequence_bound" where
  "substitute_bound su (Exact v) = Exact v"
| "substitute_bound su (UpTo v) = UpTo v"
| "substitute_bound su (Param n) =
     (case su_values su n of
        Some v \<Rightarrow> Exact v
      | None \<Rightarrow> (case su_forwarded su n of Some caller \<Rightarrow> Param caller | None \<Rightarrow> Param n))"
| "substitute_bound su (UpToParam n) =
     (case su_values su n of
        Some v \<Rightarrow> UpTo v
      | None \<Rightarrow> (case su_forwarded su n of Some caller \<Rightarrow> UpToParam caller | None \<Rightarrow> UpToParam n))"

fun substitute_body_type_for_call :: "substitution \<Rightarrow> body_type \<Rightarrow> body_type" where
  "substitute_body_type_for_call su (TGenericParam name) =
     (case su_types su name of Some ty \<Rightarrow> ty | None \<Rightarrow> TGenericParam name)"
| "substitute_body_type_for_call su (TSequence element bound) =
     TSequence (substitute_body_type_for_call su element) (substitute_bound su bound)"
| "substitute_body_type_for_call su (TVector element lanes) =
     TVector (substitute_body_type_for_call su element) lanes"
| "substitute_body_type_for_call su other = other"

definition expected_callee_type :: "program \<Rightarrow> fn \<Rightarrow> generic_arg list \<Rightarrow> named_value \<Rightarrow> body_type" where
  "expected_callee_type program target generic_args v =
     (let base = body_type_for_function_value program target (nv_type v) in
      if generic_args = [] then base
      else substitute_body_type_for_call (call_substitution target generic_args) base)"

definition call_target :: "program \<Rightarrow> semantic_id \<Rightarrow> string \<Rightarrow> fn option" where
  "call_target program identity name =
     (let simple_name = rev (takeWhile (\<lambda>c. c \<noteq> CHR ''.'') (rev name)) in
      find (\<lambda>f. fn_name f = simple_name \<and>
                function_id (identity_namespace f (pg_module program)) (fn_name f) = identity)
        (pg_functions program))"

definition argument_kind_matches :: "fn \<Rightarrow> generic_param \<Rightarrow> generic_arg \<Rightarrow> bool" where
  "argument_kind_matches f param arg =
     (case (gp_kind param, arg) of
        (TypeParameter, TypeArg ty) \<Rightarrow> \<not> generic_type_references_are_foreign ty f
      | (NatParameter, ValueArg _) \<Rightarrow> True
      | (NatParameter, ValueParamArg name) \<Rightarrow>
          list_ex (\<lambda>p. gp_name p = name \<and> gp_kind p = NatParameter) (fn_generic_params f)
      | _ \<Rightarrow> False)"

definition valid_generic_arguments :: "fn \<Rightarrow> fn \<Rightarrow> generic_arg list \<Rightarrow> code list" where
  "valid_generic_arguments f target generic_args =
     (let generic = fn_generic_params target \<noteq> [] in
      (if generic \<and> generic_args = [] then [''MNB075'']
       else if \<not> generic \<and> generic_args \<noteq> [] then [''MNB076''] else []) @
      (if generic
       then complain (length generic_args \<noteq> length (fn_generic_params target)) ''MNB077'' @
            concat (map (\<lambda>(param, arg). complain (\<not> argument_kind_matches f param arg) ''MNB078'')
              (zip (fn_generic_params target) generic_args))
       else []))"

definition effect_key :: "effect \<Rightarrow> string \<times> string \<times> string" where
  "effect_key e = (ef_kind e, ef_target e, ef_capability e)"

definition caller_authorizes :: "fn \<Rightarrow> string list \<Rightarrow> effect list \<Rightarrow> bool" where
  "caller_authorizes f capabilities effects \<longleftrightarrow>
     list_all (\<lambda>capability. capability \<in> set (fn_capabilities f)) capabilities \<and>
     list_all (\<lambda>e. list_ex (\<lambda>caller_effect. ef_kind caller_effect = ef_kind e \<and> ef_capability caller_effect = ef_capability e)
       (fn_effects f)) effects"

definition passes_as :: "body_type \<Rightarrow> body_type \<Rightarrow> bool" where
  "passes_as actual expected \<longleftrightarrow> same_type actual expected \<or> body_view_widening actual expected"

definition valid_call ::
  "program \<Rightarrow> fn \<Rightarrow> semantic_id \<Rightarrow> string \<Rightarrow> string list \<Rightarrow> effect list \<Rightarrow> generic_arg list \<Rightarrow>
   body_operation \<Rightarrow> types \<Rightarrow> code list" where
  "valid_call program f identity name capabilities effects generic_args oper available =
     (case call_target program identity name of
        None \<Rightarrow> [''MNB049'']
      | Some target \<Rightarrow>
          valid_generic_arguments f target generic_args @
          complain (length (bo_operands oper) \<noteq> length (fn_inputs target) \<or>
                    length (bo_results oper) \<noteq> length (fn_outputs target)) ''MNB050'' @
          concat (map (\<lambda>(x, input). complain
              (\<not> has_type available (\<lambda>actual. passes_as actual (expected_callee_type program target generic_args input)) x)
              ''MNB051'') (zip (bo_operands oper) (fn_inputs target))) @
          concat (map (\<lambda>(r, out). complain
              (\<not> same_type (bv_ty r) (expected_callee_type program target generic_args out)) ''MNB052'')
            (zip (bo_results oper) (fn_outputs target))) @
          complain
            (sort capabilities \<noteq> sort (fn_capabilities target) \<or>
             sort_key effect_key effects \<noteq> sort_key effect_key (fn_effects target) \<or>
             \<not> caller_authorizes f capabilities effects) ''MNB053'')"

definition valid_effect :: "fn \<Rightarrow> effect \<Rightarrow> string \<Rightarrow> body_operation \<Rightarrow> code list" where
  "valid_effect f eff capability oper =
     complain (bo_results oper \<noteq> [] \<or> bo_operands oper \<noteq> []) ''MNB019'' @
     complain (capability \<noteq> ef_capability eff \<or> capability \<notin> set (fn_capabilities f)) ''MNB020'' @
     complain (eff \<notin> set (fn_effects f)) ''MNB021''"

definition blank :: "string \<Rightarrow> bool" where
  "blank s \<longleftrightarrow> trim s = []"

definition valid_runtime_check :: "semantic_id \<Rightarrow> semantic_id \<Rightarrow> code list" where
  "valid_runtime_check obligation fact_identity = complain (blank obligation \<or> blank fact_identity) ''MNB022''"


section \<open>Metadata\<close>

text \<open>\<open>!set.insert(x)\<close> over a list: an element with its earlier companions.\<close>

definition with_earlier :: "'a list \<Rightarrow> ('a list \<times> 'a) list" where
  "with_earlier xs = map (\<lambda>i. (take i xs, xs ! i)) [0..<length xs]"

definition valid_intent_subjects :: "intent_subject list \<Rightarrow> code \<Rightarrow> code list" where
  "valid_intent_subjects subjects code =
     concat (map (\<lambda>(earlier, item). complain
         (blank (is_identity item) \<or> is_identity item \<in> is_identity ` {e \<in> set earlier. \<not> blank (is_identity e)} \<or>
          blank (is_subject item)) code) (with_earlier subjects))"

definition supported_body_schema :: "string \<Rightarrow> bool" where
  "supported_body_schema version \<longleftrightarrow> version = ''0.3'' \<or> version = ''0.2''"

definition validate_metadata :: "program \<Rightarrow> fn \<Rightarrow> body_operation \<Rightarrow> code list" where
  "validate_metadata program f oper =
     concat (map (\<lambda>contract. complain (contract \<notin> set (fn_contracts f)) ''MNB023'') (bo_contracts oper)) @
     concat (map (\<lambda>assumption. complain
         (assumption \<notin> set (pg_assumptions program) \<or> assumption \<notin> set (fn_assumptions f)) ''MNB024'')
       (bo_assumptions oper)) @
     (case bo_machine_intent oper of
        None \<Rightarrow> []
      | Some intent \<Rightarrow>
          complain (blank (mis_identity intent)) ''MNB025'' @
          valid_intent_subjects (mis_requirements intent) ''MNB026'' @
          valid_intent_subjects (mis_obligations intent) ''MNB027'') @
     (case bo_lowering oper of
        None \<Rightarrow> []
      | Some lowering \<Rightarrow>
          complain (\<not> supported_body_schema (le_schema lowering)) ''MNB028'' @
          complain (le_realizations lowering = [] \<and> le_fallback lowering = None) ''MNB029'') @
     (case bo_portability oper of
        None \<Rightarrow> []
      | Some portability \<Rightarrow>
          complain (\<not> supported_body_schema (pe_schema portability)) ''MNB030'' @
          complain (0 \<in> set (pe_integer_widths portability)) ''MNB031'')"


section \<open>One operation\<close>

fun validate_kind :: "program \<Rightarrow> fn \<Rightarrow> operation_kind \<Rightarrow> body_operation \<Rightarrow> types \<Rightarrow> findings" where
  "validate_kind program f (Constant _ ty) oper available = Proceed (valid_constant ty oper)"
| "validate_kind program f (Integer operator ty intent) oper available =
     Proceed (valid_integer operator ty intent oper available)"
| "validate_kind program f (IntegerCompare predicate ty) oper available =
     Proceed (valid_integer_compare predicate ty oper available)"
| "validate_kind program f (FloatConstant _ ty) oper available = Proceed (valid_float_constant ty oper)"
| "validate_kind program f (Float operator) oper available = Proceed (valid_float operator oper available)"
| "validate_kind program f (FloatCompare predicate) oper available = Proceed (valid_float_compare predicate oper available)"
| "validate_kind program f (FloatIntrinsic intrinsic) oper available =
     Proceed (valid_float_intrinsic intrinsic oper available)"
| "validate_kind program f (BooleanOp operator) oper available = Proceed (valid_boolean_op operator oper available)"
| "validate_kind program f (BooleanCompare predicate) oper available =
     Proceed (valid_boolean_compare predicate oper available)"
| "validate_kind program f BooleanNot oper available = Proceed (valid_boolean_not oper available)"
| "validate_kind program f (ByteBitwise operator) oper available = Proceed (valid_byte_bitwise operator oper available)"
| "validate_kind program f (ByteShift operator) oper available = Proceed (valid_byte_shift operator oper available)"
| "validate_kind program f (ByteCompare predicate) oper available = Proceed (valid_byte_compare predicate oper available)"
| "validate_kind program f (Convert source target) oper available = Proceed (valid_convert source target oper available)"
| "validate_kind program f (SequenceConstruct ty len) oper available =
     Proceed (valid_sequence_construct ty len oper available)"
| "validate_kind program f (SequenceProject bound _) oper available = Proceed (valid_sequence_project bound oper available)"
| "validate_kind program f (Select ty) oper available = valid_select ty oper available"
| "validate_kind program f (SequenceReplace ty bound _) oper available =
     Proceed (valid_sequence_replace ty bound oper available)"
| "validate_kind program f (BoundCheck _) oper available = valid_bound_check oper available"
| "validate_kind program f (SequenceCopy ty dst_bound src_bound _) oper available =
     Proceed (valid_sequence_copy ty dst_bound src_bound oper available)"
| "validate_kind program f (VectorConstruct ty lanes) oper available = Proceed (valid_vector_construct ty lanes oper available)"
| "validate_kind program f (VectorSplat ty lanes) oper available = Proceed (valid_vector_splat ty lanes oper available)"
| "validate_kind program f (VectorExtract ty lanes _) oper available = Proceed (valid_vector_extract ty lanes oper available)"
| "validate_kind program f (VectorReplace ty lanes _) oper available = Proceed (valid_vector_replace ty lanes oper available)"
| "validate_kind program f (VectorBinary operator ty lanes _) oper available =
     Proceed (valid_vector_binary operator ty lanes oper available)"
| "validate_kind program f (VectorCompare predicate ty lanes) oper available =
     Proceed (valid_vector_compare predicate ty lanes oper available)"
| "validate_kind program f (MaskBinary operator lanes) oper available =
     Proceed (valid_mask_binary operator lanes oper available)"
| "validate_kind program f (MaskNot lanes) oper available = Proceed (valid_mask_not lanes oper available)"
| "validate_kind program f (MaskReduce operator lanes) oper available =
     Proceed (valid_mask_reduce operator lanes oper available)"
| "validate_kind program f (VectorReduce operator ty lanes _) oper available =
     Proceed (valid_vector_reduce operator ty lanes oper available)"
| "validate_kind program f (SequenceLength _) oper available = valid_sequence_length oper"
| "validate_kind program f (ViewConstruct source_bound view_bound) oper available =
     valid_view_construct source_bound view_bound oper available"
| "validate_kind program f (ViewNarrow source_cap new_cap) oper available = valid_view_narrow source_cap new_cap oper available"
| "validate_kind program f (FiniteConstruct t var d payload_fields) oper available =
     Proceed (valid_finite_construct program t var d payload_fields oper available)"
| "validate_kind program f (FiniteIsVariant t var d) oper available =
     Proceed (valid_finite_is_variant program t var d oper available)"
| "validate_kind program f (FinitePayloadProject t var d field) oper available =
     Proceed (valid_finite_payload_project program t var d field oper available)"
| "validate_kind program f (RecordConstruct t field_names) oper available =
     valid_record_construct program t field_names oper available"
| "validate_kind program f (RecordProject t field) oper available = valid_record_project program t field oper available"
| "validate_kind program f (Call identity name capabilities effects generic_args) oper available =
     Proceed (valid_call program f identity name capabilities effects generic_args oper available)"
| "validate_kind program f (Effect eff capability) oper available = Proceed (valid_effect f eff capability oper)"
| "validate_kind program f (RuntimeCheck obligation fact_identity _) oper available =
     Proceed (valid_runtime_check obligation fact_identity)"

definition validate_operation :: "program \<Rightarrow> fn \<Rightarrow> body_operation \<Rightarrow> types \<Rightarrow> code list" where
  "validate_operation program f oper available =
     (case validate_kind program f (bo_kind oper) oper available of
        Bail codes \<Rightarrow> codes
      | Proceed codes \<Rightarrow> codes @ validate_metadata program f oper)"


section \<open>Terminators\<close>

definition check_terminator_values :: "string list \<Rightarrow> types \<Rightarrow> code list" where
  "check_terminator_values vs available = concat (map (\<lambda>x. complain (available x = None) ''MNB032'') vs)"

definition check_target :: "string \<Rightarrow> string set \<Rightarrow> code list" where
  "check_target target ids = complain (target \<notin> ids) ''MNB034''"

definition validate_block_arguments ::
  "string \<Rightarrow> string list \<Rightarrow> types \<Rightarrow> (string \<rightharpoonup> body_value list) \<Rightarrow> code list" where
  "validate_block_arguments target arguments available block_parameters =
     (case block_parameters target of
        None \<Rightarrow> []
      | Some params \<Rightarrow>
          complain (length params \<noteq> length arguments) ''MNB012'' @
          concat (map (\<lambda>(param, x). complain (available x \<noteq> Some (bv_ty param)) ''MNB037'') (zip params arguments)))"

definition validate_terminator ::
  "body_terminator \<Rightarrow> types \<Rightarrow> string set \<Rightarrow> (string \<rightharpoonup> body_value list) \<Rightarrow> code list" where
  "validate_terminator terminator available ids block_parameters =
     (case terminator of
        Failure _ \<Rightarrow> []
      | Return vs \<Rightarrow> check_terminator_values vs available
      | Branch target arguments \<Rightarrow>
          check_target target ids @ check_terminator_values arguments available @
          validate_block_arguments target arguments available block_parameters
      | ConditionalBranch condition then_target then_arguments else_target else_arguments \<Rightarrow>
          complain (\<not> has_type available is_boolean condition) ''MNB033'' @
          check_target then_target ids @ check_target else_target ids @
          check_terminator_values then_arguments available @ check_terminator_values else_arguments available @
          validate_block_arguments then_target then_arguments available block_parameters @
          validate_block_arguments else_target else_arguments available block_parameters)"

definition validate_return_types :: "body_terminator \<Rightarrow> program \<Rightarrow> fn \<Rightarrow> types \<Rightarrow> code list" where
  "validate_return_types terminator program f available =
     (case terminator of
        Return vs \<Rightarrow>
          if length vs \<noteq> length (fn_outputs f) then [''MNB035'']
          else concat (map (\<lambda>(x, out). complain
              (\<not> has_type available (\<lambda>actual. passes_as actual (body_type_for_function_value program f (nv_type out))) x)
              ''MNB036'') (zip vs (fn_outputs f)))
      | _ \<Rightarrow> [])"


section \<open>Resolved types\<close>

fun operation_types :: "operation_kind \<Rightarrow> body_type list" where
  "operation_types (Constant _ ty) = [ty]"
| "operation_types (Select ty) = [ty]"
| "operation_types (SequenceReplace ty _ _) = [ty]"
| "operation_types (SequenceCopy ty _ _ _) = [ty]"
| "operation_types (VectorConstruct ty _) = [ty]"
| "operation_types (VectorSplat ty _) = [ty]"
| "operation_types (VectorExtract ty _ _) = [ty]"
| "operation_types (VectorReplace ty _ _) = [ty]"
| "operation_types (VectorBinary _ ty _ _) = [ty]"
| "operation_types (VectorCompare _ ty _) = [ty]"
| "operation_types (VectorReduce _ ty _ _) = [ty]"
| "operation_types (SequenceConstruct ty _) = [ty]"
| "operation_types (Convert source target) = [source, target]"
| "operation_types (Call _ _ _ _ generic_args) =
     concat (map (\<lambda>arg. case arg of TypeArg ty \<Rightarrow> [ty] | _ \<Rightarrow> []) generic_args)"
| "operation_types _ = []"

definition validate_no_unresolved_named :: "function_body \<Rightarrow> code list" where
  "validate_no_unresolved_named body =
     concat (map (\<lambda>ty. complain (has_unresolved_named ty) ''MNB122'')
       (map bp_ty (fb_parameters body) @ map bi_state_type (fb_bounded_iterations body) @
        concat (map (\<lambda>block. map bv_ty (bb_parameters block) @
            concat (map (\<lambda>oper. map bv_ty (bo_results oper) @ operation_types (bo_kind oper)) (bb_operations block)))
          (fb_blocks body))))"


section \<open>Bounded iterations\<close>

definition max_iteration_bound :: nat where
  "max_iteration_bound = 1024"

definition valid_cycles :: "function_body \<Rightarrow> cfg \<Rightarrow> code list" where
  "valid_cycles body cfg =
     (if fb_cycle_policy body \<noteq> BoundedIterationOnly then []
      else concat (map (\<lambda>block. concat (map (\<lambda>target. complain
          (dominates cfg target (cb_id block) \<and>
           (cb_id block, target) \<notin> set (map (\<lambda>it. (bi_backedge it, bi_header it)) (fb_bounded_iterations body)))
          ''MNB060'') (cb_successors block))) (cfg_blocks cfg)))"

definition valid_iteration_domain :: "bounded_iteration \<Rightarrow> code list" where
  "valid_iteration_domain it =
     (case bi_domain it of
        Attempts \<Rightarrow> complain (\<not> (1 \<le> bi_bound it \<and> bi_bound it \<le> max_iteration_bound)) ''MNB062''
      | OverSequence element_type \<Rightarrow>
          complain (max_sequence_bound < bi_bound it) ''MNB100'' @
          complain (has_unresolved_named element_type) ''MNB101'')"

definition malformed_carried_state :: "bounded_iteration \<Rightarrow> body_block \<Rightarrow> body_block \<Rightarrow> bool" where
  "malformed_carried_state it header exit_block \<longleftrightarrow>
     length (bb_parameters header) \<noteq> 2 \<or>
     bv_id (bb_parameters header ! 0) \<noteq> bi_header_state it \<or>
     bv_ty (bb_parameters header ! 0) \<noteq> bi_state_type it \<or>
     bv_id (bb_parameters header ! 1) \<noteq> bi_header_counter it \<or>
     bv_ty (bb_parameters header ! 1) \<noteq> u64_type \<or>
     length (bb_parameters exit_block) \<noteq> 1 \<or>
     bv_id (bb_parameters exit_block ! 0) \<noteq> bi_exit_state it \<or>
     bv_ty (bb_parameters exit_block ! 0) \<noteq> bi_state_type it"

definition first_block :: "function_body \<Rightarrow> string \<Rightarrow> body_block option" where
  "first_block body identity = find (\<lambda>block. bb_id block = identity) (fb_blocks body)"

definition valid_iteration :: "function_body \<Rightarrow> fn \<Rightarrow> cfg \<Rightarrow> bounded_iteration \<Rightarrow> code list" where
  "valid_iteration body f cfg it =
     valid_iteration_domain it @
     (if list_ex (\<lambda>i. find_block cfg i = None)
           [bi_preheader it, bi_header it, bi_body_entry it, bi_backedge it, bi_exit it]
      then [''MNB063'']
      else
        case (first_block body (bi_header it), first_block body (bi_exit it)) of
          (Some header, Some exit_block) \<Rightarrow>
            complain (malformed_carried_state it header exit_block) ''MNB064'' @
            complain (case find_block cfg (bi_backedge it) of
                None \<Rightarrow> True | Some block \<Rightarrow> cb_successors block \<noteq> [bi_header it]) ''MNB065'' @
            complain (\<not> set (bi_required_capabilities it) \<subseteq> set (fn_capabilities f)) ''MNB066'' @
            complain (Exhausted \<notin> set (bi_completion_modes it) \<or> EarlyReturn \<notin> set (bi_completion_modes it)) ''MNB067''
        | _ \<Rightarrow> [])"

definition validate_bounded_iterations :: "function_body \<Rightarrow> fn \<Rightarrow> cfg \<Rightarrow> code list" where
  "validate_bounded_iterations body f cfg =
     valid_cycles body cfg @
     concat (map (\<lambda>(earlier, it).
         complain (blank (bi_id it) \<or> bi_id it \<in> bi_id ` {e \<in> set earlier. \<not> blank (bi_id e)}) ''MNB061'' @
         valid_iteration body f cfg it) (with_earlier (fb_bounded_iterations body)))"


section \<open>Bodies\<close>

text \<open>The parameters are compared with the inputs of the function; of the identities each binds the
  later type.\<close>

definition validate_parameters :: "program \<Rightarrow> fn \<Rightarrow> function_body \<Rightarrow> code list" where
  "validate_parameters program f body =
     complain (length (fb_parameters body) \<noteq> length (fn_inputs f)) ''MNB002'' @
     concat (map (\<lambda>(i, earlier, p).
         complain (blank (bp_id p) \<or> blank (bp_name p)) ''MNB003'' @
         complain (bp_id p \<in> bp_id ` set earlier) ''MNB004'' @
         (if i < length (fn_inputs f)
          then complain (bp_name p \<noteq> nv_name (fn_inputs f ! i) \<or>
              \<not> same_type (bp_ty p) (body_type_for_function_value program f (nv_type (fn_inputs f ! i)))) ''MNB005''
          else []))
       (zip [0..<length (fb_parameters body)] (with_earlier (fb_parameters body))))"

text \<open>The definitions of a body: each identity with its block, which a parameter has not, and its
  type.  Inserting an identity again is a diagnostic.\<close>

type_synonym definitions = "string \<rightharpoonup> string option \<times> body_type"

definition insert_definition :: "code \<Rightarrow> string \<Rightarrow> body_value \<Rightarrow> code list \<times> definitions \<Rightarrow> code list \<times> definitions" where
  "insert_definition code block v state =
     (fst state @ complain (snd state (bv_id v) \<noteq> None) code, (snd state)(bv_id v \<mapsto> (Some block, bv_ty v)))"

definition block_definitions :: "body_block \<Rightarrow> code list \<times> definitions \<Rightarrow> code list \<times> definitions" where
  "block_definitions block state =
     fold (insert_definition ''MNB011'' (bb_id block)) (concat (map bo_results (bb_operations block)))
       (fold (insert_definition ''MNB008'' (bb_id block)) (bb_parameters block) state)"

definition parameter_definitions :: "function_body \<Rightarrow> definitions" where
  "parameter_definitions body =
     fold (\<lambda>p m. m(bp_id p \<mapsto> (None, bp_ty p))) (fb_parameters body) Map.empty"

definition body_definitions :: "function_body \<Rightarrow> code list \<times> definitions" where
  "body_definitions body = fold block_definitions (fb_blocks body) ([], parameter_definitions body)"

definition bind_values :: "body_value list \<Rightarrow> types \<Rightarrow> types" where
  "bind_values vs available = fold (\<lambda>v m. m(bv_id v \<mapsto> bv_ty v)) vs available"

text \<open>What is defined at the start of a block: the parameters of the body and of the block, and what
  another block defines that dominates it.\<close>

definition available_at :: "function_body \<Rightarrow> cfg \<Rightarrow> definitions \<Rightarrow> body_block \<Rightarrow> types" where
  "available_at body cfg defs block =
     (\<lambda>x. case defs x of
        Some (Some dfn, ty) \<Rightarrow>
          if dfn \<noteq> bb_id block \<and> dominates cfg dfn (bb_id block) then Some ty
          else bind_values (bb_parameters block) (map_option snd \<circ> parameter_definitions body) x
      | _ \<Rightarrow> bind_values (bb_parameters block) (map_option snd \<circ> parameter_definitions body) x)"

text \<open>Operation identities are unique in the whole body: \<open>earlier\<close> are those seen so far.\<close>

fun validate_operations ::
  "program \<Rightarrow> fn \<Rightarrow> body_operation list \<Rightarrow> string set \<Rightarrow> types \<Rightarrow> code list \<times> string set \<times> types" where
  "validate_operations program f [] earlier available = ([], earlier, available)"
| "validate_operations program f (oper # opers) earlier available =
     (let own =
            complain (blank (bo_id oper) \<or> bo_id oper \<in> earlier) ''MNB009'' @
            each_operand oper (\<lambda>x. available x = None) ''MNB010'' @
            validate_operation program f oper available;
          (rest, earlier', available') =
            validate_operations program f opers
              (if blank (bo_id oper) then earlier else insert (bo_id oper) earlier)
              (bind_values (bo_results oper) available)
      in (own @ rest, earlier', available'))"

definition validate_block ::
  "program \<Rightarrow> fn \<Rightarrow> function_body \<Rightarrow> cfg \<Rightarrow> definitions \<Rightarrow> body_block \<Rightarrow> string set \<Rightarrow> code list \<times> string set" where
  "validate_block program f body cfg defs block earlier =
     (let (codes, earlier', available) =
            validate_operations program f (bb_operations block) earlier (available_at body cfg defs block)
      in (codes @
          validate_terminator (bb_terminator block) available (block_ids body)
            (map_option bb_parameters \<circ> block_map body) @
          validate_return_types (bb_terminator block) program f available, earlier'))"

fun validate_blocks ::
  "program \<Rightarrow> fn \<Rightarrow> function_body \<Rightarrow> cfg \<Rightarrow> definitions \<Rightarrow> body_block list \<Rightarrow> string set \<Rightarrow> code list" where
  "validate_blocks program f body cfg defs [] earlier = []"
| "validate_blocks program f body cfg defs (block # blocks) earlier =
     (let (codes, earlier') = validate_block program f body cfg defs block earlier
      in codes @ validate_blocks program f body cfg defs blocks earlier')"

text \<open>\<open>FunctionBody::validate\<close>; the construction of the graph may not return as far as its definition
  goes, so the codes are optional.\<close>

definition validate_body ::
  "(semantic_id \<times> string \<times> cfg_block list \<times> string list \<Rightarrow> string) \<Rightarrow> program \<Rightarrow> fn \<Rightarrow> function_body \<Rightarrow>
   code list option" where
  "validate_body digest program f body =
     (case from_body digest body (body_id (identity_namespace f (pg_module program)) (fn_name f)) of
        None \<Rightarrow> None
      | Some cfg \<Rightarrow>
          Some
            (complain (\<not> supported_body_schema (fb_schema body)) ''MNB001'' @
             validate_no_unresolved_named body @
             validate_parameters program f body @
             complain (blank (fb_entry body) \<or> fb_entry body \<notin> block_ids body) ''MNB006'' @
             complain (card (block_ids body) \<noteq> length (fb_blocks body)) ''MNB007'' @
             concat (map (\<lambda>_. [''MNB038'']) (cfg_unreachable cfg)) @
             validate_bounded_iterations body f cfg @
             fst (body_definitions body) @
             validate_blocks program f body cfg (snd (body_definitions body)) (fb_blocks body) {}))"

end
