(* ===== verification/Value_Match.thy ===== *)
theory Value_Match
  imports Type_Names
begin

text \<open>
  When a value is a value of a type, from \<open>crates/mncs-model/src/execution.rs\<close>:
  \<open>value_matches_type\<close> with the nominal types of the program, and \<open>normalize_value\<close>, which
  brings an argument into the interpreter's representation.
\<close>

section \<open>Matching\<close>

definition nominal_identity_matches :: "semantic_id \<Rightarrow> string \<Rightarrow> semantic_id \<Rightarrow> bool" where
  "nominal_identity_matches identity name actual \<longleftrightarrow> actual = identity \<or> actual = name"

definition find_finite :: "program \<Rightarrow> semantic_id \<Rightarrow> finite_type option" where
  "find_finite program identity =
     find (\<lambda>ft. nominal_identity_matches (ft_identity ft) (ft_name ft) identity) (pg_finite_types program)"

definition find_variant :: "finite_type \<Rightarrow> semantic_id \<Rightarrow> finite_variant option" where
  "find_variant ft identity =
     find (\<lambda>var. nominal_identity_matches (fv_identity var) (fv_name var) identity) (ft_variants ft)"

definition find_record_decl :: "program \<Rightarrow> semantic_id \<Rightarrow> record_type option" where
  "find_record_decl program identity =
     find (\<lambda>rt. nominal_identity_matches (rt_identity rt) (rt_name rt) identity) (pg_record_types program)"

definition valid_finite_value :: "program \<Rightarrow> semantic_id \<Rightarrow> semantic_id \<Rightarrow> nat \<Rightarrow> bool" where
  "valid_finite_value program type_identity variant_identity discriminant =
     (case find_finite program type_identity of
        None \<Rightarrow> False
      | Some ft \<Rightarrow>
          list_ex (\<lambda>var. nominal_identity_matches (fv_identity var) (fv_name var) variant_identity \<and>
                         fv_discriminant var = discriminant) (ft_variants ft))"

definition or_default :: "string option \<Rightarrow> string" where
  "or_default x = (case x of None \<Rightarrow> [] | Some s \<Rightarrow> s)"

text \<open>The recursion through the fields of an aggregate: each received field stands for the check of
  its value against a type.\<close>

definition value_matches_named_type :: "program \<Rightarrow> (body_type \<Rightarrow> bool) \<Rightarrow> string \<Rightarrow> string \<Rightarrow> bool" where
  "value_matches_named_type program matches name module =
     (case from_program_in_module program name module of TNamed _ \<Rightarrow> False | derived \<Rightarrow> matches derived)"

definition fields_match ::
  "program \<Rightarrow> string \<Rightarrow> record_field list \<Rightarrow> string \<Rightarrow> (string \<times> (body_type \<Rightarrow> bool)) list \<Rightarrow> bool" where
  "fields_match program ctxt declared module received =
     (case order_fields_by_name ctxt (map rf_name declared) received of
        Inl _ \<Rightarrow> False
      | Inr order \<Rightarrow>
          list_all (\<lambda>(field, index). value_matches_named_type program (snd (received ! index)) (rf_type field) module)
            (zip declared order))"

definition record_fields_match ::
  "program \<Rightarrow> semantic_id \<Rightarrow> (string \<times> (body_type \<Rightarrow> bool)) list \<Rightarrow> bool" where
  "record_fields_match program identity received =
     (case find_record_decl program identity of
        None \<Rightarrow> False
      | Some dcl \<Rightarrow>
          fields_match program (''record '' @ rt_name dcl) (rt_fields dcl)
            (or_default (declaring_module (rt_identity dcl))) received)"

definition finite_payload_matches ::
  "program \<Rightarrow> semantic_id \<Rightarrow> semantic_id \<Rightarrow> (string \<times> (body_type \<Rightarrow> bool)) list \<Rightarrow> bool" where
  "finite_payload_matches program type_identity variant_identity received =
     (case do { ft \<leftarrow> find_finite program type_identity; var \<leftarrow> find_variant ft variant_identity; Some (ft, var) } of
        None \<Rightarrow> received = []
      | Some (ft, var) \<Rightarrow>
          fields_match program (''finite payload '' @ variant_identity) (fv_payload var)
            (or_default (declaring_module (ft_identity ft))) received)"

fun value_matches_type :: "program \<Rightarrow> execution_value \<Rightarrow> body_type \<Rightarrow> bool" where
  "value_matches_type program (VInteger v actual) ty =
     (case ty of TInteger expected \<Rightarrow> actual = expected \<and> in_range v expected | _ \<Rightarrow> False)"
| "value_matches_type program (VBoolean _) ty =
     (case ty of
        TBool \<Rightarrow> True
      | TNamed name \<Rightarrow> name = ''bool''
      | TInteger integer \<Rightarrow> ty_bits integer = 1 \<and> \<not> ty_signed integer
      | _ \<Rightarrow> False)"
| "value_matches_type program (VByte v) ty = (case ty of TByte \<Rightarrow> byte_domain v | _ \<Rightarrow> False)"
| "value_matches_type program (VSequence vs) ty =
     (case ty of
        TSequence element (Exact len) \<Rightarrow>
          length vs = len \<and> list_all (\<lambda>v. value_matches_type program v element) vs
      | TSequence element (UpTo capacity) \<Rightarrow>
          length vs \<le> capacity \<and> list_all (\<lambda>v. value_matches_type program v element) vs
      | _ \<Rightarrow> False)"
| "value_matches_type program (VFinite type_identity variant_identity discriminant payload) ty =
     (case ty of
        TFinite identity name \<Rightarrow>
          nominal_identity_matches identity name type_identity \<and>
          valid_finite_value program identity variant_identity discriminant \<and>
          finite_payload_matches program identity variant_identity
            (map (\<lambda>(n, v). (n, value_matches_type program v)) payload)
      | _ \<Rightarrow> False)"
| "value_matches_type program (VRecord type_identity _ fs) ty =
     (case ty of
        TRecord identity name \<Rightarrow>
          nominal_identity_matches identity name type_identity \<and>
          record_fields_match program identity (map (\<lambda>(n, v). (n, value_matches_type program v)) fs)
      | _ \<Rightarrow> False)"
| "value_matches_type program (VVector vs) ty =
     (case ty of
        TVector element lanes \<Rightarrow> length vs = lanes \<and> list_all (\<lambda>v. value_matches_type program v element) vs
      | _ \<Rightarrow> False)"
| "value_matches_type program (VMask bits) ty = (case ty of TMask lanes \<Rightarrow> length bits = lanes | _ \<Rightarrow> False)"
| "value_matches_type program (VFloat _ actual) ty = (case ty of TFloat expected \<Rightarrow> actual = expected | _ \<Rightarrow> False)"

abbreviation checks :: "program \<Rightarrow> (string \<times> execution_value) list \<Rightarrow> (string \<times> (body_type \<Rightarrow> bool)) list" where
  "checks program fs \<equiv> map (\<lambda>(n, v). (n, value_matches_type program v)) fs"


section \<open>Normal form\<close>

fun normalize_value :: "program \<Rightarrow> execution_value \<Rightarrow> body_type \<Rightarrow> execution_value option" where
  "normalize_value program (VInteger v actual) ty =
     (case ty of
        TInteger expected \<Rightarrow>
          if actual = expected \<and> in_range v expected
          then if ty_bits expected = 1 \<and> \<not> ty_signed expected then Some (VBoolean (v = 1))
               else Some (VInteger v actual)
          else None
      | _ \<Rightarrow> None)"
| "normalize_value program (VBoolean b) ty =
     (case ty of
        TBool \<Rightarrow> Some (VBoolean b)
      | TNamed name \<Rightarrow> if name = ''bool'' then Some (VBoolean b) else None
      | TInteger integer \<Rightarrow>
          if ty_bits integer = 1 \<and> \<not> ty_signed integer then Some (VBoolean b) else None
      | _ \<Rightarrow> None)"
| "normalize_value program (VFinite type_identity variant_identity discriminant payload) ty =
     (case ty of
        TFinite identity _ \<Rightarrow>
          if type_identity = identity \<and>
             valid_finite_value program type_identity variant_identity discriminant \<and>
             finite_payload_matches program type_identity variant_identity (checks program payload)
          then Some (VFinite type_identity variant_identity discriminant payload) else None
      | _ \<Rightarrow> None)"
| "normalize_value program (VRecord type_identity name fs) ty =
     (case ty of
        TRecord identity _ \<Rightarrow>
          if type_identity = identity \<and> record_fields_match program type_identity (checks program fs)
          then Some (VRecord type_identity name fs) else None
      | _ \<Rightarrow> None)"
| "normalize_value program (VByte v) ty =
     (case ty of TByte \<Rightarrow> if byte_domain v then Some (VByte v) else None | _ \<Rightarrow> None)"
| "normalize_value program (VFloat bits actual) ty =
     (case ty of TFloat expected \<Rightarrow> if actual = expected then Some (VFloat bits actual) else None | _ \<Rightarrow> None)"
| "normalize_value program (VSequence vs) ty =
     (case ty of
        TSequence element (Exact len) \<Rightarrow>
          if length vs = len
          then map_option VSequence (collect_options (map (\<lambda>v. normalize_value program v element) vs)) else None
      | TSequence element (UpTo capacity) \<Rightarrow>
          if length vs \<le> capacity
          then map_option VSequence (collect_options (map (\<lambda>v. normalize_value program v element) vs)) else None
      | _ \<Rightarrow> None)"
| "normalize_value program (VVector vs) ty =
     (case ty of
        TVector element lanes \<Rightarrow>
          if length vs = lanes
          then map_option VVector (collect_options (map (\<lambda>v. normalize_value program v element) vs)) else None
      | _ \<Rightarrow> None)"
| "normalize_value program (VMask bits) ty =
     (case ty of TMask lanes \<Rightarrow> if length bits = lanes then Some (VMask bits) else None | _ \<Rightarrow> None)"



section \<open>Matching by name\<close>

text \<open>A field's type, resolved where its aggregate was declared; an unresolved name matches nothing.\<close>

definition field_type_in :: "program \<Rightarrow> string \<Rightarrow> record_field \<Rightarrow> body_type option" where
  "field_type_in program module field =
     (case from_program_in_module program (rf_type field) module of TNamed _ \<Rightarrow> None | derived \<Rightarrow> Some derived)"

lemma value_matches_named_type_iff:
  "value_matches_named_type program matches (rf_type field) module \<longleftrightarrow>
     (\<exists>ty. field_type_in program module field = Some ty \<and> matches ty)"
  by (auto simp: value_matches_named_type_def field_type_in_def split: body_type.splits)

lemma fields_match_iff:
  "fields_match program ctxt declared module received \<longleftrightarrow>
     distinct (map fst received) \<and> set (map fst received) = rf_name ` set declared \<and>
     (\<forall>field\<in>set declared. \<exists>matches. map_of received (rf_name field) = Some matches \<and>
        (\<exists>ty. field_type_in program module field = Some ty \<and> matches ty))"
proof (cases "order_fields_by_name ctxt (map rf_name declared) received")
  case (Inl e)
  then have "\<not> (distinct (map fst received) \<and> set (map fst received) = set (map rf_name declared))"
    using order_accepts [of received "map rf_name declared" ctxt] by auto
  then show ?thesis unfolding fields_match_def Inl by auto
next
  case (Inr order)
  note acc = order_accepted [OF Inr]
  have found: "map_of received (rf_name (declared ! k)) = Some (snd (received ! (order ! k)))"
    if "k < length declared" for k
  proof -
    from that acc(4) have "order ! k < length received" "fst (received ! (order ! k)) = rf_name (declared ! k)" by auto
    then show ?thesis by (metis acc(1) map_of_is_SomeI nth_mem prod.collapse)
  qed
  have "fields_match program ctxt declared module received \<longleftrightarrow>
      (\<forall>k<length declared. value_matches_named_type program (snd (received ! (order ! k))) (rf_type (declared ! k)) module)"
    using acc(3) by (simp add: fields_match_def Inr list_all_length)
  also have "\<dots> \<longleftrightarrow> (\<forall>k<length declared. \<exists>matches. map_of received (rf_name (declared ! k)) = Some matches \<and>
        (\<exists>ty. field_type_in program module (declared ! k) = Some ty \<and> matches ty))"
    using found by (simp add: value_matches_named_type_iff)
  also have "\<dots> \<longleftrightarrow> (\<forall>field\<in>set declared. \<exists>matches. map_of received (rf_name field) = Some matches \<and>
        (\<exists>ty. field_type_in program module field = Some ty \<and> matches ty))"
    by (simp add: all_set_conv_all_nth)
  finally show ?thesis using acc(1,2) by simp
qed

lemma map_of_checks: "map_of (checks program fs) n = map_option (value_matches_type program) (map_of fs n)"
  by (induction fs) auto

lemma names_checks: "map fst (checks program fs) = map fst fs"
  by (induction fs) auto

lemma fields_match_checks:
  "fields_match program ctxt declared module (checks program fs) \<longleftrightarrow>
     distinct (map fst fs) \<and> fst ` set fs = rf_name ` set declared \<and>
     (\<forall>field\<in>set declared. \<exists>v ty. map_of fs (rf_name field) = Some v \<and>
        field_type_in program module field = Some ty \<and> value_matches_type program v ty)"
  unfolding fields_match_iff names_checks map_of_checks by auto

text \<open>Property C15.  A record value is a value of a nominal record type exactly when it names the type
  by its identity or its short name, its fields are the declared ones, each once and in any order,
  and each value matches the type its field's spelling resolves to in the module that declares the
  record; a field whose type stays unresolved matches nothing.\<close>

theorem record_match_exact:
  "value_matches_type program (VRecord type_identity shown fs) (TRecord identity name) \<longleftrightarrow>
     (type_identity = identity \<or> type_identity = name) \<and>
     (\<exists>dcl. find_record_decl program identity = Some dcl \<and>
        distinct (map fst fs) \<and> fst ` set fs = rf_name ` set (rt_fields dcl) \<and>
        (\<forall>field\<in>set (rt_fields dcl). \<exists>v ty. map_of fs (rf_name field) = Some v \<and>
           field_type_in program (or_default (declaring_module (rt_identity dcl))) field = Some ty \<and>
           value_matches_type program v ty))"
  by (auto simp: record_fields_match_def fields_match_checks nominal_identity_matches_def split: option.splits)


theorem record_match_exact_witness:
  "value_matches_type twin_records (VRecord ''Entry'' ''Entry'' []) (TRecord ''mncs:0.2:record-type:b::Entry'' ''Entry'')"
  unfolding record_match_exact
  by (simp add: find_record_decl_def twin_records_def nominal_identity_matches_def)


section \<open>Normal form\<close>

lemma normalize_list:
  assumes "collect_options (map f vs) = Some ws" and "\<And>v w. v \<in> set vs \<Longrightarrow> f v = Some w \<Longrightarrow> p v \<and> p w \<and> f w = Some w"
  shows "length ws = length vs \<and> list_all p vs \<and> list_all p ws \<and> collect_options (map f ws) = Some ws"
proof -
  from assms(1) have f: "map f vs = map Some ws" by (simp add: collect_options_Some)
  then have len: "length ws = length vs" by (rule map_eq_imp_length_eq [symmetric])
  have "p (vs ! k) \<and> p (ws ! k) \<and> f (ws ! k) = Some (ws ! k)" if k: "k < length vs" for k
  proof (rule assms(2))
    show "vs ! k \<in> set vs" using k by simp
    show "f (vs ! k) = Some (ws ! k)" using f k len by (metis nth_map)
  qed
  then show ?thesis
    using len by (auto simp: list_all_length collect_options_Some intro!: nth_equalityI simp del: map_eq_conv)
qed

lemma normalize_value_settles:
  "normalize_value program v ty = Some w \<Longrightarrow>
     value_matches_type program v ty \<and> value_matches_type program w ty \<and> normalize_value program w ty = Some w"
proof (induction program v ty arbitrary: w rule: normalize_value.induct)
  case (7 program vs ty)
  then obtain element bound where ty: "ty = TSequence element bound" by (cases ty) auto
  have element: "value_matches_type program v element \<and> value_matches_type program w element \<and>
      normalize_value program w element = Some w"
    if "v \<in> set vs" "normalize_value program v element = Some w" for v w
  proof (cases bound)
    case (Exact len)
    with 7(3) have "length vs = len" by (simp add: ty split: if_splits)
    from 7(1) [OF ty Exact this that] show ?thesis .
  next
    case (UpTo capacity)
    with 7(3) have "length vs \<le> capacity" by (simp add: ty split: if_splits)
    from 7(2) [OF ty UpTo this that] show ?thesis .
  qed (use 7(3) ty in simp_all)
  from 7(3) obtain ws where ws: "collect_options (map (\<lambda>v. normalize_value program v element) vs) = Some ws" "w = VSequence ws"
    by (auto simp: ty split: sequence_bound.splits if_splits)
  have "length ws = length vs \<and> list_all (\<lambda>v. value_matches_type program v element) vs \<and>
      list_all (\<lambda>v. value_matches_type program v element) ws \<and>
      collect_options (map (\<lambda>v. normalize_value program v element) ws) = Some ws"
    using ws(1) by (rule normalize_list) (rule element)
  with 7(3) show ?case by (auto simp: ty ws(2) split: sequence_bound.splits if_splits)
next
  case (8 program vs ty)
  then obtain element lanes where ty: "ty = TVector element lanes" by (cases ty) auto
  have element: "value_matches_type program v element \<and> value_matches_type program w element \<and>
      normalize_value program w element = Some w"
    if "v \<in> set vs" "normalize_value program v element = Some w" for v w
    using 8(1) [OF ty _ that] 8(2) by (simp add: ty split: if_splits)
  from 8(2) obtain ws where ws: "collect_options (map (\<lambda>v. normalize_value program v element) vs) = Some ws" "w = VVector ws"
    by (auto simp: ty split: if_splits)
  have "length ws = length vs \<and> list_all (\<lambda>v. value_matches_type program v element) vs \<and>
      list_all (\<lambda>v. value_matches_type program v element) ws \<and>
      collect_options (map (\<lambda>v. normalize_value program v element) ws) = Some ws"
    using ws(1) by (rule normalize_list) (rule element)
  with 8(2) show ?case by (auto simp: ty ws(2) split: if_splits)
qed (auto simp: nominal_identity_matches_def split: body_type.splits if_splits)


text \<open>Property C16.  Normalisation is sound and settles: a value it accepts matches the type, and so
  does the normal form, which normalises to itself.\<close>

theorem normalize_value_sound:
  "normalize_value program v ty = Some w \<Longrightarrow>
     value_matches_type program v ty \<and> value_matches_type program w ty \<and> normalize_value program w ty = Some w"
  by (rule normalize_value_settles)

theorem normalize_value_sound_witness:
  "let bit = TInteger \<lparr>ty_bits = 1, ty_signed = False\<rparr>;
       v = VSequence [VInteger 1 \<lparr>ty_bits = 1, ty_signed = False\<rparr>] in
   value_matches_type twin_records v (TSequence bit (UpTo 3)) \<and>
   value_matches_type twin_records (VSequence [VBoolean True]) (TSequence bit (UpTo 3)) \<and>
   normalize_value twin_records (VSequence [VBoolean True]) (TSequence bit (UpTo 3)) = Some (VSequence [VBoolean True])"
  unfolding Let_def
  by (rule normalize_value_sound) (simp add: in_range_iff valid_bits_def fits_def)


text \<open>A value that names its record by the short name passes the check of an argument but has no normal
  form, so a request carrying it is refused after it was validated.\<close>

lemma name_spelled_argument:
  "value_matches_type twin_records (VRecord ''Entry'' ''Entry'' []) (TRecord ''mncs:0.2:record-type:b::Entry'' ''Entry'')"
  "normalize_value twin_records (VRecord ''Entry'' ''Entry'' []) (TRecord ''mncs:0.2:record-type:b::Entry'' ''Entry'') = None"
proof -
  have "find_record_decl twin_records ''mncs:0.2:record-type:b::Entry'' =
      Some \<lparr>rt_identity = ''mncs:0.2:record-type:b::Entry'', rt_name = ''Entry'', rt_fields = []\<rparr>"
    by (simp add: find_record_decl_def twin_records_def nominal_identity_matches_def)
  then show "value_matches_type twin_records (VRecord ''Entry'' ''Entry'' []) (TRecord ''mncs:0.2:record-type:b::Entry'' ''Entry'')"
    by (simp add: record_fields_match_def fields_match_checks nominal_identity_matches_def fields_match_iff)
qed simp

end
