(* ===== verification/Float64.thy ===== *)
theory Float64
  imports Exec_Scalar
begin

text \<open>
  IEEE-754 binary64 as the program uses it: the operations of Rust's \<open>f64\<close> on the bit patterns
  of \<open>ExecutionValue::Float\<close>, and on top of them \<open>evaluate_float\<close>, \<open>compare_floats\<close> and the
  float conversions of \<open>crates/mncs-model/src/execution.rs\<close>.

  A finite bit pattern denotes \<open>m * 2 ^ e\<close> with an integer \<open>m\<close>.  The arithmetic operations
  compute the exact result as a fraction and round it to nearest, ties to even; a result that
  overflows is \<open>None\<close>, which stands for every non-finite outcome, since the program treats
  infinities and NaNs alike.  \<open>sin\<close> and \<open>cos\<close> come from the platform's mathematical library and
  are parameters of the interpreter.
\<close>

section \<open>Bit patterns\<close>

definition sign_bit :: "nat \<Rightarrow> bool" where
  "sign_bit bits \<longleftrightarrow> bits div 2 ^ 63 mod 2 = 1"

definition exponent_field :: "nat \<Rightarrow> nat" where
  "exponent_field bits = bits div 2 ^ 52 mod 2048"

definition fraction_field :: "nat \<Rightarrow> nat" where
  "fraction_field bits = bits mod 2 ^ 52"

definition is_finite :: "nat \<Rightarrow> bool" where
  "is_finite bits \<longleftrightarrow> exponent_field bits \<noteq> 2047"

text \<open>Magnitude and exponent of a finite pattern: subnormal numbers have no implicit digit.\<close>

definition magnitude :: "nat \<Rightarrow> nat" where
  "magnitude bits =
     (if exponent_field bits = 0 then fraction_field bits else 2 ^ 52 + fraction_field bits)"

definition exponent :: "nat \<Rightarrow> int" where
  "exponent bits = int (max 1 (exponent_field bits)) - 1075"

definition significand :: "nat \<Rightarrow> int" where
  "significand bits = (if sign_bit bits then - int (magnitude bits) else int (magnitude bits))"


section \<open>Rounding\<close>

fun bit_len :: "nat \<Rightarrow> nat" where
  "bit_len n = (if n = 0 then 0 else Suc (bit_len (n div 2)))"

declare bit_len.simps [simp del]

text \<open>The fraction \<open>num / den * 2 ^ e\<close> as a fraction of naturals.\<close>

definition scale :: "nat \<Rightarrow> nat \<Rightarrow> int \<Rightarrow> nat \<times> nat" where
  "scale num den e = (if 0 \<le> e then (num * 2 ^ nat e, den) else (num, den * 2 ^ nat (- e)))"

definition round_even :: "nat \<Rightarrow> nat \<Rightarrow> nat" where
  "round_even num den =
     (let q = num div den; r = num mod den in
      if den < 2 * r \<or> (2 * r = den \<and> odd q) then q + 1 else q)"

text \<open>The exponent of the last digit of the rounded result: 53 digits, but never below the
  subnormal exponent.\<close>

definition target_exponent :: "nat \<Rightarrow> nat \<Rightarrow> int" where
  "target_exponent num den =
     (let k = int (bit_len num) - int (bit_len den);
          (n, d) = scale num den (- k);
          log = (if d \<le> n then k else k - 1)
      in max (log - 52) (- 1074))"

definition round_pos :: "nat \<Rightarrow> nat \<Rightarrow> nat option" where
  "round_pos num den =
     (if num = 0 then Some 0
      else
        let e = target_exponent num den;
            (n, d) = scale num den (- e);
            q = round_even n d;
            biased = nat (e + 1074)
        in if q < 2 ^ 52 then Some q
           else
             let pattern = biased * 2 ^ 52 + q in
             if 2047 * 2 ^ 52 \<le> pattern then None else Some pattern)"

definition with_sign :: "bool \<Rightarrow> nat \<Rightarrow> nat" where
  "with_sign negative pattern = (if negative then 2 ^ 63 + pattern else pattern)"

definition round_signed :: "bool \<Rightarrow> nat \<Rightarrow> nat \<Rightarrow> nat option" where
  "round_signed negative num den = map_option (with_sign negative) (round_pos num den)"


section \<open>Arithmetic\<close>

text \<open>The exact sum is brought to the common exponent; an exact zero is negative only when both
  operands are.\<close>

definition add_bits :: "nat \<Rightarrow> nat \<Rightarrow> nat option" where
  "add_bits l r =
     (let e = min (exponent l) (exponent r);
          s = significand l * 2 ^ nat (exponent l - e) + significand r * 2 ^ nat (exponent r - e);
          negative = (if s = 0 then sign_bit l \<and> sign_bit r else s < 0);
          (n, d) = scale (nat \<bar>s\<bar>) 1 e
      in round_signed negative n d)"

definition neg_bits :: "nat \<Rightarrow> nat" where
  "neg_bits bits = (if sign_bit bits then bits - 2 ^ 63 else bits + 2 ^ 63)"

definition sub_bits :: "nat \<Rightarrow> nat \<Rightarrow> nat option" where
  "sub_bits l r = add_bits l (neg_bits r)"

definition mul_bits :: "nat \<Rightarrow> nat \<Rightarrow> nat option" where
  "mul_bits l r =
     (let (n, d) = scale (magnitude l * magnitude r) 1 (exponent l + exponent r)
      in round_signed (sign_bit l \<noteq> sign_bit r) n d)"

definition div_bits :: "nat \<Rightarrow> nat \<Rightarrow> nat option" where
  "div_bits l r =
     (if magnitude r = 0 then None
      else let (n, d) = scale (magnitude l) (magnitude r) (exponent l - exponent r)
           in round_signed (sign_bit l \<noteq> sign_bit r) n d)"

definition evaluate_float :: "string \<Rightarrow> nat \<Rightarrow> nat \<Rightarrow> nat option" where
  "evaluate_float operator left right =
     (if \<not> is_finite left \<or> \<not> is_finite right then None
      else if operator = ''add'' then add_bits left right
      else if operator = ''sub'' then sub_bits left right
      else if operator = ''mul'' then mul_bits left right
      else if operator = ''div'' then div_bits left right
      else None)"

text \<open>The order of finite patterns is the order of the numbers they denote; the two zeros are
  equal.\<close>

definition aligned :: "nat \<Rightarrow> nat \<Rightarrow> int \<times> int" where
  "aligned l r =
     (let e = min (exponent l) (exponent r)
      in (significand l * 2 ^ nat (exponent l - e), significand r * 2 ^ nat (exponent r - e)))"

definition compare_floats :: "string \<Rightarrow> nat \<Rightarrow> nat \<Rightarrow> bool option" where
  "compare_floats predicate left right =
     (if \<not> is_finite left \<or> \<not> is_finite right then None
      else case aligned left right of (l, r) \<Rightarrow> compare_order predicate l r)"


section \<open>Conversions\<close>

text \<open>\<open>value as f64\<close>, and \<open>trunc\<close> of a finite pattern.\<close>

definition int_to_bits :: "int \<Rightarrow> nat option" where
  "int_to_bits v = round_signed (v < 0) (nat \<bar>v\<bar>) 1"

definition trunc_bits :: "nat \<Rightarrow> int" where
  "trunc_bits bits =
     (let whole = (if 0 \<le> exponent bits then int (magnitude bits) * 2 ^ nat (exponent bits)
                   else int (magnitude bits) div 2 ^ nat (- exponent bits))
      in if sign_bit bits then - whole else whole)"

definition float_f64 :: float_type where
  "float_f64 = \<lparr>float_bits = 64\<rparr>"

text \<open>\<open>integer_domain_bounds\<close>: the bounds are exact powers of two; the upper one is exclusive.  (For
  a signed width of zero they are minus and plus one half, which admit zero alone.)  The cast to
  \<open>i128\<close> saturates.\<close>

definition integer_domain_bounds :: "nat \<Rightarrow> bool \<Rightarrow> int \<times> int" where
  "integer_domain_bounds bits sgnd =
     (if sgnd then (if bits = 0 then (0, 1) else (- (2 ^ (bits - 1)), 2 ^ (bits - 1))) else (0, 2 ^ bits))"

definition saturate_i128 :: "int \<Rightarrow> int" where
  "saturate_i128 v = min (2 ^ 127 - 1) (max (- (2 ^ 127)) v)"

datatype conversion_failure = ConvUnsupported | ConvTrap

definition from_bits :: "nat option \<Rightarrow> float_type \<Rightarrow> conversion_failure + execution_value" where
  "from_bits bits ty = (case bits of None \<Rightarrow> Inl ConvTrap | Some b \<Rightarrow> Inr (VFloat b ty))"

definition convert_float_edge ::
  "execution_value \<Rightarrow> body_type \<Rightarrow> body_type \<Rightarrow> conversion_failure + execution_value" where
  "convert_float_edge operand_value source target =
     (case (operand_value, source, target) of
        (VInteger v _, TInteger _, TFloat ty) \<Rightarrow>
          if float_is_supported ty then from_bits (int_to_bits v) ty else Inl ConvUnsupported
      | (VByte v, TByte, TFloat ty) \<Rightarrow>
          if float_is_supported ty then from_bits (int_to_bits v) ty else Inl ConvUnsupported
      | (VBoolean b, TBool, TFloat ty) \<Rightarrow>
          if float_is_supported ty then from_bits (int_to_bits (of_bool b)) ty else Inl ConvUnsupported
      | (VBoolean b, TNamed name, TFloat ty) \<Rightarrow>
          if name = ''bool'' \<and> float_is_supported ty then from_bits (int_to_bits (of_bool b)) ty
          else Inl ConvUnsupported
      | (VFloat bits _, TFloat _, TFloat ty) \<Rightarrow>
          if float_is_supported ty then Inr (VFloat bits ty) else Inl ConvUnsupported
      | (VFloat bits _, TFloat _, TInteger ty) \<Rightarrow>
          if \<not> is_finite bits then Inl ConvTrap
          else
            let truncated = trunc_bits bits; (lo, hi) = integer_domain_bounds (ty_bits ty) (ty_signed ty) in
            if truncated < lo \<or> hi \<le> truncated then Inl ConvTrap else Inr (VInteger (saturate_i128 truncated) ty)
      | (VFloat bits _, TFloat _, TByte) \<Rightarrow>
          if \<not> is_finite bits then Inl ConvTrap
          else
            let truncated = trunc_bits bits in
            if truncated < 0 \<or> 256 \<le> truncated then Inl ConvTrap else Inr (VByte truncated)
      | _ \<Rightarrow> Inl ConvUnsupported)"

definition is_float_type :: "body_type \<Rightarrow> bool" where
  "is_float_type ty = (case ty of TFloat _ \<Rightarrow> True | _ \<Rightarrow> False)"

definition convert_scalar_value ::
  "execution_value \<Rightarrow> body_type \<Rightarrow> body_type \<Rightarrow> conversion_failure + execution_value" where
  "convert_scalar_value operand_value source target =
     (if is_float_type source \<or> is_float_type target then convert_float_edge operand_value source target
      else case convert_scalar_inner operand_value source target of
             None \<Rightarrow> Inl ConvUnsupported
           | Some v \<Rightarrow> Inr v)"


section \<open>Properties\<close>

lemma is_finite_pattern:
  "pattern < 2047 * 2 ^ 52 \<Longrightarrow> is_finite (with_sign negative pattern) \<and> with_sign negative pattern < 2 ^ 64"
proof -
  assume p: "pattern < 2047 * 2 ^ 52"
  then have "pattern div 2 ^ 52 < 2047" by (simp add: less_mult_imp_div_less)
  moreover have "(2 ^ 63 + pattern) div 2 ^ 52 = 2048 + pattern div (2 ^ 52 :: nat)" by simp
  ultimately show ?thesis
    using p by (auto simp: is_finite_def exponent_field_def with_sign_def)
qed

lemma round_pos_finite: "round_pos num den = Some pattern \<Longrightarrow> pattern < 2047 * 2 ^ 52"
  by (auto simp: round_pos_def Let_def split: if_splits prod.splits)

lemma round_signed_finite:
  "round_signed negative num den = Some bits \<Longrightarrow> is_finite bits \<and> bits < 2 ^ 64"
  by (auto simp: round_signed_def simp del: power_numeral dest!: round_pos_finite
      intro!: is_finite_pattern [THEN conjunct1] is_finite_pattern [THEN conjunct2])

lemma evaluate_float_finite: "evaluate_float op l r = Some bits \<Longrightarrow> is_finite bits \<and> bits < 2 ^ 64"
  by (auto simp: evaluate_float_def add_bits_def sub_bits_def mul_bits_def div_bits_def Let_def
      split: if_splits prod.splits dest: round_signed_finite)

lemma bit_len_bounds: "0 < n \<Longrightarrow> 2 ^ (bit_len n - 1) \<le> n \<and> n < 2 ^ bit_len n \<and> 0 < bit_len n"
proof (induction n rule: bit_len.induct)
  case (1 n)
  show ?case
  proof (cases "n = 1")
    case True
    then show ?thesis by (simp add: bit_len.simps)
  next
    case False
    with 1 have half: "0 < n div 2" by simp
    with 1 have ih: "2 ^ (bit_len (n div 2) - 1) \<le> n div 2" "n div 2 < 2 ^ bit_len (n div 2)" "0 < bit_len (n div 2)"
      by simp_all
    have len: "bit_len n = Suc (bit_len (n div 2))" using 1 by (subst bit_len.simps) simp
    obtain l where l: "bit_len (n div 2) = Suc l" using ih(3) by (cases "bit_len (n div 2)") simp_all
    moreover have "2 * (n div 2) \<le> n" "n \<le> 2 * (n div 2) + 1" by simp_all
    moreover have "(2 :: nat) ^ Suc l = 2 * 2 ^ l" by simp
    ultimately have "2 ^ Suc l \<le> n \<and> n < 2 * 2 ^ Suc l" using ih by (simp only: l diff_Suc_1) linarith
    then show ?thesis by (simp add: len l)
  qed
qed

text \<open>An integer of at most 53 digits is rounded to itself.\<close>

lemma target_exponent_int:
  assumes "0 < v" "v < 2 ^ 53"
  shows "target_exponent v 1 = int (bit_len v) - 53" "bit_len v \<le> 53"
proof -
  have one: "bit_len (Suc 0) = 1" by (simp add: bit_len.simps)
  have v: "2 ^ (bit_len v - 1) \<le> v" "0 < bit_len v" using bit_len_bounds [OF assms(1)] by simp_all
  show le: "bit_len v \<le> 53"
  proof (rule ccontr)
    assume "\<not> bit_len v \<le> 53"
    then have "(2 :: nat) ^ 53 \<le> 2 ^ (bit_len v - 1)" by (intro power_increasing) simp_all
    with v assms show False by linarith
  qed
  from v le show "target_exponent v 1 = int (bit_len v) - 53"
    by (auto simp: target_exponent_def one scale_def Let_def nat_diff_distrib)
qed

lemma round_pos_int:
  assumes "0 < v" "v < 2 ^ 53"
  shows "round_pos v 1 = Some ((bit_len v + 1021) * 2 ^ 52 + v * 2 ^ (53 - bit_len v))"
    and "2 ^ 52 \<le> v * 2 ^ (53 - bit_len v)" and "v * 2 ^ (53 - bit_len v) < 2 ^ 53"
proof -
  have v: "2 ^ (bit_len v - 1) \<le> v" "v < 2 ^ bit_len v" "0 < bit_len v"
    using bit_len_bounds [OF assms(1)] by simp_all
  have len: "bit_len v \<le> 53" by (rule target_exponent_int [OF assms])
  define q where "q = v * 2 ^ (53 - bit_len v)"
  have "2 ^ (bit_len v - 1) * 2 ^ (53 - bit_len v) = (2 :: nat) ^ 52"
    using v(3) len by (simp flip: power_add)
  then show lo: "2 ^ 52 \<le> v * 2 ^ (53 - bit_len v)" using v(1) by (metis mult_le_mono1)
  have "2 ^ bit_len v * 2 ^ (53 - bit_len v) = (2 :: nat) ^ 53"
    using len by (simp flip: power_add)
  then show hi: "v * 2 ^ (53 - bit_len v) < 2 ^ 53" using v(2) by (metis mult_less_mono1 zero_less_numeral zero_less_power)
  have e: "nat (1021 + int (bit_len v)) = bit_len v + 1021" "nat (53 - int (bit_len v)) = 53 - bit_len v"
    using len by simp_all
  have "round_even q 1 = q" by (simp add: round_even_def)
  moreover have "(bit_len v + 1021) * 2 ^ 52 + q < 2047 * 2 ^ 52" using len hi by (simp add: q_def)
  moreover have "scale v 1 (53 - int (bit_len v)) = (q, 1)" using len by (simp add: scale_def e q_def)
  ultimately show "round_pos v 1 = Some ((bit_len v + 1021) * 2 ^ 52 + v * 2 ^ (53 - bit_len v))"
    using assms(1) lo len
    by (simp add: round_pos_def target_exponent_int(1) [OF assms, simplified One_nat_def] Let_def e flip: q_def)
qed

lemma decode_pattern:
  assumes "e < 2046" "2 ^ 52 \<le> q" "q < 2 ^ 53"
  shows "exponent (with_sign negative (e * 2 ^ 52 + q)) = int e - 1074"
    and "magnitude (with_sign negative (e * 2 ^ 52 + q)) = q"
    and "sign_bit (with_sign negative (e * 2 ^ 52 + q)) = negative"
proof -
  define f where "f = q - 2 ^ 52"
  then have f: "f < 2 ^ 52" "q = 2 ^ 52 + f" using assms by simp_all
  define s where "s = (if negative then 2048 else 0 :: nat)"
  have pattern: "with_sign negative (e * 2 ^ 52 + q) = (s + (e + 1)) * 2 ^ 52 + f"
    by (simp add: with_sign_def s_def f(2))
  have field: "(t * 2 ^ 52 + f) div 2 ^ 52 = t" "(t * 2 ^ 52 + f) mod 2 ^ 52 = f" for t
    using f(1) by simp_all
  have modulo: "(s + (e + 1)) mod 2048 = (e + 1) mod 2048"
    unfolding s_def by (cases negative) (simp_all only: if_True if_False mod_add_self1 add_0)
  have quotient: "(s + (e + 1)) div 2 ^ 11 = s div 2048"
    using assms(1) unfolding s_def by (cases negative) (simp_all add: div_add_self1 [of 2048 "e + 1", simplified])
  have sign: "((s + (e + 1)) * 2 ^ 52 + f) div 2 ^ 63 = (s + (e + 1)) div 2 ^ 11"
    using div_mult2_eq [of "(s + (e + 1)) * 2 ^ 52 + f" "2 ^ 52" "2 ^ 11"] unfolding field by simp
  have ef: "exponent_field ((s + (e + 1)) * 2 ^ 52 + f) = e + 1"
    unfolding exponent_field_def field modulo using assms by simp
  then show "exponent (with_sign negative (e * 2 ^ 52 + q)) = int e - 1074"
    unfolding pattern exponent_def ef by simp
  show "magnitude (with_sign negative (e * 2 ^ 52 + q)) = q"
    unfolding pattern magnitude_def ef fraction_field_def field by (simp add: f(2))
  show "sign_bit (with_sign negative (e * 2 ^ 52 + q)) = negative"
    unfolding pattern sign_bit_def sign quotient by (simp add: s_def)
qed

lemma trunc_int_to_bits:
  assumes "\<bar>v\<bar> < 2 ^ 53"
  shows "\<exists>bits. int_to_bits v = Some bits \<and> is_finite bits \<and> trunc_bits bits = v"
proof (cases "v = 0")
  case True
  then show ?thesis
    by (simp add: int_to_bits_def round_signed_def round_pos_def with_sign_def is_finite_def
        exponent_field_def trunc_bits_def exponent_def magnitude_def fraction_field_def sign_bit_def)
next
  case False
  define n where "n = nat \<bar>v\<bar>"
  have n: "0 < n" "n < 2 ^ 53" using assms False by (simp_all add: n_def nat_less_iff)
  define L where "L = bit_len n"
  have L: "L \<le> 53" "0 < L" using target_exponent_int(2) [OF n] bit_len_bounds [OF n(1)] by (simp_all add: L_def)
  define q where "q = n * 2 ^ (53 - L)"
  note r = round_pos_int [OF n, folded L_def, folded q_def]
  define bits where "bits = with_sign (v < 0) ((L + 1021) * 2 ^ 52 + q)"
  have bits: "int_to_bits v = Some bits"
    by (simp only: int_to_bits_def round_signed_def r(1) option.map bits_def flip: n_def)
  have d: "exponent bits = int L - 53" "magnitude bits = q" "sign_bit bits = (v < 0)"
    using decode_pattern [of "L + 1021" q "v < 0"] L r(2,3) by (simp_all add: bits_def)
  have "q div 2 ^ (53 - L) = n" by (simp add: q_def)
  then have whole: "int q div 2 ^ (53 - L) = int n" by (metis of_nat_numeral of_nat_power zdiv_int)
  have "trunc_bits bits = (if v < 0 then - int n else int n)"
  proof (cases "L = 53")
    case True
    then show ?thesis by (simp add: trunc_bits_def d q_def)
  next
    case False
    with L have "nat (53 - int L) = 53 - L" "\<not> 0 \<le> int L - 53" by simp_all
    then show ?thesis by (simp add: trunc_bits_def d whole)
  qed
  moreover have "is_finite bits"
    using bits by (auto simp: int_to_bits_def dest: round_signed_finite)
  ultimately show ?thesis using bits by (auto simp: n_def)
qed

text \<open>A conversion of a float to an integer type traps or yields a value of that type.\<close>

lemma integer_domain_bounds_fits:
  "valid_bits bits \<Longrightarrow>
     fst (integer_domain_bounds bits sgnd) \<le> v \<and> v < snd (integer_domain_bounds bits sgnd) \<longleftrightarrow> fits bits sgnd v"
  by (simp add: integer_domain_bounds_def fits_def valid_bits_def)

lemma saturate_fits: "valid_bits bits \<Longrightarrow> fits bits sgnd v \<Longrightarrow> saturate_i128 v = v"
proof -
  assume bits: "valid_bits bits" and v: "fits bits sgnd v"
  have "(2 :: int) ^ (bits - 1) \<le> 2 ^ 127" "(2 :: int) ^ bits \<le> 2 ^ 127"
    using bits by (auto intro!: power_increasing simp: valid_bits_def simp del: power_numeral)
  moreover have "- (2 ^ (bits - 1)) \<le> v \<and> v < 2 ^ (bits - 1) \<or> 0 \<le> v \<and> v < 2 ^ bits"
    using v by (simp add: fits_def split: if_splits)
  ultimately have "- (2 ^ 127) \<le> v" "v < 2 ^ 127" by linarith+
  then show ?thesis by (simp add: saturate_i128_def)
qed

lemma convert_float_to_integer:
  "convert_float_edge (VFloat bits fty) (TFloat sty) (TInteger ty) =
     (if is_finite bits \<and> fst (integer_domain_bounds (ty_bits ty) (ty_signed ty)) \<le> trunc_bits bits \<and>
         trunc_bits bits < snd (integer_domain_bounds (ty_bits ty) (ty_signed ty))
      then Inr (VInteger (saturate_i128 (trunc_bits bits)) ty) else Inl ConvTrap)"
  by (auto simp: convert_float_edge_def Let_def split: prod.splits)

text \<open>Property C21.  Converting an integer of at most 53 bits of magnitude to binary64 is exact: the
  conversion succeeds, and converting the result back to the integer's type returns the integer.\<close>

theorem float_conversion_roundtrip:
  assumes "\<bar>v\<bar> < 2 ^ 53" and "in_range v ity"
  shows "\<exists>bits. convert_scalar_value (VInteger v ity) (TInteger ity) (TFloat float_f64) = Inr (VFloat bits float_f64) \<and>
    convert_scalar_value (VFloat bits float_f64) (TFloat float_f64) (TInteger ity) = Inr (VInteger v ity)"
proof -
  obtain bits where bits: "int_to_bits v = Some bits" "is_finite bits" "trunc_bits bits = v"
    using trunc_int_to_bits [OF assms(1)] by blast
  have v: "valid_bits (ty_bits ity)" "fits_type ity v" using assms(2) by (simp_all add: in_range_iff)
  then have "convert_scalar_value (VFloat bits float_f64) (TFloat float_f64) (TInteger ity) = Inr (VInteger v ity)"
    using integer_domain_bounds_fits [OF v(1), of "ty_signed ity" v] saturate_fits [OF v]
    by (simp add: convert_scalar_value_def is_float_type_def convert_float_to_integer bits)
  moreover have "convert_scalar_value (VInteger v ity) (TInteger ity) (TFloat float_f64) = Inr (VFloat bits float_f64)"
    by (simp add: convert_scalar_value_def is_float_type_def convert_float_edge_def float_is_supported_def
        float_f64_def from_bits_def bits)
  ultimately show ?thesis by blast
qed

theorem float_conversion_roundtrip_witness:
  "\<exists>bits. convert_scalar_value (VInteger (-7) \<lparr>ty_bits = 8, ty_signed = True\<rparr>)
       (TInteger \<lparr>ty_bits = 8, ty_signed = True\<rparr>) (TFloat float_f64) = Inr (VFloat bits float_f64) \<and>
     convert_scalar_value (VFloat bits float_f64) (TFloat float_f64) (TInteger \<lparr>ty_bits = 8, ty_signed = True\<rparr>) =
       Inr (VInteger (-7) \<lparr>ty_bits = 8, ty_signed = True\<rparr>)"
  by (rule float_conversion_roundtrip) (simp_all add: in_range_iff valid_bits_def fits_def)

end
