(* ===== verification/Body_Ops.thy ===== *)
theory Body_Ops
  imports Value_Match Float64
begin

text \<open>
  What each operation of a body computes, from \<open>execute_operation\<close> of
  \<open>crates/mncs-model/src/execution.rs\<close>: one definition per arm, in the order of the source.
  Calls and effects, which touch the state of the run, are in \<open>Interp\<close>.

  An arm yields the value to store under the operation's first result, or nothing to store, or
  the status it fails with (the reason text is not modelled), or a panic of the Rust code: an
  index out of range, for a malformed operation or value.
\<close>

datatype execution_status = Returned | RuntimeFailure | Unsupported | BudgetExhausted | InvalidRequest

datatype op_outcome = Store execution_value | Skip | Fail execution_status | Panic

type_synonym env = "string \<rightharpoonup> execution_value"

text \<open>The mathematical library of the platform.\<close>

record float_library =
  sin_bits :: "nat \<Rightarrow> nat"
  cos_bits :: "nat \<Rightarrow> nat"


section \<open>Operands\<close>

text \<open>The lookups built on \<open>operands.get(i)\<close>.\<close>

definition operand_value :: "body_operation \<Rightarrow> env \<Rightarrow> nat \<Rightarrow> execution_value option" where
  "operand_value oper vals i = Option.bind (operand oper i) vals"

text \<open>\<open>values.get(operands.get(i).unwrap_or(&String::new()))\<close>: a missing operand looks up the empty
  name.\<close>

definition operand_or_empty :: "body_operation \<Rightarrow> env \<Rightarrow> nat \<Rightarrow> execution_value option" where
  "operand_or_empty oper vals i = vals (case operand oper i of None \<Rightarrow> [] | Some x \<Rightarrow> x)"

definition pair_operands ::
  "(execution_value \<Rightarrow> 'a option) \<Rightarrow> (execution_value \<Rightarrow> 'b option) \<Rightarrow> body_operation \<Rightarrow> env \<Rightarrow> ('a \<times> 'b) option" where
  "pair_operands get_left get_right oper vals =
     (case bo_operands oper of
        [left, right] \<Rightarrow>
          do { l \<leftarrow> vals left; lv \<leftarrow> get_left l; r \<leftarrow> vals right; rv \<leftarrow> get_right r; Some (lv, rv) }
      | _ \<Rightarrow> None)"

fun the_boolean :: "execution_value \<Rightarrow> bool option" where
  "the_boolean (VBoolean b) = Some b" | "the_boolean _ = None"

fun the_integer :: "execution_value \<Rightarrow> int option" where
  "the_integer (VInteger v _) = Some v" | "the_integer _ = None"

fun the_float :: "execution_value \<Rightarrow> nat option" where
  "the_float (VFloat bits _) = Some bits" | "the_float _ = None"

fun the_byte :: "execution_value \<Rightarrow> int option" where
  "the_byte (VByte v) = Some v" | "the_byte _ = None"

fun the_sequence :: "execution_value \<Rightarrow> execution_value list option" where
  "the_sequence (VSequence vs) = Some vs" | "the_sequence _ = None"

fun the_vector :: "execution_value \<Rightarrow> execution_value list option" where
  "the_vector (VVector vs) = Some vs" | "the_vector _ = None"

fun the_mask :: "execution_value \<Rightarrow> bool list option" where
  "the_mask (VMask bits) = Some bits" | "the_mask _ = None"

definition boolean_operands :: "body_operation \<Rightarrow> env \<Rightarrow> (bool \<times> bool) option" where
  "boolean_operands = pair_operands the_boolean the_boolean"

definition integer_operands :: "body_operation \<Rightarrow> env \<Rightarrow> (int \<times> int) option" where
  "integer_operands = pair_operands the_integer the_integer"

definition float_operand :: "body_operation \<Rightarrow> env \<Rightarrow> nat option" where
  "float_operand oper vals =
     (case bo_operands oper of [input] \<Rightarrow> Option.bind (vals input) the_float | _ \<Rightarrow> None)"

definition float_operands :: "body_operation \<Rightarrow> env \<Rightarrow> (nat \<times> nat) option" where
  "float_operands = pair_operands the_float the_float"

definition byte_operands :: "body_operation \<Rightarrow> env \<Rightarrow> (int \<times> int) option" where
  "byte_operands = pair_operands the_byte the_byte"

definition byte_shift_operands :: "body_operation \<Rightarrow> env \<Rightarrow> (int \<times> int) option" where
  "byte_shift_operands =
     pair_operands the_byte (\<lambda>v. Option.bind (the_integer v) (\<lambda>c. if c < 0 then None else Some c))"

definition sequence_operand :: "body_operation \<Rightarrow> env \<Rightarrow> nat \<Rightarrow> execution_value list option" where
  "sequence_operand oper vals i = Option.bind (operand_value oper vals i) the_sequence"

definition integer_operand :: "body_operation \<Rightarrow> env \<Rightarrow> nat \<Rightarrow> int option" where
  "integer_operand oper vals i = Option.bind (operand_value oper vals i) the_integer"

definition collect_operands :: "body_operation \<Rightarrow> env \<Rightarrow> execution_value list option" where
  "collect_operands oper vals = collect_options (map vals (bo_operands oper))"

definition lanes_of ::
  "(execution_value \<Rightarrow> 'a list option) \<Rightarrow> body_operation \<Rightarrow> env \<Rightarrow> ('a list \<times> 'a list) option" where
  "lanes_of get oper vals =
     do {
       l \<leftarrow> operand_value oper vals 0; left \<leftarrow> get l;
       r \<leftarrow> operand_value oper vals 1; right \<leftarrow> get r;
       if length left = length right then Some (left, right) else None
     }"

definition vector_operands :: "body_operation \<Rightarrow> env \<Rightarrow> (execution_value list \<times> execution_value list) option" where
  "vector_operands = lanes_of the_vector"

definition mask_operands :: "body_operation \<Rightarrow> env \<Rightarrow> (bool list \<times> bool list) option" where
  "mask_operands = lanes_of the_mask"

text \<open>Indexing as Rust does it: out of range is a panic.\<close>

definition indexed :: "execution_value list \<Rightarrow> nat \<Rightarrow> op_outcome" where
  "indexed vs i = (if i < length vs then Store (vs ! i) else Panic)"

definition is_runtime_checked :: "bounds_evidence \<Rightarrow> bool" where
  "is_runtime_checked evidence = (case evidence of RuntimeChecked _ \<Rightarrow> True | _ \<Rightarrow> False)"

definition u64_value :: "int \<Rightarrow> execution_value" where
  "u64_value v = VInteger v \<lparr>ty_bits = 64, ty_signed = False\<rparr>"



section \<open>Scalars\<close>

definition exec_constant :: "int \<Rightarrow> body_type \<Rightarrow> op_outcome" where
  "exec_constant v ty = (case constant_value v ty of None \<Rightarrow> Fail Unsupported | Some w \<Rightarrow> Store w)"

text \<open>The result type of integer arithmetic is the declared one; it differs from the operand type
  when the intent widens.\<close>

definition exec_integer :: "string \<Rightarrow> integer_type \<Rightarrow> arithmetic_intent \<Rightarrow> body_operation \<Rightarrow> env \<Rightarrow> op_outcome" where
  "exec_integer operator operand_type intent oper vals =
     (case integer_operands oper vals of
        None \<Rightarrow> Fail InvalidRequest
      | Some (left, right) \<Rightarrow>
          if \<not> integer_operator_supported operator intent then Fail Unsupported
          else case evaluate_integer operator operand_type intent left right of
                 None \<Rightarrow> Fail RuntimeFailure
               | Some v \<Rightarrow>
                   (case bo_results oper of
                      [] \<Rightarrow> Panic
                    | r # _ \<Rightarrow> Store (VInteger v (case bv_ty r of TInteger ty \<Rightarrow> ty | _ \<Rightarrow> operand_type))))"

definition exec_integer_compare :: "string \<Rightarrow> integer_type \<Rightarrow> body_operation \<Rightarrow> env \<Rightarrow> op_outcome" where
  "exec_integer_compare predicate operand_type oper vals =
     (case integer_operands oper vals of
        None \<Rightarrow> Fail InvalidRequest
      | Some (left, right) \<Rightarrow>
          (case compare_integers predicate operand_type left right of
             None \<Rightarrow> Fail Unsupported
           | Some b \<Rightarrow> Store (VBoolean b)))"

definition exec_float_constant :: "nat \<Rightarrow> float_type \<Rightarrow> op_outcome" where
  "exec_float_constant bits ty = (if float_is_supported ty then Store (VFloat bits ty) else Fail Unsupported)"

definition exec_float :: "string \<Rightarrow> body_operation \<Rightarrow> env \<Rightarrow> op_outcome" where
  "exec_float operator oper vals =
     (case float_operands oper vals of
        None \<Rightarrow> Fail InvalidRequest
      | Some (left, right) \<Rightarrow>
          (case evaluate_float operator left right of
             None \<Rightarrow> Fail RuntimeFailure
           | Some bits \<Rightarrow> Store (VFloat bits float_f64)))"

definition exec_float_compare :: "string \<Rightarrow> body_operation \<Rightarrow> env \<Rightarrow> op_outcome" where
  "exec_float_compare predicate oper vals =
     (case float_operands oper vals of
        None \<Rightarrow> Fail InvalidRequest
      | Some (left, right) \<Rightarrow>
          if \<not> is_finite left \<or> \<not> is_finite right then Fail RuntimeFailure
          else case compare_floats predicate left right of
                 None \<Rightarrow> Fail Unsupported
               | Some b \<Rightarrow> Store (VBoolean b))"

definition exec_float_intrinsic :: "float_library \<Rightarrow> string \<Rightarrow> body_operation \<Rightarrow> env \<Rightarrow> op_outcome" where
  "exec_float_intrinsic lib function_name oper vals =
     (case float_operand oper vals of
        None \<Rightarrow> Fail InvalidRequest
      | Some input \<Rightarrow>
          if \<not> is_finite input then Fail RuntimeFailure
          else
            case (if function_name = ''sin'' then Some (sin_bits lib input)
                  else if function_name = ''cos'' then Some (cos_bits lib input)
                  else if function_name = ''neg'' then Some (neg_bits input) else None) of
              None \<Rightarrow> Fail Unsupported
            | Some bits \<Rightarrow> if is_finite bits then Store (VFloat bits float_f64) else Fail RuntimeFailure)"

definition exec_boolean_op :: "string \<Rightarrow> body_operation \<Rightarrow> env \<Rightarrow> op_outcome" where
  "exec_boolean_op operator oper vals =
     (case boolean_operands oper vals of
        None \<Rightarrow> Fail InvalidRequest
      | Some (left, right) \<Rightarrow>
          if operator = ''and'' then Store (VBoolean (left \<and> right))
          else if operator = ''or'' then Store (VBoolean (left \<or> right))
          else Fail Unsupported)"

definition exec_boolean_compare :: "string \<Rightarrow> body_operation \<Rightarrow> env \<Rightarrow> op_outcome" where
  "exec_boolean_compare predicate oper vals =
     (case boolean_operands oper vals of
        None \<Rightarrow> Fail InvalidRequest
      | Some (left, right) \<Rightarrow>
          if predicate = ''eq'' then Store (VBoolean (left = right))
          else if predicate = ''ne'' then Store (VBoolean (left \<noteq> right))
          else Fail Unsupported)"

definition exec_boolean_not :: "body_operation \<Rightarrow> env \<Rightarrow> op_outcome" where
  "exec_boolean_not oper vals =
     (case bo_operands oper of
        [input] \<Rightarrow>
          (case Option.bind (vals input) the_boolean of
             None \<Rightarrow> Fail InvalidRequest
           | Some b \<Rightarrow> Store (VBoolean (\<not> b)))
      | _ \<Rightarrow> Fail InvalidRequest)"

definition exec_byte_bitwise :: "string \<Rightarrow> body_operation \<Rightarrow> env \<Rightarrow> op_outcome" where
  "exec_byte_bitwise operator oper vals =
     (case byte_operands oper vals of
        None \<Rightarrow> Fail InvalidRequest
      | Some (left, right) \<Rightarrow>
          (case evaluate_byte_bitwise operator left right of
             None \<Rightarrow> Fail Unsupported
           | Some v \<Rightarrow> Store (VByte v)))"

definition exec_byte_shift :: "string \<Rightarrow> body_operation \<Rightarrow> env \<Rightarrow> op_outcome" where
  "exec_byte_shift operator oper vals =
     (case byte_shift_operands oper vals of
        None \<Rightarrow> Fail InvalidRequest
      | Some (byte, distance) \<Rightarrow>
          (case evaluate_byte_shift operator byte distance of
             None \<Rightarrow> Fail Unsupported
           | Some v \<Rightarrow> Store (VByte v)))"

definition exec_byte_compare :: "string \<Rightarrow> body_operation \<Rightarrow> env \<Rightarrow> op_outcome" where
  "exec_byte_compare predicate oper vals =
     (case byte_operands oper vals of
        None \<Rightarrow> Fail InvalidRequest
      | Some (left, right) \<Rightarrow>
          (case compare_bytes predicate left right of
             None \<Rightarrow> Fail Unsupported
           | Some b \<Rightarrow> Store (VBoolean b)))"

definition exec_convert :: "body_type \<Rightarrow> body_type \<Rightarrow> body_operation \<Rightarrow> env \<Rightarrow> op_outcome" where
  "exec_convert source target oper vals =
     (case operand_value oper vals 0 of
        None \<Rightarrow> Fail InvalidRequest
      | Some v \<Rightarrow>
          (case convert_scalar_value v source target of
             Inr converted \<Rightarrow> Store converted
           | Inl ConvTrap \<Rightarrow> Fail RuntimeFailure
           | Inl ConvUnsupported \<Rightarrow> Fail Unsupported))"


section \<open>Vectors and masks\<close>

definition exec_vector_construct :: "nat \<Rightarrow> body_operation \<Rightarrow> env \<Rightarrow> op_outcome" where
  "exec_vector_construct lanes oper vals =
     (case collect_operands oper vals of
        None \<Rightarrow> Fail InvalidRequest
      | Some vs \<Rightarrow> if length vs \<noteq> lanes then Fail InvalidRequest else Store (VVector vs))"

definition exec_vector_splat :: "nat \<Rightarrow> body_operation \<Rightarrow> env \<Rightarrow> op_outcome" where
  "exec_vector_splat lanes oper vals =
     (case operand_or_empty oper vals 0 of
        None \<Rightarrow> Fail InvalidRequest
      | Some v \<Rightarrow> Store (VVector (replicate lanes v)))"

definition lane_failure :: "bounds_evidence \<Rightarrow> op_outcome" where
  "lane_failure evidence = Fail (if is_runtime_checked evidence then RuntimeFailure else InvalidRequest)"

definition exec_vector_extract :: "nat \<Rightarrow> bounds_evidence \<Rightarrow> body_operation \<Rightarrow> env \<Rightarrow> op_outcome" where
  "exec_vector_extract lanes evidence oper vals =
     (case Option.bind (operand_or_empty oper vals 0) the_vector of
        None \<Rightarrow> Fail InvalidRequest
      | Some vs \<Rightarrow>
          (case integer_operand oper vals 1 of
             None \<Rightarrow> Fail InvalidRequest
           | Some index \<Rightarrow>
               if index < 0 \<or> int lanes \<le> index then lane_failure evidence else indexed vs (nat index)))"

definition exec_vector_replace :: "nat \<Rightarrow> bounds_evidence \<Rightarrow> body_operation \<Rightarrow> env \<Rightarrow> op_outcome" where
  "exec_vector_replace lanes evidence oper vals =
     (case Option.bind (operand_or_empty oper vals 0) the_vector of
        None \<Rightarrow> Fail InvalidRequest
      | Some vs \<Rightarrow>
          (case integer_operand oper vals 1 of
             None \<Rightarrow> Fail InvalidRequest
           | Some index \<Rightarrow>
               (case operand_or_empty oper vals 2 of
                  None \<Rightarrow> Fail InvalidRequest
                | Some element \<Rightarrow>
                    if index < 0 \<or> int lanes \<le> index then lane_failure evidence
                    else if nat index < length vs then Store (VVector (vs[nat index := element]))
                    else Panic)))"

definition exec_vector_binary :: "string \<Rightarrow> body_type \<Rightarrow> arithmetic_intent \<Rightarrow> body_operation \<Rightarrow> env \<Rightarrow> op_outcome" where
  "exec_vector_binary operator element_type intent oper vals =
     (case vector_operands oper vals of
        None \<Rightarrow> Fail InvalidRequest
      | Some (left, right) \<Rightarrow>
          (case evaluate_vector_binary operator element_type intent left right of
             None \<Rightarrow> Fail RuntimeFailure
           | Some produced \<Rightarrow> Store (VVector produced)))"

definition exec_vector_compare :: "string \<Rightarrow> body_type \<Rightarrow> body_operation \<Rightarrow> env \<Rightarrow> op_outcome" where
  "exec_vector_compare predicate element_type oper vals =
     (case vector_operands oper vals of
        None \<Rightarrow> Fail InvalidRequest
      | Some (left, right) \<Rightarrow>
          (case evaluate_vector_compare predicate element_type left right of
             None \<Rightarrow> Fail InvalidRequest
           | Some lanes \<Rightarrow> Store (VMask lanes)))"

definition exec_mask_binary :: "string \<Rightarrow> body_operation \<Rightarrow> env \<Rightarrow> op_outcome" where
  "exec_mask_binary operator oper vals =
     (case mask_operands oper vals of
        None \<Rightarrow> Fail InvalidRequest
      | Some (left, right) \<Rightarrow>
          Store (VMask (map (\<lambda>(l, r). if operator = ''and'' then l \<and> r
                                       else if operator = ''or'' then l \<or> r else l \<noteq> r) (zip left right))))"

definition exec_mask_not :: "body_operation \<Rightarrow> env \<Rightarrow> op_outcome" where
  "exec_mask_not oper vals =
     (case Option.bind (operand_or_empty oper vals 0) the_mask of
        None \<Rightarrow> Fail InvalidRequest
      | Some lanes \<Rightarrow> Store (VMask (map Not lanes)))"

definition exec_mask_reduce :: "string \<Rightarrow> body_operation \<Rightarrow> env \<Rightarrow> op_outcome" where
  "exec_mask_reduce operator oper vals =
     (case Option.bind (operand_or_empty oper vals 0) the_mask of
        None \<Rightarrow> Fail InvalidRequest
      | Some lanes \<Rightarrow>
          Store (VBoolean (if operator = ''any'' then list_ex id lanes
                           else if operator = ''all'' then list_all id lanes
                           else \<not> list_ex id lanes)))"

definition exec_vector_reduce :: "string \<Rightarrow> body_type \<Rightarrow> arithmetic_intent \<Rightarrow> body_operation \<Rightarrow> env \<Rightarrow> op_outcome" where
  "exec_vector_reduce operator element_type intent oper vals =
     (case Option.bind (operand_or_empty oper vals 0) the_vector of
        None \<Rightarrow> Fail InvalidRequest
      | Some lanes \<Rightarrow>
          (case evaluate_vector_reduce operator element_type intent lanes of
             None \<Rightarrow> Fail RuntimeFailure
           | Some v \<Rightarrow> Store v))"

text \<open>Selection by a mask picks lane by lane and indexes the operand list; by a boolean it reads one
  candidate.\<close>

definition select_lanes :: "bool list \<Rightarrow> body_operation \<Rightarrow> env \<Rightarrow> op_outcome" where
  "select_lanes lanes oper vals =
     (case operand oper 1 of
        None \<Rightarrow> Panic
      | Some x \<Rightarrow>
          (case Option.bind (vals x) the_vector of
             None \<Rightarrow> Fail InvalidRequest
           | Some true_lanes \<Rightarrow>
               (case operand oper 2 of
                  None \<Rightarrow> Panic
                | Some y \<Rightarrow>
                    (case Option.bind (vals y) the_vector of
                       None \<Rightarrow> Fail InvalidRequest
                     | Some false_lanes \<Rightarrow>
                         if length lanes \<noteq> length true_lanes \<or> length lanes \<noteq> length false_lanes
                         then Fail InvalidRequest
                         else Store (VVector (map (\<lambda>(lane, t, f). if lane then t else f)
                                (zip lanes (zip true_lanes false_lanes))))))))"

definition exec_select :: "body_operation \<Rightarrow> env \<Rightarrow> op_outcome" where
  "exec_select oper vals =
     (case operand_or_empty oper vals 0 of
        None \<Rightarrow> Fail InvalidRequest
      | Some (VMask lanes) \<Rightarrow> select_lanes lanes oper vals
      | Some (VBoolean chosen_true) \<Rightarrow>
          (case operand_or_empty oper vals (if chosen_true then 1 else 2) of
             None \<Rightarrow> Fail InvalidRequest
           | Some selected \<Rightarrow> Store selected)
      | Some _ \<Rightarrow> Fail InvalidRequest)"



section \<open>Sequences and views\<close>

definition exec_sequence_construct :: "nat \<Rightarrow> body_operation \<Rightarrow> env \<Rightarrow> op_outcome" where
  "exec_sequence_construct len oper vals =
     (case collect_operands oper vals of
        None \<Rightarrow> Fail InvalidRequest
      | Some vs \<Rightarrow> if length vs \<noteq> len then Fail InvalidRequest else Store (VSequence vs))"

definition exec_sequence_replace :: "sequence_bound \<Rightarrow> body_operation \<Rightarrow> env \<Rightarrow> op_outcome" where
  "exec_sequence_replace bound oper vals =
     (case bound of
        Exact len \<Rightarrow>
          (case sequence_operand oper vals 0 of
             None \<Rightarrow> Fail InvalidRequest
           | Some source \<Rightarrow>
               (case integer_operand oper vals 1 of
                  None \<Rightarrow> Fail InvalidRequest
                | Some index \<Rightarrow>
                    (case operand_or_empty oper vals 2 of
                       None \<Rightarrow> Fail InvalidRequest
                     | Some element \<Rightarrow>
                         if index < 0 \<or> int len \<le> index then Fail RuntimeFailure
                         else if nat index < length source then Store (VSequence (source[nat index := element]))
                         else Panic)))
      | _ \<Rightarrow> Fail Unsupported)"

definition exec_bound_check :: "body_operation \<Rightarrow> env \<Rightarrow> op_outcome" where
  "exec_bound_check oper vals =
     (case sequence_operand oper vals 0 of
        None \<Rightarrow> Fail InvalidRequest
      | Some vs \<Rightarrow>
          (case integer_operand oper vals 1 of
             None \<Rightarrow> Fail InvalidRequest
           | Some index \<Rightarrow>
               if index < 0 \<or> int (length vs) \<le> index then Fail RuntimeFailure else Store (u64_value index)))"

text \<open>The window \<open>dst_at .. dst_at + len\<close> of the destination becomes the one of the source.\<close>

definition copy_window :: "execution_value list \<Rightarrow> nat \<Rightarrow> execution_value list \<Rightarrow> nat \<Rightarrow> nat \<Rightarrow> execution_value list" where
  "copy_window destination dst_at source src_at len =
     take dst_at destination @ take len (drop src_at source) @ drop (dst_at + len) destination"

definition exec_sequence_copy :: "sequence_bound \<Rightarrow> body_operation \<Rightarrow> env \<Rightarrow> op_outcome" where
  "exec_sequence_copy dst_bound oper vals =
     (case dst_bound of
        Exact dst_length \<Rightarrow>
          (case (sequence_operand oper vals 0, sequence_operand oper vals 2) of
             (Some destination, Some source) \<Rightarrow>
               (case (integer_operand oper vals 1, integer_operand oper vals 3, integer_operand oper vals 4) of
                  (Some dst_at, Some src_at, Some len) \<Rightarrow>
                    if \<not> (0 \<le> dst_at \<and> 0 \<le> src_at \<and> 0 \<le> len \<and>
                          dst_at + len \<le> int dst_length \<and> src_at + len \<le> int (length source))
                    then Fail RuntimeFailure
                    else if nat dst_at + nat len \<le> length destination
                    then Store (VSequence (copy_window destination (nat dst_at) source (nat src_at) (nat len)))
                    else Panic
                | _ \<Rightarrow> Fail InvalidRequest)
           | _ \<Rightarrow> Fail InvalidRequest)
      | _ \<Rightarrow> Fail Unsupported)"

definition exec_sequence_project :: "bounds_evidence \<Rightarrow> body_operation \<Rightarrow> env \<Rightarrow> op_outcome" where
  "exec_sequence_project evidence oper vals =
     (case sequence_operand oper vals 0 of
        None \<Rightarrow> Fail InvalidRequest
      | Some vs \<Rightarrow>
          (case integer_operand oper vals 1 of
             None \<Rightarrow> Fail InvalidRequest
           | Some index \<Rightarrow>
               if \<not> (0 \<le> index \<and> index < 2 ^ 64) then Fail InvalidRequest
               else if int (length vs) \<le> index then lane_failure evidence
               else Store (vs ! nat index)))"

definition exec_sequence_length :: "body_operation \<Rightarrow> env \<Rightarrow> op_outcome" where
  "exec_sequence_length oper vals =
     (case sequence_operand oper vals 0 of
        None \<Rightarrow> Fail InvalidRequest
      | Some vs \<Rightarrow> Store (u64_value (int (length vs))))"

definition exec_view_construct :: "sequence_bound \<Rightarrow> body_operation \<Rightarrow> env \<Rightarrow> op_outcome" where
  "exec_view_construct view_bound oper vals =
     (case view_bound of
        UpTo capacity \<Rightarrow>
          (case sequence_operand oper vals 0 of
             None \<Rightarrow> Fail InvalidRequest
           | Some source \<Rightarrow>
               (case (integer_operand oper vals 1, integer_operand oper vals 2) of
                  (Some start, Some stop) \<Rightarrow>
                    if start < 0 \<or> stop < 0 \<or> stop < start then Fail RuntimeFailure
                    else if int (length source) < stop then Fail RuntimeFailure
                    else if int capacity < stop - start then Fail RuntimeFailure
                    else Store (VSequence (take (nat stop - nat start) (drop (nat start) source)))
                | _ \<Rightarrow> Fail InvalidRequest))
      | _ \<Rightarrow> Fail InvalidRequest)"

definition exec_view_narrow :: "nat \<Rightarrow> body_operation \<Rightarrow> env \<Rightarrow> op_outcome" where
  "exec_view_narrow new_cap oper vals =
     (case sequence_operand oper vals 0 of
        None \<Rightarrow> Fail InvalidRequest
      | Some source \<Rightarrow> if new_cap < length source then Fail RuntimeFailure else Store (VSequence source))"


section \<open>Nominal values\<close>

text \<open>The payload values arrive in canonical field order; every field needs its operand.\<close>

definition exec_finite_construct ::
  "semantic_id \<Rightarrow> semantic_id \<Rightarrow> nat \<Rightarrow> string list \<Rightarrow> body_operation \<Rightarrow> env \<Rightarrow> op_outcome" where
  "exec_finite_construct type_identity variant_identity discriminant payload_fields oper vals =
     (case collect_options (map (\<lambda>i. operand_value oper vals i) [0..<length payload_fields]) of
        None \<Rightarrow> Fail InvalidRequest
      | Some vs \<Rightarrow>
          if length (bo_operands oper) \<noteq> length payload_fields then Fail InvalidRequest
          else Store (VFinite type_identity variant_identity discriminant (zip payload_fields vs)))"

definition exec_finite_payload_project ::
  "program \<Rightarrow> semantic_id \<Rightarrow> semantic_id \<Rightarrow> nat \<Rightarrow> string \<Rightarrow> body_operation \<Rightarrow> env \<Rightarrow> op_outcome" where
  "exec_finite_payload_project program type_identity variant_identity discriminant field oper vals =
     (case operand_value oper vals 0 of
        Some (VFinite actual_type actual_variant actual_discriminant payload) \<Rightarrow>
          if actual_type \<noteq> type_identity \<or> actual_variant \<noteq> variant_identity \<or>
             actual_discriminant \<noteq> discriminant \<or>
             \<not> valid_finite_value program actual_type actual_variant actual_discriminant
          then Fail InvalidRequest
          else (case map_of payload field of None \<Rightarrow> Fail InvalidRequest | Some v \<Rightarrow> Store v)
      | _ \<Rightarrow> Fail InvalidRequest)"

definition exec_finite_is_variant ::
  "program \<Rightarrow> semantic_id \<Rightarrow> semantic_id \<Rightarrow> nat \<Rightarrow> body_operation \<Rightarrow> env \<Rightarrow> op_outcome" where
  "exec_finite_is_variant program type_identity variant_identity discriminant oper vals =
     (case operand_value oper vals 0 of
        Some (VFinite actual_type actual_variant actual_discriminant _) \<Rightarrow>
          if actual_type \<noteq> type_identity \<or>
             \<not> valid_finite_value program actual_type actual_variant actual_discriminant
          then Fail InvalidRequest
          else Store (VBoolean (actual_variant = variant_identity \<and> actual_discriminant = discriminant))
      | _ \<Rightarrow> Fail InvalidRequest)"

text \<open>The field names and the operands are zipped, so surplus ones are dropped; without a declared
  result nothing is stored.\<close>

definition exec_record_construct :: "semantic_id \<Rightarrow> string list \<Rightarrow> body_operation \<Rightarrow> env \<Rightarrow> op_outcome" where
  "exec_record_construct type_identity field_names oper vals =
     (case collect_options (map (\<lambda>(name, x). map_option (Pair name) (vals x)) (zip field_names (bo_operands oper))) of
        None \<Rightarrow> Fail InvalidRequest
      | Some fs \<Rightarrow>
          (case bo_results oper of
             [] \<Rightarrow> Skip
           | r # _ \<Rightarrow> Store (VRecord type_identity (semantic_name (bv_ty r)) fs)))"

definition exec_record_project :: "string \<Rightarrow> body_operation \<Rightarrow> env \<Rightarrow> op_outcome" where
  "exec_record_project field oper vals =
     (case operand oper 0 of
        None \<Rightarrow> Skip
      | Some x \<Rightarrow>
          (case vals x of
             Some (VRecord _ _ fs) \<Rightarrow>
               (case map_of fs field of
                  None \<Rightarrow> Fail InvalidRequest
                | Some v \<Rightarrow> if bo_results oper = [] then Skip else Store v)
           | _ \<Rightarrow> Fail InvalidRequest))"


section \<open>One operation\<close>

fun exec_pure :: "float_library \<Rightarrow> program \<Rightarrow> operation_kind \<Rightarrow> body_operation \<Rightarrow> env \<Rightarrow> op_outcome" where
  "exec_pure lib program (Constant v ty) oper vals = exec_constant v ty"
| "exec_pure lib program (RecordConstruct t ns) oper vals = exec_record_construct t ns oper vals"
| "exec_pure lib program (RecordProject _ field) oper vals = exec_record_project field oper vals"
| "exec_pure lib program (Integer operator ty intent) oper vals = exec_integer operator ty intent oper vals"
| "exec_pure lib program (IntegerCompare predicate ty) oper vals = exec_integer_compare predicate ty oper vals"
| "exec_pure lib program (FloatConstant bits ty) oper vals = exec_float_constant bits ty"
| "exec_pure lib program (Float operator) oper vals = exec_float operator oper vals"
| "exec_pure lib program (FloatCompare predicate) oper vals = exec_float_compare predicate oper vals"
| "exec_pure lib program (FloatIntrinsic f) oper vals = exec_float_intrinsic lib f oper vals"
| "exec_pure lib program (BooleanOp operator) oper vals = exec_boolean_op operator oper vals"
| "exec_pure lib program (BooleanCompare predicate) oper vals = exec_boolean_compare predicate oper vals"
| "exec_pure lib program BooleanNot oper vals = exec_boolean_not oper vals"
| "exec_pure lib program (ByteBitwise operator) oper vals = exec_byte_bitwise operator oper vals"
| "exec_pure lib program (ByteShift operator) oper vals = exec_byte_shift operator oper vals"
| "exec_pure lib program (ByteCompare predicate) oper vals = exec_byte_compare predicate oper vals"
| "exec_pure lib program (Convert source target) oper vals = exec_convert source target oper vals"
| "exec_pure lib program (SequenceConstruct _ len) oper vals = exec_sequence_construct len oper vals"
| "exec_pure lib program (VectorConstruct _ lanes) oper vals = exec_vector_construct lanes oper vals"
| "exec_pure lib program (VectorSplat _ lanes) oper vals = exec_vector_splat lanes oper vals"
| "exec_pure lib program (VectorExtract _ lanes evidence) oper vals = exec_vector_extract lanes evidence oper vals"
| "exec_pure lib program (VectorReplace _ lanes evidence) oper vals = exec_vector_replace lanes evidence oper vals"
| "exec_pure lib program (VectorBinary operator ty _ intent) oper vals = exec_vector_binary operator ty intent oper vals"
| "exec_pure lib program (VectorCompare predicate ty _) oper vals = exec_vector_compare predicate ty oper vals"
| "exec_pure lib program (MaskBinary operator _) oper vals = exec_mask_binary operator oper vals"
| "exec_pure lib program (MaskNot _) oper vals = exec_mask_not oper vals"
| "exec_pure lib program (MaskReduce operator _) oper vals = exec_mask_reduce operator oper vals"
| "exec_pure lib program (VectorReduce operator ty _ intent) oper vals = exec_vector_reduce operator ty intent oper vals"
| "exec_pure lib program (Select _) oper vals = exec_select oper vals"
| "exec_pure lib program (SequenceReplace _ bound _) oper vals = exec_sequence_replace bound oper vals"
| "exec_pure lib program (BoundCheck _) oper vals = exec_bound_check oper vals"
| "exec_pure lib program (SequenceCopy _ dst_bound _ _) oper vals = exec_sequence_copy dst_bound oper vals"
| "exec_pure lib program (SequenceProject _ evidence) oper vals = exec_sequence_project evidence oper vals"
| "exec_pure lib program (SequenceLength _) oper vals = exec_sequence_length oper vals"
| "exec_pure lib program (ViewConstruct _ view_bound) oper vals = exec_view_construct view_bound oper vals"
| "exec_pure lib program (ViewNarrow _ new_cap) oper vals = exec_view_narrow new_cap oper vals"
| "exec_pure lib program (FiniteConstruct t var d fs) oper vals = exec_finite_construct t var d fs oper vals"
| "exec_pure lib program (FinitePayloadProject t var d field) oper vals = exec_finite_payload_project program t var d field oper vals"
| "exec_pure lib program (FiniteIsVariant t var d) oper vals = exec_finite_is_variant program t var d oper vals"
| "exec_pure lib program (RuntimeCheck _ _ _) oper vals = Fail Unsupported"
| "exec_pure lib program (Call _ _ _ _ _) oper vals = Skip"
| "exec_pure lib program (Effect _ _) oper vals = Skip"

end
