(* ===== verification/Body_Sound.thy ===== *)
theory Body_Sound
  imports Body_Valid Body_Ops
begin

text \<open>
  What validation of an operation buys: run with operands of the types validation saw, a validated
  operation does not panic, and the value it stores has the type of its declared result.  One
  lemma per kind of operation, over the inversion of value typing; \<open>validated_operation_safe\<close>
  puts them together.
\<close>

section \<open>Values of a type\<close>

lemma matches_TNamed: "value_matches_type program v (TNamed name) \<longleftrightarrow> name = ''bool'' \<and> (\<exists>b. v = VBoolean b)"
  by (cases v) auto

lemma matches_TBool: "value_matches_type program v TBool \<longleftrightarrow> (\<exists>b. v = VBoolean b)"
  by (cases v) auto

lemma matches_TInteger:
  "value_matches_type program v (TInteger ty) \<longleftrightarrow>
     (\<exists>i. v = VInteger i ty \<and> in_range i ty) \<or> (\<exists>b. v = VBoolean b \<and> ty_bits ty = 1 \<and> \<not> ty_signed ty)"
  by (cases v) auto

lemma matches_TFloat: "value_matches_type program v (TFloat ty) \<longleftrightarrow> (\<exists>bits. v = VFloat bits ty)"
  by (cases v) auto

lemma matches_TByte: "value_matches_type program v TByte \<longleftrightarrow> (\<exists>b. v = VByte b \<and> byte_domain b)"
  by (cases v) auto

fun bound_admits :: "sequence_bound \<Rightarrow> nat \<Rightarrow> bool" where
  "bound_admits (Exact len) n = (n = len)"
| "bound_admits (UpTo capacity) n = (n \<le> capacity)"
| "bound_admits _ n = False"

lemma matches_TSequence:
  "value_matches_type program v (TSequence element bound) \<longleftrightarrow>
     (\<exists>vs. v = VSequence vs \<and> bound_admits bound (length vs) \<and>
        (\<forall>w\<in>set vs. value_matches_type program w element))"
  by (cases v; cases bound) (auto simp: list_all_iff)

lemma matches_TVector:
  "value_matches_type program v (TVector element lanes) \<longleftrightarrow>
     (\<exists>vs. v = VVector vs \<and> length vs = lanes \<and> (\<forall>w\<in>set vs. value_matches_type program w element))"
  by (cases v) (auto simp: list_all_iff)

lemma matches_TMask: "value_matches_type program v (TMask lanes) \<longleftrightarrow> (\<exists>bits. v = VMask bits \<and> length bits = lanes)"
  by (cases v) auto

lemma matches_TFinite:
  "value_matches_type program v (TFinite identity name) \<longleftrightarrow>
     (\<exists>t var d payload. v = VFinite t var d payload \<and> nominal_identity_matches identity name t \<and>
        valid_finite_value program identity var d \<and>
        finite_payload_matches program identity var (checks program payload))"
  by (cases v) auto

lemma matches_TRecord:
  "value_matches_type program v (TRecord identity name) \<longleftrightarrow>
     (\<exists>t n fs. v = VRecord t n fs \<and> nominal_identity_matches identity name t \<and>
        record_fields_match program identity (checks program fs))"
  by (cases v) auto

lemma matches_TGenericParam: "\<not> value_matches_type program v (TGenericParam name)"
  by (cases v) auto

lemmas matches_iff = matches_TNamed matches_TBool matches_TInteger matches_TFloat matches_TByte
  matches_TSequence matches_TVector matches_TMask matches_TFinite matches_TRecord matches_TGenericParam

declare value_matches_type.simps [simp del]

text \<open>The legacy spelling of the boolean type makes no difference to its values.\<close>

lemma matches_normalize:
  "value_matches_type program v (normalize_legacy_bool ty) \<longleftrightarrow> value_matches_type program v ty"
proof (induction ty arbitrary: v)
  case (TNamed name)
  show ?case by (cases "name = ''bool''") (auto simp: matches_iff)
qed (simp_all add: matches_TSequence matches_TVector)

lemma matches_same_type:
  "same_type a b \<Longrightarrow> value_matches_type program v a \<longleftrightarrow> value_matches_type program v b"
  by (metis matches_normalize same_type_def)

lemma matches_same_bool: "same_type ty TBool \<Longrightarrow> value_matches_type program v ty \<longleftrightarrow> (\<exists>b. v = VBoolean b)"
  by (simp add: matches_same_type matches_TBool)

lemma matches_is_boolean: "is_boolean ty \<Longrightarrow> value_matches_type program (VBoolean b) ty"
  by (auto simp: is_boolean_def matches_iff split: body_type.splits)

text \<open>A value may stand where a wider view is expected.\<close>

lemma matches_widening:
  assumes "body_view_widening actual expected" "value_matches_type program v actual"
  shows "value_matches_type program v expected"
proof -
  obtain element m n where a: "normalize_legacy_bool actual = TSequence element (UpTo m)"
    and e: "normalize_legacy_bool expected = TSequence element (UpTo n)" and "m \<le> n"
    using assms(1)
    by (auto simp: body_view_widening_def classify_compatibility_def Let_def
        split: body_type.splits sequence_bound.splits if_splits)
  with assms(2) show ?thesis
    unfolding matches_normalize [of program v actual, symmetric] matches_normalize [of program v expected, symmetric] a e
    by (auto simp: matches_TSequence)
qed

lemma matches_passes_as:
  "passes_as actual expected \<Longrightarrow> value_matches_type program v actual \<Longrightarrow> value_matches_type program v expected"
  by (auto simp: passes_as_def dest: matches_same_type matches_widening)


section \<open>Typed stores\<close>

definition env_typed :: "program \<Rightarrow> types \<Rightarrow> env \<Rightarrow> bool" where
  "env_typed program types vals \<longleftrightarrow>
     (\<forall>x v ty. vals x = Some v \<longrightarrow> types x = Some ty \<longrightarrow> value_matches_type program v ty)"

lemma env_typedD:
  "env_typed program types vals \<Longrightarrow> vals x = Some v \<Longrightarrow> types x = Some ty \<Longrightarrow> value_matches_type program v ty"
  by (simp add: env_typed_def)

text \<open>What a validated operation may do: fail with a status, or store under its only result a value
  of its type.\<close>

definition outcome_safe :: "program \<Rightarrow> body_operation \<Rightarrow> op_outcome \<Rightarrow> bool" where
  "outcome_safe program oper outcome \<longleftrightarrow>
     (case outcome of
        Store v \<Rightarrow> \<exists>r. bo_results oper = [r] \<and> value_matches_type program v (bv_ty r)
      | Fail status \<Rightarrow> status \<noteq> Returned
      | Skip \<Rightarrow> False
      | Panic \<Rightarrow> False)"

lemma outcome_safe_simps [simp]:
  "outcome_safe program oper (Store v) \<longleftrightarrow> (\<exists>r. bo_results oper = [r] \<and> value_matches_type program v (bv_ty r))"
  "outcome_safe program oper (Fail status) \<longleftrightarrow> status \<noteq> Returned"
  "\<not> outcome_safe program oper Skip"
  "\<not> outcome_safe program oper Panic"
  by (simp_all add: outcome_safe_def)

lemma one_result: "length (bo_results oper) = Suc 0 \<Longrightarrow> \<exists>r. bo_results oper = [r]"
  by (cases "bo_results oper") auto

lemma arity_result: "\<not> arity_differs oper n \<Longrightarrow> \<exists>r. bo_results oper = [r]"
  by (simp add: arity_differs_def one_result)

lemma arity_operands: "\<not> arity_differs oper n \<Longrightarrow> length (bo_operands oper) = n"
  by (simp add: arity_differs_def)

lemma two_operands: "length xs = 2 \<longleftrightarrow> (\<exists>x y. xs = [x, y])"
  by (auto simp: numeral_2_eq_2 length_Suc_conv)

lemma first_result_simps [simp]:
  "bo_results oper = [r] \<Longrightarrow> first_result oper p \<longleftrightarrow> p (bv_ty r)"
  "bo_results oper = [r] \<Longrightarrow> first_result_differs oper ty \<longleftrightarrow> bv_ty r \<noteq> ty"
  by (simp_all add: first_result_def first_result_differs_def)

lemma has_type_iff: "has_type available p x \<longleftrightarrow> (\<exists>ty. available x = Some ty \<and> p ty)"
  by (auto simp: has_type_def split: option.splits)


section \<open>Scalar operations\<close>

lemma exec_constant_safe:
  "valid_constant ty oper = [] \<Longrightarrow> outcome_safe program oper (exec_constant v ty)"
  by (auto simp: valid_constant_def exec_constant_def constant_value_def matches_iff
      split: if_splits body_type.splits option.splits dest!: one_result)

lemma arithmetic_result_operand: "intent = Wrapping \<Longrightarrow> arithmetic_result_type operator ty intent = Some rt \<Longrightarrow> rt = ty"
  by (auto simp: arithmetic_result_type_def split: if_splits)

lemma exec_integer_safe:
  assumes "valid_integer operator ty intent oper available = []"
  shows "outcome_safe program oper (exec_integer operator ty intent oper vals)"
proof -
  obtain r rt where r: "bo_results oper = [r]" and rt: "arithmetic_result_type operator ty intent = Some rt"
    and same: "bv_ty r = TInteger rt"
    using assms arity_result [of oper 2] by (auto simp: valid_integer_def Let_def split: option.splits)
  have "value_matches_type program (VInteger v rt) (TInteger rt)"
    if "evaluate_integer operator ty intent x y = Some v" for x y v
    using evaluate_integer_exact [OF that] rt by (auto simp: matches_TInteger)
  with r same show ?thesis
    by (auto simp: exec_integer_def split: option.splits)
qed

lemma exec_integer_compare_safe:
  assumes "valid_integer_compare predicate ty oper available = []"
  shows "outcome_safe program oper (exec_integer_compare predicate ty oper vals)"
  using assms arity_result [of oper 2]
  by (auto simp: valid_integer_compare_def exec_integer_compare_def matches_is_boolean split: option.splits)

lemma is_float64_iff: "is_float64 ty \<longleftrightarrow> ty = TFloat float_f64"
  by (auto simp: is_float64_def float_is_supported_def float_f64_def split: body_type.splits)

lemma exec_float_constant_safe:
  "valid_float_constant ty oper = [] \<Longrightarrow> outcome_safe program oper (exec_float_constant bits ty)"
  by (auto simp: valid_float_constant_def exec_float_constant_def matches_iff split: if_splits dest!: one_result)

lemma exec_float_safe:
  assumes "valid_float operator oper available = []"
  shows "outcome_safe program oper (exec_float operator oper vals)"
  using assms arity_result [of oper 2]
  by (auto simp: valid_float_def exec_float_def is_float64_iff matches_iff split: option.splits)

lemma exec_float_compare_safe:
  assumes "valid_float_compare predicate oper available = []"
  shows "outcome_safe program oper (exec_float_compare predicate oper vals)"
  using assms arity_result [of oper 2]
  by (auto simp: valid_float_compare_def exec_float_compare_def matches_is_boolean split: option.splits)

lemma exec_float_intrinsic_safe:
  assumes "valid_float_intrinsic intrinsic oper available = []"
  shows "outcome_safe program oper (exec_float_intrinsic lib intrinsic oper vals)"
  using assms arity_result [of oper 1]
  by (auto simp: valid_float_intrinsic_def exec_float_intrinsic_def is_float64_iff matches_iff split: option.splits)

lemma exec_boolean_op_safe:
  assumes "valid_boolean_op operator oper available = []"
  shows "outcome_safe program oper (exec_boolean_op operator oper vals)"
  using assms arity_result [of oper 2]
  by (auto simp: valid_boolean_op_def exec_boolean_op_def matches_same_bool split: option.splits)

lemma exec_boolean_compare_safe:
  assumes "valid_boolean_compare predicate oper available = []"
  shows "outcome_safe program oper (exec_boolean_compare predicate oper vals)"
  using assms arity_result [of oper 2]
  by (auto simp: valid_boolean_compare_def exec_boolean_compare_def matches_same_bool split: option.splits)

lemma exec_boolean_not_safe:
  assumes "valid_boolean_not oper available = []"
  shows "outcome_safe program oper (exec_boolean_not oper vals)"
  using assms arity_result [of oper 1]
  by (auto simp: valid_boolean_not_def exec_boolean_not_def matches_same_bool split: option.splits list.splits)

text \<open>A byte operator that answers has bytes as operands, and answers a byte.\<close>

lemma byte_domain_iff: "byte_domain b \<longleftrightarrow> (\<exists>w :: 8 word. b = uint w)"
proof
  assume "byte_domain b"
  then have "b = uint (word_of_int b :: 8 word)" by (simp add: byte_domain_def uint_word_of_int)
  then show "\<exists>w :: 8 word. b = uint w" by blast
qed auto

lemma byte_bitwise_domain: "evaluate_byte_bitwise operator l r = Some v \<Longrightarrow> byte_domain v"
proof -
  assume e: "evaluate_byte_bitwise operator l r = Some v"
  then obtain a b :: "8 word" where "l = uint a" "r = uint b"
    by (auto simp: evaluate_byte_bitwise_def byte_domain_iff split: if_splits)
  moreover have "byte_domain (uint (a AND b))" "byte_domain (uint (a OR b))" "byte_domain (uint (a XOR b))"
    by (rule byte_domain_word)+
  ultimately show ?thesis
    using e by (auto simp: evaluate_byte_bitwise_def uint_and uint_or uint_xor split: if_splits)
qed

lemma byte_shift_domain:
  assumes "evaluate_byte_shift operator l amount = Some v"
  shows "byte_domain v"
proof -
  have l: "0 \<le> l" "l \<le> 255" and cases: "v = push_bit (nat (amount mod 8)) l AND 255 \<or> v = drop_bit (nat (amount mod 8)) l"
    using assms by (auto simp: evaluate_byte_shift_def byte_domain_def Let_def split: if_splits)
  have "push_bit c l AND 255 = take_bit 8 (push_bit c l)" for c
    by (simp add: take_bit_eq_mask mask_eq_exp_minus_1)
  then have "0 \<le> push_bit c l AND 255 \<and> push_bit c l AND 255 \<le> 255" for c
    using take_bit_int_less_exp [of 8 "push_bit c l"] by simp
  moreover have "0 \<le> drop_bit c l \<and> drop_bit c l \<le> 255" for c
    using l zdiv_mono2 [of l 1 "2 ^ c"] by (simp add: drop_bit_eq_div pos_imp_zdiv_nonneg_iff)
  ultimately show ?thesis using cases by (auto simp: byte_domain_def)
qed

lemma byte_operands_result:
  assumes "validate_byte_operands produces_bool oper available = []"
  shows "\<exists>r. bo_results oper = [r] \<and> bv_ty r = (if produces_bool then TBool else TByte)"
  using assms arity_result [of oper 2] by (auto simp: validate_byte_operands_def split: if_splits)

lemma exec_byte_bitwise_safe:
  assumes "valid_byte_bitwise operator oper available = []"
  shows "outcome_safe program oper (exec_byte_bitwise operator oper vals)"
  using assms byte_operands_result [of False oper available]
  by (auto simp: valid_byte_bitwise_def exec_byte_bitwise_def matches_iff byte_bitwise_domain split: option.splits)

lemma exec_byte_shift_safe:
  assumes "valid_byte_shift operator oper available = []"
  shows "outcome_safe program oper (exec_byte_shift operator oper vals)"
  using assms arity_result [of oper 2]
  by (auto simp: valid_byte_shift_def exec_byte_shift_def matches_iff byte_shift_domain split: option.splits)

lemma exec_byte_compare_safe:
  assumes "valid_byte_compare predicate oper available = []"
  shows "outcome_safe program oper (exec_byte_compare predicate oper vals)"
  using assms byte_operands_result [of True oper available]
  by (auto simp: valid_byte_compare_def exec_byte_compare_def matches_iff split: option.splits)

lemma wrap_to_bits_in_range: "wrap_to_bits v (ty_bits ty) (ty_signed ty) = Some w \<Longrightarrow> in_range w ty"
  using wrap_None_iff [of v "ty_bits ty" "ty_signed ty"]
  by (cases "valid_bits (ty_bits ty)") (auto simp: wrap_to_bits_eq wrap_valid in_range_reduce)

lemma wrap_to_byte: "wrap_to_bits v 8 False = Some w \<Longrightarrow> byte_domain w"
  using wrap_to_bits_in_range [of v "\<lparr>ty_bits = 8, ty_signed = False\<rparr>" w]
  by (simp add: in_range_iff valid_bits_def fits_def byte_domain_def)

text \<open>A converted value has the target type, given that the operand has the source type.\<close>

lemma convert_matches:
  assumes "value_matches_type program v source" and "is_convertible_scalar target"
    and "convert_scalar_value v source target = Inr w"
  shows "value_matches_type program w target"
proof -
  have widths: "valid_bits (ty_bits ty)" if "target = TInteger ty" for ty
    using assms(2) that by (simp add: is_convertible_scalar_def valid_bits_def)
  show ?thesis
  proof (cases "is_float_type source \<or> is_float_type target")
    case False
    then show ?thesis
      using assms by (auto simp: convert_scalar_value_def convert_scalar_inner_def Let_def matches_iff byte_domain_def
          split: option.splits execution_value.splits body_type.splits if_splits
          dest: wrap_to_bits_in_range wrap_to_byte)
  next
    case True
    have int: "in_range (saturate_i128 t) ty"
      if "target = TInteger ty" "\<not> t < lo" "\<not> hi \<le> t" "integer_domain_bounds (ty_bits ty) (ty_signed ty) = (lo, hi)"
      for t ty lo hi
    proof -
      have "fits_type ty t"
        using integer_domain_bounds_fits [OF widths [OF that(1)], of "ty_signed ty" t] that(2-4) by simp
      then show ?thesis using saturate_fits [OF widths [OF that(1)]] widths [OF that(1)] by (simp add: in_range_iff)
    qed
    from True show ?thesis
      using assms int by (auto simp: convert_scalar_value_def convert_float_edge_def from_bits_def Let_def matches_iff
          byte_domain_def split: option.splits execution_value.splits body_type.splits if_splits prod.splits)
  qed
qed

lemma exec_convert_safe:
  assumes typed: "env_typed program available vals" and valid: "valid_convert source target oper available = []"
  shows "outcome_safe program oper (exec_convert source target oper vals)"
proof -
  obtain x where x: "bo_operands oper = [x]" "available x = Some source"
    using valid arity_operands [of oper 1]
    by (auto simp: valid_convert_def operand_ty_def operand_def length_Suc_conv)
  have "value_matches_type program w target"
    if "vals x = Some v" "convert_scalar_value v source target = Inr w" for v w
    using convert_matches [OF env_typedD [OF typed that(1) x(2)] _ that(2)] valid by (simp add: valid_convert_def)
  with valid arity_result [of oper 1] x show ?thesis
    by (auto simp: exec_convert_def operand_value_def operand_def valid_convert_def
        split: option.splits sum.splits conversion_failure.splits)
qed


section \<open>Sequences and views\<close>

lemma operand_value_typed:
  assumes "env_typed program available vals" "operand_ty oper available i = Some ty" "operand_value oper vals i = Some v"
  shows "value_matches_type program v ty"
  using assms by (auto simp: operand_ty_def operand_value_def bind_eq_Some_conv dest: env_typedD)

lemma operand_or_empty_typed:
  assumes "env_typed program available vals" "operand_ty oper available i = Some ty" "operand_or_empty oper vals i = Some v"
  shows "value_matches_type program v ty"
  using assms by (auto simp: operand_ty_def operand_or_empty_def dest: env_typedD)

lemma the_sequence_Some: "the_sequence v = Some vs \<longleftrightarrow> v = VSequence vs"
  by (cases v) auto

lemma the_vector_Some: "the_vector v = Some vs \<longleftrightarrow> v = VVector vs"
  by (cases v) auto

lemma the_mask_Some: "the_mask v = Some bits \<longleftrightarrow> v = VMask bits"
  by (cases v) auto

lemma the_integer_Some: "the_integer v = Some i \<longleftrightarrow> (\<exists>ty. v = VInteger i ty)"
  by (cases v) auto

lemma sequence_operand_typed:
  assumes "env_typed program available vals" "operand_ty oper available i = Some (TSequence element bound)"
    and "sequence_operand oper vals i = Some vs"
  shows "bound_admits bound (length vs)" "\<forall>w\<in>set vs. value_matches_type program w element"
  using assms(3) operand_value_typed [OF assms(1,2)]
  by (auto simp: sequence_operand_def bind_eq_Some_conv the_sequence_Some matches_TSequence)

lemma vector_operand_typed:
  assumes "env_typed program available vals" "operand_ty oper available i = Some (TVector element lanes)"
    and "Option.bind (operand_or_empty oper vals i) the_vector = Some vs"
  shows "length vs = lanes" "\<forall>w\<in>set vs. value_matches_type program w element"
  using assms(3) operand_or_empty_typed [OF assms(1,2)]
  by (auto simp: bind_eq_Some_conv the_vector_Some matches_TVector)

lemma mask_operand_typed:
  assumes "env_typed program available vals" "operand_ty oper available i = Some (TMask lanes)"
    and "Option.bind (operand_or_empty oper vals i) the_mask = Some bits"
  shows "length bits = lanes"
  using assms(3) operand_or_empty_typed [OF assms(1,2)]
  by (auto simp: bind_eq_Some_conv the_mask_Some matches_TMask)

lemma in_range_u64: "in_range v \<lparr>ty_bits = 64, ty_signed = False\<rparr> \<longleftrightarrow> 0 \<le> v \<and> v < 2 ^ 64"
  by (simp add: in_range_iff valid_bits_def fits_def)

lemma integer_operand_u64:
  assumes "env_typed program available vals" "operand_ty oper available i = Some u64_type"
    and "integer_operand oper vals i = Some v"
  shows "0 \<le> v" "v < 2 ^ 64"
  using assms(3) operand_value_typed [OF assms(1,2)]
  by (auto simp: integer_operand_def bind_eq_Some_conv the_integer_Some u64_type_def matches_TInteger in_range_u64)

lemma u64_value_matches: "0 \<le> v \<Longrightarrow> v < 2 ^ 64 \<Longrightarrow> value_matches_type program (u64_value v) u64_type"
  by (auto simp: u64_value_def u64_type_def matches_TInteger in_range_u64)

text \<open>Operands collected one by one match a type they all have.\<close>

lemma collect_operands_typed:
  assumes "env_typed program available vals" "\<forall>x\<in>set (bo_operands oper). available x = Some ty"
    and "collect_operands oper vals = Some vs"
  shows "length vs = length (bo_operands oper)" "\<forall>v\<in>set vs. value_matches_type program v ty"
proof -
  have all: "map vals (bo_operands oper) = map Some vs"
    using assms(3) by (auto simp: collect_operands_def dest: collect_options_Some [THEN iffD1])
  then show len: "length vs = length (bo_operands oper)" using map_eq_imp_length_eq by metis
  have "value_matches_type program (vs ! i) ty" if "i < length vs" for i
  proof -
    have "vals (bo_operands oper ! i) = Some (vs ! i)" using all that len by (metis nth_map)
    with assms(1,2) that len show ?thesis by (metis env_typedD nth_mem)
  qed
  then show "\<forall>v\<in>set vs. value_matches_type program v ty" by (metis in_set_conv_nth)
qed

lemma exec_sequence_construct_safe:
  assumes typed: "env_typed program available vals" and valid: "valid_sequence_construct ty len oper available = []"
  shows "outcome_safe program oper (exec_sequence_construct len oper vals)"
proof -
  obtain r where r: "bo_results oper = [r]" using valid arity_result [of oper len] by (auto simp: valid_sequence_construct_def)
  have all: "\<forall>x\<in>set (bo_operands oper). available x = Some ty"
    using valid by (auto simp: valid_sequence_construct_def)
  have "value_matches_type program (VSequence vs) (bv_ty r)"
    if "collect_operands oper vals = Some vs" "length vs = len" for vs
    using valid r that(2) collect_operands_typed [OF typed all that(1)]
    by (auto simp: valid_sequence_construct_def matches_TSequence split: body_type.splits sequence_bound.splits)
  with r show ?thesis by (auto simp: exec_sequence_construct_def split: option.splits)
qed

lemma exec_sequence_project_safe:
  assumes typed: "env_typed program available vals" and valid: "valid_sequence_project bound oper available = []"
  shows "outcome_safe program oper (exec_sequence_project evidence oper vals)"
proof -
  obtain r where r: "bo_results oper = [r]"
    using valid arity_result by (auto simp: valid_sequence_project_def Let_def)
  obtain actual where actual: "operand_ty oper available 0 = Some actual"
    "actual = TSequence (bv_ty r) bound \<or> body_view_widening actual (TSequence (bv_ty r) bound)"
    using valid r by (auto simp: valid_sequence_project_def Let_def split: option.splits)
  have "\<forall>w\<in>set vs. value_matches_type program w (bv_ty r)" if "sequence_operand oper vals 0 = Some vs" for vs
  proof -
    have "value_matches_type program (VSequence vs) actual"
      using that operand_value_typed [OF typed actual(1)]
      by (auto simp: sequence_operand_def bind_eq_Some_conv the_sequence_Some)
    then have "value_matches_type program (VSequence vs) (TSequence (bv_ty r) bound)"
      using actual(2) matches_widening by auto
    then show ?thesis by (simp add: matches_TSequence)
  qed
  with r show ?thesis
    by (auto simp: exec_sequence_project_def lane_failure_def split: option.splits)
qed

lemma exec_sequence_replace_safe:
  assumes typed: "env_typed program available vals" and valid: "valid_sequence_replace element bound oper available = []"
  shows "outcome_safe program oper (exec_sequence_replace bound oper vals)"
proof -
  obtain r where r: "bo_results oper = [r]" and rty: "bv_ty r = TSequence element bound"
    using valid arity_result [of oper 3] by (auto simp: valid_sequence_replace_def Let_def)
  have source: "operand_ty oper available 0 = Some (TSequence element bound)"
    and index: "operand_ty oper available 1 = Some u64_type" and item: "operand_ty oper available 2 = Some element"
    using valid by (auto simp: valid_sequence_replace_def Let_def)
  show ?thesis
  proof (cases bound)
    case (Exact len)
    have "nat i < length vs \<and> value_matches_type program (VSequence (vs[nat i := w])) (bv_ty r)"
      if "sequence_operand oper vals 0 = Some vs" "operand_or_empty oper vals 2 = Some w" "\<not> i < 0" "\<not> int len \<le> i" for vs w i
      using sequence_operand_typed [OF typed source that(1)] operand_or_empty_typed [OF typed item that(2)] that(3,4) Exact rty
      by (auto simp: matches_TSequence dest: subsetD [OF set_update_subset_insert])
    with Exact r show ?thesis by (auto simp: exec_sequence_replace_def split: option.splits)
  qed (auto simp: exec_sequence_replace_def)
qed

lemma exec_bound_check_safe:
  assumes typed: "env_typed program available vals" and valid: "valid_bound_check oper available = Proceed []"
  shows "outcome_safe program oper (exec_bound_check oper vals)"
proof -
  obtain r where r: "bo_results oper = [r]" "bv_ty r = u64_type"
    and index: "operand_ty oper available 1 = Some u64_type"
    using valid arity_result [of oper 2] by (auto simp: valid_bound_check_def split: if_splits)
  with u64_value_matches integer_operand_u64 [OF typed index] show ?thesis
    by (auto simp: exec_bound_check_def split: option.splits)
qed

lemma set_copy_window: "set (copy_window d i s j n) \<subseteq> set d \<union> set s"
  by (auto simp: copy_window_def dest: in_set_takeD in_set_dropD)

lemma length_copy_window:
  "i + n \<le> length d \<Longrightarrow> j + n \<le> length s \<Longrightarrow> length (copy_window d i s j n) = length d"
  by (simp add: copy_window_def)

lemma exec_sequence_copy_safe:
  assumes typed: "env_typed program available vals"
    and valid: "valid_sequence_copy element dst_bound src_bound oper available = []"
  shows "outcome_safe program oper (exec_sequence_copy dst_bound oper vals)"
proof -
  obtain len where bound: "dst_bound = Exact len"
    using valid by (auto simp: valid_sequence_copy_def Let_def split: sequence_bound.splits)
  obtain r where r: "bo_results oper = [r]" and rty: "bv_ty r = TSequence element (Exact len)"
    using valid arity_result [of oper 5] bound by (auto simp: valid_sequence_copy_def Let_def)
  have dst: "operand_ty oper available 0 = Some (TSequence element (Exact len))"
    using valid bound by (auto simp: valid_sequence_copy_def Let_def)
  obtain actual where actual: "operand_ty oper available 2 = Some actual"
    "actual = TSequence element src_bound \<or> body_view_widening actual (TSequence element src_bound)"
    using valid by (auto simp: valid_sequence_copy_def Let_def split: option.splits)
  have "nat i + nat n \<le> length d \<and>
      value_matches_type program (VSequence (copy_window d (nat i) s (nat j) (nat n))) (bv_ty r)"
    if d: "sequence_operand oper vals 0 = Some d" and s: "sequence_operand oper vals 2 = Some s"
      and b: "0 \<le> i" "0 \<le> j" "0 \<le> n" "i + n \<le> int len" "j + n \<le> int (length s)" for d s i j n
  proof -
    have "value_matches_type program (VSequence s) actual"
      using s operand_value_typed [OF typed actual(1)]
      by (auto simp: sequence_operand_def bind_eq_Some_conv the_sequence_Some)
    then have src: "\<forall>w\<in>set s. value_matches_type program w element"
      using actual(2) matches_widening [of actual "TSequence element src_bound"] by (auto simp: matches_TSequence)
    note dd = sequence_operand_typed [OF typed dst d]
    have l: "nat i + nat n \<le> length d" "nat j + nat n \<le> length s" using b dd(1) by auto
    have "\<forall>w\<in>set (copy_window d (nat i) s (nat j) (nat n)). value_matches_type program w element"
      using set_copy_window dd(2) src by blast
    with l show ?thesis by (simp add: rty matches_TSequence length_copy_window dd(1) [simplified])
  qed
  with bound r show ?thesis
    by (auto simp: exec_sequence_copy_def split: option.splits)
qed

text \<open>A length fits \<open>u64\<close> when the bound of the operand's type does, as the \<open>u32\<close> of the source.\<close>

definition small_bounds :: "types \<Rightarrow> bool" where
  "small_bounds types \<longleftrightarrow>
     (\<forall>x element bound. types x = Some (TSequence element bound) \<longrightarrow>
        (case bound of Exact n \<Rightarrow> n < 2 ^ 32 | UpTo n \<Rightarrow> n < 2 ^ 32 | _ \<Rightarrow> True))"

lemma exec_sequence_length_safe:
  assumes typed: "env_typed program available vals" and small: "small_bounds available"
    and known: "operand_ty oper available 0 \<noteq> None" and valid: "valid_sequence_length oper = Proceed []"
  shows "outcome_safe program oper (exec_sequence_length oper vals)"
proof -
  obtain r where r: "bo_results oper = [r]" "bv_ty r = u64_type"
    using valid arity_result [of oper 1] by (auto simp: valid_sequence_length_def split: if_splits)
  obtain ty where ty: "operand_ty oper available 0 = Some ty" using known by auto
  have "length vs < 2 ^ 64" if "sequence_operand oper vals 0 = Some vs" for vs
  proof -
    have "value_matches_type program (VSequence vs) ty"
      using that operand_value_typed [OF typed ty]
      by (auto simp: sequence_operand_def bind_eq_Some_conv the_sequence_Some)
    then obtain element bound where "ty = TSequence element bound" "bound_admits bound (length vs)"
      by (cases ty) (auto simp: matches_iff)
    then show ?thesis using ty small by (cases bound) (force simp: small_bounds_def operand_ty_def)+
  qed
  then show ?thesis using r u64_value_matches by (auto simp: exec_sequence_length_def split: option.splits)
qed

lemma exec_view_construct_safe:
  assumes typed: "env_typed program available vals"
    and valid: "valid_view_construct source_bound view_bound oper available = Proceed []"
  shows "outcome_safe program oper (exec_view_construct view_bound oper vals)"
proof -
  obtain capacity where bound: "view_bound = UpTo capacity"
    using valid by (auto simp: valid_view_construct_def Let_def split: if_splits sequence_bound.splits)
  obtain element where source: "operand_ty oper available 0 = Some (TSequence element source_bound)"
    using valid bound by (auto simp: valid_view_construct_def Let_def split: if_splits option.splits body_type.splits)
  obtain r where r: "bo_results oper = [r]" and rty: "same_type (bv_ty r) (TSequence element (UpTo capacity))"
    using valid bound source arity_result [of oper 3] by (auto simp: valid_view_construct_def Let_def split: if_splits)
  have "value_matches_type program (VSequence (take (nat stop - nat start) (drop (nat start) vs))) (bv_ty r)"
    if "sequence_operand oper vals 0 = Some vs" "\<not> int capacity < stop - start" "\<not> start < 0" for vs start stop
    unfolding matches_same_type [OF rty]
    using that(2,3) sequence_operand_typed(2) [OF typed source that(1)]
    by (auto simp: matches_TSequence dest!: in_set_takeD in_set_dropD)
  with bound r show ?thesis
    by (auto simp: exec_view_construct_def split: option.splits)
qed

lemma exec_view_narrow_safe:
  assumes typed: "env_typed program available vals"
    and valid: "valid_view_narrow source_cap new_cap oper available = Proceed []"
  shows "outcome_safe program oper (exec_view_narrow new_cap oper vals)"
proof -
  obtain element where source: "operand_ty oper available 0 = Some (TSequence element (UpTo source_cap))"
    using valid by (auto simp: valid_view_narrow_def Let_def split: if_splits option.splits body_type.splits)
  obtain r where r: "bo_results oper = [r]" and rty: "bv_ty r = TSequence element (UpTo new_cap)"
    using valid source arity_result [of oper 1] by (auto simp: valid_view_narrow_def Let_def split: if_splits)
  show ?thesis
    using r rty sequence_operand_typed(2) [OF typed source]
    by (auto simp: exec_view_narrow_def matches_TSequence split: option.splits)
qed


section \<open>Vectors, masks and selection\<close>

lemma exec_vector_construct_safe:
  assumes typed: "env_typed program available vals" and valid: "valid_vector_construct ty lanes oper available = []"
  shows "outcome_safe program oper (exec_vector_construct lanes oper vals)"
proof -
  obtain r where r: "bo_results oper = [r]" "bv_ty r = TVector ty lanes"
    using valid arity_result [of oper lanes] by (auto simp: valid_vector_construct_def)
  have all: "\<forall>x\<in>set (bo_operands oper). available x = Some ty"
    using valid by (auto simp: valid_vector_construct_def list_ex_iff)
  from r collect_operands_typed [OF typed all] show ?thesis
    by (auto simp: exec_vector_construct_def matches_TVector split: option.splits)
qed

lemma exec_vector_splat_safe:
  assumes typed: "env_typed program available vals" and valid: "valid_vector_splat ty lanes oper available = []"
  shows "outcome_safe program oper (exec_vector_splat lanes oper vals)"
proof -
  obtain r where r: "bo_results oper = [r]" "bv_ty r = TVector ty lanes"
    using valid arity_result [of oper 1] by (auto simp: valid_vector_splat_def)
  have "operand_ty oper available 0 = Some ty" using valid by (simp add: valid_vector_splat_def)
  from r operand_or_empty_typed [OF typed this] show ?thesis
    by (auto simp: exec_vector_splat_def matches_TVector split: option.splits)
qed

lemma exec_vector_extract_safe:
  assumes typed: "env_typed program available vals" and valid: "valid_vector_extract ty lanes oper available = []"
  shows "outcome_safe program oper (exec_vector_extract lanes evidence oper vals)"
proof -
  obtain r where r: "bo_results oper = [r]" "bv_ty r = ty"
    using valid arity_result [of oper 2] by (auto simp: valid_vector_extract_def)
  have source: "operand_ty oper available 0 = Some (TVector ty lanes)" using valid by (simp add: valid_vector_extract_def)
  have "nat i < length vs \<and> value_matches_type program (vs ! nat i) ty"
    if "Option.bind (operand_or_empty oper vals 0) the_vector = Some vs" "\<not> i < 0" "\<not> int lanes \<le> i" for vs i
    using vector_operand_typed [OF typed source that(1)] that(2,3) by (auto simp: nat_less_iff)
  with r show ?thesis
    by (auto simp: exec_vector_extract_def lane_failure_def indexed_def split: option.splits)
qed

lemma exec_vector_replace_safe:
  assumes typed: "env_typed program available vals" and valid: "valid_vector_replace ty lanes oper available = []"
  shows "outcome_safe program oper (exec_vector_replace lanes evidence oper vals)"
proof -
  obtain r where r: "bo_results oper = [r]" "bv_ty r = TVector ty lanes"
    using valid arity_result [of oper 3] by (auto simp: valid_vector_replace_def)
  have source: "operand_ty oper available 0 = Some (TVector ty lanes)" and item: "operand_ty oper available 2 = Some ty"
    using valid by (simp_all add: valid_vector_replace_def)
  have "nat i < length vs \<and> value_matches_type program (VVector (vs[nat i := w])) (bv_ty r)"
    if "Option.bind (operand_or_empty oper vals 0) the_vector = Some vs" "operand_or_empty oper vals 2 = Some w"
      "\<not> i < 0" "\<not> int lanes \<le> i" for vs w i
    using vector_operand_typed [OF typed source that(1)] operand_or_empty_typed [OF typed item that(2)] that(3,4) r
    by (auto simp: matches_TVector nat_less_iff dest: subsetD [OF set_update_subset_insert])
  with r show ?thesis
    by (auto simp: exec_vector_replace_def lane_failure_def split: option.splits)
qed

text \<open>Two operands with lanes: both have the declared type, so the lane counts agree.\<close>

lemma lanes_of_typed:
  assumes "env_typed program available vals" "\<forall>x\<in>set (bo_operands oper). available x = Some ty"
    and "lanes_of get oper vals = Some (left, right)"
  shows "\<exists>v w. value_matches_type program v ty \<and> get v = Some left \<and>
    value_matches_type program w ty \<and> get w = Some right \<and> length left = length right"
proof -
  obtain v w where vw: "operand_value oper vals 0 = Some v" "get v = Some left"
    "operand_value oper vals 1 = Some w" "get w = Some right" "length left = length right"
    using assms(3) by (auto simp: lanes_of_def bind_eq_Some_conv split: if_splits)
  have "value_matches_type program v ty" if "operand_value oper vals i = Some v" for v i
    using that assms(1,2)
    by (auto simp: operand_value_def operand_def bind_eq_Some_conv split: if_splits) (metis env_typedD nth_mem)
  with vw show ?thesis by blast
qed

lemma intended_in_lane:
  assumes "intended_bits intent ty = ty_bits ty" "arithmetic_result_type operator ty intent = Some rt"
  shows "rt = ty"
  using assms by (auto simp: arithmetic_result_type_def intended_bits_def
      split: if_splits arithmetic_intent.splits option.splits)

lemma vector_lane_typed:
  assumes "vector_lane operator ty intent l r = Some v"
    and "value_matches_type program l (TInteger ty)" "value_matches_type program r (TInteger ty)"
    and "operator \<in> {''min'', ''max''} \<or> intended_bits intent ty = ty_bits ty"
  shows "value_matches_type program v (TInteger ty)"
proof -
  obtain a b where ab: "l = VInteger a ty" "r = VInteger b ty" "in_range a ty" "in_range b ty"
    using assms(1-3) by (cases l; cases r) (auto simp: vector_lane_def matches_TInteger split: if_splits)
  have "in_range c ty" if "evaluate_integer operator ty intent a b = Some c" "operator \<notin> {''min'', ''max''}" for c
    using evaluate_integer_exact [OF that(1)] intended_in_lane [of intent ty operator] assms(4) that(2) by auto
  then show ?thesis
    using assms(1) ab by (auto simp: vector_lane_def matches_TInteger bind_eq_Some_conv min_def max_def split: if_splits)
qed

lemma exec_vector_binary_safe:
  assumes typed: "env_typed program available vals" and valid: "valid_vector_binary operator ty lanes oper available = []"
    and lane: "operator \<in> {''min'', ''max''} \<or> (\<forall>t. ty = TInteger t \<longrightarrow> intended_bits intent t = ty_bits t)"
  shows "outcome_safe program oper (exec_vector_binary operator ty intent oper vals)"
proof -
  obtain t where t: "ty = TInteger t"
    using valid by (auto simp: valid_vector_binary_def is_integer_type_def split: body_type.splits)
  obtain r where r: "bo_results oper = [r]" "bv_ty r = TVector ty lanes"
    using valid arity_result [of oper 2] by (auto simp: valid_vector_binary_def)
  have all: "\<forall>x\<in>set (bo_operands oper). available x = Some (TVector ty lanes)"
    using valid by (auto simp: valid_vector_binary_def list_ex_iff)
  have "value_matches_type program (VVector produced) (TVector ty lanes)"
    if "vector_operands oper vals = Some (left, right)"
      and "evaluate_vector_binary operator ty intent left right = Some produced" for left right produced
  proof -
    have sides: "length left = lanes" "length right = lanes"
      "\<forall>w\<in>set left. value_matches_type program w ty" "\<forall>w\<in>set right. value_matches_type program w ty"
      using lanes_of_typed [OF typed all that(1) [unfolded vector_operands_def]]
      by (auto simp: the_vector_Some matches_TVector)
    have eq: "map (\<lambda>(l, r). vector_lane operator t intent l r) (zip left right) = map Some produced"
      using that(2) t by (auto simp: evaluate_vector_binary_def dest: collect_options_Some [THEN iffD1])
    then have len: "length produced = lanes" using sides(1,2) by (metis length_map length_zip min.idem)
    have "value_matches_type program (produced ! i) ty" if "i < lanes" for i
    proof -
      have "vector_lane operator t intent (left ! i) (right ! i) = Some (produced ! i)"
        using arg_cong [OF eq, of "\<lambda>xs. xs ! i"] that sides(1,2) len by simp
      then show ?thesis
        using vector_lane_typed [of operator t intent "left ! i" "right ! i" "produced ! i" program]
          lane sides that t by auto
    qed
    with len show ?thesis by (auto simp: matches_TVector in_set_conv_nth)
  qed
  with r show ?thesis
    by (auto simp: exec_vector_binary_def split: option.splits)
qed

lemma exec_vector_compare_safe:
  assumes typed: "env_typed program available vals" and valid: "valid_vector_compare predicate ty lanes oper available = []"
  shows "outcome_safe program oper (exec_vector_compare predicate ty oper vals)"
proof -
  obtain r where r: "bo_results oper = [r]" "bv_ty r = TMask lanes"
    using valid arity_result [of oper 2] by (auto simp: valid_vector_compare_def)
  have all: "\<forall>x\<in>set (bo_operands oper). available x = Some (TVector ty lanes)"
    using valid by (auto simp: valid_vector_compare_def list_ex_iff)
  have "length bits = lanes"
    if "vector_operands oper vals = Some (left, right)" "evaluate_vector_compare predicate ty left right = Some bits"
    for left right bits
    using lanes_of_typed [OF typed all that(1) [unfolded vector_operands_def]] that(2)
    by (auto simp: the_vector_Some matches_TVector evaluate_vector_compare_def split: body_type.splits
        dest!: collect_options_Some [THEN iffD1] dest: arg_cong [of _ _ length])
  with r show ?thesis
    by (auto simp: exec_vector_compare_def matches_TMask split: option.splits)
qed

lemma exec_mask_binary_safe:
  assumes typed: "env_typed program available vals" and valid: "valid_mask_binary operator lanes oper available = []"
  shows "outcome_safe program oper (exec_mask_binary operator oper vals)"
proof -
  obtain r where r: "bo_results oper = [r]" "bv_ty r = TMask lanes"
    using valid arity_result [of oper 2] by (auto simp: valid_mask_binary_def)
  have all: "\<forall>x\<in>set (bo_operands oper). available x = Some (TMask lanes)"
    using valid by (auto simp: valid_mask_binary_def list_ex_iff)
  from r lanes_of_typed [OF typed all, of the_mask] show ?thesis
    by (fastforce simp: exec_mask_binary_def mask_operands_def the_mask_Some matches_TMask split: option.splits)
qed

lemma exec_mask_not_safe:
  assumes typed: "env_typed program available vals" and valid: "valid_mask_not lanes oper available = []"
  shows "outcome_safe program oper (exec_mask_not oper vals)"
proof -
  obtain r where r: "bo_results oper = [r]" "bv_ty r = TMask lanes"
    using valid arity_result [of oper 1] by (auto simp: valid_mask_not_def)
  have "operand_ty oper available 0 = Some (TMask lanes)" using valid by (simp add: valid_mask_not_def)
  from r mask_operand_typed [OF typed this] show ?thesis
    by (auto simp: exec_mask_not_def matches_TMask split: option.splits)
qed

lemma exec_mask_reduce_safe:
  assumes "valid_mask_reduce operator lanes oper available = []"
  shows "outcome_safe program oper (exec_mask_reduce operator oper vals)"
  using assms arity_result [of oper 1]
  by (auto simp: valid_mask_reduce_def exec_mask_reduce_def matches_same_bool split: option.splits)

lemma reduce_lanes_typed:
  assumes "reduce_lanes operator ty intent a lanes = Some v" "in_range a ty"
    and "\<forall>w\<in>set lanes. value_matches_type program w (TInteger ty)"
    and "operator \<in> {''min'', ''max''} \<or> intended_bits intent ty = ty_bits ty"
  shows "in_range v ty"
  using assms(1-3)
proof (induction lanes arbitrary: a)
  case (Cons lane lanes)
  then obtain b c where b: "lane = VInteger b ty" "in_range b ty" and c: "reduce_step operator ty intent a b = Some c"
    and rest: "reduce_lanes operator ty intent c lanes = Some v"
    by (cases lane) (auto simp: bind_eq_Some_conv matches_TInteger split: if_splits)
  have "in_range c ty"
  proof (cases "operator \<in> {''min'', ''max''}")
    case True
    with b c Cons.prems(2) show ?thesis by (auto simp: reduce_step_def min_def max_def split: if_splits)
  next
    case False
    with c have "evaluate_integer ''add'' ty intent a b = Some c" by (auto simp: reduce_step_def split: if_splits)
    from evaluate_integer_exact [OF this] intended_in_lane [of intent ty "''add''"] assms(4) False show ?thesis by auto
  qed
  with Cons.IH [OF rest] Cons.prems(3) show ?case by simp
qed auto

lemma exec_vector_reduce_safe:
  assumes typed: "env_typed program available vals" and valid: "valid_vector_reduce operator ty lanes oper available = []"
    and lane: "operator \<in> {''min'', ''max''} \<or> (\<forall>t. ty = TInteger t \<longrightarrow> intended_bits intent t = ty_bits t)"
  shows "outcome_safe program oper (exec_vector_reduce operator ty intent oper vals)"
proof -
  obtain r where r: "bo_results oper = [r]" "bv_ty r = ty"
    using valid arity_result [of oper 1] by (auto simp: valid_vector_reduce_def)
  have source: "operand_ty oper available 0 = Some (TVector ty lanes)" using valid by (simp add: valid_vector_reduce_def)
  have "value_matches_type program v ty"
    if vs: "Option.bind (operand_or_empty oper vals 0) the_vector = Some vs"
      and e: "evaluate_vector_reduce operator ty intent vs = Some v" for vs v
  proof -
    obtain t first rest a c where t: "ty = TInteger t" and vs': "vs = first # rest" "first = VInteger a t"
      and c: "reduce_lanes operator t intent a rest = Some c" "v = VInteger c t"
      using e by (auto simp: evaluate_vector_reduce_def bind_eq_Some_conv elim!: integer_lane.elims
          split: body_type.splits list.splits if_splits)
    have elems: "\<forall>w\<in>set vs. value_matches_type program w (TInteger t)"
      using vector_operand_typed(2) [OF typed source vs] t by simp
    then have "in_range a t" using vs' by (simp add: matches_TInteger)
    from reduce_lanes_typed [OF c(1) this] elems vs'(1) lane t have "in_range c t" by auto
    then show ?thesis using t c(2) by (simp add: matches_TInteger)
  qed
  with r show ?thesis
    by (auto simp: exec_vector_reduce_def split: option.splits)
qed

lemma exec_select_safe:
  assumes typed: "env_typed program available vals" and valid: "valid_select ty oper available = Proceed []"
  shows "outcome_safe program oper (exec_select oper vals)"
proof -
  have arity: "\<not> arity_differs oper 3" using valid by (auto simp: valid_select_def split: if_splits)
  then obtain c x y where ops: "bo_operands oper = [c, x, y]"
    by (auto simp: arity_differs_def numeral_3_eq_3 length_Suc_conv)
  obtain r where r: "bo_results oper = [r]" "bv_ty r = ty"
    using valid arity arity_result [of oper 3] by (auto simp: valid_select_def Let_def)
  define ct where "ct = (case ty of TVector _ lanes \<Rightarrow> TMask lanes | _ \<Rightarrow> TBool)"
  obtain cty where cty: "available c = Some cty" "same_type cty ct" and xy: "available x = Some ty" "available y = Some ty"
    using valid arity ops by (auto simp: valid_select_def Let_def ct_def has_type_iff)
  have cond: "value_matches_type program v ct" if "vals c = Some v" for v
    using env_typedD [OF typed that cty(1)] matches_same_type [OF cty(2)] by simp
  have masked: "outcome_safe program oper (select_lanes lanes oper vals)" if "vals c = Some (VMask lanes)" for lanes
  proof -
    note mask = cond [OF that]
    obtain element n where ty: "ty = TVector element n" and "length lanes = n"
      using mask by (cases ty) (auto simp: ct_def matches_iff)
    have "value_matches_type program
        (VVector (map (\<lambda>(lane, t, f). if lane then t else f) (zip lanes (zip ts fs)))) (TVector element n)"
      if "vals x = Some v" "the_vector v = Some ts" "vals y = Some w" "the_vector w = Some fs"
        "length lanes = length ts" "length lanes = length fs" for v w ts fs
      using env_typedD [OF typed that(1) xy(1)] env_typedD [OF typed that(3) xy(2)] that \<open>length lanes = n\<close> ty
      by (auto simp: the_vector_Some matches_TVector dest!: set_zip_leftD set_zip_rightD elim!: in_set_zipE)
    with ops r ty show ?thesis
      by (auto simp: select_lanes_def operand_def bind_eq_Some_conv split: option.splits)
  qed
  show ?thesis
    using ops r masked xy env_typedD [OF typed]
    by (auto simp: exec_select_def operand_or_empty_def operand_def split: option.splits execution_value.splits)
qed


section \<open>Nominal values\<close>

text \<open>Identities are unambiguous: looking one up, also by name, finds the declaration that has it; it
  names its module; and the fields of a record are declared in the order of their names, as the
  front end declares them.\<close>

definition nominals_ok :: "program \<Rightarrow> bool" where
  "nominals_ok program \<longleftrightarrow>
     list_all (\<lambda>ft. find_finite program (ft_identity ft) = Some ft \<and> declaring_module (ft_identity ft) \<noteq> None \<and>
         list_all (\<lambda>var. find_variant ft (fv_identity var) = Some var) (ft_variants ft)) (pg_finite_types program) \<and>
     list_all (\<lambda>rt. find_record_decl program (rt_identity rt) = Some rt \<and> declaring_module (rt_identity rt) \<noteq> None \<and>
         sorted (map rf_name (rt_fields rt))) (pg_record_types program)"

lemma scalar_name_not_bool: "scalar_name name \<noteq> TNamed ''bool''"
  by (auto simp: scalar_name_def split: option.splits)

lemma from_semantic_name_not_bool: "from_semantic_name name \<noteq> TNamed ''bool''"
  by (subst from_semantic_name.simps)
    (auto simp: vector_of_def parse_mask_name_def scalar_name_not_bool bind_eq_Some_conv
      split: option.splits body_type.splits)

lemma from_program_in_module_not_bool: "from_program_in_module program name m \<noteq> TNamed ''bool''"
  by (subst from_program_in_module.simps) (simp add: from_semantic_name_not_bool split: option.split)

text \<open>A value of the type validation reads off a field matches the field at run time.\<close>

lemma field_type_in_semantic:
  assumes "value_matches_type program v (semantic_record_field_type program field (Some m))"
  shows "field_type_in program m field = Some (semantic_record_field_type program field (Some m))"
  using assms from_program_in_module_not_bool [of program "rf_type field" m]
  by (auto simp: field_type_in_def semantic_record_field_type_def matches_TNamed split: body_type.splits)

lemma fields_match_semantic:
  assumes "distinct (map rf_name declared)" and "length vs = length declared"
    and "\<And>i. i < length declared \<Longrightarrow>
      value_matches_type program (vs ! i) (semantic_record_field_type program (declared ! i) (Some m))"
  shows "fields_match program ctxt declared m (checks program (zip (map rf_name declared) vs))"
proof -
  have len: "length (map rf_name declared) = length vs" using assms(2) by simp
  have "\<exists>v ty. map_of (zip (map rf_name declared) vs) (rf_name field) = Some v \<and>
      field_type_in program m field = Some ty \<and> value_matches_type program v ty" if "field \<in> set declared" for field
  proof -
    obtain i where i: "i < length declared" "declared ! i = field" using \<open>field \<in> set declared\<close> by (metis in_set_conv_nth)
    then have "map_of (zip (map rf_name declared) vs) (rf_name field) = Some (vs ! i)"
      using map_of_zip_nth [OF len assms(1), of i] assms(2) by simp
    with field_type_in_semantic [OF assms(3) [OF i(1)]] assms(3) [OF i(1)] i(2) show ?thesis by auto
  qed
  moreover have names: "map fst (zip (map rf_name declared) vs) = map rf_name declared" using len by simp
  moreover have "fst ` set (zip (map rf_name declared) vs) = rf_name ` set declared"
    using arg_cong [OF names, of set] by simp
  ultimately show ?thesis unfolding fields_match_checks names using assms(1) by blast
qed

lemma field_type_in_Some:
  "field_type_in program m field = Some ty \<Longrightarrow> ty = semantic_record_field_type program field (Some m)"
  by (auto simp: field_type_in_def semantic_record_field_type_def split: body_type.splits)

text \<open>And conversely a matched field holds a value of that type.\<close>

lemma fields_match_semanticD:
  assumes "fields_match program ctxt declared m (checks program fs)" "field \<in> set declared"
    and "map_of fs (rf_name field) = Some v"
  shows "value_matches_type program v (semantic_record_field_type program field (Some m))"
proof -
  obtain ty where "field_type_in program m field = Some ty" "value_matches_type program v ty"
    using assms unfolding fields_match_checks by (metis option.inject)
  then show ?thesis using field_type_in_Some by blast
qed

lemma declared_finite_Some:
  "declared_finite program identity = Some ft \<Longrightarrow> ft \<in> set (pg_finite_types program) \<and> ft_identity ft = identity"
  by (auto simp: declared_finite_def find_Some_iff)

lemma declared_record_Some:
  "declared_record program identity = Some rt \<Longrightarrow> rt \<in> set (pg_record_types program) \<and> rt_identity rt = identity"
  by (auto simp: declared_record_def find_Some_iff)

lemma declared_variant_Some:
  "declared_variant (Some ft) identity d = Some var \<Longrightarrow>
     var \<in> set (ft_variants ft) \<and> fv_identity var = identity \<and> fv_discriminant var = d"
  by (auto simp: declared_variant_def find_Some_iff)

lemma nominals_okD:
  assumes "nominals_ok program"
  shows "ft \<in> set (pg_finite_types program) \<Longrightarrow>
      find_finite program (ft_identity ft) = Some ft \<and> (\<exists>m. declaring_module (ft_identity ft) = Some m)"
    and "ft \<in> set (pg_finite_types program) \<Longrightarrow> var \<in> set (ft_variants ft) \<Longrightarrow>
      find_variant ft (fv_identity var) = Some var"
    and "rt \<in> set (pg_record_types program) \<Longrightarrow>
      find_record_decl program (rt_identity rt) = Some rt \<and> (\<exists>m. declaring_module (rt_identity rt) = Some m) \<and>
      sorted (map rf_name (rt_fields rt))"
  using assms by (auto simp: nominals_ok_def list_all_iff)

lemma collect_indexed:
  assumes "collect_options (map (\<lambda>i. operand_value oper vals i) [0..<n]) = Some vs"
  shows "length vs = n" "i < n \<Longrightarrow> operand_value oper vals i = Some (vs ! i)"
proof -
  have eq: "map (\<lambda>i. operand_value oper vals i) [0..<n] = map Some vs"
    using assms by (simp add: collect_options_Some)
  then show len: "length vs = n" by (metis length_map length_upt diff_zero)
  show "operand_value oper vals i = Some (vs ! i)" if "i < n"
    using arg_cong [OF eq, of "\<lambda>xs. xs ! i"] that len by simp
qed

lemma exec_finite_construct_safe:
  assumes typed: "env_typed program available vals" and nominal: "nominals_ok program"
    and known: "\<forall>x\<in>set (bo_operands oper). available x \<noteq> None"
    and valid: "valid_finite_construct program t var_id d payload_fields oper available = []"
  shows "outcome_safe program oper (exec_finite_construct t var_id d payload_fields oper vals)"
proof -
  obtain r where r: "bo_results oper = [r]"
    using valid one_result by (auto simp: valid_finite_construct_def Let_def)
  obtain ft where ft: "declared_finite program t = Some ft"
    using valid by (auto simp: valid_finite_construct_def Let_def)
  obtain var where var: "declared_variant (Some ft) var_id d = Some var"
    using valid ft by (auto simp: valid_finite_construct_def Let_def)
  have names: "map rf_name (fv_payload var) = payload_fields" and len: "length (bo_operands oper) = length payload_fields"
    and order: "sorted_wrt (<) payload_fields" and rty: "bv_ty r = finite_body_type ft"
    using valid ft var r by (auto simp: valid_finite_construct_def Let_def)
  obtain m where m: "declaring_module (ft_identity ft) = Some m" and ff: "find_finite program t = Some ft"
    and fv: "find_variant ft var_id = Some var"
    using nominals_okD [OF nominal] declared_finite_Some [OF ft] declared_variant_Some [OF var] by metis
  have dist: "distinct (map rf_name (fv_payload var))"
    using order names by (simp add: strict_sorted_iff)
  have "value_matches_type program (VFinite t var_id d (zip payload_fields vs)) (bv_ty r)"
    if vs: "collect_options (map (\<lambda>i. operand_value oper vals i) [0..<length payload_fields]) = Some vs" for vs
  proof -
    note vs' = collect_indexed [OF vs]
    have field: "value_matches_type program (vs ! i) (semantic_record_field_type program (fv_payload var ! i) (Some m))"
      if i: "i < length (fv_payload var)" for i
    proof -
      have i': "i < length payload_fields" using i names by auto
      have name: "rf_name (fv_payload var ! i) = payload_fields ! i" using i names by auto
      have "find (\<lambda>field. rf_name field = payload_fields ! i) (fv_payload var) = Some (fv_payload var ! i)"
        unfolding find_Some_iff
      proof (intro exI [of _ i] conjI allI impI)
        fix j assume "j < i"
        then show "rf_name (fv_payload var ! j) \<noteq> payload_fields ! i"
          using nth_eq_iff_index_eq [OF dist, of j i] i name by auto
      qed (use i name in simp_all)
      moreover obtain ty where ty: "available (bo_operands oper ! i) = Some ty"
        using known i' len by (metis nth_mem option.exhaust)
      ultimately have "ty = semantic_record_field_type program (fv_payload var ! i) (Some m)"
        using valid ft var r i' len m by (fastforce simp: valid_finite_construct_def Let_def dest!: bspec [where x = i])
      moreover have "value_matches_type program (vs ! i) ty"
        using vs'(2) [OF i'] ty i' len typed
        by (auto simp: operand_value_def operand_def intro: env_typedD)
      ultimately show ?thesis by simp
    qed
    have "fields_match program (''finite payload '' @ var_id) (fv_payload var) m (checks program (zip payload_fields vs))"
      using fields_match_semantic [OF dist _ field] vs'(1) names by auto
    moreover have "valid_finite_value program t var_id d"
      using ff declared_variant_Some [OF var] by (auto simp: valid_finite_value_def nominal_identity_matches_def list_ex_iff)
    ultimately show ?thesis
      using ff fv m declared_finite_Some [OF ft]
      by (simp add: rty finite_body_type_def matches_TFinite nominal_identity_matches_def finite_payload_matches_def or_default_def)
  qed
  with r show ?thesis by (auto simp: exec_finite_construct_def split: option.splits)
qed

lemma exec_finite_is_variant_safe:
  assumes "valid_finite_is_variant program t var d oper available = []"
  shows "outcome_safe program oper (exec_finite_is_variant program t var d oper vals)"
  using assms arity_result [of oper 1]
  by (auto simp: valid_finite_is_variant_def Let_def exec_finite_is_variant_def matches_is_boolean
      split: option.splits execution_value.splits)

lemma first_operand_typed:
  assumes "env_typed program available vals" "first_operand_ty oper available = Some ty" "operand_value oper vals 0 = Some v"
  shows "value_matches_type program v ty"
  using assms by (auto simp: first_operand_ty_def operand_value_def bind_eq_Some_conv dest: env_typedD)

lemma exec_finite_payload_project_safe:
  assumes typed: "env_typed program available vals" and nominal: "nominals_ok program"
    and valid: "valid_finite_payload_project program t var_id d field oper available = []"
  shows "outcome_safe program oper (exec_finite_payload_project program t var_id d field oper vals)"
proof -
  obtain r where r: "bo_results oper = [r]"
    using valid arity_result [of oper 1] by (auto simp: valid_finite_payload_project_def Let_def)
  obtain ft where ft: "declared_finite program t = Some ft" and ops: "first_operand_ty oper available = Some (finite_body_type ft)"
    using valid by (auto simp: valid_finite_payload_project_def Let_def)
  obtain var where var: "declared_variant (Some ft) var_id d = Some var"
    using valid ft by (auto simp: valid_finite_payload_project_def Let_def)
  obtain item where item: "find (\<lambda>item. rf_name item = field) (fv_payload var) = Some item"
    using valid ft var by (auto simp: valid_finite_payload_project_def Let_def)
  obtain m where m: "declaring_module (ft_identity ft) = Some m" and ff: "find_finite program t = Some ft"
    and fv: "find_variant ft var_id = Some var"
    using nominals_okD [OF nominal] declared_finite_Some [OF ft] declared_variant_Some [OF var] by metis
  have rty: "bv_ty r = semantic_record_field_type program item (Some m)"
    using valid ft var item r m by (auto simp: valid_finite_payload_project_def Let_def)
  have item': "item \<in> set (fv_payload var)" "rf_name item = field" using item by (auto simp: find_Some_iff)
  have "value_matches_type program v (bv_ty r)"
    if "operand_value oper vals 0 = Some (VFinite t var_id d payload)" "map_of payload field = Some v" for payload v
  proof -
    have "finite_payload_matches program t var_id (checks program payload)"
      using first_operand_typed [OF typed ops that(1)] declared_finite_Some [OF ft]
      by (simp add: finite_body_type_def matches_TFinite)
    then have "fields_match program (''finite payload '' @ var_id) (fv_payload var) m (checks program payload)"
      using ff fv m by (simp add: finite_payload_matches_def or_default_def)
    then show ?thesis unfolding rty by (rule fields_match_semanticD) (use item' that(2) in simp_all)
  qed
  with r show ?thesis
    by (auto simp: exec_finite_payload_project_def split: option.splits execution_value.splits)
qed

lemma exec_record_construct_safe:
  assumes typed: "env_typed program available vals" and nominal: "nominals_ok program"
    and valid: "valid_record_construct program t field_names oper available = Proceed []"
  shows "outcome_safe program oper (exec_record_construct t field_names oper vals)"
proof -
  obtain rt where rt: "declared_record program t = Some rt"
    using valid by (auto simp: valid_record_construct_def Let_def split: option.splits)
  obtain r where r: "bo_results oper = [r]"
    using valid rt one_result by (auto simp: valid_record_construct_def Let_def split: if_splits)
  have supplied: "sort_dedup field_names = field_names" "field_names = sort (map rf_name (rt_fields rt))"
    and len: "length (bo_operands oper) = length field_names" and rty: "bv_ty r = record_body_type rt"
    using valid rt r by (auto simp: valid_record_construct_def Let_def split: if_splits)
  obtain m where m: "declaring_module (rt_identity rt) = Some m" and decl: "find_record_decl program t = Some rt"
    and sorted: "sorted (map rf_name (rt_fields rt))"
    using nominals_okD(3) [OF nominal] declared_record_Some [OF rt] by metis
  have names: "field_names = map rf_name (rt_fields rt)" using supplied(2) sorted by (simp add: sorted_sort_id)
  have dist: "distinct (map rf_name (rt_fields rt))"
    using sorted_sort_dedup [of field_names] supplied(1) names by (simp add: strict_sorted_iff)
  have "value_matches_type program (VRecord t shown fs) (bv_ty r)"
    if fs: "collect_options (map (\<lambda>(name, x). map_option (Pair name) (vals x)) (zip field_names (bo_operands oper))) = Some fs"
    for fs shown
  proof -
    have eq: "map (\<lambda>(name, x). map_option (Pair name) (vals x)) (zip field_names (bo_operands oper)) = map Some fs"
      using fs by (simp add: collect_options_Some)
    have lfs: "length fs = length field_names" using arg_cong [OF eq, of length] len by simp
    have at: "fst (fs ! i) = field_names ! i \<and> vals (bo_operands oper ! i) = Some (snd (fs ! i))"
      if "i < length field_names" for i
      using arg_cong [OF eq, of "\<lambda>xs. xs ! i"] that len lfs by (auto simp: map_option_case split: option.splits) (metis fst_conv snd_conv)+
    have fs_zip: "fs = zip (map rf_name (rt_fields rt)) (map snd fs)"
      by (rule nth_equalityI) (use at lfs names in \<open>auto simp: prod_eq_iff\<close>)
    have field: "value_matches_type program (map snd fs ! i) (semantic_record_field_type program (rt_fields rt ! i) (Some m))"
      if i: "i < length (rt_fields rt)" for i
    proof -
      have "\<forall>p\<in>set (zip (rt_fields rt) (bo_operands oper)).
          available (snd p) = Some (semantic_record_field_type program (fst p) (Some m))"
        using valid rt r m supplied len by (auto simp: valid_record_construct_def Let_def split: if_splits)
      moreover have "(rt_fields rt ! i, bo_operands oper ! i) \<in> set (zip (rt_fields rt) (bo_operands oper))"
        using i len names by (auto simp: in_set_zip)
      ultimately have "available (bo_operands oper ! i) = Some (semantic_record_field_type program (rt_fields rt ! i) (Some m))"
        by fastforce
      with at [of i] i names lfs show ?thesis by (auto intro: env_typedD [OF typed])
    qed
    have "fields_match program (''record '' @ rt_name rt) (rt_fields rt) m (checks program fs)"
      using fields_match_semantic [OF dist _ field] fs_zip lfs names by (metis length_map)
    then show ?thesis
      using decl m declared_record_Some [OF rt]
      by (simp add: rty record_body_type_def matches_TRecord nominal_identity_matches_def record_fields_match_def or_default_def)
  qed
  with r show ?thesis by (auto simp: exec_record_construct_def split: option.splits)
qed

lemma exec_record_project_safe:
  assumes typed: "env_typed program available vals" and nominal: "nominals_ok program"
    and valid: "valid_record_project program t field oper available = Proceed []"
  shows "outcome_safe program oper (exec_record_project field oper vals)"
proof -
  have arity: "\<not> arity_differs oper 1" using valid by (auto simp: valid_record_project_def split: if_splits)
  then obtain x r where x: "bo_operands oper = [x]" and r: "bo_results oper = [r]"
    by (auto simp: arity_differs_def length_Suc_conv)
  obtain rt where rt: "declared_record program t = Some rt"
    using valid arity by (auto simp: valid_record_project_def split: option.splits)
  obtain item where item: "find (\<lambda>item. rf_name item = field) (rt_fields rt) = Some item"
    using valid arity rt by (auto simp: valid_record_project_def split: option.splits)
  obtain m where m: "declaring_module (rt_identity rt) = Some m" and decl: "find_record_decl program t = Some rt"
    using nominals_okD(3) [OF nominal] declared_record_Some [OF rt] by metis
  have ops: "first_operand_ty oper available = Some (record_body_type rt)"
    and rty: "bv_ty r = semantic_record_field_type program item (Some m)"
    using valid arity rt item r m by (auto simp: valid_record_project_def)
  have item': "item \<in> set (rt_fields rt)" "rf_name item = field" using item by (auto simp: find_Some_iff)
  have "value_matches_type program v (bv_ty r)"
    if "vals x = Some (VRecord t' shown fs)" "map_of fs field = Some v" for t' shown fs v
  proof -
    have "operand_value oper vals 0 = Some (VRecord t' shown fs)" using that(1) x by (simp add: operand_value_def operand_def)
    from first_operand_typed [OF typed ops this] declared_record_Some [OF rt]
    have "record_fields_match program t (checks program fs)" by (simp add: record_body_type_def matches_TRecord)
    then have "fields_match program (''record '' @ rt_name rt) (rt_fields rt) m (checks program fs)"
      using decl m by (simp add: record_fields_match_def or_default_def)
    then show ?thesis unfolding rty by (rule fields_match_semanticD) (use item' that(2) in simp_all)
  qed
  with x r show ?thesis
    by (auto simp: exec_record_project_def operand_def split: option.splits execution_value.splits)
qed


section \<open>One operation\<close>

text \<open>What validation leaves open: lanes widened beyond their element type.\<close>

fun in_lane :: "operation_kind \<Rightarrow> bool" where
  "in_lane (VectorBinary operator ty _ intent) =
     (operator \<in> {''min'', ''max''} \<or> (case ty of TInteger t \<Rightarrow> intended_bits intent t = ty_bits t | _ \<Rightarrow> True))"
| "in_lane (VectorReduce operator ty _ intent) =
     (operator \<in> {''min'', ''max''} \<or> (case ty of TInteger t \<Rightarrow> intended_bits intent t = ty_bits t | _ \<Rightarrow> True))"
| "in_lane _ = True"

fun is_pure :: "operation_kind \<Rightarrow> bool" where
  "is_pure (Call _ _ _ _ _) = False"
| "is_pure (Effect _ _) = False"
| "is_pure _ = True"

lemma validate_operation_Nil:
  "validate_operation program f oper available = [] \<longleftrightarrow>
     (validate_kind program f (bo_kind oper) oper available = Proceed [] \<and> validate_metadata program f oper = []) \<or>
     validate_kind program f (bo_kind oper) oper available = Bail []"
  by (auto simp: validate_operation_def split: findings.splits)

lemma never_bails_clean: "validate_kind program f kind oper available \<noteq> Bail []"
  by (cases kind)
    (auto simp: valid_select_def valid_bound_check_def valid_sequence_length_def valid_view_construct_def
      valid_view_narrow_def valid_record_construct_def valid_record_project_def Let_def
      split: if_splits sequence_bound.splits option.splits body_type.splits)

lemma exec_pure_safe:
  assumes "env_typed program available vals" and "nominals_ok program" and "small_bounds available"
    and "\<forall>x\<in>set (bo_operands oper). available x \<noteq> None"
    and valid: "validate_kind program f kind oper available = Proceed []"
    and "is_pure kind" and lane: "in_lane kind"
  shows "outcome_safe program oper (exec_pure lib program kind oper vals)"
proof (cases kind)
  case (VectorBinary operator ty lanes intent)
  then show ?thesis using assms exec_vector_binary_safe by fastforce
next
  case (VectorReduce operator ty lanes intent)
  then show ?thesis using assms exec_vector_reduce_safe by fastforce
next
  case (SequenceLength bound)
  have "\<not> arity_differs oper 1" using valid SequenceLength by (auto simp: valid_sequence_length_def split: if_splits)
  then have "operand_ty oper available 0 \<noteq> None"
    using assms(4) by (auto simp: operand_ty_def operand_def arity_differs_def)
  then show ?thesis using assms SequenceLength exec_sequence_length_safe by fastforce
qed (use assms in \<open>simp_all add: exec_constant_safe exec_integer_safe exec_integer_compare_safe exec_float_constant_safe
    exec_float_safe exec_float_compare_safe exec_float_intrinsic_safe exec_boolean_op_safe exec_boolean_compare_safe
    exec_boolean_not_safe exec_byte_bitwise_safe exec_byte_shift_safe exec_byte_compare_safe exec_convert_safe
    exec_sequence_construct_safe exec_sequence_project_safe exec_sequence_replace_safe exec_bound_check_safe
    exec_sequence_copy_safe exec_view_construct_safe exec_view_narrow_safe exec_vector_construct_safe
    exec_vector_splat_safe exec_vector_extract_safe exec_vector_replace_safe exec_vector_compare_safe
    exec_mask_binary_safe exec_mask_not_safe exec_mask_reduce_safe exec_select_safe exec_finite_construct_safe
    exec_finite_is_variant_safe exec_finite_payload_project_safe exec_record_construct_safe exec_record_project_safe\<close>)

end
