(* ===== verification/Validation.thy ===== *)
theory Validation
  imports Body_Valid
begin

text \<open>
  Validation of a program, from \<open>crates/mncs-model/src/validation.rs\<close>: the declarations of its
  types and functions, and the bodies by \<open>Body_Valid\<close>.  The errors are modelled, as the codes in
  the order they are pushed; warnings, the summary and the reuse of earlier verification facts,
  which a request asks for, are left out.
\<close>

section \<open>Names\<close>

definition collect_unique_ids :: "string list \<Rightarrow> code \<Rightarrow> code list" where
  "collect_unique_ids ids code =
     concat (map (\<lambda>(earlier, i). complain (blank i \<or> i \<in> set earlier) code) (with_earlier ids))"

definition unique_ids :: "string list \<Rightarrow> string set" where
  "unique_ids ids = {i \<in> set ids. \<not> blank i}"

text \<open>Only complete values count as used names.\<close>

definition validate_named_values :: "named_value list \<Rightarrow> code list" where
  "validate_named_values vs =
     concat (map (\<lambda>(earlier, v).
         if blank (nv_name v) \<or> blank (nv_type v) then [''MNCS014'']
         else complain (nv_name v \<in> nv_name ` {e \<in> set earlier. \<not> blank (nv_name e) \<and> \<not> blank (nv_type e)}) ''MNCS015'')
       (with_earlier vs))"

definition known_namespaces :: "program \<Rightarrow> string list" where
  "known_namespaces program = pg_module program # List.map_filter identity_module_name (pg_dependencies program)"


section \<open>Types\<close>

definition validate_variant :: "program \<Rightarrow> finite_type \<Rightarrow> nat \<Rightarrow> finite_variant list \<Rightarrow> finite_variant \<Rightarrow> code list" where
  "validate_variant program ft index earlier var =
     complain (blank (fv_name var) \<or> fv_name var \<in> fv_name ` set earlier) ''MNCS017'' @
     complain (fv_discriminant var \<in> fv_discriminant ` set earlier \<or> fv_discriminant var \<noteq> index mod 2 ^ 32) ''MNCS018'' @
     complain (\<not> list_ex (\<lambda>ns. finite_variant_id ns (ft_name ft) (fv_name var) = fv_identity var)
         (known_namespaces program)) ''MNCS019''"

definition validate_finite_type :: "program \<Rightarrow> finite_type list \<Rightarrow> finite_type \<Rightarrow> code list" where
  "validate_finite_type program earlier ft =
     complain (blank (ft_name ft) \<or> ft_identity ft \<in> ft_identity ` set earlier) ''MNCS014'' @
     complain (\<not> list_ex (\<lambda>ns. finite_type_id ns (ft_name ft) = ft_identity ft) (known_namespaces program)) ''MNCS015'' @
     complain (ft_variants ft = []) ''MNCS016'' @
     concat (map (\<lambda>(index, before, var). validate_variant program ft index before var)
       (zip [0..<length (ft_variants ft)] (with_earlier (ft_variants ft))))"

definition validate_record_type :: "record_type list \<Rightarrow> record_type \<Rightarrow> code list" where
  "validate_record_type earlier rt =
     complain (blank (rt_name rt) \<or> blank (rt_identity rt) \<or>
         rt_identity rt \<in> rt_identity ` {e \<in> set earlier. \<not> blank (rt_name e) \<and> \<not> blank (rt_identity e)}) ''MNCS020'' @
     concat (map (\<lambda>(before, field).
         complain (blank (rf_name field) \<or> rf_name field \<in> rf_name ` set before) ''MNCS021'' @
         complain (blank (rf_type field)) ''MNCS022'') (with_earlier (rt_fields rt)))"


section \<open>Functions\<close>

definition structural_decrease_property :: string where
  "structural_decrease_property = ''structural-decrease''"

definition validate_function_declaration :: "program \<Rightarrow> fn \<Rightarrow> code list" where
  "validate_function_declaration program f =
     validate_named_values (fn_inputs f) @ validate_named_values (fn_outputs f) @
     collect_unique_ids (fn_contracts f) ''MNCS006'' @
     complain (card (set (fn_capabilities f)) \<noteq> length (fn_capabilities f)) ''MNCS007'' @
     concat (map (\<lambda>e.
         complain (blank (ef_kind e) \<or> blank (ef_target e)) ''MNCS008'' @
         (if blank (ef_capability e) then [''MNCS009'']
          else complain (ef_capability e \<notin> set (fn_capabilities f)) ''MNCS010'')) (fn_effects f)) @
     concat (map (\<lambda>assumption. complain (assumption \<notin> unique_ids (pg_assumptions program)) ''MNCS011'')
       (fn_assumptions f)) @
     concat (map (\<lambda>e.
         complain (ec_property e \<noteq> structural_decrease_property \<and> ec_property e \<notin> unique_ids (fn_contracts f))
           ''MNCS012'' @
         complain (blank (ec_verifier e)) ''MNCS013'') (fn_evidence f))"

definition identity_of_fn :: "program \<Rightarrow> fn \<Rightarrow> semantic_id" where
  "identity_of_fn program f = function_id (identity_namespace f (pg_module program)) (fn_name f)"

definition validate_function ::
  "(semantic_id \<times> string \<times> cfg_block list \<times> string list \<Rightarrow> string) \<Rightarrow> program \<Rightarrow> fn list \<Rightarrow> fn \<Rightarrow> code list option" where
  "validate_function digest program earlier f =
     map_option (\<lambda>body_codes.
         (if blank (fn_name f) then [''MNCS004'']
          else complain (identity_of_fn program f \<in> identity_of_fn program ` {e \<in> set earlier. \<not> blank (fn_name e)})
            ''MNCS005'') @
         validate_function_declaration program f @ body_codes)
       (case fn_body f of None \<Rightarrow> Some [] | Some body \<Rightarrow> validate_body digest program f body)"


section \<open>Programs\<close>

definition validate_declarations :: "program \<Rightarrow> code list" where
  "validate_declarations program =
     complain (pg_schema program \<noteq> ''0.1'') ''MNCS001'' @
     complain (blank (pg_module program)) ''MNCS002'' @
     collect_unique_ids (pg_assumptions program) ''MNCS003'' @
     concat (map (\<lambda>(earlier, ft). validate_finite_type program earlier ft) (with_earlier (pg_finite_types program))) @
     concat (map (\<lambda>(earlier, rt). validate_record_type earlier rt) (with_earlier (pg_record_types program)))"

text \<open>\<open>Program::validate\<close>: the codes of the errors, none for a valid program.\<close>

definition validate_program ::
  "(semantic_id \<times> string \<times> cfg_block list \<times> string list \<Rightarrow> string) \<Rightarrow> program \<Rightarrow> code list option" where
  "validate_program digest program =
     map_option (\<lambda>codes. validate_declarations program @ concat codes)
       (collect_options (map (\<lambda>(earlier, f). validate_function digest program earlier f)
         (with_earlier (pg_functions program))))"

definition program_valid :: "(semantic_id \<times> string \<times> cfg_block list \<times> string list \<Rightarrow> string) \<Rightarrow> program \<Rightarrow> bool" where
  "program_valid digest program \<longleftrightarrow> validate_program digest program = Some []"

end
