(* ===== verification/Interp.thy ===== *)
theory Interp
  imports Body_Ops
begin

text \<open>
  The reference interpreter of \<open>crates/mncs-model/src/execution.rs\<close>: a request against a program
  runs the blocks of a body, one step per operation and per terminator, under a step budget; a
  call runs the callee under what is left of the budget, one level deeper, up to a call-depth
  budget.  A large sequence argument that already passed its check is not checked again when the
  same parameter is handed on.

  Modelled: the whole control flow, the store, budgets, depth, effects and the reuse of argument
  checks, for requests without type arguments.  Reason texts, traces, observers and profiles do
  not influence the outcome and are left out.  Step counters stay below eight million, so the
  saturating additions of the source are plain ones.
\<close>

section \<open>Requests and results\<close>

definition max_execution_budget :: nat where
  "max_execution_budget = 8000000"

definition model_max_call_depth :: nat where
  "model_max_call_depth = 1024"

record execution_request =
  rq_schema :: string
  rq_module :: string
  rq_function :: string
  rq_arguments :: "execution_value list"
  rq_step_budget :: nat
  rq_call_depth_budget :: "nat option"

record effect_event =
  ev_operation :: semantic_id
  ev_kind :: string
  ev_target :: string
  ev_capability :: string

text \<open>A failure names the operation it happened in, if it happened in one.\<close>

record execution_result =
  xr_status :: execution_status
  xr_returned :: "execution_value list"
  xr_steps :: nat
  xr_failure :: "semantic_id option option"
  xr_effects :: "effect_event list"

definition empty_result :: execution_result where
  "empty_result = \<lparr>xr_status = InvalidRequest, xr_returned = [], xr_steps = 0, xr_failure = None, xr_effects = []\<rparr>"

definition fail_result :: "execution_status \<Rightarrow> semantic_id option \<Rightarrow> execution_result \<Rightarrow> execution_result" where
  "fail_result status identity result = result\<lparr>xr_status := status, xr_failure := Some identity\<rparr>"

definition invalid :: execution_result where
  "invalid = fail_result InvalidRequest None empty_result"

text \<open>\<open>consume_step\<close>: nothing when the budget is used up.\<close>

definition consume_step :: "nat \<Rightarrow> execution_result \<Rightarrow> execution_result option" where
  "consume_step budget result =
     (if budget \<le> xr_steps result then None else Some (result\<lparr>xr_steps := xr_steps result + 1\<rparr>))"


section \<open>Reuse of argument checks\<close>

definition trusted_at :: "bool list option \<Rightarrow> nat \<Rightarrow> bool" where
  "trusted_at trusted i = (case trusted of None \<Rightarrow> False | Some bs \<Rightarrow> i < length bs \<and> bs ! i)"

definition min_reused_sequence_validation_items :: nat where
  "min_reused_sequence_validation_items = 2048"

definition max_reused_sequence_estimate_children :: nat where
  "max_reused_sequence_estimate_children = 64"

fun nested_items :: "execution_value \<Rightarrow> nat" where
  "nested_items (VSequence vs) = length vs"
| "nested_items (VVector vs) = length vs"
| "nested_items (VFinite _ _ _ payload) = length payload"
| "nested_items (VRecord _ _ fs) = length fs"
| "nested_items _ = 0"

fun estimate_reaches :: "nat \<Rightarrow> execution_value list \<Rightarrow> bool" where
  "estimate_reaches estimated [] = False"
| "estimate_reaches estimated (v # vs) =
     (if min_reused_sequence_validation_items \<le> estimated + nested_items v then True
      else estimate_reaches (estimated + nested_items v) vs)"

definition sequence_validation_work_is_large :: "execution_value \<Rightarrow> bool" where
  "sequence_validation_work_is_large v =
     (case v of
        VSequence vs \<Rightarrow>
          min_reused_sequence_validation_items \<le> length vs \<or>
          estimate_reaches (length vs) (take max_reused_sequence_estimate_children vs)
      | _ \<Rightarrow> False)"

definition reusable_parameters :: "body_parameter list \<Rightarrow> bool list option \<Rightarrow> env \<Rightarrow> body_parameter list" where
  "reusable_parameters params trusted vals =
     map snd (filter (\<lambda>(i, p). trusted_at trusted i \<or>
         (case vals (bp_id p) of None \<Rightarrow> False | Some v \<Rightarrow> sequence_validation_work_is_large v))
       (zip [0..<length params] params))"

definition argument_validation_can_be_reused ::
  "string \<Rightarrow> body_type option \<Rightarrow> body_type option \<Rightarrow> body_parameter list \<Rightarrow> bool" where
  "argument_validation_can_be_reused source_id source_type target_type reusable \<longleftrightarrow>
     list_ex (\<lambda>p. bp_id p = source_id) reusable \<and> target_type \<noteq> None \<and> source_type = target_type"

definition validate_arguments ::
  "program \<Rightarrow> function_body \<Rightarrow> bool list option \<Rightarrow> execution_value list \<Rightarrow> bool" where
  "validate_arguments program body trusted arguments \<longleftrightarrow>
     length (fb_parameters body) = length arguments \<and>
     list_all (\<lambda>(i, p, a). trusted_at trusted i \<or> value_matches_type program a (bp_ty p))
       (zip [0..<length arguments] (zip (fb_parameters body) arguments))"

definition normalize_arguments ::
  "program \<Rightarrow> function_body \<Rightarrow> bool list option \<Rightarrow> execution_value list \<Rightarrow> (string \<times> execution_value) list option" where
  "normalize_arguments program body trusted arguments =
     collect_options (map (\<lambda>(i, p, a).
         map_option (Pair (bp_id p)) (if trusted_at trusted i then Some a else normalize_value program a (bp_ty p)))
       (zip [0..<length arguments] (zip (fb_parameters body) arguments)))"


section \<open>Frames\<close>

text \<open>The type a body declares for each identity; of several declarations the later one counts.\<close>

definition value_types :: "function_body \<Rightarrow> string \<rightharpoonup> body_type" where
  "value_types body =
     map_of (rev (map (\<lambda>p. (bp_id p, bp_ty p)) (fb_parameters body) @
       concat (map (\<lambda>b. map (\<lambda>v. (bv_id v, bv_ty v)) (bb_parameters b @ concat (map bo_results (bb_operations b))))
         (fb_blocks body))))"

record frame =
  fr_namespace :: string
  fr_function :: string
  fr_body :: function_body
  fr_reusable :: "body_parameter list"
  fr_request :: execution_request
  fr_record :: bool

definition find_function :: "program \<Rightarrow> string \<Rightarrow> string \<Rightarrow> fn option" where
  "find_function program module name =
     find (\<lambda>f. fn_name f = name \<and> identity_namespace f (pg_module program) = module) (pg_functions program)"

text \<open>\<open>resolve_generic_entry\<close> without type arguments: only a concrete function has an entry.\<close>

definition resolve_concrete_entry :: "program \<Rightarrow> string \<Rightarrow> string \<Rightarrow> string option" where
  "resolve_concrete_entry program module name =
     (case find_function program module name of
        None \<Rightarrow> None
      | Some f \<Rightarrow> if fn_generic_params f = [] then Some (fn_name f) else None)"

definition find_callee :: "program \<Rightarrow> semantic_id \<Rightarrow> fn option" where
  "find_callee program identity =
     find (\<lambda>f. function_id (identity_namespace f (pg_module program)) (fn_name f) = identity) (pg_functions program)"

type_synonym selector = "body_parameter list \<Rightarrow> bool list option \<Rightarrow> env \<Rightarrow> body_parameter list"

text \<open>The request's schema, the program's validity, the target module, and the two budgets.\<close>

definition request_admissible :: "program \<Rightarrow> bool \<Rightarrow> execution_request \<Rightarrow> bool" where
  "request_admissible program valid request \<longleftrightarrow>
     rq_schema request = ''0.1'' \<and> valid \<and>
     (rq_module request = pg_module program \<or>
      list_ex (\<lambda>f. fn_home_module f = Some (rq_module request)) (pg_functions program)) \<and>
     0 < rq_step_budget request \<and> rq_step_budget request \<le> max_execution_budget \<and>
     (case rq_call_depth_budget request of None \<Rightarrow> True | Some d \<Rightarrow> 0 < d \<and> d \<le> model_max_call_depth)"

text \<open>The checks at the entry of a function, and the frame it starts with.  Which parameters are
  reusable is a parameter, so that the interpreter without reuse is an instance too.\<close>

definition enter_function ::
  "selector \<Rightarrow> program \<Rightarrow> bool \<Rightarrow> bool \<Rightarrow> nat \<Rightarrow> bool list option \<Rightarrow> execution_request \<Rightarrow> execution_result + frame \<times> env" where
  "enter_function select program valid record_effects depth trusted request =
     (if \<not> request_admissible program valid request then Inl invalid
      else
        case Option.bind (resolve_concrete_entry program (rq_module request) (rq_function request))
               (find_function program (rq_module request)) of
          None \<Rightarrow> Inl invalid
        | Some f \<Rightarrow>
            (case fn_body f of
               None \<Rightarrow> Inl invalid
             | Some body \<Rightarrow>
                 let limit = (case rq_call_depth_budget request of None \<Rightarrow> model_max_call_depth | Some d \<Rightarrow> d) in
                 if limit < depth then Inl (fail_result BudgetExhausted None empty_result)
                 else if \<not> validate_arguments program body trusted (rq_arguments request) then Inl invalid
                 else
                   case normalize_arguments program body trusted (rq_arguments request) of
                     None \<Rightarrow> Inl invalid
                   | Some bound \<Rightarrow>
                       let vals = map_of (rev bound) in
                       Inr (\<lparr>fr_namespace = identity_namespace f (pg_module program), fr_function = fn_name f,
                             fr_body = body, fr_reusable = select (fb_parameters body) trusted vals,
                             fr_request = request, fr_record = record_effects\<rparr>, vals)))"



section \<open>Operations\<close>

datatype step_outcome = Continue env execution_result | Stop execution_result | Panicked

definition store :: "body_operation \<Rightarrow> execution_value \<Rightarrow> env \<Rightarrow> execution_result \<Rightarrow> step_outcome" where
  "store oper v vals result =
     (case bo_results oper of [] \<Rightarrow> Panicked | r # _ \<Rightarrow> Continue (vals(bv_id r \<mapsto> v)) result)"

text \<open>\<open>rsplit('.').next()\<close>: the text after the last dot.\<close>

definition after_last_dot :: "string \<Rightarrow> string" where
  "after_last_dot s = rev (takeWhile (\<lambda>c. c \<noteq> CHR ''.'') (rev s))"

definition callee_parameters :: "fn option \<Rightarrow> body_parameter list" where
  "callee_parameters target =
     (case Option.bind target fn_body of None \<Rightarrow> [] | Some body \<Rightarrow> fb_parameters body)"

text \<open>Which arguments of a call need no check: those handed on from a reusable parameter whose type
  is the callee's parameter type.\<close>

definition trusted_marks :: "frame \<Rightarrow> fn option \<Rightarrow> string list \<Rightarrow> bool list option" where
  "trusted_marks frame target operands =
     (if fr_reusable frame = [] then None
      else
        let marks = map (\<lambda>(i, x).
              list_ex (\<lambda>p. bp_id p = x) (fr_reusable frame) \<and>
              argument_validation_can_be_reused x (value_types (fr_body frame) x)
                (if i < length (callee_parameters target) then Some (bp_ty (callee_parameters target ! i)) else None)
                (fr_reusable frame)) (zip [0..<length operands] operands)
        in if list_ex id marks then Some marks else None)"

definition nested_request ::
  "program \<Rightarrow> execution_request \<Rightarrow> fn option \<Rightarrow> string \<Rightarrow> execution_value list \<Rightarrow> nat \<Rightarrow> execution_request" where
  "nested_request program request target function_name arguments remaining =
     request\<lparr>
       rq_module := (case target of None \<Rightarrow> rq_module request | Some f \<Rightarrow> identity_namespace f (pg_module program)),
       rq_function := (case target of None \<Rightarrow> after_last_dot function_name | Some f \<Rightarrow> fn_name f),
       rq_arguments := arguments,
       rq_step_budget := remaining\<rparr>"

type_synonym callee = "bool list option \<Rightarrow> execution_request \<Rightarrow> execution_result option"

definition exec_call ::
  "program \<Rightarrow> callee \<Rightarrow> frame \<Rightarrow> semantic_id \<Rightarrow> semantic_id \<Rightarrow> string \<Rightarrow> body_operation \<Rightarrow> env \<Rightarrow> execution_result \<Rightarrow> step_outcome" where
  "exec_call program call frame identity function_identity function_name oper vals result =
     (case collect_operands oper vals of
        None \<Rightarrow> Stop (fail_result InvalidRequest (Some identity) result)
      | Some arguments \<Rightarrow>
          let remaining = rq_step_budget (fr_request frame) - xr_steps result;
              target = find_callee program function_identity in
          if remaining = 0 then Stop (fail_result BudgetExhausted (Some identity) result)
          else
            case call (trusted_marks frame target (bo_operands oper))
                   (nested_request program (fr_request frame) target function_name arguments remaining) of
              None \<Rightarrow> Panicked
            | Some nested \<Rightarrow>
                let merged = result\<lparr>xr_steps := xr_steps result + xr_steps nested,
                                    xr_effects := xr_effects result @ xr_effects nested\<rparr> in
                if xr_status nested \<noteq> Returned
                then Stop (merged\<lparr>xr_status := xr_status nested, xr_failure := xr_failure nested\<rparr>)
                else (case xr_returned nested of
                        [] \<Rightarrow> Stop (fail_result InvalidRequest (Some identity) merged)
                      | v # _ \<Rightarrow> store oper v vals merged))"

definition exec_effect ::
  "frame \<Rightarrow> semantic_id \<Rightarrow> effect \<Rightarrow> string \<Rightarrow> env \<Rightarrow> execution_result \<Rightarrow> step_outcome" where
  "exec_effect frame identity eff capability vals result =
     (if \<not> fr_record frame then Stop (fail_result Unsupported (Some identity) result)
      else Continue vals (result\<lparr>xr_effects := xr_effects result @
             [\<lparr>ev_operation = identity, ev_kind = ef_kind eff, ev_target = ef_target eff, ev_capability = capability\<rparr>]\<rparr>))"

definition execute_operation ::
  "float_library \<Rightarrow> program \<Rightarrow> callee \<Rightarrow> frame \<Rightarrow> semantic_id \<Rightarrow> body_operation \<Rightarrow> env \<Rightarrow> execution_result \<Rightarrow> step_outcome" where
  "execute_operation lib program call frame identity oper vals result =
     (case bo_kind oper of
        Call function_identity function_name _ _ _ \<Rightarrow>
          exec_call program call frame identity function_identity function_name oper vals result
      | Effect eff capability \<Rightarrow> exec_effect frame identity eff capability vals result
      | kind \<Rightarrow>
          (case exec_pure lib program kind oper vals of
             Store v \<Rightarrow> store oper v vals result
           | Skip \<Rightarrow> Continue vals result
           | Fail status \<Rightarrow> Stop (fail_result status (Some identity) result)
           | Panic \<Rightarrow> Panicked))"


section \<open>Blocks\<close>

fun run_operations ::
  "float_library \<Rightarrow> program \<Rightarrow> callee \<Rightarrow> frame \<Rightarrow> string \<Rightarrow> body_operation list \<Rightarrow> env \<Rightarrow> execution_result \<Rightarrow> step_outcome" where
  "run_operations lib program call frame block [] vals result = Continue vals result"
| "run_operations lib program call frame block (oper # opers) vals result =
     (let identity = operation_id (fr_namespace frame) (fr_function frame) block (bo_id oper) in
      case consume_step (rq_step_budget (fr_request frame)) result of
        None \<Rightarrow> Stop (fail_result BudgetExhausted (Some identity) result)
      | Some stepped \<Rightarrow>
          (case execute_operation lib program call frame identity oper vals stepped of
             Continue vals' result' \<Rightarrow> run_operations lib program call frame block opers vals' result'
           | Stop result' \<Rightarrow> Stop result'
           | Panicked \<Rightarrow> Panicked))"

definition assign_block_arguments :: "function_body \<Rightarrow> string \<Rightarrow> string list \<Rightarrow> env \<Rightarrow> env option" where
  "assign_block_arguments body target arguments vals =
     (case block_map body target of
        None \<Rightarrow> None
      | Some block \<Rightarrow>
          if length (bb_parameters block) \<noteq> length arguments then None
          else case collect_options (map vals arguments) of
                 None \<Rightarrow> None
               | Some resolved \<Rightarrow>
                   Some (vals ++ map_of (rev (zip (map bv_id (bb_parameters block)) resolved))))"

datatype jump = Jump string env | Finish execution_result

definition exec_terminator :: "function_body \<Rightarrow> body_terminator \<Rightarrow> env \<Rightarrow> execution_result \<Rightarrow> jump" where
  "exec_terminator body terminator vals result =
     (let jump_to = (\<lambda>target arguments.
            case assign_block_arguments body target arguments vals of
              None \<Rightarrow> Finish (fail_result InvalidRequest None result)
            | Some vals' \<Rightarrow> Jump target vals') in
      case terminator of
        Failure _ \<Rightarrow> Finish (fail_result RuntimeFailure None result)
      | Return returned \<Rightarrow>
          (case collect_options (map vals returned) of
             None \<Rightarrow> Finish (fail_result InvalidRequest None result)
           | Some vs \<Rightarrow> Finish (result\<lparr>xr_returned := vs, xr_status := Returned\<rparr>))
      | Branch target arguments \<Rightarrow> jump_to target arguments
      | ConditionalBranch condition then_target then_arguments else_target else_arguments \<Rightarrow>
          (case Option.bind (vals condition) the_boolean of
             None \<Rightarrow> Finish (fail_result InvalidRequest None result)
           | Some True \<Rightarrow> jump_to then_target then_arguments
           | Some False \<Rightarrow> jump_to else_target else_arguments))"

lemma execute_operation_steps:
  "execute_operation lib program call frame identity oper vals result = Continue vals' result' \<Longrightarrow>
     xr_steps result \<le> xr_steps result'"
  by (auto simp: execute_operation_def exec_call_def exec_effect_def store_def Let_def
      split: operation_kind.splits op_outcome.splits option.splits list.splits if_splits)

lemma run_operations_steps:
  "run_operations lib program call frame block opers vals result = Continue vals' result' \<Longrightarrow>
     xr_steps result \<le> xr_steps result'"
proof (induction opers arbitrary: vals result)
  case (Cons oper opers)
  then obtain stepped vals1 result1 where
    stepped: "consume_step (rq_step_budget (fr_request frame)) result = Some stepped"
    and first: "execute_operation lib program call frame (operation_id (fr_namespace frame) (fr_function frame) block (bo_id oper))
        oper vals stepped = Continue vals1 result1"
    and rest: "run_operations lib program call frame block opers vals1 result1 = Continue vals' result'"
    by (auto simp: Let_def split: option.splits step_outcome.splits)
  have "xr_steps result \<le> xr_steps stepped" using stepped by (auto simp: consume_step_def split: if_splits)
  also note execute_operation_steps [OF first]
  also note Cons.IH [OF rest]
  finally show ?case .
qed simp

text \<open>The loop of a body.  Every round takes at least the step of its terminator.\<close>

function run_blocks ::
  "float_library \<Rightarrow> program \<Rightarrow> callee \<Rightarrow> frame \<Rightarrow> string \<Rightarrow> env \<Rightarrow> execution_result \<Rightarrow> execution_result option" where
  "run_blocks lib program call frame current vals result =
     (case block_map (fr_body frame) current of
        None \<Rightarrow> Some (fail_result InvalidRequest None result)
      | Some block \<Rightarrow>
          (case run_operations lib program call frame (bb_id block) (bb_operations block) vals result of
             Panicked \<Rightarrow> None
           | Stop stopped \<Rightarrow> Some stopped
           | Continue vals' result' \<Rightarrow>
               (case consume_step (rq_step_budget (fr_request frame)) result' of
                  None \<Rightarrow> Some (fail_result BudgetExhausted None result')
                | Some stepped \<Rightarrow>
                    (case exec_terminator (fr_body frame) (bb_terminator block) vals' stepped of
                       Finish finished \<Rightarrow> Some finished
                     | Jump target vals'' \<Rightarrow> run_blocks lib program call frame target vals'' stepped))))"
  by auto
termination
proof (relation "measure (\<lambda>(_, _, _, frame, _, _, result). rq_step_budget (fr_request frame) - xr_steps result)")
  show "wf (measure (\<lambda>(_, _, _, frame, _, _, result). rq_step_budget (fr_request frame) - xr_steps result))" by simp
qed (auto simp: consume_step_def split: if_splits dest!: run_operations_steps)

declare run_blocks.simps [simp del]



section \<open>Functions\<close>

lemma enter_function_depth:
  "enter_function select program valid record_effects depth trusted request = Inr entered \<Longrightarrow> depth \<le> model_max_call_depth"
  by (auto simp: enter_function_def request_admissible_def Let_def split: if_splits option.splits)

function execute_inner ::
  "float_library \<Rightarrow> program \<Rightarrow> bool \<Rightarrow> bool \<Rightarrow> nat \<Rightarrow> bool list option \<Rightarrow> execution_request \<Rightarrow> execution_result option" where
  "execute_inner lib program valid record_effects depth trusted request =
     (case enter_function reusable_parameters program valid record_effects depth trusted request of
        Inl refused \<Rightarrow> Some refused
      | Inr entered \<Rightarrow>
          run_blocks lib program
            (\<lambda>trusted' request'. execute_inner lib program valid record_effects (depth + 1) trusted' request')
            (fst entered) (fb_entry (fr_body (fst entered))) (snd entered) empty_result)"
  by auto
termination
  by (relation "measure (\<lambda>(_, _, _, _, depth, _, _). model_max_call_depth + 1 - depth)")
    (auto dest!: enter_function_depth)

declare execute_inner.simps [simp del]

text \<open>The interpreter that checks every argument of every call.\<close>

function execute_checking ::
  "float_library \<Rightarrow> program \<Rightarrow> bool \<Rightarrow> bool \<Rightarrow> nat \<Rightarrow> execution_request \<Rightarrow> execution_result option" where
  "execute_checking lib program valid record_effects depth request =
     (case enter_function (\<lambda>_ _ _. []) program valid record_effects depth None request of
        Inl refused \<Rightarrow> Some refused
      | Inr entered \<Rightarrow>
          run_blocks lib program
            (\<lambda>_ request'. execute_checking lib program valid record_effects (depth + 1) request')
            (fst entered) (fb_entry (fr_body (fst entered))) (snd entered) empty_result)"
  by auto
termination
  by (relation "measure (\<lambda>(_, _, _, _, depth, _). model_max_call_depth + 1 - depth)")
    (auto dest!: enter_function_depth)

declare execute_checking.simps [simp del]

datatype effect_policy = PolicyUnsupported | PolicyRecord | PolicyRealize

definition execute :: "float_library \<Rightarrow> program \<Rightarrow> bool \<Rightarrow> effect_policy \<Rightarrow> execution_request \<Rightarrow> execution_result option" where
  "execute lib program valid policy request =
     execute_inner lib program valid (policy = PolicyRecord) 0 None request"


section \<open>Runs as a relation between results\<close>

text \<open>What the blocks of a body preserve: an invariant of the pair of store and result that every
  operation and every jump keeps, and the property of the final result it yields.\<close>

definition result_of :: "step_outcome \<Rightarrow> execution_result option" where
  "result_of outcome = (case outcome of Continue _ r \<Rightarrow> Some r | Stop r \<Rightarrow> Some r | Panicked \<Rightarrow> None)"

lemma run_operations_invariant:
  assumes "P result"
    and consume: "\<And>r stepped. P r \<Longrightarrow> consume_step (rq_step_budget (fr_request frame)) r = Some stepped \<Longrightarrow> P stepped"
    and failed: "\<And>r status identity. P r \<Longrightarrow> P (fail_result status identity r)"
    and step: "\<And>identity oper vals r r'. P r \<Longrightarrow>
      result_of (execute_operation lib program call frame identity oper vals r) = Some r' \<Longrightarrow> P r'"
    and "result_of (run_operations lib program call frame block opers vals result) = Some result'"
  shows "P result'"
  using assms(1,5)
proof (induction opers arbitrary: vals result)
  case Nil
  then show ?case by (simp add: result_of_def)
next
  case (Cons oper opers)
  show ?case
  proof (cases "consume_step (rq_step_budget (fr_request frame)) result")
    case None
    with Cons.prems failed show ?thesis by (auto simp: Let_def result_of_def)
  next
    case (Some stepped)
    note p = consume [OF Cons.prems(1) Some]
    show ?thesis
    proof (cases "execute_operation lib program call frame
        (operation_id (fr_namespace frame) (fr_function frame) block (bo_id oper)) oper vals stepped")
      case (Continue vals1 result1)
      have "P result1"
        using step [OF p, of "operation_id (fr_namespace frame) (fr_function frame) block (bo_id oper)" oper vals result1]
          Continue by (simp add: result_of_def)
      with Cons.IH Cons.prems(2) Some Continue show ?thesis by (simp add: Let_def)
    next
      case (Stop result1)
      have "P result1"
        using step [OF p, of "operation_id (fr_namespace frame) (fr_function frame) block (bo_id oper)" oper vals result1]
          Stop by (simp add: result_of_def)
      with Cons.prems(2) Some Stop show ?thesis by (simp add: Let_def result_of_def)
    next
      case Panicked
      with Cons.prems(2) Some show ?thesis by (simp add: Let_def result_of_def)
    qed
  qed
qed

lemma terminator_invariant:
  assumes "P r" and "exec_terminator body terminator vals r = Finish finished"
    and "\<And>r status identity. P r \<Longrightarrow> P (fail_result status identity r)"
    and "\<And>r vs. P r \<Longrightarrow> P (r\<lparr>xr_returned := vs, xr_status := Returned\<rparr>)"
  shows "P finished"
  using assms(1,2) assms(3,4) [OF assms(1)]
  by (auto simp: exec_terminator_def Let_def split: body_terminator.splits option.splits bool.splits)

lemma run_blocks_invariant:
  assumes "run_blocks lib program call frame current vals result = Some result'" and "P result"
    and "\<And>r stepped. P r \<Longrightarrow> consume_step (rq_step_budget (fr_request frame)) r = Some stepped \<Longrightarrow> P stepped"
    and "\<And>r status identity. P r \<Longrightarrow> P (fail_result status identity r)"
    and "\<And>r vs. P r \<Longrightarrow> P (r\<lparr>xr_returned := vs, xr_status := Returned\<rparr>)"
    and "\<And>identity oper vals r r'. P r \<Longrightarrow>
      result_of (execute_operation lib program call frame identity oper vals r) = Some r' \<Longrightarrow> P r'"
  shows "P result'"
  using assms
proof (induction lib program call frame current vals result rule: run_blocks.induct)
  case (1 lib program call frame current vals result)
  note consume = 1(4) and failed = 1(5) and returned = 1(6) and step = 1(7)
  show ?case
  proof (cases "block_map (fr_body frame) current")
    case None
    with 1(2) failed [OF 1(3)] show ?thesis by (auto simp: run_blocks.simps)
  next
    case (Some block)
    define out where "out = run_operations lib program call frame (bb_id block) (bb_operations block) vals result"
    have ops: "P r" if "result_of out = Some r" for r
      by (rule run_operations_invariant [where P = P, OF 1(3) _ _ _ that [unfolded out_def]])
        (fact consume, fact failed, fact step)
    show ?thesis
    proof (cases out)
      case (Continue vals1 result1)
      then have p1: "P result1" by (intro ops) (simp add: result_of_def)
      show ?thesis
      proof (cases "consume_step (rq_step_budget (fr_request frame)) result1")
        case None
        with 1(2) Some Continue failed [OF p1] show ?thesis by (auto simp: run_blocks.simps simp flip: out_def)
      next
        case stepped: (Some stepped)
        note p2 = consume [OF p1 stepped]
        show ?thesis
        proof (cases "exec_terminator (fr_body frame) (bb_terminator block) vals1 stepped")
          case (Jump target vals2)
          with 1(2) Some Continue stepped
          have "run_blocks lib program call frame target vals2 stepped = Some result'"
            by (subst (asm) run_blocks.simps) (simp flip: out_def)
          then show ?thesis
            by (rule 1(1) [OF Some Continue [unfolded out_def] stepped Jump _ p2])
              (fact consume, fact failed, fact returned, fact step)
        next
          case (Finish finished)
          with 1(2) Some Continue stepped have "result' = finished"
            by (subst (asm) run_blocks.simps) (simp flip: out_def)
          moreover have "P finished"
            by (rule terminator_invariant [where P = P, OF p2 Finish]) (fact failed, fact returned)
          ultimately show ?thesis by simp
        qed
      qed
    next
      case (Stop stopped)
      with 1(2) Some have "result' = stopped" by (subst (asm) run_blocks.simps) (simp flip: out_def)
      with ops Stop show ?thesis by (simp add: result_of_def)
    next
      case Panicked
      with 1(2) Some show ?thesis by (subst (asm) run_blocks.simps) (simp flip: out_def)
    qed
  qed
qed

text \<open>The same for a whole execution, when calls yield results with the property and merging them
  keeps it.\<close>

lemma empty_result_simps [simp]:
  "xr_steps empty_result = 0" "xr_effects empty_result = []" "xr_status empty_result = InvalidRequest"
  "xr_returned empty_result = []" "xr_failure empty_result = None"
  by (simp_all add: empty_result_def)

lemma fail_result_simps [simp]:
  "xr_steps (fail_result status identity r) = xr_steps r" "xr_effects (fail_result status identity r) = xr_effects r"
  "xr_status (fail_result status identity r) = status" "xr_returned (fail_result status identity r) = xr_returned r"
  by (simp_all add: fail_result_def)

lemma invalid_simps [simp]:
  "xr_steps invalid = 0" "xr_effects invalid = []" "xr_status invalid = InvalidRequest"
  by (simp_all add: invalid_def)

lemma enter_function_refused:
  "enter_function select program valid record_effects depth trusted request = Inl refused \<Longrightarrow>
     xr_steps refused = 0 \<and> xr_effects refused = [] \<and> xr_status refused \<in> {InvalidRequest, BudgetExhausted}"
  by (auto simp: enter_function_def Let_def split: if_splits option.splits)

lemma enter_function_frame:
  "enter_function select program valid record_effects depth trusted request = Inr (frame, vals) \<Longrightarrow>
     fr_request frame = request \<and> fr_record frame = record_effects"
  by (auto simp: enter_function_def Let_def split: if_splits option.splits)



lemma execute_operation_preserves:
  assumes "result_of (execute_operation lib program call frame identity oper vals r) = Some r'"
    and "P r"
    and failed: "\<And>status. P (fail_result status (Some identity) r)"
    and effect: "\<And>event. fr_record frame \<Longrightarrow> P (r\<lparr>xr_effects := xr_effects r @ [event]\<rparr>)"
    and called: "\<And>trusted target name arguments nested.
      call trusted (nested_request program (fr_request frame) target name arguments
        (rq_step_budget (fr_request frame) - xr_steps r)) = Some nested \<Longrightarrow>
      P (r\<lparr>xr_steps := xr_steps r + xr_steps nested, xr_effects := xr_effects r @ xr_effects nested\<rparr>)"
    and status: "\<And>r status failure. P r \<Longrightarrow> P (r\<lparr>xr_status := status, xr_failure := failure\<rparr>)"
  shows "P r'"
proof (cases "bo_kind oper")
  case (Call f name caps effs args)
  show ?thesis
  proof (cases "collect_operands oper vals")
    case None
    with assms(1) Call failed show ?thesis
      by (auto simp: execute_operation_def exec_call_def result_of_def)
  next
    case args: (Some arguments)
    define remaining where "remaining = rq_step_budget (fr_request frame) - xr_steps r"
    show ?thesis
    proof (cases "remaining = 0")
      case True
      with assms(1) Call args failed show ?thesis
        by (auto simp: execute_operation_def exec_call_def result_of_def remaining_def)
    next
      case False
      define answer where "answer = call (trusted_marks frame (find_callee program f) (bo_operands oper))
        (nested_request program (fr_request frame) (find_callee program f) name arguments remaining)"
      show ?thesis
      proof (cases answer)
        case None
        with assms(1) Call args False show ?thesis
          by (simp add: execute_operation_def exec_call_def result_of_def Let_def flip: remaining_def answer_def)
      next
        case (Some nested)
        define merged where
          "merged = r\<lparr>xr_steps := xr_steps r + xr_steps nested, xr_effects := xr_effects r @ xr_effects nested\<rparr>"
        from called Some have "P merged" unfolding merged_def answer_def remaining_def by blast
        moreover have "r' = merged \<or> (\<exists>status failure. r' = merged\<lparr>xr_status := status, xr_failure := failure\<rparr>)"
          using assms(1) Call args False Some
          by (auto simp: execute_operation_def exec_call_def result_of_def Let_def store_def fail_result_def
              simp flip: remaining_def answer_def merged_def split: if_splits list.splits)
        ultimately show ?thesis using status by auto
      qed
    qed
  qed
next
  case (Effect eff capability)
  with assms(1) failed effect show ?thesis
    by (auto simp: execute_operation_def exec_effect_def result_of_def split: if_splits)
qed (use assms(1,2) failed in \<open>auto simp: execute_operation_def result_of_def store_def
    split: op_outcome.splits list.splits simp del: exec_pure.simps\<close>)



section \<open>Budgets\<close>

lemma run_blocks_budget:
  assumes "run_blocks lib program call frame current vals result = Some r"
    and "xr_steps result \<le> rq_step_budget (fr_request frame)"
    and call: "\<And>trusted request nested. call trusted request = Some nested \<Longrightarrow> xr_steps nested \<le> rq_step_budget request"
  shows "xr_steps r \<le> rq_step_budget (fr_request frame)"
  using assms(1,2)
proof (rule run_blocks_invariant)
  fix identity oper vals r r'
  assume p: "xr_steps r \<le> rq_step_budget (fr_request frame)"
    and op: "result_of (execute_operation lib program call frame identity oper vals r) = Some r'"
  show "xr_steps r' \<le> rq_step_budget (fr_request frame)"
    by (rule execute_operation_preserves [where P = "\<lambda>r. xr_steps r \<le> rq_step_budget (fr_request frame)", OF op p])
      (use p in \<open>auto dest!: call simp: nested_request_def\<close>)
qed (auto simp: consume_step_def split: if_splits)

text \<open>Property C11.  Execution terminates, and it never takes more steps than the request's budget:
  the counter of the result, the steps of all nested calls included, is at most the budget.  (The
  interpreter is a total function; its only other outcome is a panic on a malformed body.)\<close>

theorem execution_within_budget:
  "execute_inner lib program valid record_effects depth trusted request = Some r \<Longrightarrow>
     xr_steps r \<le> rq_step_budget request"
proof (induction lib program valid record_effects depth trusted request arbitrary: r rule: execute_inner.induct)
  case (1 lib program valid record_effects depth trusted request)
  show ?case
  proof (cases "enter_function reusable_parameters program valid record_effects depth trusted request")
    case (Inl refused)
    with 1(2) enter_function_refused [OF Inl] show ?thesis by (auto simp: execute_inner.simps)
  next
    case (Inr entered)
    with 1(2) have "run_blocks lib program
        (\<lambda>trusted' request'. execute_inner lib program valid record_effects (depth + 1) trusted' request')
        (fst entered) (fb_entry (fr_body (fst entered))) (snd entered) empty_result = Some r"
      by (subst (asm) execute_inner.simps) simp
    then have "xr_steps r \<le> rq_step_budget (fr_request (fst entered))"
      by (rule run_blocks_budget) (simp, rule 1(1) [OF Inr])
    with enter_function_frame Inr show ?thesis by (metis prod.collapse)
  qed
qed




section \<open>A larger budget\<close>

definition with_budget :: "nat \<Rightarrow> execution_request \<Rightarrow> execution_request" where
  "with_budget n request = request\<lparr>rq_step_budget := n\<rparr>"

definition frame_budget :: "nat \<Rightarrow> frame \<Rightarrow> frame" where
  "frame_budget n frame = frame\<lparr>fr_request := with_budget n (fr_request frame)\<rparr>"

lemma with_budget_simps [simp]:
  "rq_step_budget (with_budget n request) = n" "rq_schema (with_budget n request) = rq_schema request"
  "rq_module (with_budget n request) = rq_module request" "rq_function (with_budget n request) = rq_function request"
  "rq_arguments (with_budget n request) = rq_arguments request"
  "rq_call_depth_budget (with_budget n request) = rq_call_depth_budget request"
  by (simp_all add: with_budget_def)

lemma frame_budget_simps [simp]:
  "fr_request (frame_budget n frame) = with_budget n (fr_request frame)" "fr_body (frame_budget n frame) = fr_body frame"
  "fr_namespace (frame_budget n frame) = fr_namespace frame" "fr_function (frame_budget n frame) = fr_function frame"
  "fr_record (frame_budget n frame) = fr_record frame" "fr_reusable (frame_budget n frame) = fr_reusable frame"
  by (simp_all add: frame_budget_def)

lemma nested_request_budget:
  "nested_request program (with_budget n request) target name arguments m =
     with_budget m (nested_request program request target name arguments k)"
  by (cases target) (simp_all add: nested_request_def with_budget_def)

text \<open>A callee answers the same under a larger budget unless it ran out of budget.\<close>

definition budget_stable :: "callee \<Rightarrow> bool" where
  "budget_stable call \<longleftrightarrow>
     (\<forall>trusted request n nested. call trusted request = Some nested \<longrightarrow> xr_status nested \<noteq> BudgetExhausted \<longrightarrow>
        0 < rq_step_budget request \<longrightarrow> rq_step_budget request \<le> n \<longrightarrow> n \<le> max_execution_budget \<longrightarrow>
        call trusted (with_budget n request) = Some nested)"

definition exhausted :: "step_outcome \<Rightarrow> bool" where
  "exhausted outcome = (case outcome of Stop r \<Rightarrow> xr_status r = BudgetExhausted | Continue _ _ \<Rightarrow> False | Panicked \<Rightarrow> True)"

lemma exec_call_budget:
  assumes call: "budget_stable call"
    and n: "rq_step_budget (fr_request frame) \<le> n" "n \<le> max_execution_budget"
    and completes: "\<not> exhausted (exec_call program call frame identity f name oper vals r)"
  shows "exec_call program call (frame_budget n frame) identity f name oper vals r =
    exec_call program call frame identity f name oper vals r"
proof (cases "collect_operands oper vals")
  case None
  then show ?thesis by (simp add: exec_call_def)
next
  case args: (Some arguments)
  define remaining where "remaining = rq_step_budget (fr_request frame) - xr_steps r"
  define request where "request = nested_request program (fr_request frame) (find_callee program f) name arguments remaining"
  define answer where "answer = call (trusted_marks frame (find_callee program f) (bo_operands oper)) request"
  have left: "remaining \<noteq> 0"
    using completes args by (auto simp: exec_call_def exhausted_def Let_def remaining_def)
  obtain nested where nested: "answer = Some nested"
    using completes args left
    by (cases answer) (auto simp: exec_call_def exhausted_def Let_def simp flip: remaining_def request_def answer_def)
  have ok: "xr_status nested \<noteq> BudgetExhausted"
    using completes args left nested
    by (auto simp: exec_call_def exhausted_def Let_def simp flip: remaining_def request_def answer_def)
  have marks: "trusted_marks (frame_budget n frame) target operands = trusted_marks frame target operands" for target operands
    by (simp add: trusted_marks_def)
  have "rq_step_budget request = remaining" by (simp add: request_def nested_request_def)
  then have same: "call (trusted_marks frame (find_callee program f) (bo_operands oper))
      (with_budget (n - xr_steps r) request) = Some nested"
    using call nested ok left n unfolding budget_stable_def answer_def remaining_def by auto
  have "n - xr_steps r \<noteq> 0" using left n by (simp add: remaining_def)
  then show ?thesis
    using args left nested same
    by (simp add: exec_call_def Let_def marks nested_request_budget [where k = remaining]
        flip: remaining_def request_def answer_def)
qed

lemma execute_operation_budget:
  assumes "budget_stable call"
    and "rq_step_budget (fr_request frame) \<le> n" "n \<le> max_execution_budget"
    and "\<not> exhausted (execute_operation lib program call frame identity oper vals r)"
  shows "execute_operation lib program call (frame_budget n frame) identity oper vals r =
    execute_operation lib program call frame identity oper vals r"
  using assms exec_call_budget [OF assms(1-3)]
  by (cases "bo_kind oper") (simp_all add: execute_operation_def exec_effect_def)

lemma consume_step_budget:
  "consume_step budget r = Some stepped \<Longrightarrow> budget \<le> n \<Longrightarrow> consume_step n r = Some stepped"
  by (simp add: consume_step_def split: if_splits)

lemma run_operations_budget:
  assumes "budget_stable call"
    and "rq_step_budget (fr_request frame) \<le> n" "n \<le> max_execution_budget"
    and "\<not> exhausted (run_operations lib program call frame block opers vals r)"
  shows "run_operations lib program call (frame_budget n frame) block opers vals r =
    run_operations lib program call frame block opers vals r"
  using assms(4)
proof (induction opers arbitrary: vals r)
  case (Cons oper opers)
  define identity where "identity = operation_id (fr_namespace frame) (fr_function frame) block (bo_id oper)"
  obtain stepped where stepped: "consume_step (rq_step_budget (fr_request frame)) r = Some stepped"
    using Cons.prems by (cases "consume_step (rq_step_budget (fr_request frame)) r") (auto simp: Let_def exhausted_def)
  have "\<not> exhausted (execute_operation lib program call frame identity oper vals stepped)"
    using Cons.prems stepped
    by (auto simp: Let_def exhausted_def simp flip: identity_def split: step_outcome.splits)
  note same = execute_operation_budget [OF assms(1-3) this]
  show ?case
    using Cons stepped consume_step_budget [OF stepped assms(2)]
    by (simp add: Let_def same exhausted_def split: step_outcome.splits flip: identity_def)
qed simp


lemma run_blocks_larger_budget:
  assumes "budget_stable call" "rq_step_budget (fr_request frame) \<le> n" "n \<le> max_execution_budget"
    and "run_blocks lib program call frame current vals result = Some r" "xr_status r \<noteq> BudgetExhausted"
  shows "run_blocks lib program call (frame_budget n frame) current vals result = Some r"
  using assms
proof (induction lib program call frame current vals result rule: run_blocks.induct)
  case (1 lib program call frame current vals result)
  note n = 1(2-4) and run = 1(5)
  show ?case
  proof (cases "block_map (fr_body frame) current")
    case None
    with run show ?thesis by (simp add: run_blocks.simps)
  next
    case (Some block)
    define out where "out = run_operations lib program call frame (bb_id block) (bb_operations block) vals result"
    have "\<not> exhausted out"
      using run 1(6) Some
      by (subst (asm) run_blocks.simps) (auto simp: exhausted_def simp flip: out_def split: step_outcome.splits)
    then have same: "run_operations lib program call (frame_budget n frame) (bb_id block) (bb_operations block) vals result = out"
      unfolding out_def by (rule run_operations_budget [OF n])
    show ?thesis
    proof (cases out)
      case (Continue vals1 result1)
      obtain stepped where stepped: "consume_step (rq_step_budget (fr_request frame)) result1 = Some stepped"
        using run 1(6) Some Continue
        by (subst (asm) run_blocks.simps) (auto simp flip: out_def split: option.splits)
      note stepped' = consume_step_budget [OF stepped n(2)]
      show ?thesis
      proof (cases "exec_terminator (fr_body frame) (bb_terminator block) vals1 stepped")
        case (Jump target vals2)
        with run Some Continue stepped have "run_blocks lib program call frame target vals2 stepped = Some r"
          by (subst (asm) run_blocks.simps) (simp flip: out_def)
        with 1(1) [OF Some Continue [unfolded out_def] stepped Jump n] 1(6)
        have "run_blocks lib program call (frame_budget n frame) target vals2 stepped = Some r" by blast
        then show ?thesis by (subst run_blocks.simps) (simp add: Some same Continue stepped' Jump)
      next
        case (Finish finished)
        with run Some Continue stepped have "r = finished"
          by (subst (asm) run_blocks.simps) (simp flip: out_def)
        then show ?thesis by (subst run_blocks.simps) (simp add: Some same Continue stepped' Finish)
      qed
    next
      case (Stop stopped)
      with run Some have "r = stopped" by (subst (asm) run_blocks.simps) (simp flip: out_def)
      then show ?thesis by (subst run_blocks.simps) (simp add: Some same Stop)
    next
      case Panicked
      with run Some show ?thesis by (subst (asm) run_blocks.simps) (simp flip: out_def)
    qed
  qed
qed

lemma enter_function_budget:
  assumes "0 < rq_step_budget request" "rq_step_budget request \<le> n" "n \<le> max_execution_budget"
  shows "enter_function select program valid record_effects depth trusted (with_budget n request) =
    map_sum id (\<lambda>(frame, vals). (frame_budget n frame, vals))
      (enter_function select program valid record_effects depth trusted request)"
proof -
  have "request_admissible program valid (with_budget n request) = request_admissible program valid request"
    using assms by (simp add: request_admissible_def)
  then show ?thesis by (auto simp: enter_function_def frame_budget_def Let_def split: option.splits)
qed

text \<open>Property C13.  A larger step budget never changes an answer: an execution that finished within
  its budget, whether it returned or failed, gives the same result (the same values, steps, effects
  and failure) under every larger admissible budget.\<close>

theorem larger_budget_same_result:
  "execute_inner lib program valid record_effects depth trusted request = Some r \<Longrightarrow>
     xr_status r \<noteq> BudgetExhausted \<Longrightarrow> 0 < rq_step_budget request \<Longrightarrow>
     rq_step_budget request \<le> n \<Longrightarrow> n \<le> max_execution_budget \<Longrightarrow>
     execute_inner lib program valid record_effects depth trusted (with_budget n request) = Some r"
proof (induction lib program valid record_effects depth trusted request arbitrary: r n rule: execute_inner.induct)
  case (1 lib program valid record_effects depth trusted request)
  note entry = enter_function_budget [OF 1(4-6), where select = reusable_parameters and program = program
      and valid = valid and record_effects = record_effects and depth = depth and trusted = trusted]
  show ?case
  proof (cases "enter_function reusable_parameters program valid record_effects depth trusted request")
    case (Inl refused)
    with 1(2) entry show ?thesis by (simp add: execute_inner.simps)
  next
    case (Inr entered)
    define call where "call = (\<lambda>trusted' request'. execute_inner lib program valid record_effects (depth + 1) trusted' request')"
    have "budget_stable call"
      unfolding budget_stable_def call_def using 1(1) [OF Inr] by blast
    moreover have "run_blocks lib program call (fst entered) (fb_entry (fr_body (fst entered))) (snd entered) empty_result = Some r"
      using 1(2) Inr unfolding call_def by (subst (asm) execute_inner.simps) simp
    moreover have "rq_step_budget (fr_request (fst entered)) \<le> n"
      using enter_function_frame Inr 1(5) by (metis prod.collapse)
    ultimately have "run_blocks lib program call (frame_budget n (fst entered))
        (fb_entry (fr_body (fst entered))) (snd entered) empty_result = Some r"
      using 1(3,6) by (intro run_blocks_larger_budget)
    then show ?thesis
      by (subst execute_inner.simps) (simp add: entry Inr case_prod_beta call_def)
  qed
qed


section \<open>A small program\<close>

text \<open>A function that calls another one, run under two budgets.\<close>

definition byte_int :: integer_type where
  "byte_int = \<lparr>ty_bits = 8, ty_signed = False\<rparr>"

definition inc_body :: function_body where
  "inc_body =
     plain_body ''b'' [\<lparr>bp_id = ''x'', bp_name = ''x'', bp_ty = TInteger byte_int\<rparr>]
       [\<lparr>bb_id = ''b'', bb_parameters = [],
        bb_operations =
          [plain_operation ''o1'' (Constant 1 (TInteger byte_int)) [] [\<lparr>bv_id = ''c'', bv_ty = TInteger byte_int\<rparr>],
           plain_operation ''o2'' (Integer ''add'' byte_int Checked) [''x'', ''c'']
             [\<lparr>bv_id = ''s'', bv_ty = TInteger byte_int\<rparr>]],
        bb_terminator = Return [''s'']\<rparr>]"

definition main_body :: function_body where
  "main_body =
     plain_body ''b'' [\<lparr>bp_id = ''x'', bp_name = ''x'', bp_ty = TInteger byte_int\<rparr>]
       [\<lparr>bb_id = ''b'', bb_parameters = [],
        bb_operations =
          [plain_operation ''o1'' (Call (function_id ''app'' ''inc'') ''inc'' [] [] []) [''x'']
             [\<lparr>bv_id = ''y'', bv_ty = TInteger byte_int\<rparr>]],
        bb_terminator = Return [''y'']\<rparr>]"

abbreviation demo_fn :: "string \<Rightarrow> function_body \<Rightarrow> fn" where
  "demo_fn name body \<equiv> plain_fn name [\<lparr>nv_name = ''x'', nv_type = ''u8''\<rparr>] [\<lparr>nv_name = ''r'', nv_type = ''u8''\<rparr>] body"

definition demo_program :: program where
  "demo_program = plain_program ''app'' [] [] [demo_fn ''inc'' inc_body, demo_fn ''main'' main_body]"

definition demo_request :: "string \<Rightarrow> nat \<Rightarrow> execution_request" where
  "demo_request name budget =
     \<lparr>rq_schema = ''0.1'', rq_module = ''app'', rq_function = name, rq_arguments = [VInteger 41 byte_int],
      rq_step_budget = budget, rq_call_depth_budget = None\<rparr>"

lemma demo_integer: "evaluate_integer ''add'' byte_int Checked 41 1 = Some 42"
  by code_simp

lemma demo_simps:
  "in_range 41 byte_int" "in_range 1 byte_int" "byte_int \<noteq> \<lparr>ty_bits = 1, ty_signed = False\<rparr>" "ty_bits byte_int = 8"
  "integer_operator_supported ''add'' Checked"
  by code_simp+

definition demo_frame :: "function_body \<Rightarrow> string \<Rightarrow> nat \<Rightarrow> frame" where
  "demo_frame body name budget =
     \<lparr>fr_namespace = ''app'', fr_function = name, fr_body = body, fr_reusable = [],
      fr_request = demo_request name budget, fr_record = False\<rparr>"

lemma demo_enter:
  "0 < n \<Longrightarrow> n \<le> 100 \<Longrightarrow> d \<le> 3 \<Longrightarrow>
   enter_function reusable_parameters demo_program True False d None (demo_request ''inc'' n) =
     Inr (demo_frame inc_body ''inc'' n, [''x'' \<mapsto> VInteger 41 byte_int])"
  "0 < n \<Longrightarrow> n \<le> 100 \<Longrightarrow> d \<le> 3 \<Longrightarrow>
   enter_function reusable_parameters demo_program True False d None (demo_request ''main'' n) =
     Inr (demo_frame main_body ''main'' n, [''x'' \<mapsto> VInteger 41 byte_int])"
  by (simp_all add: enter_function_def request_admissible_def demo_request_def resolve_concrete_entry_def
      find_function_def demo_program_def identity_namespace_def max_execution_budget_def model_max_call_depth_def
      validate_arguments_def normalize_arguments_def demo_simps reusable_parameters_def
      sequence_validation_work_is_large_def inc_body_def main_body_def trusted_at_def demo_frame_def)

lemma demo_call:
  "find_callee demo_program (function_id ''app'' ''inc'') = Some (pg_functions demo_program ! 0)"
  "nested_request demo_program (demo_request ''main'' n) (Some (pg_functions demo_program ! 0)) name [VInteger 41 byte_int] m =
     demo_request ''inc'' m"
  "rq_step_budget (demo_request name n) = n"
  by (simp_all add: find_callee_def nested_request_def demo_request_def demo_program_def identity_namespace_def
      function_id_def make_id_inject)

lemmas demo_run = execute_inner.simps demo_enter demo_call demo_frame_def demo_simps demo_integer
  run_blocks.simps block_map_def consume_step_def execute_operation_def exec_constant_def constant_value_def
  store_def exec_integer_def integer_operands_def pair_operands_def exec_terminator_def empty_result_def

lemma demo_inc:
  "0 < n \<Longrightarrow> 3 \<le> n \<Longrightarrow> n \<le> 100 \<Longrightarrow> execute_inner lib demo_program True False (Suc 0) None (demo_request ''inc'' n) =
     Some \<lparr>xr_status = Returned, xr_returned = [VInteger 42 byte_int], xr_steps = 3, xr_failure = None, xr_effects = []\<rparr>"
  by (simp add: demo_run inc_body_def)

lemma demo_main:
  "execute_inner lib demo_program True False 0 None (demo_request ''main'' 9) =
     Some \<lparr>xr_status = Returned, xr_returned = [VInteger 42 byte_int], xr_steps = 5, xr_failure = None, xr_effects = []\<rparr>"
  by (subst execute_inner.simps)
    (simp add: demo_enter demo_call demo_frame_def main_body_def run_blocks.simps block_map_def consume_step_def
      execute_operation_def exec_call_def collect_operands_def empty_result_def trusted_marks_def demo_inc
      store_def exec_terminator_def)

definition demo_result :: "nat \<Rightarrow> execution_result" where
  "demo_result n =
     \<lparr>xr_status = Returned, xr_returned = [VInteger 42 byte_int], xr_steps = n, xr_failure = None, xr_effects = []\<rparr>"

theorem execution_within_budget_witness: "xr_steps (demo_result 5) \<le> rq_step_budget (demo_request ''main'' 9)"
  using execution_within_budget [OF demo_main] by (simp add: demo_result_def)


theorem larger_budget_same_result_witness:
  "execute_inner \<lparr>sin_bits = id, cos_bits = id\<rparr> demo_program True False 0 None (demo_request ''main'' 5000000) =
     Some (demo_result 5)"
  using larger_budget_same_result [OF demo_main, of 5000000 "\<lparr>sin_bits = id, cos_bits = id\<rparr>"]
  by (simp add: demo_result_def demo_request_def with_budget_def max_execution_budget_def)

end
