(* ===== verification/Reuse.thy ===== *)
theory Reuse
  imports Interp
begin

text \<open>
  Reusing the check of an argument changes nothing.  The interpreter skips checking and normalising
  an argument that is handed on from a parameter which was large and passed its own check against
  the same type.  For programs whose bodies bind a parameter's name once, this gives the results of
  the interpreter that checks every argument of every call.
\<close>

section \<open>Parameters keep their values\<close>

definition parameters_unique :: "function_body \<Rightarrow> bool" where
  "parameters_unique body \<longleftrightarrow>
     distinct (map bp_id (fb_parameters body)) \<and>
     list_all (\<lambda>b. list_all (\<lambda>v. bv_id v \<notin> bp_id ` set (fb_parameters body))
       (bb_parameters b @ concat (map bo_results (bb_operations b)))) (fb_blocks body)"

definition parameters_unique_in :: "program \<Rightarrow> bool" where
  "parameters_unique_in program \<longleftrightarrow>
     list_all (\<lambda>f. case fn_body f of None \<Rightarrow> True | Some body \<Rightarrow> parameters_unique body) (pg_functions program)"

lemma parameters_unique_fresh:
  assumes "parameters_unique body" "b \<in> set (fb_blocks body)" "x \<in> bp_id ` set (fb_parameters body)"
  shows "v \<in> set (bb_parameters b) \<Longrightarrow> bv_id v \<noteq> x"
    and "oper \<in> set (bb_operations b) \<Longrightarrow> v \<in> set (bo_results oper) \<Longrightarrow> bv_id v \<noteq> x"
proof -
  have "bv_id v \<notin> bp_id ` set (fb_parameters body)"
    if "v \<in> set (bb_parameters b @ concat (map bo_results (bb_operations b)))" for v
    using assms(1,2) that unfolding parameters_unique_def list_all_iff by blast
  with assms(3) show "v \<in> set (bb_parameters b) \<Longrightarrow> bv_id v \<noteq> x"
    and "oper \<in> set (bb_operations b) \<Longrightarrow> v \<in> set (bo_results oper) \<Longrightarrow> bv_id v \<noteq> x"
    by auto
qed

lemma value_types_parameter:
  assumes "parameters_unique body" "p \<in> set (fb_parameters body)"
  shows "value_types body (bp_id p) = Some (bp_ty p)"
proof -
  define params where "params = map (\<lambda>p. (bp_id p, bp_ty p)) (fb_parameters body)"
  define others where "others = concat (map (\<lambda>b. map (\<lambda>v. (bv_id v, bv_ty v))
    (bb_parameters b @ concat (map bo_results (bb_operations b)))) (fb_blocks body))"
  have table: "value_types body = map_of (rev (params @ others))"
    by (simp only: value_types_def params_def others_def)
  have "map_of (rev others) (bp_id p) = None"
    using parameters_unique_fresh [OF assms(1) _ imageI [OF assms(2)]]
    by (force simp: map_of_eq_None_iff others_def)
  moreover have "map_of (rev params) (bp_id p) = Some (bp_ty p)"
  proof (rule map_of_is_SomeI)
    have "map fst (rev params) = rev (map bp_id (fb_parameters body))" by (simp add: params_def rev_map comp_def)
    then show "distinct (map fst (rev params))" using assms(1) by (simp add: parameters_unique_def)
    show "(bp_id p, bp_ty p) \<in> set (rev params)" using assms(2) by (auto simp: params_def)
  qed
  ultimately show ?thesis
    unfolding table by (simp add: map_add_def)
qed

text \<open>Every reusable parameter of a frame holds a value in the normal form of its type.\<close>

definition held :: "program \<Rightarrow> frame \<Rightarrow> env \<Rightarrow> bool" where
  "held program frame vals \<longleftrightarrow>
     set (fr_reusable frame) \<subseteq> set (fb_parameters (fr_body frame)) \<and>
     (\<forall>p\<in>set (fr_reusable frame). \<exists>v. vals (bp_id p) = Some v \<and> normalize_value program v (bp_ty p) = Some v)"

lemma held_update:
  assumes "held program frame vals" "\<And>x. x \<in> bp_id ` set (fb_parameters (fr_body frame)) \<Longrightarrow> vals' x = vals x"
  shows "held program frame vals'"
  using assms unfolding held_def by (metis image_eqI subsetD)

lemma assign_block_arguments_other:
  assumes "parameters_unique body" "assign_block_arguments body target arguments vals = Some vals'"
    "x \<in> bp_id ` set (fb_parameters body)"
  shows "vals' x = vals x"
proof -
  from assms(2) obtain block resolved where block: "block_map body target = Some block"
    "vals' = vals ++ map_of (rev (zip (map bv_id (bb_parameters block)) resolved))"
    by (auto simp: assign_block_arguments_def split: option.splits if_splits)
  have "x \<notin> bv_id ` set (bb_parameters block)"
    using parameters_unique_fresh(1) [OF assms(1) _ assms(3)] block_map_in [OF block(1)] by blast
  then have "map_of (rev (zip (map bv_id (bb_parameters block)) resolved)) x = None"
    by (auto simp: map_of_eq_None_iff dest: set_zip_leftD)
  then show ?thesis by (simp add: block(2) map_add_def)
qed


section \<open>Calls\<close>

definition trusted_ok :: "program \<Rightarrow> bool list option \<Rightarrow> execution_request \<Rightarrow> bool" where
  "trusted_ok program trusted request \<longleftrightarrow>
     (\<forall>f body i. find_function program (rq_module request) (rq_function request) = Some f \<longrightarrow>
        fn_body f = Some body \<longrightarrow> trusted_at trusted i \<longrightarrow>
        i < length (rq_arguments request) \<longrightarrow> i < length (fb_parameters body) \<longrightarrow>
        normalize_value program (rq_arguments request ! i) (bp_ty (fb_parameters body ! i)) =
          Some (rq_arguments request ! i))"

lemma find_callee_function:
  assumes "find_callee program identity = Some f"
  shows "find_function program (identity_namespace f (pg_module program)) (fn_name f) = Some f"
proof -
  have same: "(function_id (identity_namespace g (pg_module program)) (fn_name g) = identity) =
      (fn_name g = fn_name f \<and> identity_namespace g (pg_module program) = identity_namespace f (pg_module program))" for g
  proof -
    have "function_id (identity_namespace f (pg_module program)) (fn_name f) = identity"
      using assms by (auto simp: find_callee_def find_Some_iff)
    then show ?thesis by (auto simp: function_id_def make_id_inject)
  qed
  then show ?thesis using assms by (simp add: find_callee_def find_function_def)
qed

lemma trusted_marks_ok:
  assumes "parameters_unique (fr_body frame)" "held program frame vals"
    and "collect_operands oper vals = Some arguments"
  shows "trusted_ok program (trusted_marks frame (find_callee program identity) (bo_operands oper))
    (nested_request program request (find_callee program identity) name arguments remaining)"
  unfolding trusted_ok_def
proof (intro allI impI)
  fix f body i
  assume f: "find_function program
      (rq_module (nested_request program request (find_callee program identity) name arguments remaining))
      (rq_function (nested_request program request (find_callee program identity) name arguments remaining)) = Some f"
    and body: "fn_body f = Some body"
    and marked: "trusted_at (trusted_marks frame (find_callee program identity) (bo_operands oper)) i"
    and i: "i < length (fb_parameters body)"
  let ?x = "bo_operands oper ! i"
  have args: "map vals (bo_operands oper) = map Some arguments"
    using assms(3) by (simp add: collect_operands_def collect_options_Some)
  have len: "i < length (bo_operands oper)"
    using marked by (auto simp: trusted_at_def trusted_marks_def Let_def split: if_splits)
  from marked len obtain p where p: "p \<in> set (fr_reusable frame)" "bp_id p = ?x"
    and ty: "i < length (callee_parameters (find_callee program identity))"
      "value_types (fr_body frame) ?x = Some (bp_ty (callee_parameters (find_callee program identity) ! i))"
    by (auto simp: trusted_at_def trusted_marks_def argument_validation_can_be_reused_def Let_def list_ex_iff
        split: if_splits)
  obtain g where g: "find_callee program identity = Some g"
    using ty(1) by (cases "find_callee program identity") (auto simp: callee_parameters_def)
  with f find_callee_function [OF g] have "f = g" by (simp add: nested_request_def)
  with g body have params: "callee_parameters (find_callee program identity) = fb_parameters body"
    by (simp add: callee_parameters_def)
  from p assms(2) have "p \<in> set (fb_parameters (fr_body frame))" by (auto simp: held_def)
  from value_types_parameter [OF assms(1) this] p(2) ty(2) params
  have "bp_ty (fb_parameters body ! i) = bp_ty p" by simp
  moreover from p assms(2) obtain v where "vals ?x = Some v" "normalize_value program v (bp_ty p) = Some v"
    by (auto simp: held_def)
  moreover have "vals ?x = Some (arguments ! i)"
    using args len by (metis length_map nth_map)
  ultimately show "normalize_value program
      (rq_arguments (nested_request program request (find_callee program identity) name arguments remaining) ! i)
      (bp_ty (fb_parameters body ! i)) =
    Some (rq_arguments (nested_request program request (find_callee program identity) name arguments remaining) ! i)"
    by (simp add: nested_request_def)
qed


section \<open>The two interpreters agree\<close>

definition checking_frame :: "frame \<Rightarrow> frame" where
  "checking_frame frame = frame\<lparr>fr_reusable := []\<rparr>"

lemma checking_frame_simps [simp]:
  "fr_request (checking_frame frame) = fr_request frame" "fr_body (checking_frame frame) = fr_body frame"
  "fr_namespace (checking_frame frame) = fr_namespace frame" "fr_function (checking_frame frame) = fr_function frame"
  "fr_record (checking_frame frame) = fr_record frame" "fr_reusable (checking_frame frame) = []"
  by (simp_all add: checking_frame_def)

definition agrees :: "program \<Rightarrow> callee \<Rightarrow> callee \<Rightarrow> bool" where
  "agrees program call call' \<longleftrightarrow>
     (\<forall>trusted request. trusted_ok program trusted request \<longrightarrow> call trusted request = call' None request)"

lemma execute_operation_agrees:
  assumes "agrees program call call'" "parameters_unique (fr_body frame)" "held program frame vals"
  shows "execute_operation lib program call frame identity oper vals r =
    execute_operation lib program call' (checking_frame frame) identity oper vals r"
proof (cases "bo_kind oper")
  case (Call f name caps effs args)
  have "exec_call program call frame identity f name oper vals r =
      exec_call program call' (checking_frame frame) identity f name oper vals r"
  proof (cases "collect_operands oper vals")
    case None
    then show ?thesis by (simp add: exec_call_def)
  next
    case (Some arguments)
    have "call (trusted_marks frame (find_callee program f) (bo_operands oper)) request = call' None request"
      if "request = nested_request program (fr_request frame) (find_callee program f) name arguments
        (rq_step_budget (fr_request frame) - xr_steps r)" for request
      using assms(1) trusted_marks_ok [OF assms(2,3) Some] unfolding that agrees_def by blast
    moreover have "trusted_marks (checking_frame frame) target operands = None" for target operands
      by (simp add: trusted_marks_def)
    ultimately show ?thesis by (simp add: exec_call_def Some Let_def)
  qed
  with Call show ?thesis by (simp add: execute_operation_def)
qed (simp_all add: execute_operation_def exec_effect_def del: exec_pure.simps)

lemma execute_operation_held:
  assumes "held program frame vals"
    and "\<And>v. v \<in> set (bo_results oper) \<Longrightarrow> bv_id v \<notin> bp_id ` set (fb_parameters (fr_body frame))"
    and "execute_operation lib program call frame identity oper vals r = Continue vals' r'"
  shows "held program frame vals'"
proof (rule held_update [OF assms(1)])
  have "vals' = vals \<or> (\<exists>v w. v \<in> set (bo_results oper) \<and> vals' = vals(bv_id v \<mapsto> w))"
    using assms(3)
    by (auto simp: execute_operation_def exec_call_def exec_effect_def store_def Let_def simp del: exec_pure.simps
        split: operation_kind.splits op_outcome.splits option.splits list.splits if_splits)
  then show "vals' x = vals x" if "x \<in> bp_id ` set (fb_parameters (fr_body frame))" for x
    using assms(2) that by (metis fun_upd_other)
qed

lemma run_operations_agrees:
  assumes "agrees program call call'" "parameters_unique (fr_body frame)"
    and "held program frame vals"
    and "\<And>oper v. oper \<in> set opers \<Longrightarrow> v \<in> set (bo_results oper) \<Longrightarrow>
      bv_id v \<notin> bp_id ` set (fb_parameters (fr_body frame))"
  shows "run_operations lib program call frame block opers vals r =
      run_operations lib program call' (checking_frame frame) block opers vals r \<and>
    (\<forall>vals' r'. run_operations lib program call frame block opers vals r = Continue vals' r' \<longrightarrow> held program frame vals')"
  using assms(3,4)
proof (induction opers arbitrary: vals r)
  case (Cons oper opers)
  define identity where "identity = operation_id (fr_namespace frame) (fr_function frame) block (bo_id oper)"
  show ?case
  proof (cases "consume_step (rq_step_budget (fr_request frame)) r")
    case (Some stepped)
    note same = execute_operation_agrees [OF assms(1,2) Cons.prems(1), of lib identity oper stepped]
    show ?thesis
    proof (cases "execute_operation lib program call frame identity oper vals stepped")
      case (Continue vals1 r1)
      have "held program frame vals1"
        by (rule execute_operation_held [OF Cons.prems(1) _ Continue]) (use Cons.prems(2) in auto)
      then have "run_operations lib program call frame block opers vals1 r1 =
          run_operations lib program call' (checking_frame frame) block opers vals1 r1 \<and>
        (\<forall>vals' r'. run_operations lib program call frame block opers vals1 r1 = Continue vals' r' \<longrightarrow>
          held program frame vals')"
        by (rule Cons.IH) (use Cons.prems(2) in auto)
      then show ?thesis using Some Continue same by (simp add: Let_def flip: identity_def)
    qed (use Some same in \<open>simp_all add: Let_def flip: identity_def\<close>)
  qed (simp add: Let_def)
qed simp

lemma run_blocks_agrees:
  assumes "agrees program call call'" "parameters_unique (fr_body frame)" "held program frame vals"
  shows "run_blocks lib program call frame current vals r =
    run_blocks lib program call' (checking_frame frame) current vals r"
  using assms
proof (induction lib program call frame current vals r rule: run_blocks.induct)
  case (1 lib program call frame current vals r)
  show ?case
  proof (cases "block_map (fr_body frame) current")
    case None
    then show ?thesis by (subst (1 2) run_blocks.simps) simp
  next
    case (Some block)
    then have block: "block \<in> set (fb_blocks (fr_body frame))" using block_map_in by blast
    define out where "out = run_operations lib program call frame (bb_id block) (bb_operations block) vals r"
    have fresh: "bv_id v \<notin> bp_id ` set (fb_parameters (fr_body frame))"
      if "oper \<in> set (bb_operations block)" "v \<in> set (bo_results oper)" for oper v
      using parameters_unique_fresh(2) [OF 1(3) block _ that] by blast
    have ops: "run_operations lib program call' (checking_frame frame) (bb_id block) (bb_operations block) vals r = out"
      and held: "\<And>vals' r'. out = Continue vals' r' \<Longrightarrow> held program frame vals'"
      using run_operations_agrees [OF 1(2,3,4) fresh, where r = r and lib = lib and block = "bb_id block"]
      unfolding out_def by auto
    show ?thesis
    proof (cases out)
      case (Continue vals1 r1)
      show ?thesis
      proof (cases "consume_step (rq_step_budget (fr_request frame)) r1")
        case None
        then show ?thesis by (subst (1 2) run_blocks.simps) (simp add: Some ops Continue flip: out_def)
      next
        case stepped: (Some stepped)
        show ?thesis
        proof (cases "exec_terminator (fr_body frame) (bb_terminator block) vals1 stepped")
          case (Jump target vals2)
          then obtain arguments where assign: "assign_block_arguments (fr_body frame) target arguments vals1 = Some vals2"
            by (auto simp: exec_terminator_def Let_def split: body_terminator.splits option.splits bool.splits)
          have "held program frame vals2"
            by (rule held_update [OF held [OF Continue]]) (rule assign_block_arguments_other [OF 1(3) assign])
          with 1(1) [OF Some Continue [unfolded out_def] stepped Jump 1(2,3)]
          have "run_blocks lib program call frame target vals2 stepped =
              run_blocks lib program call' (checking_frame frame) target vals2 stepped" by blast
          then show ?thesis
            by (subst (1 2) run_blocks.simps) (simp add: Some ops Continue stepped Jump flip: out_def)
        next
          case (Finish finished)
          then show ?thesis
            by (subst (1 2) run_blocks.simps) (simp add: Some ops Continue stepped flip: out_def)
        qed
      qed
    next
      case (Stop stopped)
      then show ?thesis by (subst (1 2) run_blocks.simps) (simp add: Some ops flip: out_def)
    next
      case Panicked
      then show ?thesis by (subst (1 2) run_blocks.simps) (simp add: Some ops flip: out_def)
    qed
  qed
qed


lemma find_function_resolved:
  "Option.bind (resolve_concrete_entry program home name) (find_function program home) = Some f \<Longrightarrow>
     find_function program home name = Some f \<and> f \<in> set (pg_functions program)"
  by (auto simp: resolve_concrete_entry_def find_function_def find_Some_iff bind_eq_Some_conv
      split: option.splits if_splits)

lemma trusted_at_None [simp]: "trusted_at None i = False"
  by (simp add: trusted_at_def)

text \<open>For trusted arguments in normal form the checks and the bindings are those of the full check.\<close>

lemma trusted_arguments:
  assumes "\<And>i. trusted_at trusted i \<Longrightarrow> i < length arguments \<Longrightarrow> i < length (fb_parameters body) \<Longrightarrow>
    normalize_value program (arguments ! i) (bp_ty (fb_parameters body ! i)) = Some (arguments ! i)"
  shows "validate_arguments program body trusted arguments = validate_arguments program body None arguments"
    and "normalize_arguments program body trusted arguments = normalize_arguments program body None arguments"
proof -
  let ?z = "zip [0..<length arguments] (zip (fb_parameters body) arguments)"
  have norm: "normalize_value program a (bp_ty p) = Some a" if "(i, p, a) \<in> set ?z" "trusted_at trusted i" for i p a
    using that assms by (auto simp: set_zip)
  have "list_all (\<lambda>(i, p, a). trusted_at trusted i \<or> value_matches_type program a (bp_ty p)) ?z =
      list_all (\<lambda>(i, p, a). trusted_at None i \<or> value_matches_type program a (bp_ty p)) ?z"
    by (rule list.pred_cong) (auto dest: norm normalize_value_settles)
  then show "validate_arguments program body trusted arguments = validate_arguments program body None arguments"
    by (simp add: validate_arguments_def)
  have "map (\<lambda>(i, p, a). map_option (Pair (bp_id p))
        (if trusted_at trusted i then Some a else normalize_value program a (bp_ty p))) ?z =
      map (\<lambda>(i, p, a). map_option (Pair (bp_id p))
        (if trusted_at None i then Some a else normalize_value program a (bp_ty p))) ?z"
    by (rule map_cong) (auto simp: norm)
  then show "normalize_arguments program body trusted arguments = normalize_arguments program body None arguments"
    unfolding normalize_arguments_def by (rule arg_cong)
qed

lemma normalize_arguments_held:
  assumes "normalize_arguments program body None arguments = Some bound"
    and "length (fb_parameters body) = length arguments" "distinct (map bp_id (fb_parameters body))"
    and p: "p \<in> set (fb_parameters body)"
  shows "\<exists>v. map_of (rev bound) (bp_id p) = Some v \<and> normalize_value program v (bp_ty p) = Some v"
proof -
  have all: "map (\<lambda>(i, p, a). map_option (Pair (bp_id p)) (normalize_value program a (bp_ty p)))
      (zip [0..<length arguments] (zip (fb_parameters body) arguments)) = map Some bound"
    using assms(1) by (simp add: normalize_arguments_def collect_options_Some)
  then have len: "length bound = length arguments" using assms(2) by (auto dest: map_eq_imp_length_eq)
  have entry: "\<exists>w. normalize_value program (arguments ! i) (bp_ty (fb_parameters body ! i)) = Some w \<and>
      bound ! i = (bp_id (fb_parameters body ! i), w)" if "i < length arguments" for i
  proof -
    have "map_option (Pair (bp_id (fb_parameters body ! i)))
        (normalize_value program (arguments ! i) (bp_ty (fb_parameters body ! i))) = Some (bound ! i)"
      using arg_cong [OF all, of "\<lambda>l. l ! i"] that len assms(2) by simp
    then show ?thesis by auto
  qed
  have names: "map fst bound = map bp_id (fb_parameters body)"
  proof (rule nth_equalityI)
    show "length (map fst bound) = length (map bp_id (fb_parameters body))" using len assms(2) by simp
    fix i assume i: "i < length (map fst bound)"
    with entry [of i] len assms(2) show "map fst bound ! i = map bp_id (fb_parameters body) ! i" by auto
  qed
  from p obtain i where i: "i < length arguments" "fb_parameters body ! i = p"
    using assms(2) by (auto simp: in_set_conv_nth)
  from entry [OF i(1)] i(2) obtain w where w: "normalize_value program (arguments ! i) (bp_ty p) = Some w"
    "bound ! i = (bp_id p, w)" by auto
  have "map_of (rev bound) (bp_id p) = Some w"
  proof (rule map_of_is_SomeI)
    show "distinct (map fst (rev bound))" using names assms(3) by (simp flip: rev_map)
    show "(bp_id p, w) \<in> set (rev bound)" using w(2) i(1) len by (metis nth_mem set_rev)
  qed
  with normalize_value_settles [OF w(1)] show ?thesis by blast
qed

lemma enter_function_agrees:
  assumes "parameters_unique_in program" "trusted_ok program trusted request"
  shows "enter_function (\<lambda>_ _ _. []) program valid record_effects depth None request =
      map_sum id (\<lambda>(frame, vals). (checking_frame frame, vals))
        (enter_function reusable_parameters program valid record_effects depth trusted request)"
    and "enter_function reusable_parameters program valid record_effects depth trusted request = Inr (frame, vals) \<Longrightarrow>
      parameters_unique (fr_body frame) \<and> held program frame vals"
proof -
  let ?found = "Option.bind (resolve_concrete_entry program (rq_module request) (rq_function request))
    (find_function program (rq_module request))"
  have args: "validate_arguments program body trusted (rq_arguments request) = validate_arguments program body None (rq_arguments request)"
    "normalize_arguments program body trusted (rq_arguments request) = normalize_arguments program body None (rq_arguments request)"
    if "?found = Some f" "fn_body f = Some body" for f body
    using trusted_arguments [of trusted "rq_arguments request" body program] assms(2) find_function_resolved [OF that(1)] that(2)
    unfolding trusted_ok_def by blast+
  show "enter_function (\<lambda>_ _ _. []) program valid record_effects depth None request =
      map_sum id (\<lambda>(frame, vals). (checking_frame frame, vals))
        (enter_function reusable_parameters program valid record_effects depth trusted request)"
  proof (cases ?found)
    case None
    then show ?thesis by (simp add: enter_function_def)
  next
    case found: (Some f)
    show ?thesis
    proof (cases "fn_body f")
      case None
      with found show ?thesis by (simp add: enter_function_def)
    next
      case (Some body)
      show ?thesis
        by (simp add: enter_function_def found Some args [OF found Some] Let_def checking_frame_def split: option.split)
    qed
  qed
  assume "enter_function reusable_parameters program valid record_effects depth trusted request = Inr (frame, vals)"
  then obtain f body bound where f: "?found = Some f" "fn_body f = Some body" "fr_body frame = body"
    and valid: "validate_arguments program body trusted (rq_arguments request)"
    and bound: "normalize_arguments program body trusted (rq_arguments request) = Some bound"
    and vals: "vals = map_of (rev bound)"
    and reusable: "fr_reusable frame = reusable_parameters (fb_parameters body) trusted vals"
    by (auto simp: enter_function_def Let_def split: if_splits option.splits)
  have unique: "parameters_unique body"
    using assms(1) find_function_resolved [OF f(1)] f(2)
    by (auto simp: parameters_unique_in_def list_all_iff split: option.splits)
  have "set (fr_reusable frame) \<subseteq> set (fb_parameters body)"
    unfolding reusable reusable_parameters_def by (auto dest: set_zip_rightD)
  moreover have "\<exists>v. vals (bp_id p) = Some v \<and> normalize_value program v (bp_ty p) = Some v"
    if "p \<in> set (fb_parameters body)" for p
    unfolding vals
  proof (rule normalize_arguments_held [OF _ _ _ that])
    show "normalize_arguments program body None (rq_arguments request) = Some bound"
      using bound args(2) [OF f(1,2)] by simp
    show "length (fb_parameters body) = length (rq_arguments request)" using valid by (simp add: validate_arguments_def)
    show "distinct (map bp_id (fb_parameters body))" using unique by (simp add: parameters_unique_def)
  qed
  ultimately show "parameters_unique (fr_body frame) \<and> held program frame vals"
    using unique f(3) by (auto simp: held_def)
qed

lemma execute_inner_agrees:
  "parameters_unique_in program \<Longrightarrow> trusted_ok program trusted request \<Longrightarrow>
     execute_inner lib program valid record_effects depth trusted request =
     execute_checking lib program valid record_effects depth request"
proof (induction lib program valid record_effects depth trusted request rule: execute_inner.induct)
  case (1 lib program valid record_effects depth trusted request)
  note entry = enter_function_agrees [OF 1(2,3), of valid record_effects depth]
  show ?case
  proof (cases "enter_function reusable_parameters program valid record_effects depth trusted request")
    case (Inl refused)
    with entry(1) show ?thesis by (simp add: execute_inner.simps execute_checking.simps)
  next
    case (Inr entered)
    obtain frame vals where entered: "entered = (frame, vals)" by (cases entered)
    define call where "call = (\<lambda>trusted' request'. execute_inner lib program valid record_effects (depth + 1) trusted' request')"
    define call' where "call' = (\<lambda>trusted' :: bool list option. execute_checking lib program valid record_effects (depth + 1))"
    have "agrees program call call'"
      unfolding agrees_def call_def call'_def using 1(1) [OF Inr 1(2)] by blast
    moreover have "parameters_unique (fr_body frame)" "held program frame vals"
      using entry(2) Inr entered by blast+
    ultimately have "run_blocks lib program call frame (fb_entry (fr_body frame)) vals empty_result =
        run_blocks lib program call' (checking_frame frame) (fb_entry (fr_body frame)) vals empty_result"
      by (rule run_blocks_agrees)
    then show ?thesis
      using Inr entered entry(1)
      by (subst execute_inner.simps, subst execute_checking.simps) (simp add: call_def call'_def)
  qed
qed

text \<open>Property C12.  Skipping the check of arguments handed on from checked parameters is invisible:
  for every program whose bodies bind parameter names once, executing a request gives exactly the
  result of the interpreter that validates and normalises every argument of every call.\<close>

theorem reuse_changes_nothing:
  assumes "parameters_unique_in program"
  shows "execute lib program valid policy request =
    execute_checking lib program valid (policy = PolicyRecord) 0 request"
  unfolding execute_def using assms by (rule execute_inner_agrees) (simp add: trusted_ok_def)

theorem reuse_changes_nothing_witness:
  "execute \<lparr>sin_bits = id, cos_bits = id\<rparr> demo_program True PolicyRecord (demo_request ''main'' 9) =
    execute_checking \<lparr>sin_bits = id, cos_bits = id\<rparr> demo_program True (PolicyRecord = PolicyRecord) 0
      (demo_request ''main'' 9)"
  by (rule reuse_changes_nothing)
    (simp add: parameters_unique_in_def demo_program_def parameters_unique_def inc_body_def main_body_def)

end
