(* ===== verification/Validated_Run.thy ===== *)
theory Validated_Run
  imports Body_Sound Validation Reuse
begin

text \<open>
  Validated programs do not go wrong: execution of a program that validates never panics, and what a
  function returns has the types it declares, calls included.  The types a body declares are those
  of its definitions, which validation makes unique; every operation keeps the store within them.
\<close>

section \<open>Definitions of a validated body\<close>

lemma map_leD: "m \<subseteq>\<^sub>m m' \<Longrightarrow> m x = Some e \<Longrightarrow> m' x = Some e"
  by (metis domI map_le_def)

lemma map_leI: "(\<And>x e. m x = Some e \<Longrightarrow> m' x = Some e) \<Longrightarrow> m \<subseteq>\<^sub>m m'"
  by (auto simp: map_le_def)

lemma map_le_NoneD: "m \<subseteq>\<^sub>m m' \<Longrightarrow> m' x = None \<Longrightarrow> m x = None"
  by (metis domIff map_le_def)

definition declared_types :: "function_body \<Rightarrow> types" where
  "declared_types body = map_option snd \<circ> snd (body_definitions body)"

definition block_values :: "body_block \<Rightarrow> body_value list" where
  "block_values block = bb_parameters block @ concat (map bo_results (bb_operations block))"

text \<open>What a table gains from the values of one block, when no insertion was reported.\<close>

definition extends_by :: "definitions \<Rightarrow> definitions \<Rightarrow> string \<Rightarrow> body_value list \<Rightarrow> bool" where
  "extends_by m m' block vs \<longleftrightarrow>
     m \<subseteq>\<^sub>m m' \<and> (\<forall>v\<in>set vs. m' (bv_id v) = Some (Some block, bv_ty v) \<and> m (bv_id v) = None)"

lemma extends_by_append:
  assumes "extends_by m m1 block vs" "extends_by m1 m' block ws"
  shows "extends_by m m' block (vs @ ws)"
proof -
  have le: "m \<subseteq>\<^sub>m m1" "m1 \<subseteq>\<^sub>m m'" using assms by (simp_all add: extends_by_def)
  note keep = map_leD [OF le(2)] map_le_NoneD [OF le(1)]
  from assms keep map_le_trans [OF le] show ?thesis by (auto simp: extends_by_def)
qed

lemma insert_definitions:
  "fold (insert_definition code block) vs (codes, m) = ([], m') \<Longrightarrow> codes = [] \<and> extends_by m m' block vs"
proof (induction vs arbitrary: codes m)
  case Nil
  then show ?case by (simp add: extends_by_def)
next
  case (Cons w vs)
  let ?m = "m(bv_id w \<mapsto> (Some block, bv_ty w))"
  have "insert_definition code block w (codes, m) = (codes @ complain (m (bv_id w) \<noteq> None) code, ?m)"
    by (simp add: insert_definition_def)
  with Cons.prems have "fold (insert_definition code block) vs (codes @ complain (m (bv_id w) \<noteq> None) code, ?m) = ([], m')"
    by simp
  note tail = Cons.IH [OF this]
  have fresh: "codes = []" "m (bv_id w) = None" using conjunct1 [OF tail] by (simp_all del: not_None_eq)
  have "extends_by m ?m block [w]"
    using fresh(2) by (auto simp: extends_by_def map_le_def)
  from extends_by_append [OF this conjunct2 [OF tail]] fresh(1) show ?case by simp
qed

lemma block_definitions_clean:
  assumes "block_definitions block (codes, m) = ([], m')"
  shows "codes = [] \<and> extends_by m m' (bb_id block) (block_values block)"
proof -
  obtain codes1 m1 where first: "fold (insert_definition ''MNB008'' (bb_id block)) (bb_parameters block) (codes, m) = (codes1, m1)"
    by (metis surj_pair)
  with assms insert_definitions [of "''MNB011''" "bb_id block" "concat (map bo_results (bb_operations block))" codes1 m1 m']
  have two: "codes1 = []" "extends_by m1 m' (bb_id block) (concat (map bo_results (bb_operations block)))"
    by (simp_all add: block_definitions_def)
  with insert_definitions first have "codes = []" "extends_by m m1 (bb_id block) (bb_parameters block)" by blast+
  with extends_by_append two(2) show ?thesis by (auto simp: block_values_def)
qed

lemma fold_block_definitions:
  "fold block_definitions blocks (codes, m) = ([], m') \<Longrightarrow>
     codes = [] \<and> m \<subseteq>\<^sub>m m' \<and>
     (\<forall>b\<in>set blocks. \<forall>v\<in>set (block_values b). m' (bv_id v) = Some (Some (bb_id b), bv_ty v) \<and> m (bv_id v) = None)"
proof (induction blocks arbitrary: codes m)
  case (Cons block blocks)
  obtain codes1 m1 where first: "block_definitions block (codes, m) = (codes1, m1)" by (metis surj_pair)
  with Cons.prems have "fold block_definitions blocks (codes1, m1) = ([], m')" by simp
  note tail = Cons.IH [OF this]
  have rest: "codes1 = []" "m1 \<subseteq>\<^sub>m m'"
    "\<forall>b\<in>set blocks. \<forall>v\<in>set (block_values b). m' (bv_id v) = Some (Some (bb_id b), bv_ty v) \<and> m1 (bv_id v) = None"
    using tail by blast+
  with first block_definitions_clean have own: "codes = []" "extends_by m m1 (bb_id block) (block_values block)" by blast+
  have le: "m \<subseteq>\<^sub>m m1" using own(2) by (simp add: extends_by_def)
  note keep = map_leD [OF rest(2)] map_le_NoneD [OF le]
  have "m \<subseteq>\<^sub>m m'" using le rest(2) by (rule map_le_trans)
  moreover have "m' (bv_id v) = Some (Some (bb_id b), bv_ty v) \<and> m (bv_id v) = None"
    if "b \<in> set (block # blocks)" "v \<in> set (block_values b)" for b v
    using that own(2) rest(3) keep unfolding extends_by_def by (cases "b = block") auto
  ultimately show ?case using own(1) by blast
qed simp

text \<open>The parameters of a body have distinct identities, so each keeps its type.\<close>

lemma with_earlier_distinct:
  assumes "\<forall>(earlier, x)\<in>set (with_earlier xs). f x \<notin> f ` set earlier"
  shows "distinct (map f xs)"
proof -
  have "f (xs ! i) \<noteq> f (xs ! j)" if "i < j" "j < length xs" for i j
  proof -
    have "(take j xs, xs ! j) \<in> set (with_earlier xs)" using that by (auto simp: with_earlier_def)
    with assms have "f (xs ! j) \<notin> f ` set (take j xs)" by blast
    moreover have "xs ! i \<in> set (take j xs)" using that by (auto simp: in_set_conv_nth intro!: exI [of _ i])
    ultimately show ?thesis by (metis image_eqI)
  qed
  then show ?thesis by (auto simp: distinct_conv_nth) (metis linorder_neqE_nat)
qed

lemma validate_parameters_distinct:
  assumes "validate_parameters program f body = []"
  shows "distinct (map bp_id (fb_parameters body))"
proof (rule with_earlier_distinct, rule ballI)
  fix entry assume "entry \<in> set (with_earlier (fb_parameters body))"
  then obtain i earlier p where entry: "entry = (earlier, p)" and i: "i < length (with_earlier (fb_parameters body))" "with_earlier (fb_parameters body) ! i = (earlier, p)"
    by (metis in_set_conv_nth surj_pair)
  then have "(i, earlier, p) \<in> set (zip [0..<length (fb_parameters body)] (with_earlier (fb_parameters body)))"
    by (auto simp: in_set_zip with_earlier_def intro!: exI [of _ i])
  with assms have "complain (bp_id p \<in> bp_id ` set earlier) ''MNB004'' = []"
    by (fastforce simp: validate_parameters_def simp del: complain_Nil)
  then show "case entry of (earlier, x) \<Rightarrow> bp_id x \<notin> bp_id ` set earlier" by (simp add: entry)
qed

lemma parameter_definitions_in:
  assumes "distinct (map bp_id (fb_parameters body))" "p \<in> set (fb_parameters body)"
  shows "parameter_definitions body (bp_id p) = Some (None, bp_ty p)"
proof -
  have "fold (\<lambda>p m. m(bp_id p \<mapsto> (None, bp_ty p))) ps m (bp_id p) =
      (if p \<in> set ps then Some (None, bp_ty p) else m (bp_id p))"
    if "distinct (map bp_id ps)" "\<forall>q\<in>set ps. bp_id q = bp_id p \<longrightarrow> q = p" for ps and m :: definitions
    using that by (induction ps arbitrary: m) force+
  moreover have "\<forall>q\<in>set (fb_parameters body). bp_id q = bp_id p \<longrightarrow> q = p"
    using assms by (auto simp: distinct_map inj_on_def)
  ultimately show ?thesis using assms by (simp add: parameter_definitions_def)
qed

lemma parameter_definitions_dom:
  "parameter_definitions body x \<noteq> None \<longleftrightarrow> x \<in> bp_id ` set (fb_parameters body)"
proof -
  have "fold (\<lambda>p m. m(bp_id p \<mapsto> (None, bp_ty p))) ps m x \<noteq> None \<longleftrightarrow> m x \<noteq> None \<or> x \<in> bp_id ` set ps"
    for ps and m :: definitions
    by (induction ps arbitrary: m) auto
  from this [of "fb_parameters body" Map.empty] show ?thesis by (simp only: parameter_definitions_def) simp
qed

lemma parameter_definitions_None: "parameter_definitions body x = Some (b, ty) \<Longrightarrow> b = None"
proof -
  have "fold (\<lambda>p m. m(bp_id p \<mapsto> (None, bp_ty p))) ps m x = Some (b, ty) \<Longrightarrow> m x = Some (b, ty) \<or> b = None"
    for ps and m :: definitions
    by (induction ps arbitrary: m) (fastforce split: if_splits)+
  then show "parameter_definitions body x = Some (b, ty) \<Longrightarrow> b = None"
    by (fastforce simp: parameter_definitions_def)
qed


section \<open>What a clean report says of every block\<close>

definition operation_checked :: "program \<Rightarrow> fn \<Rightarrow> types \<Rightarrow> body_operation \<Rightarrow> bool" where
  "operation_checked program f declared oper \<longleftrightarrow>
     (\<forall>r\<in>set (bo_results oper). declared (bv_id r) = Some (bv_ty r)) \<and>
     (\<exists>available. available \<subseteq>\<^sub>m declared \<and> (\<forall>x\<in>set (bo_operands oper). available x \<noteq> None) \<and>
        validate_operation program f oper available = [])"

definition block_checked :: "program \<Rightarrow> fn \<Rightarrow> function_body \<Rightarrow> types \<Rightarrow> body_block \<Rightarrow> bool" where
  "block_checked program f body declared block \<longleftrightarrow>
     (\<forall>v\<in>set (bb_parameters block). declared (bv_id v) = Some (bv_ty v)) \<and>
     (\<forall>oper\<in>set (bb_operations block). operation_checked program f declared oper) \<and>
     (\<exists>available. available \<subseteq>\<^sub>m declared \<and>
        validate_terminator (bb_terminator block) available (block_ids body) (map_option bb_parameters \<circ> block_map body) = [] \<and>
        validate_return_types (bb_terminator block) program f available = [])"

definition body_checked :: "program \<Rightarrow> fn \<Rightarrow> function_body \<Rightarrow> bool" where
  "body_checked program f body \<longleftrightarrow>
     (\<forall>p\<in>set (fb_parameters body). declared_types body (bp_id p) = Some (bp_ty p)) \<and>
     (\<forall>block\<in>set (fb_blocks body). block_checked program f body (declared_types body) block) \<and>
     length (fb_parameters body) = length (fn_inputs f)"

lemma bind_values_le:
  "available \<subseteq>\<^sub>m declared \<Longrightarrow> (\<And>v. v \<in> set vs \<Longrightarrow> declared (bv_id v) = Some (bv_ty v)) \<Longrightarrow>
     bind_values vs available \<subseteq>\<^sub>m declared"
  unfolding bind_values_def
proof (induction vs arbitrary: available)
  case (Cons v vs)
  have "available(bv_id v \<mapsto> bv_ty v) \<subseteq>\<^sub>m declared"
    using Cons.prems by (auto simp: map_le_def)
  with Cons.IH Cons.prems(2) show ?case by (simp del: fun_upd_apply)
qed simp

lemma validate_operations_checked:
  assumes "validate_operations program f opers earlier available = ([], earlier', available')"
    and "available \<subseteq>\<^sub>m declared"
    and "\<And>oper r. oper \<in> set opers \<Longrightarrow> r \<in> set (bo_results oper) \<Longrightarrow> declared (bv_id r) = Some (bv_ty r)"
  shows "(\<forall>oper\<in>set opers. operation_checked program f declared oper) \<and> available' \<subseteq>\<^sub>m declared"
  using assms
proof (induction opers arbitrary: earlier available)
  case (Cons oper opers)
  have own: "\<forall>x\<in>set (bo_operands oper). available x \<noteq> None" "validate_operation program f oper available = []"
    and rest: "\<exists>earlier0. validate_operations program f opers earlier0 (bind_values (bo_results oper) available) =
      ([], earlier', available')"
    using Cons.prems(1) by (auto simp: Let_def split: prod.splits)
  have "operation_checked program f declared oper"
    using own Cons.prems(2,3) by (auto simp: operation_checked_def)
  moreover have "bind_values (bo_results oper) available \<subseteq>\<^sub>m declared"
    using Cons.prems(2,3) by (intro bind_values_le) auto
  ultimately show ?case using rest Cons.IH Cons.prems(3) by (metis list.set_intros(2) set_ConsD)
qed simp

lemma available_at_le:
  assumes "parameter_definitions body \<subseteq>\<^sub>m defs"
    and "\<And>v. v \<in> set (bb_parameters block) \<Longrightarrow> defs (bv_id v) = Some (b, bv_ty v)"
  shows "available_at body cfg defs block \<subseteq>\<^sub>m map_option snd \<circ> defs"
proof -
  have "map_option snd \<circ> parameter_definitions body \<subseteq>\<^sub>m map_option snd \<circ> defs"
    using assms(1) by (auto simp: map_le_def)
  then have base: "bind_values (bb_parameters block) (map_option snd \<circ> parameter_definitions body) \<subseteq>\<^sub>m map_option snd \<circ> defs"
    by (rule bind_values_le) (use assms(2) in simp)
  have "(map_option snd \<circ> defs) x = Some ty" if "available_at body cfg defs block x = Some ty" for x ty
  proof (cases "\<exists>dfn t. defs x = Some (Some dfn, t) \<and> dfn \<noteq> bb_id block \<and> dominates cfg dfn (bb_id block)")
    case True
    with that show ?thesis by (auto simp: available_at_def)
  next
    case False
    then have "available_at body cfg defs block x =
        bind_values (bb_parameters block) (map_option snd \<circ> parameter_definitions body) x"
      by (auto simp: available_at_def split: option.splits)
    with that show ?thesis by (intro map_leD [OF base]) simp
  qed
  then show ?thesis by (rule map_leI)
qed

lemma validate_blocks_Nil:
  "validate_blocks program f body cfg defs blocks earlier = [] \<Longrightarrow> block \<in> set blocks \<Longrightarrow>
     \<exists>earlier' earlier''. validate_block program f body cfg defs block earlier' = ([], earlier'')"
  by (induction blocks arbitrary: earlier) (auto simp: Let_def split: prod.splits)

lemma validate_body_Some:
  assumes "validate_body digest program f body = Some []"
  obtains cfg where "from_body digest body (body_id (identity_namespace f (pg_module program)) (fn_name f)) = Some cfg"
    and "validate_parameters program f body = []"
    and "fb_entry body \<in> block_ids body" and "card (block_ids body) = length (fb_blocks body)"
    and "cfg_unreachable cfg = []" and "fst (body_definitions body) = []"
    and "validate_blocks program f body cfg (snd (body_definitions body)) (fb_blocks body) {} = []"
proof -
  obtain cfg where cfg: "from_body digest body (body_id (identity_namespace f (pg_module program)) (fn_name f)) = Some cfg"
    using assms by (auto simp: validate_body_def split: option.splits)
  show thesis
    by (rule that [OF cfg]) (use assms cfg in \<open>auto simp: validate_body_def\<close>)
qed

lemma body_definitions_clean:
  assumes "fst (body_definitions body) = []"
  shows "parameter_definitions body \<subseteq>\<^sub>m snd (body_definitions body)"
    and "block \<in> set (fb_blocks body) \<Longrightarrow> v \<in> set (block_values block) \<Longrightarrow>
      snd (body_definitions body) (bv_id v) = Some (Some (bb_id block), bv_ty v) \<and> parameter_definitions body (bv_id v) = None"
proof -
  have "fold block_definitions (fb_blocks body) ([], parameter_definitions body) = ([], snd (body_definitions body))"
    using assms by (metis body_definitions_def prod.collapse)
  from fold_block_definitions [OF this]
  show "parameter_definitions body \<subseteq>\<^sub>m snd (body_definitions body)"
    and "block \<in> set (fb_blocks body) \<Longrightarrow> v \<in> set (block_values block) \<Longrightarrow>
      snd (body_definitions body) (bv_id v) = Some (Some (bb_id block), bv_ty v) \<and> parameter_definitions body (bv_id v) = None"
    by blast+
qed

lemma validated_body_checked:
  assumes "validate_body digest program f body = Some []"
  shows "body_checked program f body"
proof -
  obtain cfg where params: "validate_parameters program f body = []"
    and defs: "fst (body_definitions body) = []"
    and blocks: "validate_blocks program f body cfg (snd (body_definitions body)) (fb_blocks body) {} = []"
    by (rule validate_body_Some [OF assms])
  note table = body_definitions_clean [OF defs]
  have "block_checked program f body (declared_types body) block" if b: "block \<in> set (fb_blocks body)" for block
  proof -
    obtain earlier earlier'' where "validate_block program f body cfg (snd (body_definitions body)) block earlier = ([], earlier'')"
      using validate_blocks_Nil [OF blocks b] by blast
    then obtain available earlier' where
      opers: "validate_operations program f (bb_operations block) earlier
          (available_at body cfg (snd (body_definitions body)) block) = ([], earlier', available)"
      and ends: "validate_terminator (bb_terminator block) available (block_ids body) (map_option bb_parameters \<circ> block_map body) = []"
        "validate_return_types (bb_terminator block) program f available = []"
      by (auto simp: validate_block_def split: prod.splits)
    have declared: "declared_types body (bv_id v) = Some (bv_ty v)" if "v \<in> set (block_values block)" for v
      using table(2) [OF b that] by (simp add: declared_types_def)
    have start: "available_at body cfg (snd (body_definitions body)) block \<subseteq>\<^sub>m declared_types body"
      unfolding declared_types_def
      by (rule available_at_le [OF table(1), of block "Some (bb_id block)"]) (use table(2) [OF b] in \<open>simp add: block_values_def\<close>)
    have "(\<forall>oper\<in>set (bb_operations block). operation_checked program f (declared_types body) oper) \<and>
        available \<subseteq>\<^sub>m declared_types body"
      by (rule validate_operations_checked [OF opers start]) (rule declared, auto simp: block_values_def)
    with ends declared show ?thesis by (auto simp: block_checked_def block_values_def)
  qed
  moreover have "declared_types body (bp_id p) = Some (bp_ty p)" if "p \<in> set (fb_parameters body)" for p
    using map_leD [OF table(1) parameter_definitions_in [OF validate_parameters_distinct [OF params] that]]
    by (simp add: declared_types_def)
  ultimately show ?thesis using params by (simp add: body_checked_def validate_parameters_def)
qed

text \<open>So a validated body binds each parameter once, which the reuse of argument checks rests on.\<close>

lemma validated_parameters_unique:
  assumes "validate_body digest program f body = Some []"
  shows "parameters_unique body"
proof -
  obtain cfg where params: "validate_parameters program f body = []" and defs: "fst (body_definitions body) = []"
    by (rule validate_body_Some [OF assms])
  have "bv_id v \<notin> bp_id ` set (fb_parameters body)" if "b \<in> set (fb_blocks body)" "v \<in> set (block_values b)" for b v
    using body_definitions_clean(2) [OF defs that] parameter_definitions_dom [of body "bv_id v"] by auto
  then show ?thesis
    unfolding parameters_unique_def list_all_iff block_values_def [symmetric]
    using validate_parameters_distinct [OF params] by blast
qed


section \<open>Steps\<close>

definition outputs_typed :: "program \<Rightarrow> fn \<Rightarrow> execution_value list \<Rightarrow> bool" where
  "outputs_typed program f vs \<longleftrightarrow>
     list_all2 (\<lambda>v out. value_matches_type program v (body_type_for_function_value program f (nv_type out)))
       vs (fn_outputs f)"

definition answer_typed :: "program \<Rightarrow> execution_request \<Rightarrow> execution_result \<Rightarrow> bool" where
  "answer_typed program request r \<longleftrightarrow>
     (xr_status r = Returned \<longrightarrow>
        (\<exists>f. find_function program (rq_module request) (rq_function request) = Some f \<and>
           fn_generic_params f = [] \<and> outputs_typed program f (xr_returned r)))"

definition callee_safe :: "program \<Rightarrow> callee \<Rightarrow> bool" where
  "callee_safe program call \<longleftrightarrow> (\<forall>trusted request. \<exists>r. call trusted request = Some r \<and> answer_typed program request r)"

definition step_safe :: "program \<Rightarrow> types \<Rightarrow> step_outcome \<Rightarrow> bool" where
  "step_safe program declared outcome \<longleftrightarrow>
     (case outcome of
        Continue vals _ \<Rightarrow> env_typed program declared vals
      | Stop r \<Rightarrow> xr_status r \<noteq> Returned
      | Panicked \<Rightarrow> False)"

lemma step_safe_simps [simp]:
  "step_safe program declared (Continue vals r) \<longleftrightarrow> env_typed program declared vals"
  "step_safe program declared (Stop r) \<longleftrightarrow> xr_status r \<noteq> Returned"
  "\<not> step_safe program declared Panicked"
  by (simp_all add: step_safe_def)

lemma env_typed_update:
  "env_typed program declared vals \<Longrightarrow> declared x = Some ty \<Longrightarrow> value_matches_type program v ty \<Longrightarrow>
     env_typed program declared (vals(x \<mapsto> v))"
  by (auto simp: env_typed_def)

lemma env_typed_le: "env_typed program declared vals \<Longrightarrow> available \<subseteq>\<^sub>m declared \<Longrightarrow> env_typed program available vals"
  by (auto simp: env_typed_def dest: map_leD)

lemma small_bounds_le: "small_bounds declared \<Longrightarrow> available \<subseteq>\<^sub>m declared \<Longrightarrow> small_bounds available"
  unfolding small_bounds_def by (meson map_leD)

text \<open>The callee validation found is the one the interpreter calls: the identity determines the name.\<close>

lemma call_target_callee:
  assumes "call_target program identity name = Some g"
  shows "find_callee program identity = Some g"
proof -
  have g: "function_id (identity_namespace g (pg_module program)) (fn_name g) = identity"
    using assms by (auto simp: call_target_def Let_def find_Some_iff)
  have simple: "fn_name g = rev (takeWhile (\<lambda>c. c \<noteq> CHR ''.'') (rev name))"
    using assms by (auto simp: call_target_def Let_def find_Some_iff)
  have "(fn_name f = rev (takeWhile (\<lambda>c. c \<noteq> CHR ''.'') (rev name)) \<and>
      function_id (identity_namespace f (pg_module program)) (fn_name f) = identity) =
    (function_id (identity_namespace f (pg_module program)) (fn_name f) = identity)" for f
    using g simple by (auto simp: function_id_def make_id_inject)
  with assms show ?thesis by (simp add: call_target_def find_callee_def Let_def)
qed

lemma exec_call_safe:
  assumes typed: "env_typed program declared vals" and call: "callee_safe program call"
    and valid: "valid_call program f callee_id name capabilities effects generic_args oper available = []"
    and results: "\<forall>r\<in>set (bo_results oper). declared (bv_id r) = Some (bv_ty r)"
  shows "step_safe program declared (exec_call program call frame identity callee_id name oper vals result)"
proof -
  obtain g where g: "call_target program callee_id name = Some g"
    using valid by (auto simp: valid_call_def split: option.splits)
  note callee = call_target_callee [OF g]
  have "step_safe program declared (store oper v vals merged)"
    if "answer_typed program (nested_request program request (Some g) name arguments remaining) nested"
      and "xr_status nested = Returned" "xr_returned nested = v # vs" for request arguments remaining nested v vs merged
  proof -
    have found: "fn_generic_params g = []" and "outputs_typed program g (v # vs)"
      using that find_callee_function [OF callee] by (auto simp: answer_typed_def nested_request_def)
    then obtain out outs where outs: "fn_outputs g = out # outs"
      and v: "value_matches_type program v (body_type_for_function_value program g (nv_type out))"
      by (auto simp: outputs_typed_def list_all2_Cons1)
    then obtain r rs where rs: "bo_results oper = r # rs"
      using valid g by (cases "bo_results oper") (auto simp: valid_call_def)
    have none: "generic_args = []"
      using valid g found by (auto simp: valid_call_def valid_generic_arguments_def Let_def split: if_splits)
    then have "same_type (bv_ty r) (body_type_for_function_value program g (nv_type out))"
      using valid g outs rs by (auto simp: valid_call_def expected_callee_type_def)
    with v have "value_matches_type program v (bv_ty r)" using matches_same_type by blast
    with typed results rs show ?thesis by (auto simp: store_def intro: env_typed_update)
  qed
  note stores = this
  show ?thesis
  proof (cases "collect_operands oper vals")
    case None
    then show ?thesis by (simp add: exec_call_def fail_result_def)
  next
    case (Some arguments)
    let ?request = "nested_request program (fr_request frame) (Some g) name arguments
      (rq_step_budget (fr_request frame) - xr_steps result)"
    obtain nested where "call (trusted_marks frame (Some g) (bo_operands oper)) ?request = Some nested"
      "answer_typed program ?request nested"
      using call unfolding callee_safe_def by blast
    with Some callee show ?thesis
      by (auto simp: exec_call_def fail_result_def Let_def intro: stores split: list.splits)
  qed
qed

lemma exec_effect_safe:
  "env_typed program declared vals \<Longrightarrow> step_safe program declared (exec_effect frame identity eff capability vals result)"
  by (simp add: exec_effect_def fail_result_def)

lemma execute_operation_safe:
  assumes typed: "env_typed program declared vals" and call: "callee_safe program call"
    and nominal: "nominals_ok program" and small: "small_bounds declared" and lane: "in_lane (bo_kind oper)"
    and checked: "operation_checked program f declared oper"
  shows "step_safe program declared (execute_operation lib program call frame identity oper vals result)"
proof -
  obtain available where le: "available \<subseteq>\<^sub>m declared" and known: "\<forall>x\<in>set (bo_operands oper). available x \<noteq> None"
    and valid: "validate_operation program f oper available = []"
    and results: "\<forall>r\<in>set (bo_results oper). declared (bv_id r) = Some (bv_ty r)"
    using checked by (auto simp: operation_checked_def)
  have clean: "validate_kind program f (bo_kind oper) oper available = Proceed []"
    using valid never_bails_clean by (auto simp: validate_operation_Nil)
  show ?thesis
  proof (cases "is_pure (bo_kind oper)")
    case True
    note pure = exec_pure_safe [OF env_typed_le [OF typed le] nominal small_bounds_le [OF small le] known clean True lane, of lib]
    have "execute_operation lib program call frame identity oper vals result =
        (case exec_pure lib program (bo_kind oper) oper vals of
           Store v \<Rightarrow> store oper v vals result
         | Skip \<Rightarrow> Continue vals result
         | Fail status \<Rightarrow> Stop (fail_result status (Some identity) result)
         | Panic \<Rightarrow> Panicked)"
      using True by (cases "bo_kind oper") (simp_all add: execute_operation_def)
    with pure results typed show ?thesis
      by (auto simp: store_def fail_result_def intro: env_typed_update split: op_outcome.splits)
  next
    case False
    then show ?thesis
      using clean exec_call_safe [OF typed call _ results] exec_effect_safe [OF typed]
      by (cases "bo_kind oper") (simp_all add: execute_operation_def)
  qed
qed

lemma run_operations_safe:
  assumes "env_typed program declared vals" and "callee_safe program call" and "nominals_ok program"
    and "small_bounds declared" and "\<forall>oper\<in>set opers. in_lane (bo_kind oper) \<and> operation_checked program f declared oper"
  shows "step_safe program declared (run_operations lib program call frame block opers vals result)"
  using assms(1,5)
proof (induction opers arbitrary: vals result)
  case (Cons oper opers)
  have step: "step_safe program declared (execute_operation lib program call frame identity oper vals stepped)" for identity stepped
    using Cons.prems assms(2-4) by (intro execute_operation_safe) auto
  show ?case
  proof (cases "consume_step (rq_step_budget (fr_request frame)) result")
    case None
    then show ?thesis by (simp add: Let_def fail_result_def)
  next
    case (Some stepped)
    then show ?thesis
      using step [of "operation_id (fr_namespace frame) (fr_function frame) block (bo_id oper)" stepped] Cons.IH Cons.prems(2)
      by (auto simp: Let_def split: step_outcome.splits)
  qed
qed simp


section \<open>Blocks\<close>

lemma collect_values:
  assumes "collect_options (map vals xs) = Some vs"
  shows "length vs = length xs" "i < length xs \<Longrightarrow> vals (xs ! i) = Some (vs ! i)"
proof -
  have eq: "map vals xs = map Some vs" using assms by (simp add: collect_options_Some)
  then show len: "length vs = length xs" by (metis length_map)
  show "vals (xs ! i) = Some (vs ! i)" if "i < length xs" using arg_cong [OF eq, of "\<lambda>ys. ys ! i"] that len by simp
qed

lemma assign_block_arguments_typed:
  assumes typed: "env_typed program declared vals" and le: "available \<subseteq>\<^sub>m declared"
    and valid: "validate_block_arguments target arguments available (map_option bb_parameters \<circ> block_map body) = []"
    and params: "\<And>b v. b \<in> set (fb_blocks body) \<Longrightarrow> v \<in> set (bb_parameters b) \<Longrightarrow> declared (bv_id v) = Some (bv_ty v)"
    and assigned: "assign_block_arguments body target arguments vals = Some vals'"
  shows "env_typed program declared vals'"
proof -
  obtain block vs where block: "block_map body target = Some block" and len: "length (bb_parameters block) = length arguments"
    and vs: "collect_options (map vals arguments) = Some vs"
    and vals': "vals' = vals ++ map_of (rev (zip (map bv_id (bb_parameters block)) vs))"
    using assigned by (auto simp: assign_block_arguments_def split: option.splits if_splits)
  have "value_matches_type program v ty"
    if "map_of (rev (zip (map bv_id (bb_parameters block)) vs)) x = Some v" "declared x = Some ty" for x v ty
  proof -
    note entry = map_of_SomeD [OF that(1)] and declared = that(2)
    obtain i where i: "i < length arguments" "x = bv_id (bb_parameters block ! i)" "v = vs ! i"
      using entry len collect_values(1) [OF vs] by (auto simp: in_set_zip)
    have "(bb_parameters block ! i, arguments ! i) \<in> set (zip (bb_parameters block) arguments)"
      using i(1) len by (auto simp: in_set_zip)
    then have "available (arguments ! i) = Some (bv_ty (bb_parameters block ! i))"
      using valid block by (fastforce simp: validate_block_arguments_def)
    moreover have "ty = bv_ty (bb_parameters block ! i)"
      using params [OF conjunct1 [OF block_map_in [OF block]], of "bb_parameters block ! i"] i len declared by simp
    ultimately show ?thesis
      using env_typedD [OF typed collect_values(2) [OF vs i(1)] map_leD [OF le]] i(3) by blast
  qed
  with typed show ?thesis
    unfolding vals' env_typed_def by (auto simp: map_add_Some_iff)
qed

definition jump_safe :: "program \<Rightarrow> fn \<Rightarrow> types \<Rightarrow> jump \<Rightarrow> bool" where
  "jump_safe program f declared outcome \<longleftrightarrow>
     (case outcome of
        Jump _ vals \<Rightarrow> env_typed program declared vals
      | Finish r \<Rightarrow> xr_status r = Returned \<longrightarrow> outputs_typed program f (xr_returned r))"

lemma return_typed:
  assumes typed: "env_typed program declared vals" and le: "available \<subseteq>\<^sub>m declared"
    and valid: "validate_return_types (Return returned) program f available = []"
    and vs: "collect_options (map vals returned) = Some vs"
  shows "outputs_typed program f vs"
proof -
  have len: "length returned = length (fn_outputs f)" using valid by (auto simp: validate_return_types_def split: if_splits)
  have "value_matches_type program (vs ! i) (body_type_for_function_value program f (nv_type (fn_outputs f ! i)))"
    if "i < length returned" for i
  proof -
    have "(returned ! i, fn_outputs f ! i) \<in> set (zip returned (fn_outputs f))" using that len by (auto simp: in_set_zip)
    then obtain ty where ty: "available (returned ! i) = Some ty"
      "passes_as ty (body_type_for_function_value program f (nv_type (fn_outputs f ! i)))"
      using valid len by (fastforce simp: validate_return_types_def has_type_iff)
    with matches_passes_as env_typedD [OF typed collect_values(2) [OF vs that] map_leD [OF le ty(1)]] show ?thesis by blast
  qed
  with len collect_values(1) [OF vs] show ?thesis by (simp add: outputs_typed_def list_all2_conv_all_nth)
qed

lemma exec_terminator_safe:
  assumes typed: "env_typed program declared vals" and le: "available \<subseteq>\<^sub>m declared"
    and valid: "validate_terminator terminator available (block_ids body) (map_option bb_parameters \<circ> block_map body) = []"
    and returns: "validate_return_types terminator program f available = []"
    and params: "\<And>b v. b \<in> set (fb_blocks body) \<Longrightarrow> v \<in> set (bb_parameters b) \<Longrightarrow> declared (bv_id v) = Some (bv_ty v)"
  shows "jump_safe program f declared (exec_terminator body terminator vals result)"
proof (cases terminator)
  case (Return returned)
  with return_typed [OF typed le] returns show ?thesis
    by (auto simp: exec_terminator_def jump_safe_def fail_result_def split: option.splits)
next
  case (Branch target arguments)
  with assign_block_arguments_typed [OF typed le _ params] valid show ?thesis
    by (auto simp: exec_terminator_def jump_safe_def fail_result_def validate_terminator_def split: option.splits)
next
  case (ConditionalBranch condition then_target then_arguments else_target else_arguments)
  with assign_block_arguments_typed [OF typed le _ params] valid show ?thesis
    by (auto simp: exec_terminator_def jump_safe_def fail_result_def validate_terminator_def split: option.splits bool.splits)
qed (simp add: exec_terminator_def jump_safe_def fail_result_def)

text \<open>The loop of a checked body returns, and what it returns has the declared types.\<close>

definition fits_u32 :: "body_type \<Rightarrow> bool" where
  "fits_u32 ty \<longleftrightarrow>
     (case ty of TSequence _ (Exact n) \<Rightarrow> n < 2 ^ 32 | TSequence _ (UpTo n) \<Rightarrow> n < 2 ^ 32 | _ \<Rightarrow> True)"

text \<open>The bounds of sequences are \<open>u32\<close>, as in the source, and lane-wise operations keep the element
  type, the restriction of the intent that validation leaves out.\<close>

definition body_in_machine :: "function_body \<Rightarrow> bool" where
  "body_in_machine body \<longleftrightarrow>
     list_all (\<lambda>p. fits_u32 (bp_ty p)) (fb_parameters body) \<and>
     list_all (\<lambda>block. list_all (\<lambda>v. fits_u32 (bv_ty v)) (block_values block) \<and>
         list_all (\<lambda>oper. in_lane (bo_kind oper)) (bb_operations block)) (fb_blocks body)"

definition program_in_machine :: "program \<Rightarrow> bool" where
  "program_in_machine program \<longleftrightarrow>
     list_all (\<lambda>f. case fn_body f of None \<Rightarrow> True | Some body \<Rightarrow> body_in_machine body) (pg_functions program)"

definition table_all :: "(body_type \<Rightarrow> bool) \<Rightarrow> definitions \<Rightarrow> bool" where
  "table_all P m \<longleftrightarrow> (\<forall>x b ty. m x = Some (b, ty) \<longrightarrow> P ty)"

lemma table_all_update: "table_all P m \<Longrightarrow> P ty \<Longrightarrow> table_all P (m(x \<mapsto> (b, ty)))"
  by (auto simp: table_all_def)

lemma table_all_insert:
  "table_all P (snd state) \<Longrightarrow> list_all (\<lambda>v. P (bv_ty v)) vs \<Longrightarrow>
     table_all P (snd (fold (insert_definition code block) vs state))"
  by (induction vs arbitrary: state) (simp_all add: insert_definition_def table_all_update del: fun_upd_apply)

lemma table_all_blocks:
  "table_all P (snd state) \<Longrightarrow> list_all (\<lambda>b. list_all (\<lambda>v. P (bv_ty v)) (block_values b)) blocks \<Longrightarrow>
     table_all P (snd (fold block_definitions blocks state))"
  by (induction blocks arbitrary: state)
    (simp_all add: block_definitions_def block_values_def table_all_insert)

lemma table_all_parameters:
  "table_all P m \<Longrightarrow> list_all (\<lambda>p. P (bp_ty p)) ps \<Longrightarrow>
     table_all P (fold (\<lambda>p m. m(bp_id p \<mapsto> (None, bp_ty p))) ps m)"
  by (induction ps arbitrary: m) (simp_all add: table_all_update del: fun_upd_apply)

lemma body_in_machine_small:
  assumes "body_in_machine body"
  shows "small_bounds (declared_types body)"
proof -
  have "table_all fits_u32 (parameter_definitions body)"
    unfolding parameter_definitions_def
    by (rule table_all_parameters) (use assms in \<open>simp_all add: table_all_def body_in_machine_def\<close>)
  then have "table_all fits_u32 (snd (body_definitions body))"
    unfolding body_definitions_def
    by (intro table_all_blocks) (use assms in \<open>auto simp: body_in_machine_def list_all_iff\<close>)
  then show ?thesis
    unfolding table_all_def small_bounds_def declared_types_def
    by (fastforce simp: fits_u32_def split: sequence_bound.splits)
qed

lemma run_blocks_safe:
  assumes "env_typed program (declared_types (fr_body frame)) vals" and "callee_safe program call"
    and "nominals_ok program" and "body_in_machine (fr_body frame)" and "body_checked program f (fr_body frame)"
  shows "\<exists>r. run_blocks lib program call frame current vals result = Some r \<and>
    (xr_status r = Returned \<longrightarrow> outputs_typed program f (xr_returned r))"
  using assms
proof (induction lib program call frame current vals result rule: run_blocks.induct)
  case (1 lib program call frame current vals result)
  show ?case
  proof (cases "block_map (fr_body frame) current")
    case None
    then show ?thesis by (simp add: run_blocks.simps fail_result_def)
  next
    case (Some block)
    have block: "block_checked program f (fr_body frame) (declared_types (fr_body frame)) block"
      using 1(6) block_map_in [OF Some] by (simp add: body_checked_def)
    have params: "declared_types (fr_body frame) (bv_id v) = Some (bv_ty v)"
      if "b \<in> set (fb_blocks (fr_body frame))" "v \<in> set (bb_parameters b)" for b v
      using 1(6) that by (auto simp: body_checked_def block_checked_def)
    obtain available where le: "available \<subseteq>\<^sub>m declared_types (fr_body frame)"
      and ends: "validate_terminator (bb_terminator block) available (block_ids (fr_body frame))
          (map_option bb_parameters \<circ> block_map (fr_body frame)) = []"
        "validate_return_types (bb_terminator block) program f available = []"
      using block by (auto simp: block_checked_def)
    define out where "out = run_operations lib program call frame (bb_id block) (bb_operations block) vals result"
    have safe: "step_safe program (declared_types (fr_body frame)) out"
      unfolding out_def
    proof (rule run_operations_safe [OF 1(2,3,4) body_in_machine_small [OF 1(5)]])
      show "\<forall>oper\<in>set (bb_operations block). in_lane (bo_kind oper) \<and>
          operation_checked program f (declared_types (fr_body frame)) oper"
        using block 1(5) block_map_in [OF Some] by (auto simp: block_checked_def body_in_machine_def list_all_iff)
    qed
    show ?thesis
    proof (cases out)
      case (Continue vals1 result1)
      with safe have typed: "env_typed program (declared_types (fr_body frame)) vals1" by simp
      show ?thesis
      proof (cases "consume_step (rq_step_budget (fr_request frame)) result1")
        case None
        with Some Continue show ?thesis by (subst run_blocks.simps) (simp add: fail_result_def flip: out_def)
      next
        case stepped: (Some stepped)
        note ends_safe = exec_terminator_safe [OF typed le ends, of stepped]
        show ?thesis
        proof (cases "exec_terminator (fr_body frame) (bb_terminator block) vals1 stepped")
          case (Jump target vals2)
          with ends_safe params have "env_typed program (declared_types (fr_body frame)) vals2"
            by (simp add: jump_safe_def)
          from 1(1) [OF Some Continue [unfolded out_def] stepped Jump this 1(3-6)] show ?thesis
            by (subst run_blocks.simps) (simp add: Some Continue stepped Jump flip: out_def)
        next
          case (Finish finished)
          with ends_safe params Some Continue stepped show ?thesis
            by (subst run_blocks.simps) (simp add: jump_safe_def flip: out_def)
        qed
      qed
    next
      case (Stop stopped)
      with safe Some show ?thesis by (subst run_blocks.simps) (simp flip: out_def)
    next
      case Panicked
      with safe show ?thesis by simp
    qed
  qed
qed


section \<open>Functions\<close>

text \<open>What validation leaves for execution: every body is checked and binds its parameters once.\<close>

definition program_checked :: "program \<Rightarrow> bool" where
  "program_checked program \<longleftrightarrow>
     (\<forall>f\<in>set (pg_functions program). \<forall>body. fn_body f = Some body \<longrightarrow>
        body_checked program f body \<and> parameters_unique body)"

lemma validated_functions:
  assumes "program_valid digest program" "f \<in> set (pg_functions program)" "fn_body f = Some body"
  shows "validate_body digest program f body = Some []"
proof -
  obtain codes where all: "map (\<lambda>(earlier, f). validate_function digest program earlier f)
      (with_earlier (pg_functions program)) = map Some codes" and clean: "concat codes = []"
    using assms(1) by (auto simp: program_valid_def validate_program_def collect_options_Some)
  obtain i where i: "i < length (pg_functions program)" "pg_functions program ! i = f"
    using assms(2) by (metis in_set_conv_nth)
  have len: "length codes = length (pg_functions program)"
    using arg_cong [OF all, of length] by (simp add: with_earlier_def)
  with arg_cong [OF all, of "\<lambda>xs. xs ! i"] i
  have "validate_function digest program (take i (pg_functions program)) f = Some (codes ! i)"
    by (simp add: with_earlier_def)
  moreover have "codes ! i = []" using clean i(1) len by (metis concat_eq_Nil_conv nth_mem)
  ultimately show ?thesis using assms(3) by (auto simp: validate_function_def)
qed

lemma program_valid_checked:
  assumes "program_valid digest program"
  shows "program_checked program" "parameters_unique_in program"
  using validated_functions [OF assms] validated_body_checked validated_parameters_unique
  by (fastforce simp: program_checked_def parameters_unique_in_def list_all_iff split: option.splits)+

lemma normalize_arguments_names:
  assumes "normalize_arguments program body trusted arguments = Some bound"
  shows "fst ` set bound \<subseteq> bp_id ` set (fb_parameters body)"
proof
  fix x assume "x \<in> fst ` set bound"
  then obtain i where i: "i < length bound" "x = fst (bound ! i)" by (metis imageE in_set_conv_nth)
  have all: "map (\<lambda>(i, p, a). map_option (Pair (bp_id p)) (if trusted_at trusted i then Some a else normalize_value program a (bp_ty p)))
      (zip [0..<length arguments] (zip (fb_parameters body) arguments)) = map Some bound"
    using assms by (simp add: normalize_arguments_def collect_options_Some)
  then have "length bound = min (length arguments) (length (fb_parameters body))"
    by (auto dest: map_eq_imp_length_eq)
  with arg_cong [OF all, of "\<lambda>l. l ! i"] i
  have "x = bp_id (fb_parameters body ! i) \<and> i < length (fb_parameters body)"
    by (auto split: if_splits dest: arg_cong [of _ _ fst] sym)
  then show "x \<in> bp_id ` set (fb_parameters body)" by simp
qed

lemma enter_function_typed:
  assumes "enter_function (\<lambda>_ _ _. []) program valid record_effects depth None request = Inr (frame, vals)"
    and "program_checked program"
  obtains f where "find_function program (rq_module request) (rq_function request) = Some f"
    and "fn_generic_params f = []" and "f \<in> set (pg_functions program)" and "fn_body f = Some (fr_body frame)"
    and "body_checked program f (fr_body frame)" and "env_typed program (declared_types (fr_body frame)) vals"
proof -
  let ?found = "Option.bind (resolve_concrete_entry program (rq_module request) (rq_function request))
    (find_function program (rq_module request))"
  from assms(1) obtain f bound where f: "?found = Some f" "fn_body f = Some (fr_body frame)"
    and valid: "validate_arguments program (fr_body frame) None (rq_arguments request)"
    and bound: "normalize_arguments program (fr_body frame) None (rq_arguments request) = Some bound"
    and vals: "vals = map_of (rev bound)"
    by (auto simp: enter_function_def Let_def split: if_splits option.splits)
  have generic: "fn_generic_params f = []"
    using f(1) find_function_resolved [OF f(1)] by (auto simp: resolve_concrete_entry_def split: option.splits if_splits)
  have checked: "body_checked program f (fr_body frame)" and unique: "parameters_unique (fr_body frame)"
    using assms(2) find_function_resolved [OF f(1)] f(2) by (auto simp: program_checked_def)
  have len: "length (fb_parameters (fr_body frame)) = length (rq_arguments request)"
    using valid by (simp add: validate_arguments_def)
  have "value_matches_type program v ty" if "vals x = Some v" "declared_types (fr_body frame) x = Some ty" for x v ty
  proof -
    have "x \<in> bp_id ` set (fb_parameters (fr_body frame))"
      using normalize_arguments_names [OF bound] that(1) vals by (metis map_of_SomeD fst_conv image_eqI set_rev subsetD)
    then obtain p where p: "p \<in> set (fb_parameters (fr_body frame))" "x = bp_id p" by blast
    with checked that(2) have "ty = bp_ty p" by (auto simp: body_checked_def)
    moreover have "distinct (map bp_id (fb_parameters (fr_body frame)))" using unique by (simp add: parameters_unique_def)
    from normalize_arguments_held [OF bound len this p(1)] that(1) vals p(2)
    have "normalize_value program v (bp_ty p) = Some v" by auto
    ultimately show ?thesis using normalize_value_settles by blast
  qed
  then have "env_typed program (declared_types (fr_body frame)) vals" by (auto simp: env_typed_def)
  with that find_function_resolved [OF f(1)] generic f(2) checked show thesis by blast
qed

lemma refused_answer: "xr_status r \<noteq> Returned \<Longrightarrow> answer_typed program request r"
  by (simp add: answer_typed_def)

lemma execute_checking_safe:
  assumes "program_checked program" "nominals_ok program" "program_in_machine program"
  shows "\<exists>r. execute_checking lib program valid record_effects depth request = Some r \<and> answer_typed program request r"
  using assms
proof (induction lib program valid record_effects depth request rule: execute_checking.induct)
  case (1 lib program valid record_effects depth request)
  show ?case
  proof (cases "enter_function (\<lambda>_ _ _. []) program valid record_effects depth None request")
    case (Inl refused)
    from enter_function_refused [OF Inl] have "xr_status refused \<noteq> Returned" by auto
    with Inl show ?thesis by (simp add: execute_checking.simps refused_answer)
  next
    case (Inr entered)
    obtain frame vals where entered: "entered = (frame, vals)" by (cases entered)
    define call where "call = (\<lambda>_ :: bool list option. execute_checking lib program valid record_effects (depth + 1))"
    have call: "callee_safe program call"
      unfolding callee_safe_def call_def using 1(1) [OF Inr 1(2-4)] by blast
    from Inr entered have enter: "enter_function (\<lambda>_ _ _. []) program valid record_effects depth None request = Inr (frame, vals)"
      by simp
    obtain f where f: "find_function program (rq_module request) (rq_function request) = Some f"
      "fn_generic_params f = []" "f \<in> set (pg_functions program)" "fn_body f = Some (fr_body frame)"
      and checked: "body_checked program f (fr_body frame)"
      and typed: "env_typed program (declared_types (fr_body frame)) vals"
      by (rule enter_function_typed [OF enter 1(2)])
    have "body_in_machine (fr_body frame)" using 1(4) f(3,4) by (auto simp: program_in_machine_def list_all_iff)
    from run_blocks_safe [OF typed call 1(3) this checked, of lib "fb_entry (fr_body frame)" empty_result]
    obtain r where "run_blocks lib program call frame (fb_entry (fr_body frame)) vals empty_result = Some r"
      "xr_status r = Returned \<longrightarrow> outputs_typed program f (xr_returned r)" by blast
    with f(1,2) Inr entered show ?thesis
      by (subst execute_checking.simps) (simp add: answer_typed_def call_def)
  qed
qed


section \<open>The demonstration program validates\<close>

lemma single_block_graph:
  assumes "fb_blocks body = [block]" "fb_entry body = bb_id block"
  shows "\<exists>cfg. from_body digest body i = Some cfg \<and> cfg_unreachable cfg = []"
proof -
  obtain cfg where cfg: "from_body digest body i = Some cfg"
    "cfg_unreachable cfg = sorted_list_of_set (block_ids body - {b. reaches body b})"
    using from_body_eq [of digest body i] by blast
  have "walk body [fb_entry body] (fb_entry body)"
    using assms by (intro walk_entry) (simp add: block_ids_def)
  then have "reaches body (bb_id block)" using assms(2) by (auto simp: reaches_def)
  with assms(1) have "block_ids body - {b. reaches body b} = {}" by (auto simp: block_ids_def)
  with cfg show ?thesis by simp
qed

lemma available_at_apply:
  "available_at body cfg defs block x =
     (case defs x of
        Some (Some dfn, ty) \<Rightarrow>
          if dfn \<noteq> bb_id block \<and> dominates cfg dfn (bb_id block) then Some ty
          else bind_values (bb_parameters block) (map_option snd \<circ> parameter_definitions body) x
      | _ \<Rightarrow> bind_values (bb_parameters block) (map_option snd \<circ> parameter_definitions body) x)"
  by (simp add: available_at_def)

lemmas validate_simps = validate_body_def supported_body_schema_def validate_no_unresolved_named_def
  validate_parameters_def with_earlier_def block_ids_def validate_bounded_iterations_def body_definitions_def
  parameter_definitions_def block_definitions_def insert_definition_def Let_def validate_block_def
  validate_terminator_def validate_return_types_def blank_def validate_operation_def validate_metadata_def
  bind_values_def valid_cycles_def available_at_apply parameter_definitions_def check_terminator_values_def same_type_def arithmetic_result_type_def has_type_def operand_ty_def operand_def first_result_def
  first_result_differs_def arity_differs_def valid_constant_def valid_integer_def passes_as_def

lemma u8_spelling: "from_semantic_name ''u8'' = TInteger byte_int"
proof -
  have "from_semantic_name ''u8'' = scalar_name ''u8''" by (rule ident_scalar) code_simp
  also have "\<dots> = TInteger byte_int"
  proof -
    have "show_nat 8 = ''8''" by code_simp
    with scalar_name_number(3) [of 8] show ?thesis by (simp add: byte_int_def)
  qed
  finally show ?thesis .
qed

lemma demo_type:
  assumes "fn_generic_params f = []"
  shows "body_type_for_function_value demo_program f ''u8'' = TInteger byte_int"
proof -
  have none: "find_finite_in demo_program ''u8'' m = None" "find_record_in demo_program ''u8'' m = None" for m
    by (simp_all add: find_finite_in_def find_record_in_def demo_program_def)
  have "sequence_in_module_parts ''u8'' = None" by code_simp
  with none show ?thesis
    by (simp add: body_type_for_function_value_def type_param_def assms from_program_in_module.simps u8_spelling)
qed

lemma demo_names: "trim ''o1'' = ''o1''" "trim ''o2'' = ''o2''" "trim ''x'' = ''x''" "trim ''b'' = ''b''" "trim ''inc'' = ''inc''"
  "trim ''main'' = ''main''" "trim ''app'' = ''app''" "trim ''r'' = ''r''" "trim ''u8'' = ''u8''"
  by (rule trim_ident, simp, code_simp)+

lemma inc_valid:
  assumes "f = hd (pg_functions demo_program)"
  shows "validate_body digest demo_program f inc_body = Some []"
proof -
  have block: "fb_blocks inc_body = [hd (fb_blocks inc_body)]" "fb_entry inc_body = bb_id (hd (fb_blocks inc_body))"
    by (simp_all add: inc_body_def)
  obtain cfg where cfg: "from_body digest inc_body (body_id ''app'' ''inc'') = Some cfg" "cfg_unreachable cfg = []"
    using single_block_graph [OF block, of digest "body_id ''app'' ''inc''"] by blast
  have f: "identity_namespace f (pg_module demo_program) = ''app''" "fn_name f = ''inc''"
    "fn_inputs f = [\<lparr>nv_name = ''x'', nv_type = ''u8''\<rparr>]"
    "fn_outputs f = [\<lparr>nv_name = ''r'', nv_type = ''u8''\<rparr>]" "fn_generic_params f = []"
    by (simp_all add: assms demo_program_def identity_namespace_def)
  show ?thesis
    by (simp add: validate_body_def f cfg)
      (simp add: inc_body_def validate_simps f demo_type demo_names demo_simps)
qed

lemma main_valid:
  assumes "f = pg_functions demo_program ! 1"
  shows "validate_body digest demo_program f main_body = Some []"
proof -
  have block: "fb_blocks main_body = [hd (fb_blocks main_body)]" "fb_entry main_body = bb_id (hd (fb_blocks main_body))"
    by (simp_all add: main_body_def)
  obtain cfg where cfg: "from_body digest main_body (body_id ''app'' ''main'') = Some cfg" "cfg_unreachable cfg = []"
    using single_block_graph [OF block, of digest "body_id ''app'' ''main''"] by blast
  have f: "identity_namespace f (pg_module demo_program) = ''app''" "fn_name f = ''main''"
    "fn_inputs f = [\<lparr>nv_name = ''x'', nv_type = ''u8''\<rparr>]"
    "fn_outputs f = [\<lparr>nv_name = ''r'', nv_type = ''u8''\<rparr>]" "fn_generic_params f = []"
    by (simp_all add: assms demo_program_def identity_namespace_def)
  have target: "call_target demo_program (function_id ''app'' ''inc'') ''inc'' = Some (hd (pg_functions demo_program))"
    by (simp add: call_target_def demo_program_def identity_namespace_def)
  have g: "fn_generic_params (hd (pg_functions demo_program)) = []"
    "fn_inputs (hd (pg_functions demo_program)) = [\<lparr>nv_name = ''x'', nv_type = ''u8''\<rparr>]"
    "fn_outputs (hd (pg_functions demo_program)) = [\<lparr>nv_name = ''r'', nv_type = ''u8''\<rparr>]"
    "fn_capabilities (hd (pg_functions demo_program)) = []" "fn_effects (hd (pg_functions demo_program)) = []"
    by (simp_all add: demo_program_def)
  show ?thesis
    by (simp add: validate_body_def f cfg)
      (simp add: main_body_def validate_simps f demo_type demo_names demo_simps valid_call_def target g
        valid_generic_arguments_def expected_callee_type_def caller_authorizes_def)
qed

lemma demo_valid: "program_valid digest demo_program"
proof -
  define a b where "a = pg_functions demo_program ! 0" and "b = pg_functions demo_program ! 1"
  have fns: "pg_functions demo_program = [a, b]" by (simp add: a_def b_def) (simp add: demo_program_def)
  have bodies: "fn_body a = Some inc_body" "fn_body b = Some main_body" "fn_name a = ''inc''" "fn_name b = ''main''"
    by (simp_all add: a_def b_def demo_program_def)
  have "validate_function_declaration demo_program f = []" if "f \<in> {a, b}" for f
    using that
    by (auto simp: validate_function_declaration_def a_def b_def demo_program_def validate_named_values_def
        with_earlier_def collect_unique_ids_def blank_def demo_names)
  moreover have "validate_body digest demo_program a inc_body = Some []" "validate_body digest demo_program b main_body = Some []"
    using inc_valid [of a] main_valid [of b] fns by simp_all
  ultimately have "validate_function digest demo_program [] a = Some []" "validate_function digest demo_program [a] b = Some []"
    using bodies by (auto simp: validate_function_def blank_def demo_names identity_of_fn_def function_id_def make_id_inject)
  moreover have "validate_declarations demo_program = []"
    by (simp add: validate_declarations_def demo_program_def collect_unique_ids_def with_earlier_def blank_def demo_names)
  ultimately show ?thesis
    by (simp add: program_valid_def validate_program_def fns with_earlier_def)
qed


lemma demo_nominals: "nominals_ok demo_program" "program_in_machine demo_program"
  by (simp_all add: nominals_ok_def program_in_machine_def demo_program_def body_in_machine_def inc_body_def main_body_def
      block_values_def fits_u32_def)


section \<open>Validated programs do not go wrong\<close>



end
