(* ===== verification/Validated_Flow.thy ===== *)
theory Validated_Flow
  imports Validated_Run
begin

text \<open>
  Values are defined before they are used: in a run of a validated body every operand of the
  operation that is next, and every value a terminator reads, is in the store.  The configurations
  of a run are an inductive relation; the invariant rests on the dominators of the control-flow
  graph, by which validation decides what is available in a block.
\<close>

section \<open>The configurations of a run\<close>

text \<open>\<open>visits start i opers vals r\<close>: the run from the store \<open>start\<close> reaches the operations \<open>opers\<close> of
  block \<open>i\<close>, which are still to be executed.\<close>

inductive visits ::
  "float_library \<Rightarrow> program \<Rightarrow> callee \<Rightarrow> frame \<Rightarrow> env \<Rightarrow> string \<Rightarrow> body_operation list \<Rightarrow> env \<Rightarrow> execution_result \<Rightarrow> bool"
  for lib program call frame start where
  visits_entry:
    "block_map (fr_body frame) (fb_entry (fr_body frame)) = Some block \<Longrightarrow>
     visits lib program call frame start (fb_entry (fr_body frame)) (bb_operations block) start empty_result"
| visits_operation:
    "visits lib program call frame start i (oper # opers) vals r \<Longrightarrow>
     consume_step (rq_step_budget (fr_request frame)) r = Some stepped \<Longrightarrow>
     execute_operation lib program call frame
       (operation_id (fr_namespace frame) (fr_function frame) i (bo_id oper)) oper vals stepped = Continue vals' r' \<Longrightarrow>
     visits lib program call frame start i opers vals' r'"
| visits_jump:
    "visits lib program call frame start i [] vals r \<Longrightarrow>
     block_map (fr_body frame) i = Some block \<Longrightarrow>
     consume_step (rq_step_budget (fr_request frame)) r = Some stepped \<Longrightarrow>
     exec_terminator (fr_body frame) (bb_terminator block) vals stepped = Jump target vals' \<Longrightarrow>
     block_map (fr_body frame) target = Some block' \<Longrightarrow>
     visits lib program call frame start target (bb_operations block') vals' stepped"

inductive_cases visits_cases: "visits lib program call frame start i opers vals r"

text \<open>What remains of a run, from one of its configurations.\<close>

definition resume ::
  "float_library \<Rightarrow> program \<Rightarrow> callee \<Rightarrow> frame \<Rightarrow> string \<Rightarrow> body_operation list \<Rightarrow> env \<Rightarrow> execution_result \<Rightarrow>
   execution_result option" where
  "resume lib program call frame i opers vals r =
     (case run_operations lib program call frame i opers vals r of
        Panicked \<Rightarrow> None
      | Stop stopped \<Rightarrow> Some stopped
      | Continue vals' r' \<Rightarrow>
          (case (consume_step (rq_step_budget (fr_request frame)) r', block_map (fr_body frame) i) of
             (Some stepped, Some block) \<Rightarrow>
               (case exec_terminator (fr_body frame) (bb_terminator block) vals' stepped of
                  Finish finished \<Rightarrow> Some finished
                | Jump target vals'' \<Rightarrow> run_blocks lib program call frame target vals'' stepped)
           | _ \<Rightarrow> Some (fail_result BudgetExhausted None r')))"

lemma run_blocks_resume:
  "block_map (fr_body frame) i = Some block \<Longrightarrow>
     run_blocks lib program call frame i vals r = resume lib program call frame i (bb_operations block) vals r"
  by (subst run_blocks.simps)
    (auto simp: resume_def dest: block_map_in split: step_outcome.splits option.splits)

lemma visits_block:
  "visits lib program call frame start i opers vals r \<Longrightarrow> \<exists>block. block_map (fr_body frame) i = Some block"
  by (induction rule: visits.induct) auto

text \<open>The relation follows the interpreter: the result of the run is the result of what remains.\<close>

lemma visits_resume:
  "visits lib program call frame start i opers vals r \<Longrightarrow>
     run_blocks lib program call frame (fb_entry (fr_body frame)) start empty_result =
     resume lib program call frame i opers vals r"
proof (induction rule: visits.induct)
  case (visits_entry block)
  then show ?case by (rule run_blocks_resume)
next
  case (visits_operation i oper opers vals r stepped vals' r')
  then show ?case by (simp add: resume_def Let_def)
next
  case (visits_jump i vals r block stepped target vals' block')
  then show ?case by (simp add: resume_def run_blocks_resume)
qed


section \<open>What a block has available\<close>

definition result_ids :: "body_operation list \<Rightarrow> string set" where
  "result_ids opers = bv_id ` set (concat (map bo_results opers))"

lemma result_ids_simps [simp]:
  "result_ids [] = {}" "result_ids (oper # opers) = bv_id ` set (bo_results oper) \<union> result_ids opers"
  "result_ids (xs @ ys) = result_ids xs \<union> result_ids ys"
  by (simp_all add: result_ids_def image_Un)

lemma dom_bind_values: "dom (bind_values vs available) = dom available \<union> bv_id ` set vs"
  unfolding bind_values_def by (induction vs arbitrary: available) (auto simp del: fun_upd_apply)

lemma validate_operations_defined:
  assumes "validate_operations program f opers earlier available = ([], earlier', available')"
  shows "dom available' = dom available \<union> result_ids opers"
    and "opers = before @ oper # after \<Longrightarrow> set (bo_operands oper) \<subseteq> dom available \<union> result_ids before"
  using assms
proof (induction opers arbitrary: earlier available before)
  case (Cons o1 opers)
  {
    case 1
    then obtain earlier0 where "validate_operations program f opers earlier0 (bind_values (bo_results o1) available) =
        ([], earlier', available')"
      by (auto simp: Let_def split: prod.splits)
    from Cons.IH(1) [OF this] show ?case by (auto simp: dom_bind_values)
  next
    case 2
    obtain earlier0 where rest: "validate_operations program f opers earlier0 (bind_values (bo_results o1) available) =
        ([], earlier', available')"
      and own: "\<forall>x\<in>set (bo_operands o1). available x \<noteq> None"
      using 2(2) by (auto simp: Let_def split: prod.splits)
    show ?case
    proof (cases before)
      case Nil
      with 2(1) own show ?thesis by (auto simp: dom_def)
    next
      case (Cons o2 before')
      with 2(1) Cons.IH(2) [OF _ rest, of before'] show ?thesis by (auto simp: dom_bind_values)
    qed
  }
qed simp_all

fun terminator_values :: "body_terminator \<Rightarrow> string list" where
  "terminator_values (Return vs) = vs"
| "terminator_values (Branch _ arguments) = arguments"
| "terminator_values (ConditionalBranch condition _ then_arguments _ else_arguments) =
     condition # then_arguments @ else_arguments"
| "terminator_values (Failure _) = []"

lemma validate_terminator_defined:
  "validate_terminator terminator available ids parameters = [] \<Longrightarrow> set (terminator_values terminator) \<subseteq> dom available"
  by (cases terminator)
    (auto simp: validate_terminator_def check_terminator_values_def has_type_def dom_def split: option.splits)

text \<open>The available values of a block, its clean report, and where the body defines them.\<close>

definition block_defined :: "function_body \<Rightarrow> cfg \<Rightarrow> body_block \<Rightarrow> bool" where
  "block_defined body cfg block \<longleftrightarrow>
     (\<forall>before oper after. bb_operations block = before @ oper # after \<longrightarrow>
        set (bo_operands oper) \<subseteq> dom (available_at body cfg (snd (body_definitions body)) block) \<union> result_ids before) \<and>
     set (terminator_values (bb_terminator block)) \<subseteq>
       dom (available_at body cfg (snd (body_definitions body)) block) \<union> result_ids (bb_operations block)"

lemma validated_block_defined:
  assumes "validate_blocks program f body cfg (snd (body_definitions body)) (fb_blocks body) {} = []"
    and "block \<in> set (fb_blocks body)"
  shows "block_defined body cfg block"
proof -
  obtain earlier earlier'' where "validate_block program f body cfg (snd (body_definitions body)) block earlier = ([], earlier'')"
    using validate_blocks_Nil [OF assms] by blast
  then obtain available earlier' where
    opers: "validate_operations program f (bb_operations block) earlier
        (available_at body cfg (snd (body_definitions body)) block) = ([], earlier', available)"
    and ends: "validate_terminator (bb_terminator block) available (block_ids body) (map_option bb_parameters \<circ> block_map body) = []"
    by (auto simp: validate_block_def split: prod.splits)
  from validate_operations_defined [OF opers] validate_terminator_defined [OF ends] show ?thesis
    unfolding block_defined_def by blast
qed

lemma fold_block_definitions_source:
  "snd (fold block_definitions blocks state) x = Some (Some d, ty) \<Longrightarrow>
     snd state x = Some (Some d, ty) \<or> (\<exists>b\<in>set blocks. bb_id b = d \<and> x \<in> bv_id ` set (block_values b))"
proof (induction blocks arbitrary: state)
  case (Cons block blocks)
  have insert: "snd (fold (insert_definition code b) vs state) x = Some (Some d, ty) \<Longrightarrow>
      snd state x = Some (Some d, ty) \<or> (b = d \<and> x \<in> bv_id ` set vs)" for code b vs state
    by (induction vs arbitrary: state) (fastforce simp: insert_definition_def split: if_splits)+
  from Cons.prems have "snd (fold block_definitions blocks (block_definitions block state)) x = Some (Some d, ty)" by simp
  from Cons.IH [OF this] show ?case
    by (auto simp: block_definitions_def block_values_def dest!: insert)
qed simp

lemma definition_source:
  assumes "snd (body_definitions body) x = Some (Some d, ty)"
  shows "\<exists>b\<in>set (fb_blocks body). bb_id b = d \<and> x \<in> bv_id ` set (block_values b)"
  using fold_block_definitions_source [OF assms [unfolded body_definitions_def]] parameter_definitions_None [of body x "Some d" ty]
  by auto

section \<open>Jumps keep what is available\<close>

lemma assign_block_arguments_dom:
  assumes "assign_block_arguments body target arguments vals = Some vals'" "block_map body target = Some block"
  shows "dom vals' = dom vals \<union> bv_id ` set (bb_parameters block)"
proof -
  obtain vs where len: "length (bb_parameters block) = length arguments"
    and vs: "collect_options (map vals arguments) = Some vs"
    and vals': "vals' = vals ++ map_of (rev (zip (map bv_id (bb_parameters block)) vs))"
    using assms by (auto simp: assign_block_arguments_def split: option.splits if_splits)
  have "length (map bv_id (bb_parameters block)) = length vs" using len collect_values(1) [OF vs] by simp
  then have "fst ` set (zip (map bv_id (bb_parameters block)) vs) = bv_id ` set (bb_parameters block)"
    by (metis list.set_map map_fst_zip)
  then show ?thesis by (simp add: vals' dom_map_of_conv_image_fst Un_commute)
qed

lemma jump_target:
  assumes "exec_terminator body terminator vals r = Jump target vals'"
  shows "target \<in> set (terminator_targets terminator) \<and>
    (\<exists>arguments. assign_block_arguments body target arguments vals = Some vals')"
  using assms
  by (auto simp: exec_terminator_def Let_def split: body_terminator.splits option.splits bool.splits)

lemma block_map_unique:
  assumes "card (block_ids body) = length (fb_blocks body)" "b \<in> set (fb_blocks body)"
  shows "block_map body (bb_id b) = Some b"
proof -
  have "distinct (map bb_id (fb_blocks body))"
    using assms(1) by (intro card_distinct) (simp add: block_ids_def)
  then have "distinct (map fst (rev (map (\<lambda>b. (bb_id b, b)) (fb_blocks body))))"
    by (simp add: comp_def flip: rev_map)
  then show ?thesis
    unfolding block_map_def by (rule map_of_is_SomeI) (use assms(2) in auto)
qed

text \<open>A dominator of the target of a jump is the target, the source, or a dominator of the source.\<close>

lemma dominators_step:
  assumes "reaches body a" "flows body a b" "d \<in> dominators_of body b" "d \<noteq> b"
  shows "d \<in> dominators_of body a"
  using assms by (auto simp: dominators_of_def dest: walk_step)

lemma available_parameters:
  assumes "available_at body cfg defs block x = Some ty" "\<And>d t. defs x = Some (Some d, t) \<Longrightarrow> d = bb_id block"
  shows "x \<in> bv_id ` set (bb_parameters block) \<or> x \<in> bp_id ` set (fb_parameters body)"
proof -
  have "bind_values (bb_parameters block) (map_option snd \<circ> parameter_definitions body) x = Some ty"
    using assms by (auto simp: available_at_def split: option.splits if_splits)
  then have "x \<in> dom (bind_values (bb_parameters block) (map_option snd \<circ> parameter_definitions body))" by blast
  then show ?thesis
    unfolding dom_bind_values using parameter_definitions_dom [of body x] by (auto simp: dom_def)
qed

lemma available_own:
  assumes "x \<in> bv_id ` set (bb_parameters block) \<or> x \<in> bp_id ` set (fb_parameters body)"
  shows "x \<in> dom (available_at body cfg defs block)"
proof -
  have "x \<in> dom (bind_values (bb_parameters block) (map_option snd \<circ> parameter_definitions body))"
    unfolding dom_bind_values using assms parameter_definitions_dom [of body x] by (auto simp: dom_def)
  then show ?thesis by (auto simp: available_at_def split: option.splits)
qed

lemma available_after_jump:
  assumes cfg: "from_body digest body identity = Some cfg"
    and ids: "card (block_ids body) = length (fb_blocks body)"
    and reach: "reaches body i" and flow: "flows body i target"
    and source: "block_map body i = Some block" and target: "block_map body target = Some block'"
    and x: "x \<in> dom (available_at body cfg (snd (body_definitions body)) block')"
  shows "x \<in> dom (available_at body cfg (snd (body_definitions body)) block) \<union> result_ids (bb_operations block) \<union>
    bv_id ` set (bb_parameters block')"
proof (cases "\<exists>d ty. snd (body_definitions body) x = Some (Some d, ty) \<and> d \<noteq> bb_id block'")
  case False
  with x available_parameters [of body cfg "snd (body_definitions body)" block' x] available_own [of x block body cfg]
  show ?thesis by fastforce
next
  case True
  then obtain d ty where d: "snd (body_definitions body) x = Some (Some d, ty)" "d \<noteq> bb_id block'" by blast
  have ids_of: "bb_id block = i" "bb_id block' = target"
    using block_map_in [OF source] block_map_in [OF target] by simp_all
  show ?thesis
  proof (cases "dominates cfg d target")
    case dom: True
    with d ids_of have "d \<in> dominators_of body i"
      by (intro dominators_step [OF reach flow]) (auto simp: dominates_iff [OF cfg])
    with reach have domi: "dominates cfg d i" by (simp add: dominates_iff [OF cfg])
    show ?thesis
    proof (cases "d = i")
      case True
      from definition_source [OF d(1)] obtain b where b: "b \<in> set (fb_blocks body)" "bb_id b = d"
        "x \<in> bv_id ` set (block_values b)" by blast
      with block_map_unique [OF ids b(1)] True source have "b = block" by simp
      with b(3) have "x \<in> bv_id ` set (bb_parameters block) \<or> x \<in> result_ids (bb_operations block)"
        by (auto simp: block_values_def result_ids_def)
      with available_own [of x block body cfg] show ?thesis by blast
    next
      case False
      with d(1) domi ids_of have "available_at body cfg (snd (body_definitions body)) block x = Some ty"
        by (simp add: available_at_def)
      then show ?thesis by blast
    qed
  next
    case False
    with x d ids_of have "x \<in> dom (bind_values (bb_parameters block') (map_option snd \<circ> parameter_definitions body))"
      by (auto simp: available_at_def)
    then show ?thesis
      unfolding dom_bind_values using parameter_definitions_dom [of body x] available_own [of x block body cfg]
      by (auto simp: dom_def)
  qed
qed


section \<open>The invariant\<close>

text \<open>Every result an operation declares is stored: calls return one value, and the entry block, which
  nothing jumps to at the start, has no parameters.\<close>

definition stores_results :: "function_body \<Rightarrow> bool" where
  "stores_results body \<longleftrightarrow>
     list_all (\<lambda>block. (bb_id block = fb_entry body \<longrightarrow> bb_parameters block = []) \<and>
         list_all (\<lambda>oper. is_pure (bo_kind oper) \<or> length (bo_results oper) \<le> 1) (bb_operations block))
       (fb_blocks body)"

lemma store_dom:
  "store oper v vals r = Continue vals' r' \<Longrightarrow> length (bo_results oper) \<le> 1 \<Longrightarrow>
     dom vals' = dom vals \<union> bv_id ` set (bo_results oper)"
  by (cases "bo_results oper") (auto simp: store_def)

lemma execute_operation_dom:
  assumes typed: "env_typed program declared vals" and nominal: "nominals_ok program"
    and small: "small_bounds declared" and lane: "in_lane (bo_kind oper)"
    and checked: "operation_checked program f declared oper"
    and single: "is_pure (bo_kind oper) \<or> length (bo_results oper) \<le> 1"
    and run: "execute_operation lib program call frame identity oper vals r = Continue vals' r'"
  shows "dom vals' = dom vals \<union> bv_id ` set (bo_results oper)"
proof -
  obtain available where le: "available \<subseteq>\<^sub>m declared" and known: "\<forall>x\<in>set (bo_operands oper). available x \<noteq> None"
    and valid: "validate_operation program f oper available = []"
    using checked by (auto simp: operation_checked_def)
  have clean: "validate_kind program f (bo_kind oper) oper available = Proceed []"
    using valid never_bails_clean by (auto simp: validate_operation_Nil)
  show ?thesis
  proof (cases "is_pure (bo_kind oper)")
    case True
    note pure = exec_pure_safe [OF env_typed_le [OF typed le] nominal small_bounds_le [OF small le] known clean True lane, of lib]
    have "execute_operation lib program call frame identity oper vals r =
        (case exec_pure lib program (bo_kind oper) oper vals of
           Store v \<Rightarrow> store oper v vals r
         | Skip \<Rightarrow> Continue vals r
         | Fail status \<Rightarrow> Stop (fail_result status (Some identity) r)
         | Panic \<Rightarrow> Panicked)"
      using True by (cases "bo_kind oper") (simp_all add: execute_operation_def)
    with pure run show ?thesis
      by (auto simp: store_def split: op_outcome.splits)
  next
    case False
    with single have one: "length (bo_results oper) \<le> 1" by blast
    show ?thesis
    proof (cases "bo_kind oper")
      case (Call identity' name caps effs args)
      with run one show ?thesis
        by (auto simp: execute_operation_def exec_call_def Let_def store_dom split: option.splits list.splits if_splits)
    next
      case (Effect eff capability)
      with run clean show ?thesis
        by (auto simp: execute_operation_def exec_effect_def valid_effect_def split: if_splits)
    qed (use False in simp_all)
  qed
qed

definition visit_ok :: "program \<Rightarrow> function_body \<Rightarrow> cfg \<Rightarrow> string \<Rightarrow> body_operation list \<Rightarrow> env \<Rightarrow> bool" where
  "visit_ok program body cfg i opers vals \<longleftrightarrow>
     (\<exists>block before. block_map body i = Some block \<and> bb_operations block = before @ opers \<and> reaches body i \<and>
        env_typed program (declared_types body) vals \<and>
        dom (available_at body cfg (snd (body_definitions body)) block) \<union> result_ids before \<subseteq> dom vals)"

lemma visits_ok:
  assumes "visits lib program call frame start i opers vals r"
    and cfg: "from_body digest (fr_body frame) identity = Some cfg"
    and ids: "card (block_ids (fr_body frame)) = length (fb_blocks (fr_body frame))"
    and entry: "fb_entry (fr_body frame) \<in> block_ids (fr_body frame)"
    and checked: "body_checked program f (fr_body frame)" and machine: "body_in_machine (fr_body frame)"
    and stores: "stores_results (fr_body frame)" and nominal: "nominals_ok program" and call: "callee_safe program call"
    and start: "env_typed program (declared_types (fr_body frame)) start"
      "bp_id ` set (fb_parameters (fr_body frame)) \<subseteq> dom start"
  shows "visit_ok program (fr_body frame) cfg i opers vals"
  using assms(1)
proof (induction rule: visits.induct)
  case (visits_entry block)
  have reach: "reaches (fr_body frame) (fb_entry (fr_body frame))"
    using walk_entry [OF entry] by (auto simp: reaches_def)
  have id: "bb_id block = fb_entry (fr_body frame)" and "bb_parameters block = []"
    using block_map_in [OF visits_entry] stores by (auto simp: stores_results_def list_all_iff)
  have "x \<in> bp_id ` set (fb_parameters (fr_body frame))"
    if "x \<in> dom (available_at (fr_body frame) cfg (snd (body_definitions (fr_body frame))) block)" for x
  proof -
    have "\<not> dominates cfg d (bb_id block)" if "d \<noteq> bb_id block" for d
      using that reach dominators_of_entry [OF reach] by (simp add: dominates_iff [OF cfg] id)
    with that have "x \<in> dom (bind_values (bb_parameters block) (map_option snd \<circ> parameter_definitions (fr_body frame)))"
      by (auto simp: available_at_def split: option.splits if_splits)
    then show ?thesis
      unfolding dom_bind_values \<open>bb_parameters block = []\<close> using parameter_definitions_dom [of "fr_body frame" x]
      by (auto simp: dom_def)
  qed
  with start(2) have "dom (available_at (fr_body frame) cfg (snd (body_definitions (fr_body frame))) block) \<subseteq> dom start"
    by blast
  with visits_entry reach start(1) show ?case by (auto simp: visit_ok_def)
next
  case (visits_operation i oper opers vals r stepped vals' r')
  then obtain block before where block: "block_map (fr_body frame) i = Some block"
    and split: "bb_operations block = before @ oper # opers" and reach: "reaches (fr_body frame) i"
    and typed: "env_typed program (declared_types (fr_body frame)) vals"
    and dom: "dom (available_at (fr_body frame) cfg (snd (body_definitions (fr_body frame))) block) \<union> result_ids before \<subseteq> dom vals"
    by (auto simp: visit_ok_def)
  have in_block: "oper \<in> set (bb_operations block)" "block \<in> set (fb_blocks (fr_body frame))"
    using split block_map_in [OF block] by auto
  have op: "operation_checked program f (declared_types (fr_body frame)) oper" "in_lane (bo_kind oper)"
    "is_pure (bo_kind oper) \<or> length (bo_results oper) \<le> 1"
    using in_block checked machine stores
    by (auto simp: body_checked_def block_checked_def body_in_machine_def stores_results_def list_all_iff)
  note small = body_in_machine_small [OF machine]
  have "env_typed program (declared_types (fr_body frame)) vals'"
    using execute_operation_safe [OF typed call nominal small op(2,1)] visits_operation(3) by (metis step_safe_simps(1))
  moreover have "dom vals' = dom vals \<union> bv_id ` set (bo_results oper)"
    by (rule execute_operation_dom [OF typed nominal small op(2,1,3) visits_operation(3)])
  ultimately show ?case
    using block split reach dom unfolding visit_ok_def
    by (intro exI [of _ block] exI [of _ "before @ [oper]"]) auto
next
  case (visits_jump i vals r block stepped target vals' block')
  then have reach: "reaches (fr_body frame) i"
    and typed: "env_typed program (declared_types (fr_body frame)) vals"
    and dom: "dom (available_at (fr_body frame) cfg (snd (body_definitions (fr_body frame))) block) \<union>
      result_ids (bb_operations block) \<subseteq> dom vals"
    by (auto simp: visit_ok_def)
  obtain arguments where target: "target \<in> set (terminator_targets (bb_terminator block))"
    and assign: "assign_block_arguments (fr_body frame) target arguments vals = Some vals'"
    using jump_target [OF visits_jump(4)] by blast
  have flow: "flows (fr_body frame) i target"
    using visits_jump(2,5) target dom_block_map [of "fr_body frame"] by (auto simp: flows_def block_ids_def)
  then have "reaches (fr_body frame) target" using reach by (auto simp: reaches_def intro: walk_step)
  moreover have "env_typed program (declared_types (fr_body frame)) vals'"
  proof -
    have block: "block_checked program f (fr_body frame) (declared_types (fr_body frame)) block"
      using checked block_map_in [OF visits_jump(2)] by (simp add: body_checked_def)
    have params: "declared_types (fr_body frame) (bv_id v) = Some (bv_ty v)"
      if "b \<in> set (fb_blocks (fr_body frame))" "v \<in> set (bb_parameters b)" for b v
      using checked that by (auto simp: body_checked_def block_checked_def)
    obtain available where le: "available \<subseteq>\<^sub>m declared_types (fr_body frame)"
      and ends: "validate_terminator (bb_terminator block) available (block_ids (fr_body frame))
          (map_option bb_parameters \<circ> block_map (fr_body frame)) = []"
        "validate_return_types (bb_terminator block) program f available = []"
      using block by (auto simp: block_checked_def)
    from exec_terminator_safe [OF typed le ends, of stepped] params visits_jump(4) show ?thesis
      by (simp add: jump_safe_def)
  qed
  moreover have "dom (available_at (fr_body frame) cfg (snd (body_definitions (fr_body frame))) block') \<subseteq> dom vals'"
    using available_after_jump [OF cfg ids reach flow visits_jump(2,5)] dom
      assign_block_arguments_dom [OF assign visits_jump(5)] by blast
  ultimately show ?case
    using visits_jump(5) by (auto simp: visit_ok_def)
qed

section \<open>Values are defined before they are used\<close>

definition reads :: "function_body \<Rightarrow> string \<Rightarrow> body_operation list \<Rightarrow> string set" where
  "reads body i opers =
     (case opers of
        oper # _ \<Rightarrow> set (bo_operands oper)
      | [] \<Rightarrow> (case block_map body i of None \<Rightarrow> {} | Some block \<Rightarrow> set (terminator_values (bb_terminator block))))"

lemma visit_ok_reads:
  assumes "visit_ok program body cfg i opers vals" "\<And>block. block \<in> set (fb_blocks body) \<Longrightarrow> block_defined body cfg block"
  shows "reads body i opers \<subseteq> dom vals"
proof -
  obtain block before where block: "block_map body i = Some block" "bb_operations block = before @ opers"
    and dom: "dom (available_at body cfg (snd (body_definitions body)) block) \<union> result_ids before \<subseteq> dom vals"
    using assms(1) by (auto simp: visit_ok_def)
  have "block_defined body cfg block" using assms(2) block_map_in [OF block(1)] by blast
  note defined = this [unfolded block_defined_def]
  show ?thesis
  proof (cases opers)
    case Nil
    with block have "before = bb_operations block" by simp
    with conjunct2 [OF defined] dom Nil block(1) show ?thesis by (simp add: reads_def) blast
  next
    case (Cons oper after)
    with block(2) conjunct1 [OF defined] have "set (bo_operands oper) \<subseteq>
        dom (available_at body cfg (snd (body_definitions body)) block) \<union> result_ids before" by blast
    with dom have "set (bo_operands oper) \<subseteq> dom vals" by blast
    with Cons show ?thesis by (simp add: reads_def)
  qed
qed

lemma normalize_arguments_bind:
  assumes "normalize_arguments program body None arguments = Some bound"
    and "length (fb_parameters body) = length arguments" "distinct (map bp_id (fb_parameters body))"
  shows "bp_id ` set (fb_parameters body) \<subseteq> dom (map_of (rev bound))"
  using normalize_arguments_held [OF assms] by blast

lemma checking_callee_safe:
  assumes "program_checked program" "nominals_ok program" "program_in_machine program"
  shows "callee_safe program (\<lambda>_. execute_checking lib program valid record_effects depth)"
  unfolding callee_safe_def using execute_checking_safe [OF assms] by blast


lemma demo_enter_checking:
  "enter_function (\<lambda>_ _ _. []) demo_program True False 0 None (demo_request ''main'' 9) =
     Inr (checking_frame (demo_frame main_body ''main'' 9), [''x'' \<mapsto> VInteger 41 byte_int])"
proof -
  have "enter_function reusable_parameters demo_program True False 0 None (demo_request ''main'' 9) =
      Inr (demo_frame main_body ''main'' 9, [''x'' \<mapsto> VInteger 41 byte_int])"
    by (rule demo_enter(2)) simp_all
  moreover have "trusted_ok demo_program None (demo_request ''main'' 9)" by (simp add: trusted_ok_def)
  ultimately show ?thesis
    using enter_function_agrees(1) [OF program_valid_checked(2) [OF demo_valid], of None "demo_request ''main'' 9" True False 0]
    by simp
qed


end
