(* ===== verification/Ssa.thy ===== *)
theory Ssa
  imports Body_Valid
begin

text \<open>
  Lowering of validated programs to SSA, from \<open>crates/mncs-model/src/ir.rs\<close> and
  \<open>crates/mncs-model/src/ssa.rs\<close>: the operations of the high-level IR, and the blocks and
  instructions \<open>lower_body\<close> makes of a body, in which every value has a semantic identity.

  Kept are the fields that execution reads.  Traces, transformation records, obligations, evidence,
  machine intents, bounded iterations, the reuse of cached functions and host calls are left out;
  the digest and the canonical text of an effect, from \<open>sha2\<close> and \<open>serde_json\<close>, are parameters.
\<close>

section \<open>Operations of the high-level IR\<close>

datatype ir_kind =
  IrConstant int body_type
| IrInteger string integer_type arithmetic_intent
| IrIntegerCompare string integer_type
| IrFloatConstant nat float_type
| IrFloat string
| IrFloatCompare string
| IrFloatIntrinsic string
| IrBooleanOp string
| IrBooleanCompare string
| IrBooleanNot
| IrByteBitwise string
| IrByteShift string
| IrByteCompare string
| IrSelect body_type
| IrSequenceReplace body_type sequence_bound bounds_evidence
| IrBoundCheck sequence_bound
| IrSequenceCopy body_type sequence_bound sequence_bound bounds_evidence
| IrVectorConstruct body_type nat
| IrVectorSplat body_type nat
| IrVectorExtract body_type nat bounds_evidence
| IrVectorReplace body_type nat bounds_evidence
| IrVectorBinary string body_type nat arithmetic_intent
| IrVectorCompare string body_type nat
| IrMaskBinary string nat
| IrMaskNot nat
| IrMaskReduce string nat
| IrVectorReduce string body_type nat arithmetic_intent
| IrConvert body_type body_type
| IrSequenceConstruct body_type nat
| IrSequenceProject sequence_bound bounds_evidence
| IrSequenceLength sequence_bound
| IrViewConstruct sequence_bound sequence_bound
| IrViewNarrow nat nat
| IrFiniteConstruct semantic_id semantic_id nat "string list"
| IrFiniteIsVariant semantic_id semantic_id nat
| IrFinitePayloadProject semantic_id semantic_id nat string
| IrRecordConstruct semantic_id "string list"
| IrRecordProject semantic_id string
| IrCall semantic_id "semantic_id list"
| IrEffect
| IrRuntimeCheck semantic_id semantic_id failure_mode
| IrReturn
| IrFailure failure_mode

text \<open>The kinds of \<open>lower_executable_body\<close>: only a call changes, whose capabilities become those of
  the calling function.\<close>

primrec ir_kind_of :: "(string \<Rightarrow> semantic_id) \<Rightarrow> operation_kind \<Rightarrow> ir_kind" where
  "ir_kind_of capability (Constant v ty) = IrConstant v ty"
| "ir_kind_of capability (Integer s t intent) = IrInteger s t intent"
| "ir_kind_of capability (IntegerCompare s t) = IrIntegerCompare s t"
| "ir_kind_of capability (FloatConstant n ft) = IrFloatConstant n ft"
| "ir_kind_of capability (Float s) = IrFloat s"
| "ir_kind_of capability (FloatCompare s) = IrFloatCompare s"
| "ir_kind_of capability (FloatIntrinsic s) = IrFloatIntrinsic s"
| "ir_kind_of capability (BooleanOp s) = IrBooleanOp s"
| "ir_kind_of capability (BooleanCompare s) = IrBooleanCompare s"
| "ir_kind_of capability BooleanNot = IrBooleanNot"
| "ir_kind_of capability (ByteBitwise s) = IrByteBitwise s"
| "ir_kind_of capability (ByteShift s) = IrByteShift s"
| "ir_kind_of capability (ByteCompare s) = IrByteCompare s"
| "ir_kind_of capability (Select ty) = IrSelect ty"
| "ir_kind_of capability (SequenceReplace ty b ev) = IrSequenceReplace ty b ev"
| "ir_kind_of capability (BoundCheck b) = IrBoundCheck b"
| "ir_kind_of capability (SequenceCopy ty b1 b2 ev) = IrSequenceCopy ty b1 b2 ev"
| "ir_kind_of capability (VectorConstruct ty n) = IrVectorConstruct ty n"
| "ir_kind_of capability (VectorSplat ty n) = IrVectorSplat ty n"
| "ir_kind_of capability (VectorExtract ty n ev) = IrVectorExtract ty n ev"
| "ir_kind_of capability (VectorReplace ty n ev) = IrVectorReplace ty n ev"
| "ir_kind_of capability (VectorBinary s ty n intent) = IrVectorBinary s ty n intent"
| "ir_kind_of capability (VectorCompare s ty n) = IrVectorCompare s ty n"
| "ir_kind_of capability (MaskBinary s n) = IrMaskBinary s n"
| "ir_kind_of capability (MaskNot n) = IrMaskNot n"
| "ir_kind_of capability (MaskReduce s n) = IrMaskReduce s n"
| "ir_kind_of capability (VectorReduce s ty n intent) = IrVectorReduce s ty n intent"
| "ir_kind_of capability (Convert ty1 ty2) = IrConvert ty1 ty2"
| "ir_kind_of capability (SequenceConstruct ty n) = IrSequenceConstruct ty n"
| "ir_kind_of capability (SequenceProject b ev) = IrSequenceProject b ev"
| "ir_kind_of capability (SequenceLength b) = IrSequenceLength b"
| "ir_kind_of capability (ViewConstruct b1 b2) = IrViewConstruct b1 b2"
| "ir_kind_of capability (ViewNarrow n1 n2) = IrViewNarrow n1 n2"
| "ir_kind_of capability (FiniteConstruct i1 i2 n ns) = IrFiniteConstruct i1 i2 n ns"
| "ir_kind_of capability (FiniteIsVariant i1 i2 n) = IrFiniteIsVariant i1 i2 n"
| "ir_kind_of capability (FinitePayloadProject i1 i2 n s) = IrFinitePayloadProject i1 i2 n s"
| "ir_kind_of capability (RecordConstruct i ns) = IrRecordConstruct i ns"
| "ir_kind_of capability (RecordProject i s) = IrRecordProject i s"
| "ir_kind_of capability (RuntimeCheck i1 i2 m) = IrRuntimeCheck i1 i2 m"
| "ir_kind_of capability (Call i name capabilities effects args) = IrCall i (map capability capabilities)"
| "ir_kind_of capability (Effect eff c) = IrEffect"

record ir_operation =
  io_semantic :: "semantic_id option"
  io_kind :: ir_kind
  io_effects :: "semantic_id list"
  io_capability_uses :: "semantic_id list"

text \<open>\<open>declared_effect_identity\<close>: the identity of the first declared effect that equals the given one,
  and occurrence zero of an undeclared one.\<close>

definition declared_effect_identity ::
  "(string \<Rightarrow> string) \<Rightarrow> (effect \<Rightarrow> string) \<Rightarrow> program \<Rightarrow> fn \<Rightarrow> effect \<Rightarrow> semantic_id" where
  "declared_effect_identity sha json program f eff =
     effect_id sha (identity_namespace f (pg_module program)) (fn_name f) (json eff)
       (if eff \<in> set (fn_effects f) then length (takeWhile (\<lambda>e. e \<noteq> eff) (fn_effects f)) else 0)"

text \<open>\<open>functions_by_identity\<close>, and the callee found there under its simple name.  A call without one
  is a panic.\<close>

definition functions_by_identity :: "program \<Rightarrow> semantic_id \<rightharpoonup> fn" where
  "functions_by_identity program =
     map_of (rev (map (\<lambda>f. (function_id (identity_namespace f (pg_module program)) (fn_name f), f)) (pg_functions program)))"

definition lowered_callee :: "program \<Rightarrow> semantic_id \<Rightarrow> string \<Rightarrow> fn option" where
  "lowered_callee program identity name =
     (case functions_by_identity program identity of
        None \<Rightarrow> None
      | Some f \<Rightarrow> if fn_name f = rev (takeWhile (\<lambda>c. c \<noteq> CHR ''.'') (rev name)) then Some f else None)"

definition ir_links ::
  "(string \<Rightarrow> string) \<Rightarrow> (effect \<Rightarrow> string) \<Rightarrow> program \<Rightarrow> fn \<Rightarrow> operation_kind \<Rightarrow> (semantic_id list \<times> semantic_id list) option" where
  "ir_links sha json program f kind =
     (let capability = capability_id (identity_namespace f (pg_module program)) (fn_name f) in
      case kind of
        Call identity name capabilities effects _ \<Rightarrow>
          map_option (\<lambda>callee. (map (declared_effect_identity sha json program callee) effects, map capability capabilities))
            (lowered_callee program identity name)
      | Effect eff _ \<Rightarrow> Some ([declared_effect_identity sha json program f eff], [capability (ef_capability eff)])
      | _ \<Rightarrow> Some ([], []))"

definition lower_ir_operation ::
  "(string \<Rightarrow> string) \<Rightarrow> (effect \<Rightarrow> string) \<Rightarrow> program \<Rightarrow> fn \<Rightarrow> string \<Rightarrow> body_operation \<Rightarrow> ir_operation option" where
  "lower_ir_operation sha json program f block oper =
     map_option (\<lambda>(effects, uses).
         \<lparr>io_semantic = Some (operation_id (identity_namespace f (pg_module program)) (fn_name f) block (bo_id oper)),
          io_kind = ir_kind_of (capability_id (identity_namespace f (pg_module program)) (fn_name f)) (bo_kind oper),
          io_effects = effects, io_capability_uses = uses\<rparr>)
       (ir_links sha json program f (bo_kind oper))"

text \<open>The operations of all blocks of a function, with the return of a block that returns and the
  blocks of the failure paths.\<close>

definition return_operation :: "body_terminator \<Rightarrow> ir_operation list" where
  "return_operation terminator =
     (case terminator of
        Return _ \<Rightarrow> [\<lparr>io_semantic = None, io_kind = IrReturn, io_effects = [], io_capability_uses = []\<rparr>]
      | _ \<Rightarrow> [])"

definition failure_operation :: "program \<Rightarrow> fn \<Rightarrow> ir_operation" where
  "failure_operation program f =
     \<lparr>io_semantic = Some (function_id (identity_namespace f (pg_module program)) (fn_name f)),
      io_kind = IrFailure (fn_failure f), io_effects = [], io_capability_uses = []\<rparr>"

definition lower_executable_body ::
  "(string \<Rightarrow> string) \<Rightarrow> (effect \<Rightarrow> string) \<Rightarrow> program \<Rightarrow> fn \<Rightarrow> function_body \<Rightarrow> ir_operation list option" where
  "lower_executable_body sha json program f body =
     map_option (\<lambda>blocks. concat blocks @
         replicate (if fn_failure f \<in> {Compensating, Fatal} then 2 else 1) (failure_operation program f))
       (collect_options (map (\<lambda>b.
            map_option (\<lambda>opers. opers @ return_operation (bb_terminator b))
              (collect_options (map (lower_ir_operation sha json program f (bb_id b)) (bb_operations b))))
          (fb_blocks body)))"


section \<open>Instructions\<close>

datatype ssa_kind =
  SsaConstant int body_type
| SsaInteger string integer_type arithmetic_intent
| SsaIntegerCompare string integer_type
| SsaFloatConstant nat float_type
| SsaFloat string
| SsaFloatCompare string
| SsaFloatIntrinsic string
| SsaBooleanOp string
| SsaBooleanCompare string
| SsaBooleanNot
| SsaByteBitwise string
| SsaByteShift string
| SsaByteCompare string
| SsaSelect body_type
| SsaSequenceReplace body_type sequence_bound bounds_evidence
| SsaBoundCheck sequence_bound
| SsaSequenceCopy body_type sequence_bound sequence_bound bounds_evidence
| SsaVectorConstruct body_type nat
| SsaVectorSplat body_type nat
| SsaVectorExtract body_type nat bounds_evidence
| SsaVectorReplace body_type nat bounds_evidence
| SsaVectorBinary string body_type nat arithmetic_intent
| SsaVectorCompare string body_type nat
| SsaMaskBinary string nat
| SsaMaskNot nat
| SsaMaskReduce string nat
| SsaVectorReduce string body_type nat arithmetic_intent
| SsaConvert body_type body_type
| SsaSequenceConstruct body_type nat
| SsaSequenceProject sequence_bound bounds_evidence
| SsaSequenceLength sequence_bound
| SsaViewConstruct sequence_bound sequence_bound
| SsaViewNarrow nat nat
| SsaFiniteConstruct semantic_id semantic_id nat "string list"
| SsaFiniteIsVariant semantic_id semantic_id nat
| SsaFinitePayloadProject semantic_id semantic_id nat string
| SsaRecordConstruct semantic_id "string list"
| SsaRecordProject semantic_id string
| SsaCall semantic_id "semantic_id list"
| SsaEffect
| SsaRuntimeCheck semantic_id semantic_id failure_mode

text \<open>\<open>ssa_kind\<close>: what has no SSA form is an effect.\<close>

primrec ssa_kind_of :: "ir_kind \<Rightarrow> ssa_kind" where
  "ssa_kind_of (IrConstant v ty) = SsaConstant v ty"
| "ssa_kind_of (IrInteger s t intent) = SsaInteger s t intent"
| "ssa_kind_of (IrIntegerCompare s t) = SsaIntegerCompare s t"
| "ssa_kind_of (IrFloatConstant n ft) = SsaFloatConstant n ft"
| "ssa_kind_of (IrFloat s) = SsaFloat s"
| "ssa_kind_of (IrFloatCompare s) = SsaFloatCompare s"
| "ssa_kind_of (IrFloatIntrinsic s) = SsaFloatIntrinsic s"
| "ssa_kind_of (IrBooleanOp s) = SsaBooleanOp s"
| "ssa_kind_of (IrBooleanCompare s) = SsaBooleanCompare s"
| "ssa_kind_of IrBooleanNot = SsaBooleanNot"
| "ssa_kind_of (IrByteBitwise s) = SsaByteBitwise s"
| "ssa_kind_of (IrByteShift s) = SsaByteShift s"
| "ssa_kind_of (IrByteCompare s) = SsaByteCompare s"
| "ssa_kind_of (IrSelect ty) = SsaSelect ty"
| "ssa_kind_of (IrSequenceReplace ty b ev) = SsaSequenceReplace ty b ev"
| "ssa_kind_of (IrBoundCheck b) = SsaBoundCheck b"
| "ssa_kind_of (IrSequenceCopy ty b1 b2 ev) = SsaSequenceCopy ty b1 b2 ev"
| "ssa_kind_of (IrVectorConstruct ty n) = SsaVectorConstruct ty n"
| "ssa_kind_of (IrVectorSplat ty n) = SsaVectorSplat ty n"
| "ssa_kind_of (IrVectorExtract ty n ev) = SsaVectorExtract ty n ev"
| "ssa_kind_of (IrVectorReplace ty n ev) = SsaVectorReplace ty n ev"
| "ssa_kind_of (IrVectorBinary s ty n intent) = SsaVectorBinary s ty n intent"
| "ssa_kind_of (IrVectorCompare s ty n) = SsaVectorCompare s ty n"
| "ssa_kind_of (IrMaskBinary s n) = SsaMaskBinary s n"
| "ssa_kind_of (IrMaskNot n) = SsaMaskNot n"
| "ssa_kind_of (IrMaskReduce s n) = SsaMaskReduce s n"
| "ssa_kind_of (IrVectorReduce s ty n intent) = SsaVectorReduce s ty n intent"
| "ssa_kind_of (IrConvert ty1 ty2) = SsaConvert ty1 ty2"
| "ssa_kind_of (IrSequenceConstruct ty n) = SsaSequenceConstruct ty n"
| "ssa_kind_of (IrSequenceProject b ev) = SsaSequenceProject b ev"
| "ssa_kind_of (IrSequenceLength b) = SsaSequenceLength b"
| "ssa_kind_of (IrViewConstruct b1 b2) = SsaViewConstruct b1 b2"
| "ssa_kind_of (IrViewNarrow n1 n2) = SsaViewNarrow n1 n2"
| "ssa_kind_of (IrFiniteConstruct i1 i2 n ns) = SsaFiniteConstruct i1 i2 n ns"
| "ssa_kind_of (IrFiniteIsVariant i1 i2 n) = SsaFiniteIsVariant i1 i2 n"
| "ssa_kind_of (IrFinitePayloadProject i1 i2 n s) = SsaFinitePayloadProject i1 i2 n s"
| "ssa_kind_of (IrRecordConstruct i ns) = SsaRecordConstruct i ns"
| "ssa_kind_of (IrRecordProject i s) = SsaRecordProject i s"
| "ssa_kind_of (IrCall i capabilities) = SsaCall i capabilities"
| "ssa_kind_of IrEffect = SsaEffect"
| "ssa_kind_of (IrRuntimeCheck i1 i2 m) = SsaRuntimeCheck i1 i2 m"
| "ssa_kind_of IrReturn = SsaEffect"
| "ssa_kind_of (IrFailure m) = SsaEffect"

text \<open>\<open>ssa_kind_from_body\<close>, used for an operation the HIR does not have; it keeps the capabilities of a
  call as they are spelled.\<close>

primrec ssa_kind_from_body :: "operation_kind \<Rightarrow> ssa_kind" where
  "ssa_kind_from_body (Constant v ty) = SsaConstant v ty"
| "ssa_kind_from_body (Integer s t intent) = SsaInteger s t intent"
| "ssa_kind_from_body (IntegerCompare s t) = SsaIntegerCompare s t"
| "ssa_kind_from_body (FloatConstant n ft) = SsaFloatConstant n ft"
| "ssa_kind_from_body (Float s) = SsaFloat s"
| "ssa_kind_from_body (FloatCompare s) = SsaFloatCompare s"
| "ssa_kind_from_body (FloatIntrinsic s) = SsaFloatIntrinsic s"
| "ssa_kind_from_body (BooleanOp s) = SsaBooleanOp s"
| "ssa_kind_from_body (BooleanCompare s) = SsaBooleanCompare s"
| "ssa_kind_from_body BooleanNot = SsaBooleanNot"
| "ssa_kind_from_body (ByteBitwise s) = SsaByteBitwise s"
| "ssa_kind_from_body (ByteShift s) = SsaByteShift s"
| "ssa_kind_from_body (ByteCompare s) = SsaByteCompare s"
| "ssa_kind_from_body (Select ty) = SsaSelect ty"
| "ssa_kind_from_body (SequenceReplace ty b ev) = SsaSequenceReplace ty b ev"
| "ssa_kind_from_body (BoundCheck b) = SsaBoundCheck b"
| "ssa_kind_from_body (SequenceCopy ty b1 b2 ev) = SsaSequenceCopy ty b1 b2 ev"
| "ssa_kind_from_body (VectorConstruct ty n) = SsaVectorConstruct ty n"
| "ssa_kind_from_body (VectorSplat ty n) = SsaVectorSplat ty n"
| "ssa_kind_from_body (VectorExtract ty n ev) = SsaVectorExtract ty n ev"
| "ssa_kind_from_body (VectorReplace ty n ev) = SsaVectorReplace ty n ev"
| "ssa_kind_from_body (VectorBinary s ty n intent) = SsaVectorBinary s ty n intent"
| "ssa_kind_from_body (VectorCompare s ty n) = SsaVectorCompare s ty n"
| "ssa_kind_from_body (MaskBinary s n) = SsaMaskBinary s n"
| "ssa_kind_from_body (MaskNot n) = SsaMaskNot n"
| "ssa_kind_from_body (MaskReduce s n) = SsaMaskReduce s n"
| "ssa_kind_from_body (VectorReduce s ty n intent) = SsaVectorReduce s ty n intent"
| "ssa_kind_from_body (Convert ty1 ty2) = SsaConvert ty1 ty2"
| "ssa_kind_from_body (SequenceConstruct ty n) = SsaSequenceConstruct ty n"
| "ssa_kind_from_body (SequenceProject b ev) = SsaSequenceProject b ev"
| "ssa_kind_from_body (SequenceLength b) = SsaSequenceLength b"
| "ssa_kind_from_body (ViewConstruct b1 b2) = SsaViewConstruct b1 b2"
| "ssa_kind_from_body (ViewNarrow n1 n2) = SsaViewNarrow n1 n2"
| "ssa_kind_from_body (FiniteConstruct i1 i2 n ns) = SsaFiniteConstruct i1 i2 n ns"
| "ssa_kind_from_body (FiniteIsVariant i1 i2 n) = SsaFiniteIsVariant i1 i2 n"
| "ssa_kind_from_body (FinitePayloadProject i1 i2 n s) = SsaFinitePayloadProject i1 i2 n s"
| "ssa_kind_from_body (RecordConstruct i ns) = SsaRecordConstruct i ns"
| "ssa_kind_from_body (RecordProject i s) = SsaRecordProject i s"
| "ssa_kind_from_body (Call i name capabilities effects args) = SsaCall i capabilities"
| "ssa_kind_from_body (Effect eff capability) = SsaEffect"
| "ssa_kind_from_body (RuntimeCheck i1 i2 m) = SsaRuntimeCheck i1 i2 m"

record ssa_value =
  sv_identity :: semantic_id
  sv_ty :: body_type

record ssa_instruction =
  si_identity :: semantic_id
  si_semantic :: "semantic_id option"
  si_kind :: ssa_kind
  si_inputs :: "semantic_id list"
  si_outputs :: "ssa_value list"
  si_effects :: "semantic_id list"
  si_capability_uses :: "semantic_id list"

datatype ssa_terminator =
  SsaReturn "semantic_id list"
| SsaBranch semantic_id "semantic_id list"
| SsaConditionalBranch semantic_id semantic_id "semantic_id list" semantic_id "semantic_id list"
| SsaFailure failure_mode

record ssa_block =
  sb_identity :: semantic_id
  sb_semantic :: "semantic_id option"
  sb_parameters :: "ssa_value list"
  sb_instructions :: "ssa_instruction list"
  sb_terminator :: ssa_terminator
  sb_failure_target :: "semantic_id option"

record ssa_function =
  sf_identity :: semantic_id
  sf_semantic :: semantic_id
  sf_inputs :: "ssa_value list"
  sf_blocks :: "ssa_block list"
  sf_failure :: failure_mode

record ssa_module =
  sm_semantic :: semantic_id
  sm_functions :: "ssa_function list"


section \<open>Lowering\<close>

definition ssa_identity :: "(string \<Rightarrow> string) \<Rightarrow> string \<Rightarrow> semantic_id \<Rightarrow> nat \<Rightarrow> semantic_id" where
  "ssa_identity sha kind subject ordinal =
     ''mncs:0.4:ssa:'' @ kind @ '':'' @ sha (subject @ '':'' @ show_nat ordinal)"

text \<open>The identities of the values named so far.  An operand without one is dropped.\<close>

type_synonym value_ids = "string \<rightharpoonup> semantic_id"

definition bind_ids :: "(body_value \<Rightarrow> semantic_id) \<Rightarrow> body_value list \<Rightarrow> value_ids \<Rightarrow> value_ids" where
  "bind_ids identity vs ids = fold (\<lambda>v m. m(bv_id v \<mapsto> identity v)) vs ids"

definition resolve_ids :: "value_ids \<Rightarrow> string list \<Rightarrow> semantic_id list" where
  "resolve_ids ids xs = List.map_filter ids xs"

definition lower_value :: "(body_value \<Rightarrow> semantic_id) \<Rightarrow> body_value \<Rightarrow> ssa_value" where
  "lower_value identity v = \<lparr>sv_identity = identity v, sv_ty = bv_ty v\<rparr>"

definition lower_operation ::
  "(string \<Rightarrow> string) \<Rightarrow> string \<Rightarrow> string \<Rightarrow> ir_operation list \<Rightarrow> string \<Rightarrow> body_operation \<Rightarrow> value_ids \<Rightarrow> ssa_instruction" where
  "lower_operation sha home name hir block oper ids =
     (let identity = operation_id home name block (bo_id oper);
          found = find (\<lambda>i. io_semantic i = Some identity) hir in
      \<lparr>si_identity = ssa_identity sha ''instruction'' identity 0, si_semantic = Some identity,
       si_kind = (case found of Some i \<Rightarrow> ssa_kind_of (io_kind i) | None \<Rightarrow> ssa_kind_from_body (bo_kind oper)),
       si_inputs = resolve_ids ids (bo_operands oper),
       si_outputs = map (lower_value (\<lambda>r. value_id home name block (bo_id oper) (bv_id r))) (bo_results oper),
       si_effects = (case found of Some i \<Rightarrow> io_effects i | None \<Rightarrow> []),
       si_capability_uses = (case found of Some i \<Rightarrow> io_capability_uses i | None \<Rightarrow> [])\<rparr>)"

fun lower_operations ::
  "(string \<Rightarrow> string) \<Rightarrow> string \<Rightarrow> string \<Rightarrow> ir_operation list \<Rightarrow> string \<Rightarrow> body_operation list \<Rightarrow> value_ids \<Rightarrow>
   ssa_instruction list \<times> value_ids" where
  "lower_operations sha home name hir block [] ids = ([], ids)"
| "lower_operations sha home name hir block (oper # opers) ids =
     (let (instructions, ids') = lower_operations sha home name hir block opers
            (bind_ids (\<lambda>r. value_id home name block (bo_id oper) (bv_id r)) (bo_results oper) ids) in
      (lower_operation sha home name hir block oper ids # instructions, ids'))"

fun lower_terminator :: "(string \<Rightarrow> semantic_id) \<Rightarrow> value_ids \<Rightarrow> body_terminator \<Rightarrow> ssa_terminator" where
  "lower_terminator target ids (Return vs) = SsaReturn (resolve_ids ids vs)"
| "lower_terminator target ids (Branch i arguments) = SsaBranch (target i) (resolve_ids ids arguments)"
| "lower_terminator target ids (ConditionalBranch condition then_target then_arguments else_target else_arguments) =
     SsaConditionalBranch (case ids condition of None \<Rightarrow> ''missing'' | Some i \<Rightarrow> i)
       (target then_target) (resolve_ids ids then_arguments) (target else_target) (resolve_ids ids else_arguments)"
| "lower_terminator target ids (Failure mode) = SsaFailure mode"

definition ssa_block_identity :: "(string \<Rightarrow> string) \<Rightarrow> string \<Rightarrow> string \<Rightarrow> string \<Rightarrow> semantic_id" where
  "ssa_block_identity sha home name block = ssa_identity sha ''block'' (block_id home name block) 0"

definition lower_block ::
  "(string \<Rightarrow> string) \<Rightarrow> string \<Rightarrow> string \<Rightarrow> ir_operation list \<Rightarrow> semantic_id \<Rightarrow> body_block \<Rightarrow> value_ids \<Rightarrow>
   ssa_block \<times> value_ids" where
  "lower_block sha home name hir error block ids =
     (let parameter = (\<lambda>p. value_id home name (bb_id block) ''parameter'' (bv_id p));
          (instructions, ids') = lower_operations sha home name hir (bb_id block) (bb_operations block)
            (bind_ids parameter (bb_parameters block) ids) in
      (\<lparr>sb_identity = ssa_block_identity sha home name (bb_id block),
        sb_semantic = Some (block_id home name (bb_id block)),
        sb_parameters = map (lower_value parameter) (bb_parameters block),
        sb_instructions = instructions,
        sb_terminator = lower_terminator (ssa_block_identity sha home name) ids' (bb_terminator block),
        sb_failure_target = Some error\<rparr>, ids'))"

fun lower_blocks ::
  "(string \<Rightarrow> string) \<Rightarrow> string \<Rightarrow> string \<Rightarrow> ir_operation list \<Rightarrow> semantic_id \<Rightarrow> body_block list \<Rightarrow> value_ids \<Rightarrow> ssa_block list" where
  "lower_blocks sha home name hir error [] ids = []"
| "lower_blocks sha home name hir error (block # blocks) ids =
     (let (lowered, ids') = lower_block sha home name hir error block ids in
      lowered # lower_blocks sha home name hir error blocks ids')"

definition parameter_ids :: "string \<Rightarrow> string \<Rightarrow> body_parameter list \<Rightarrow> value_ids" where
  "parameter_ids home name ps = fold (\<lambda>p m. m(bp_id p \<mapsto> parameter_id home name (bp_id p))) ps Map.empty"

text \<open>The block that every block names as its failure target comes last.\<close>

definition lower_body :: "(string \<Rightarrow> string) \<Rightarrow> program \<Rightarrow> fn \<Rightarrow> function_body \<Rightarrow> ir_operation list \<Rightarrow> ssa_function" where
  "lower_body sha program f body hir =
     (let home = identity_namespace f (pg_module program);
          semantic = function_id home (fn_name f);
          error = ssa_identity sha ''failure'' semantic 0 in
      \<lparr>sf_identity = ssa_identity sha ''function'' semantic 0, sf_semantic = semantic,
       sf_inputs = map (\<lambda>p. \<lparr>sv_identity = parameter_id home (fn_name f) (bp_id p), sv_ty = bp_ty p\<rparr>) (fb_parameters body),
       sf_blocks = lower_blocks sha home (fn_name f) hir error (fb_blocks body) (parameter_ids home (fn_name f) (fb_parameters body)) @
         [\<lparr>sb_identity = error, sb_semantic = None, sb_parameters = [], sb_instructions = [],
           sb_terminator = SsaFailure (fn_failure f), sb_failure_target = None\<rparr>],
       sf_failure = fn_failure f\<rparr>)"

text \<open>A function without a body returns nothing.\<close>

definition declaration_function :: "(string \<Rightarrow> string) \<Rightarrow> program \<Rightarrow> fn \<Rightarrow> ssa_function" where
  "declaration_function sha program f =
     (let semantic = function_id (identity_namespace f (pg_module program)) (fn_name f) in
      \<lparr>sf_identity = ssa_identity sha ''function'' semantic 0, sf_semantic = semantic,
       sf_inputs = map (\<lambda>(i, x). \<lparr>sv_identity = ssa_identity sha ''input'' semantic i,
           sv_ty = from_program program (nv_type x)\<rparr>) (zip [0..<length (fn_inputs f)] (fn_inputs f)),
       sf_blocks = [\<lparr>sb_identity = ssa_identity sha ''block'' semantic 0, sb_semantic = None, sb_parameters = [],
           sb_instructions = [], sb_terminator = SsaReturn [], sb_failure_target = None\<rparr>],
       sf_failure = fn_failure f\<rparr>)"

text \<open>The functions of a module in the order of their names, generic ones left out.  The HIR of all
  of them is made first; a body takes the first HIR function of its identity.\<close>

definition lowered_functions :: "program \<Rightarrow> fn list" where
  "lowered_functions program = filter (\<lambda>f. fn_generic_params f = []) (sort_key fn_name (pg_functions program))"

definition ir_functions ::
  "(string \<Rightarrow> string) \<Rightarrow> (effect \<Rightarrow> string) \<Rightarrow> program \<Rightarrow> (semantic_id \<times> ir_operation list) list option" where
  "ir_functions sha json program =
     collect_options (map (\<lambda>f.
         map_option (Pair (function_id (identity_namespace f (pg_module program)) (fn_name f)))
           (case fn_body f of None \<Rightarrow> Some [] | Some body \<Rightarrow> lower_executable_body sha json program f body))
       (lowered_functions program))"

definition lower_function :: "(string \<Rightarrow> string) \<Rightarrow> program \<Rightarrow> (semantic_id \<times> ir_operation list) list \<Rightarrow> fn \<Rightarrow> ssa_function option" where
  "lower_function sha program hir f =
     (case fn_body f of
        None \<Rightarrow> Some (declaration_function sha program f)
      | Some body \<Rightarrow>
          map_option (lower_body sha program f body)
            (map_of hir (function_id (identity_namespace f (pg_module program)) (fn_name f))))"

definition lower_to_ssa :: "(string \<Rightarrow> string) \<Rightarrow> (effect \<Rightarrow> string) \<Rightarrow> program \<Rightarrow> ssa_module option" where
  "lower_to_ssa sha json program =
     do {
       hir \<leftarrow> ir_functions sha json program;
       functions \<leftarrow> collect_options (map (lower_function sha program hir) (lowered_functions program));
       Some \<lparr>sm_semantic = program_id (pg_module program), sm_functions = functions\<rparr>
     }"

end
