(* ===== verification/Ssa_Ops.thy ===== *)
theory Ssa_Ops
  imports Ssa Body_Ops
begin

text \<open>
  What each SSA instruction computes, from \<open>execute_instruction\<close> of
  \<open>crates/mncs-model/src/ssa_execution.rs\<close>: one definition per arm, on the values found in the input
  slots of the instruction.  Calls and effects, which touch the state of the run, are in
  \<open>Ssa_Exec\<close>.

  An arm yields the value for the first output, or nothing to insert, or rejects with a status; some
  stop without recording a failure; indexing out of range is a panic of the Rust code.
\<close>

datatype ssa_outcome = Yield execution_value | Quiet | Reject execution_status | Halt | Abort

type_synonym slots = "execution_value option list"


section \<open>Slots\<close>

definition slot :: "slots \<Rightarrow> nat \<Rightarrow> execution_value option" where
  "slot slots i = (if i < length slots then slots ! i else None)"

definition slot_pair :: "(execution_value \<Rightarrow> 'a option) \<Rightarrow> (execution_value \<Rightarrow> 'b option) \<Rightarrow> slots \<Rightarrow> ('a \<times> 'b) option" where
  "slot_pair get_left get_right slots =
     (case slots of
        [left, right] \<Rightarrow> do { l \<leftarrow> left; lv \<leftarrow> get_left l; r \<leftarrow> right; rv \<leftarrow> get_right r; Some (lv, rv) }
      | _ \<Rightarrow> None)"

definition ssa_boolean_operands :: "slots \<Rightarrow> (bool \<times> bool) option" where
  "ssa_boolean_operands = slot_pair the_boolean the_boolean"

definition ssa_float_operand :: "slots \<Rightarrow> nat option" where
  "ssa_float_operand slots = (case slots of [input] \<Rightarrow> Option.bind input the_float | _ \<Rightarrow> None)"

definition ssa_float_operands :: "slots \<Rightarrow> (nat \<times> nat) option" where
  "ssa_float_operands = slot_pair the_float the_float"

definition ssa_integer_operands :: "slots \<Rightarrow> (int \<times> int) option" where
  "ssa_integer_operands = slot_pair the_integer the_integer"

definition ssa_byte_operands :: "slots \<Rightarrow> (int \<times> int) option" where
  "ssa_byte_operands = slot_pair the_byte the_byte"

definition ssa_byte_shift_operands :: "slots \<Rightarrow> (int \<times> int) option" where
  "ssa_byte_shift_operands =
     slot_pair the_byte (\<lambda>v. Option.bind (the_integer v) (\<lambda>c. if c < 0 then None else Some c))"

definition ssa_integer_operand :: "slots \<Rightarrow> nat \<Rightarrow> int option" where
  "ssa_integer_operand slots i = Option.bind (slot slots i) the_integer"

definition ssa_sequence_operand :: "slots \<Rightarrow> nat \<Rightarrow> execution_value list option" where
  "ssa_sequence_operand slots i = Option.bind (slot slots i) the_sequence"

definition slot_lanes :: "(execution_value \<Rightarrow> 'a list option) \<Rightarrow> slots \<Rightarrow> ('a list \<times> 'a list) option" where
  "slot_lanes get slots =
     do {
       l \<leftarrow> slot slots 0; left \<leftarrow> get l;
       r \<leftarrow> slot slots 1; right \<leftarrow> get r;
       if length left = length right then Some (left, right) else None
     }"

definition ssa_vector_operands :: "slots \<Rightarrow> (execution_value list \<times> execution_value list) option" where
  "ssa_vector_operands = slot_lanes the_vector"

definition ssa_mask_operands :: "slots \<Rightarrow> (bool list \<times> bool list) option" where
  "ssa_mask_operands = slot_lanes the_mask"


section \<open>Scalars\<close>

definition ssa_constant :: "int \<Rightarrow> body_type \<Rightarrow> ssa_outcome" where
  "ssa_constant v ty = (case constant_value v ty of None \<Rightarrow> Reject Unsupported | Some w \<Rightarrow> Yield w)"

definition ssa_integer :: "string \<Rightarrow> integer_type \<Rightarrow> arithmetic_intent \<Rightarrow> slots \<Rightarrow> ssa_value list \<Rightarrow> ssa_outcome" where
  "ssa_integer operator operand_type intent slots outputs =
     (if \<not> integer_operator_supported operator intent then Reject Unsupported
      else
        case ssa_integer_operands slots of
          None \<Rightarrow> Reject InvalidRequest
        | Some (left, right) \<Rightarrow>
            (case evaluate_integer operator operand_type intent left right of
               None \<Rightarrow> Reject RuntimeFailure
             | Some v \<Rightarrow>
                 (case outputs of
                    [] \<Rightarrow> Quiet
                  | out # _ \<Rightarrow> Yield (VInteger v (case sv_ty out of TInteger ty \<Rightarrow> ty | _ \<Rightarrow> operand_type)))))"

definition ssa_integer_compare :: "string \<Rightarrow> integer_type \<Rightarrow> slots \<Rightarrow> ssa_outcome" where
  "ssa_integer_compare predicate operand_type slots =
     (case ssa_integer_operands slots of
        None \<Rightarrow> Reject InvalidRequest
      | Some (left, right) \<Rightarrow>
          (case compare_integers predicate operand_type left right of
             None \<Rightarrow> Reject Unsupported
           | Some b \<Rightarrow> Yield (VBoolean b)))"

definition ssa_float_constant :: "nat \<Rightarrow> float_type \<Rightarrow> ssa_outcome" where
  "ssa_float_constant bits ty = (if \<not> float_is_supported ty then Reject Unsupported else Yield (VFloat bits ty))"

text \<open>Here the operator is checked before the operands.\<close>

definition ssa_float :: "string \<Rightarrow> slots \<Rightarrow> ssa_outcome" where
  "ssa_float operator slots =
     (if operator \<notin> {''add'', ''sub'', ''mul'', ''div''} then Reject Unsupported
      else
        case ssa_float_operands slots of
          None \<Rightarrow> Reject InvalidRequest
        | Some (left, right) \<Rightarrow>
            (case evaluate_float operator left right of
               None \<Rightarrow> Reject RuntimeFailure
             | Some bits \<Rightarrow> Yield (VFloat bits float_f64)))"

definition ssa_float_compare :: "string \<Rightarrow> slots \<Rightarrow> ssa_outcome" where
  "ssa_float_compare predicate slots =
     (case ssa_float_operands slots of
        None \<Rightarrow> Reject InvalidRequest
      | Some (left, right) \<Rightarrow>
          if \<not> is_finite left \<or> \<not> is_finite right then Reject RuntimeFailure
          else case compare_floats predicate left right of
                 None \<Rightarrow> Reject Unsupported
               | Some b \<Rightarrow> Yield (VBoolean b))"

definition ssa_float_intrinsic :: "float_library \<Rightarrow> string \<Rightarrow> slots \<Rightarrow> ssa_outcome" where
  "ssa_float_intrinsic lib function_name slots =
     (case ssa_float_operand slots of
        None \<Rightarrow> Reject InvalidRequest
      | Some input \<Rightarrow>
          if \<not> is_finite input then Reject RuntimeFailure
          else
            case (if function_name = ''sin'' then Some (sin_bits lib input)
                  else if function_name = ''cos'' then Some (cos_bits lib input)
                  else if function_name = ''neg'' then Some (neg_bits input) else None) of
              None \<Rightarrow> Reject Unsupported
            | Some bits \<Rightarrow> if is_finite bits then Yield (VFloat bits float_f64) else Reject RuntimeFailure)"

definition ssa_boolean_op :: "string \<Rightarrow> slots \<Rightarrow> ssa_outcome" where
  "ssa_boolean_op operator slots =
     (case ssa_boolean_operands slots of
        None \<Rightarrow> Reject InvalidRequest
      | Some (left, right) \<Rightarrow>
          if operator = ''and'' then Yield (VBoolean (left \<and> right))
          else if operator = ''or'' then Yield (VBoolean (left \<or> right))
          else Reject Unsupported)"

definition ssa_boolean_compare :: "string \<Rightarrow> slots \<Rightarrow> ssa_outcome" where
  "ssa_boolean_compare predicate slots =
     (case ssa_boolean_operands slots of
        None \<Rightarrow> Reject InvalidRequest
      | Some (left, right) \<Rightarrow>
          if predicate = ''eq'' then Yield (VBoolean (left = right))
          else if predicate = ''ne'' then Yield (VBoolean (left \<noteq> right))
          else Reject Unsupported)"

definition ssa_boolean_not :: "slots \<Rightarrow> ssa_outcome" where
  "ssa_boolean_not slots =
     (case slots of
        [input] \<Rightarrow>
          (case Option.bind input the_boolean of
             None \<Rightarrow> Reject InvalidRequest
           | Some b \<Rightarrow> Yield (VBoolean (\<not> b)))
      | _ \<Rightarrow> Reject InvalidRequest)"

definition ssa_byte_bitwise :: "string \<Rightarrow> slots \<Rightarrow> ssa_outcome" where
  "ssa_byte_bitwise operator slots =
     (case ssa_byte_operands slots of
        None \<Rightarrow> Reject InvalidRequest
      | Some (left, right) \<Rightarrow>
          (case evaluate_byte_bitwise operator left right of
             None \<Rightarrow> Reject Unsupported
           | Some v \<Rightarrow> Yield (VByte v)))"

definition ssa_byte_shift :: "string \<Rightarrow> slots \<Rightarrow> ssa_outcome" where
  "ssa_byte_shift operator slots =
     (case ssa_byte_shift_operands slots of
        None \<Rightarrow> Reject InvalidRequest
      | Some (byte, distance) \<Rightarrow>
          (case evaluate_byte_shift operator byte distance of
             None \<Rightarrow> Reject Unsupported
           | Some v \<Rightarrow> Yield (VByte v)))"

definition ssa_byte_compare :: "string \<Rightarrow> slots \<Rightarrow> ssa_outcome" where
  "ssa_byte_compare predicate slots =
     (case ssa_byte_operands slots of
        None \<Rightarrow> Reject InvalidRequest
      | Some (left, right) \<Rightarrow>
          (case compare_bytes predicate left right of
             None \<Rightarrow> Reject Unsupported
           | Some b \<Rightarrow> Yield (VBoolean b)))"

definition ssa_convert :: "body_type \<Rightarrow> body_type \<Rightarrow> slots \<Rightarrow> ssa_outcome" where
  "ssa_convert source target slots =
     (case slot slots 0 of
        None \<Rightarrow> Reject InvalidRequest
      | Some v \<Rightarrow>
          (case convert_scalar_value v source target of
             Inr converted \<Rightarrow> Yield converted
           | Inl ConvTrap \<Rightarrow> Reject RuntimeFailure
           | Inl ConvUnsupported \<Rightarrow> Reject Unsupported))"


section \<open>Vectors and masks\<close>

text \<open>The aggregates stop at once when they have no output to fill.\<close>

definition ssa_vector_construct :: "nat \<Rightarrow> slots \<Rightarrow> ssa_value list \<Rightarrow> ssa_outcome" where
  "ssa_vector_construct lanes slots outputs =
     (if outputs = [] then Halt
      else case collect_options slots of
             None \<Rightarrow> Reject InvalidRequest
           | Some vs \<Rightarrow> if length vs \<noteq> lanes then Reject InvalidRequest else Yield (VVector vs))"

definition ssa_vector_splat :: "nat \<Rightarrow> slots \<Rightarrow> ssa_value list \<Rightarrow> ssa_outcome" where
  "ssa_vector_splat lanes slots outputs =
     (if outputs = [] then Halt
      else case slot slots 0 of
             None \<Rightarrow> Reject InvalidRequest
           | Some v \<Rightarrow> Yield (VVector (replicate lanes v)))"

definition ssa_lane_failure :: "bounds_evidence \<Rightarrow> ssa_outcome" where
  "ssa_lane_failure evidence = Reject (if is_runtime_checked evidence then RuntimeFailure else InvalidRequest)"

definition ssa_vector_extract :: "nat \<Rightarrow> bounds_evidence \<Rightarrow> slots \<Rightarrow> ssa_value list \<Rightarrow> ssa_outcome" where
  "ssa_vector_extract lanes evidence slots outputs =
     (case Option.bind (slot slots 0) the_vector of
        None \<Rightarrow> Reject InvalidRequest
      | Some vs \<Rightarrow>
          (case ssa_integer_operand slots 1 of
             None \<Rightarrow> Reject InvalidRequest
           | Some index \<Rightarrow>
               if index < 0 \<or> int lanes \<le> index then ssa_lane_failure evidence
               else if outputs = [] then Quiet
               else if nat index < length vs then Yield (vs ! nat index) else Abort))"

definition ssa_vector_replace :: "nat \<Rightarrow> bounds_evidence \<Rightarrow> slots \<Rightarrow> ssa_outcome" where
  "ssa_vector_replace lanes evidence slots =
     (case Option.bind (slot slots 0) the_vector of
        None \<Rightarrow> Reject InvalidRequest
      | Some vs \<Rightarrow>
          (case ssa_integer_operand slots 1 of
             None \<Rightarrow> Reject InvalidRequest
           | Some index \<Rightarrow>
               (case slot slots 2 of
                  None \<Rightarrow> Reject InvalidRequest
                | Some element \<Rightarrow>
                    if index < 0 \<or> int lanes \<le> index then ssa_lane_failure evidence
                    else if nat index < length vs then Yield (VVector (vs[nat index := element])) else Abort)))"

definition ssa_vector_binary :: "string \<Rightarrow> body_type \<Rightarrow> arithmetic_intent \<Rightarrow> slots \<Rightarrow> ssa_outcome" where
  "ssa_vector_binary operator element_type intent slots =
     (case ssa_vector_operands slots of
        None \<Rightarrow> Reject InvalidRequest
      | Some (left, right) \<Rightarrow>
          (case evaluate_vector_binary operator element_type intent left right of
             None \<Rightarrow> Reject RuntimeFailure
           | Some produced \<Rightarrow> Yield (VVector produced)))"

definition ssa_vector_compare :: "string \<Rightarrow> body_type \<Rightarrow> slots \<Rightarrow> ssa_outcome" where
  "ssa_vector_compare predicate element_type slots =
     (case ssa_vector_operands slots of
        None \<Rightarrow> Reject InvalidRequest
      | Some (left, right) \<Rightarrow>
          (case evaluate_vector_compare predicate element_type left right of
             None \<Rightarrow> Reject InvalidRequest
           | Some lanes \<Rightarrow> Yield (VMask lanes)))"

definition ssa_mask_binary :: "string \<Rightarrow> slots \<Rightarrow> ssa_outcome" where
  "ssa_mask_binary operator slots =
     (case ssa_mask_operands slots of
        None \<Rightarrow> Reject InvalidRequest
      | Some (left, right) \<Rightarrow>
          Yield (VMask (map (\<lambda>(l, r). if operator = ''and'' then l \<and> r
                                       else if operator = ''or'' then l \<or> r else l \<noteq> r) (zip left right))))"

definition ssa_mask_not :: "slots \<Rightarrow> ssa_outcome" where
  "ssa_mask_not slots =
     (case Option.bind (slot slots 0) the_mask of
        None \<Rightarrow> Reject InvalidRequest
      | Some lanes \<Rightarrow> Yield (VMask (map Not lanes)))"

definition ssa_mask_reduce :: "string \<Rightarrow> slots \<Rightarrow> ssa_outcome" where
  "ssa_mask_reduce operator slots =
     (case Option.bind (slot slots 0) the_mask of
        None \<Rightarrow> Reject InvalidRequest
      | Some lanes \<Rightarrow>
          Yield (VBoolean (if operator = ''any'' then list_ex id lanes
                           else if operator = ''all'' then list_all id lanes
                           else \<not> list_ex id lanes)))"

definition ssa_vector_reduce :: "string \<Rightarrow> body_type \<Rightarrow> arithmetic_intent \<Rightarrow> slots \<Rightarrow> ssa_outcome" where
  "ssa_vector_reduce operator element_type intent slots =
     (case Option.bind (slot slots 0) the_vector of
        None \<Rightarrow> Reject InvalidRequest
      | Some lanes \<Rightarrow>
          (case evaluate_vector_reduce operator element_type intent lanes of
             None \<Rightarrow> Reject RuntimeFailure
           | Some v \<Rightarrow> Yield v))"

definition ssa_select :: "slots \<Rightarrow> ssa_outcome" where
  "ssa_select slots =
     (case slot slots 0 of
        None \<Rightarrow> Reject InvalidRequest
      | Some (VMask lanes) \<Rightarrow>
          (case (Option.bind (slot slots 1) the_vector, Option.bind (slot slots 2) the_vector) of
             (Some true_lanes, Some false_lanes) \<Rightarrow>
               if length lanes \<noteq> length true_lanes \<or> length lanes \<noteq> length false_lanes then Reject InvalidRequest
               else Yield (VVector (map (\<lambda>(lane, t, f). if lane then t else f) (zip lanes (zip true_lanes false_lanes))))
           | _ \<Rightarrow> Reject InvalidRequest)
      | Some (VBoolean chosen_true) \<Rightarrow>
          (case slot slots (if chosen_true then 1 else 2) of
             None \<Rightarrow> Reject InvalidRequest
           | Some selected \<Rightarrow> Yield selected)
      | Some _ \<Rightarrow> Reject InvalidRequest)"


section \<open>Sequences and views\<close>

definition ssa_sequence_construct :: "nat \<Rightarrow> slots \<Rightarrow> ssa_value list \<Rightarrow> ssa_outcome" where
  "ssa_sequence_construct len slots outputs =
     (if outputs = [] then Halt
      else if len \<noteq> length slots then Reject InvalidRequest
      else case collect_options slots of None \<Rightarrow> Reject InvalidRequest | Some vs \<Rightarrow> Yield (VSequence vs))"

definition ssa_sequence_project :: "bounds_evidence \<Rightarrow> slots \<Rightarrow> ssa_outcome" where
  "ssa_sequence_project evidence slots =
     (case ssa_sequence_operand slots 0 of
        None \<Rightarrow> Reject InvalidRequest
      | Some vs \<Rightarrow>
          (case ssa_integer_operand slots 1 of
             None \<Rightarrow> Reject InvalidRequest
           | Some index \<Rightarrow>
               if index < 0 then Reject InvalidRequest
               else if int (length vs) \<le> index then ssa_lane_failure evidence
               else Yield (vs ! nat index)))"

definition ssa_sequence_replace :: "sequence_bound \<Rightarrow> slots \<Rightarrow> ssa_outcome" where
  "ssa_sequence_replace bound slots =
     (case bound of
        Exact len \<Rightarrow>
          (case ssa_sequence_operand slots 0 of
             None \<Rightarrow> Reject InvalidRequest
           | Some source \<Rightarrow>
               (case ssa_integer_operand slots 1 of
                  None \<Rightarrow> Reject InvalidRequest
                | Some index \<Rightarrow>
                    (case slot slots 2 of
                       None \<Rightarrow> Reject InvalidRequest
                     | Some element \<Rightarrow>
                         if index < 0 \<or> int len \<le> index then Reject RuntimeFailure
                         else if nat index < length source then Yield (VSequence (source[nat index := element]))
                         else Abort)))
      | _ \<Rightarrow> Reject Unsupported)"

definition ssa_bound_check :: "slots \<Rightarrow> ssa_outcome" where
  "ssa_bound_check slots =
     (case ssa_sequence_operand slots 0 of
        None \<Rightarrow> Reject InvalidRequest
      | Some vs \<Rightarrow>
          (case ssa_integer_operand slots 1 of
             None \<Rightarrow> Reject InvalidRequest
           | Some index \<Rightarrow>
               if index < 0 \<or> int (length vs) \<le> index then Reject RuntimeFailure else Yield (u64_value index)))"

definition ssa_sequence_copy :: "sequence_bound \<Rightarrow> slots \<Rightarrow> ssa_outcome" where
  "ssa_sequence_copy dst_bound slots =
     (case dst_bound of
        Exact dst_length \<Rightarrow>
          (case (ssa_sequence_operand slots 0, ssa_sequence_operand slots 2) of
             (Some destination, Some source) \<Rightarrow>
               (case (ssa_integer_operand slots 1, ssa_integer_operand slots 3, ssa_integer_operand slots 4) of
                  (Some dst_at, Some src_at, Some len) \<Rightarrow>
                    if \<not> (0 \<le> dst_at \<and> 0 \<le> src_at \<and> 0 \<le> len \<and>
                          dst_at + len \<le> int dst_length \<and> src_at + len \<le> int (length source))
                    then Reject RuntimeFailure
                    else if nat dst_at + nat len \<le> length destination
                    then Yield (VSequence (copy_window destination (nat dst_at) source (nat src_at) (nat len)))
                    else Abort
                | _ \<Rightarrow> Reject InvalidRequest)
           | _ \<Rightarrow> Reject InvalidRequest)
      | _ \<Rightarrow> Reject Unsupported)"

definition ssa_sequence_length :: "slots \<Rightarrow> ssa_outcome" where
  "ssa_sequence_length slots =
     (case ssa_sequence_operand slots 0 of
        None \<Rightarrow> Reject InvalidRequest
      | Some vs \<Rightarrow> Yield (u64_value (int (length vs))))"

definition ssa_view_construct :: "sequence_bound \<Rightarrow> slots \<Rightarrow> ssa_outcome" where
  "ssa_view_construct view_bound slots =
     (case view_bound of
        UpTo capacity \<Rightarrow>
          (case ssa_sequence_operand slots 0 of
             None \<Rightarrow> Reject InvalidRequest
           | Some source \<Rightarrow>
               (case (ssa_integer_operand slots 1, ssa_integer_operand slots 2) of
                  (Some start, Some stop) \<Rightarrow>
                    if start < 0 \<or> stop < 0 \<or> stop < start then Reject RuntimeFailure
                    else if int (length source) < stop then Reject RuntimeFailure
                    else if int capacity < stop - start then Reject RuntimeFailure
                    else Yield (VSequence (take (nat stop - nat start) (drop (nat start) source)))
                | _ \<Rightarrow> Reject InvalidRequest))
      | _ \<Rightarrow> Reject InvalidRequest)"

definition ssa_view_narrow :: "nat \<Rightarrow> slots \<Rightarrow> ssa_outcome" where
  "ssa_view_narrow new_cap slots =
     (case ssa_sequence_operand slots 0 of
        None \<Rightarrow> Reject InvalidRequest
      | Some source \<Rightarrow> if new_cap < length source then Reject RuntimeFailure else Yield (VSequence source))"


section \<open>Nominal values\<close>

text \<open>A record has its fields sorted by name, whatever the order of the operands.\<close>

definition ssa_record_construct :: "semantic_id \<Rightarrow> string list \<Rightarrow> slots \<Rightarrow> ssa_value list \<Rightarrow> ssa_outcome" where
  "ssa_record_construct type_identity field_names slots outputs =
     (case outputs of
        [] \<Rightarrow> Halt
      | out # _ \<Rightarrow>
          if length field_names \<noteq> length slots then Reject InvalidRequest
          else case collect_options (map (\<lambda>(name, v). map_option (Pair name) v) (zip field_names slots)) of
                 None \<Rightarrow> Reject InvalidRequest
               | Some fs \<Rightarrow> Yield (VRecord type_identity (semantic_name (sv_ty out)) (sort_key fst fs)))"

definition ssa_record_project :: "string \<Rightarrow> slots \<Rightarrow> ssa_outcome" where
  "ssa_record_project field slots =
     (case slots of
        [] \<Rightarrow> Halt
      | Some (VRecord _ _ fs) # _ \<Rightarrow> (case map_of fs field of None \<Rightarrow> Reject InvalidRequest | Some v \<Rightarrow> Yield v)
      | _ \<Rightarrow> Reject InvalidRequest)"

definition ssa_finite_construct ::
  "semantic_id \<Rightarrow> semantic_id \<Rightarrow> nat \<Rightarrow> string list \<Rightarrow> slots \<Rightarrow> ssa_value list \<Rightarrow> ssa_outcome" where
  "ssa_finite_construct type_identity variant_identity discriminant payload_fields slots outputs =
     (if outputs = [] then Quiet
      else case collect_options (map (slot slots) [0..<length payload_fields]) of
             None \<Rightarrow> Reject InvalidRequest
           | Some vs \<Rightarrow>
               if length slots \<noteq> length payload_fields then Reject InvalidRequest
               else Yield (VFinite type_identity variant_identity discriminant (zip payload_fields vs)))"

definition ssa_finite_payload_project :: "semantic_id \<Rightarrow> semantic_id \<Rightarrow> nat \<Rightarrow> string \<Rightarrow> slots \<Rightarrow> ssa_outcome" where
  "ssa_finite_payload_project type_identity variant_identity discriminant field slots =
     (case slot slots 0 of
        Some (VFinite actual_type actual_variant actual_discriminant payload) \<Rightarrow>
          if actual_type \<noteq> type_identity \<or> actual_variant \<noteq> variant_identity \<or> actual_discriminant \<noteq> discriminant
          then Reject InvalidRequest
          else (case map_of payload field of None \<Rightarrow> Reject InvalidRequest | Some v \<Rightarrow> Yield v)
      | _ \<Rightarrow> Reject InvalidRequest)"

definition ssa_finite_is_variant :: "program \<Rightarrow> semantic_id \<Rightarrow> semantic_id \<Rightarrow> nat \<Rightarrow> slots \<Rightarrow> ssa_outcome" where
  "ssa_finite_is_variant program type_identity variant_identity discriminant slots =
     (case slot slots 0 of
        Some (VFinite actual_type actual_variant actual_discriminant _) \<Rightarrow>
          if actual_type \<noteq> type_identity \<or>
             \<not> valid_finite_value program actual_type actual_variant actual_discriminant
          then Reject InvalidRequest
          else Yield (VBoolean (actual_variant = variant_identity \<and> actual_discriminant = discriminant))
      | _ \<Rightarrow> Reject InvalidRequest)"


section \<open>One instruction\<close>

fun ssa_pure :: "float_library \<Rightarrow> program \<Rightarrow> ssa_kind \<Rightarrow> slots \<Rightarrow> ssa_value list \<Rightarrow> ssa_outcome" where
  "ssa_pure lib program (SsaConstant v ty) slots outputs = ssa_constant v ty"
| "ssa_pure lib program (SsaRecordConstruct t ns) slots outputs = ssa_record_construct t ns slots outputs"
| "ssa_pure lib program (SsaRecordProject _ field) slots outputs = ssa_record_project field slots"
| "ssa_pure lib program (SsaInteger operator ty intent) slots outputs = ssa_integer operator ty intent slots outputs"
| "ssa_pure lib program (SsaIntegerCompare predicate ty) slots outputs = ssa_integer_compare predicate ty slots"
| "ssa_pure lib program (SsaFloatConstant bits ty) slots outputs = ssa_float_constant bits ty"
| "ssa_pure lib program (SsaFloat operator) slots outputs = ssa_float operator slots"
| "ssa_pure lib program (SsaFloatCompare predicate) slots outputs = ssa_float_compare predicate slots"
| "ssa_pure lib program (SsaFloatIntrinsic f) slots outputs = ssa_float_intrinsic lib f slots"
| "ssa_pure lib program (SsaBooleanOp operator) slots outputs = ssa_boolean_op operator slots"
| "ssa_pure lib program (SsaBooleanCompare predicate) slots outputs = ssa_boolean_compare predicate slots"
| "ssa_pure lib program SsaBooleanNot slots outputs = ssa_boolean_not slots"
| "ssa_pure lib program (SsaByteBitwise operator) slots outputs = ssa_byte_bitwise operator slots"
| "ssa_pure lib program (SsaByteShift operator) slots outputs = ssa_byte_shift operator slots"
| "ssa_pure lib program (SsaByteCompare predicate) slots outputs = ssa_byte_compare predicate slots"
| "ssa_pure lib program (SsaConvert source target) slots outputs = ssa_convert source target slots"
| "ssa_pure lib program (SsaSequenceConstruct _ len) slots outputs = ssa_sequence_construct len slots outputs"
| "ssa_pure lib program (SsaVectorConstruct _ lanes) slots outputs = ssa_vector_construct lanes slots outputs"
| "ssa_pure lib program (SsaVectorSplat _ lanes) slots outputs = ssa_vector_splat lanes slots outputs"
| "ssa_pure lib program (SsaVectorExtract _ lanes evidence) slots outputs = ssa_vector_extract lanes evidence slots outputs"
| "ssa_pure lib program (SsaVectorReplace _ lanes evidence) slots outputs = ssa_vector_replace lanes evidence slots"
| "ssa_pure lib program (SsaVectorBinary operator ty _ intent) slots outputs = ssa_vector_binary operator ty intent slots"
| "ssa_pure lib program (SsaVectorCompare predicate ty _) slots outputs = ssa_vector_compare predicate ty slots"
| "ssa_pure lib program (SsaMaskBinary operator _) slots outputs = ssa_mask_binary operator slots"
| "ssa_pure lib program (SsaMaskNot _) slots outputs = ssa_mask_not slots"
| "ssa_pure lib program (SsaMaskReduce operator _) slots outputs = ssa_mask_reduce operator slots"
| "ssa_pure lib program (SsaVectorReduce operator ty _ intent) slots outputs = ssa_vector_reduce operator ty intent slots"
| "ssa_pure lib program (SsaSequenceProject _ evidence) slots outputs = ssa_sequence_project evidence slots"
| "ssa_pure lib program (SsaSelect _) slots outputs = ssa_select slots"
| "ssa_pure lib program (SsaSequenceReplace _ bound _) slots outputs = ssa_sequence_replace bound slots"
| "ssa_pure lib program (SsaBoundCheck _) slots outputs = ssa_bound_check slots"
| "ssa_pure lib program (SsaSequenceCopy _ dst_bound _ _) slots outputs = ssa_sequence_copy dst_bound slots"
| "ssa_pure lib program (SsaSequenceLength _) slots outputs = ssa_sequence_length slots"
| "ssa_pure lib program (SsaViewConstruct _ view_bound) slots outputs = ssa_view_construct view_bound slots"
| "ssa_pure lib program (SsaViewNarrow _ new_cap) slots outputs = ssa_view_narrow new_cap slots"
| "ssa_pure lib program (SsaFiniteConstruct t var d fs) slots outputs = ssa_finite_construct t var d fs slots outputs"
| "ssa_pure lib program (SsaFinitePayloadProject t var d field) slots outputs = ssa_finite_payload_project t var d field slots"
| "ssa_pure lib program (SsaFiniteIsVariant t var d) slots outputs = ssa_finite_is_variant program t var d slots"
| "ssa_pure lib program (SsaRuntimeCheck _ _ _) slots outputs = Reject Unsupported"
| "ssa_pure lib program (SsaCall _ _) slots outputs = Quiet"
| "ssa_pure lib program SsaEffect slots outputs = Quiet"

end
