(* ===== verification/Ssa_Value.thy ===== *)
theory Ssa_Value
  imports Body_Sound
begin

text \<open>
  Values at the entry of an SSA function, from \<open>crates/mncs-model/src/ssa_execution.rs\<close>: its own
  \<open>value_matches_type\<close> and \<open>normalize_value\<close>.  They differ from those of the body interpreter: a
  declaration that is not found accepts every value, a record also matches an unresolved name, and
  the normal form has the fields in the declared order.

  On values in canonical form the two agree, and both leave the value as it is.
\<close>

section \<open>Matching\<close>

definition ssa_record_fields_match ::
  "program \<Rightarrow> semantic_id \<Rightarrow> (string \<times> (body_type \<Rightarrow> bool)) list \<Rightarrow> bool" where
  "ssa_record_fields_match program identity received =
     (case find_record_decl program identity of
        None \<Rightarrow> True
      | Some dcl \<Rightarrow>
          fields_match program (''record '' @ rt_name dcl) (rt_fields dcl)
            (or_default (declaring_module (rt_identity dcl))) received)"

definition ssa_finite_payload_matches ::
  "program \<Rightarrow> semantic_id \<Rightarrow> semantic_id \<Rightarrow> (string \<times> (body_type \<Rightarrow> bool)) list \<Rightarrow> bool" where
  "ssa_finite_payload_matches program type_identity variant_identity received =
     (case do { ft \<leftarrow> find_finite program type_identity; var \<leftarrow> find_variant ft variant_identity; Some (ft, var) } of
        None \<Rightarrow> True
      | Some (ft, var) \<Rightarrow>
          fields_match program (''finite payload '' @ variant_identity) (fv_payload var)
            (or_default (declaring_module (ft_identity ft))) received)"

fun ssa_matches :: "program \<Rightarrow> execution_value \<Rightarrow> body_type \<Rightarrow> bool" where
  "ssa_matches program (VInteger v actual) ty =
     (case ty of TInteger expected \<Rightarrow> actual = expected \<and> in_range v expected | _ \<Rightarrow> False)"
| "ssa_matches program (VBoolean _) ty =
     (case ty of
        TBool \<Rightarrow> True
      | TNamed name \<Rightarrow> name = ''bool''
      | TInteger integer \<Rightarrow> ty_bits integer = 1 \<and> \<not> ty_signed integer
      | _ \<Rightarrow> False)"
| "ssa_matches program (VFinite type_identity variant_identity discriminant payload) ty =
     (case ty of
        TFinite identity name \<Rightarrow>
          nominal_identity_matches identity name type_identity \<and>
          ssa_finite_payload_matches program identity variant_identity
            (map (\<lambda>(n, v). (n, ssa_matches program v)) payload)
      | _ \<Rightarrow> False)"
| "ssa_matches program (VRecord type_identity shown fs) ty =
     (case ty of
        TRecord identity name \<Rightarrow>
          nominal_identity_matches identity name type_identity \<and>
          ssa_record_fields_match program identity (map (\<lambda>(n, v). (n, ssa_matches program v)) fs)
      | TNamed name \<Rightarrow>
          shown = name \<and>
          (case find (\<lambda>rt. rt_name rt = name) (pg_record_types program) of
             Some dcl \<Rightarrow>
               ssa_record_fields_match program (rt_identity dcl) (map (\<lambda>(n, v). (n, ssa_matches program v)) fs)
           | None \<Rightarrow> True)
      | _ \<Rightarrow> False)"
| "ssa_matches program (VByte v) ty = (case ty of TByte \<Rightarrow> byte_domain v | _ \<Rightarrow> False)"
| "ssa_matches program (VSequence vs) ty =
     (case ty of
        TSequence element (Exact len) \<Rightarrow> length vs = len \<and> list_all (\<lambda>v. ssa_matches program v element) vs
      | TSequence element (UpTo capacity) \<Rightarrow> length vs \<le> capacity \<and> list_all (\<lambda>v. ssa_matches program v element) vs
      | _ \<Rightarrow> False)"
| "ssa_matches program (VVector vs) ty =
     (case ty of
        TVector element lanes \<Rightarrow> length vs = lanes \<and> list_all (\<lambda>v. ssa_matches program v element) vs
      | _ \<Rightarrow> False)"
| "ssa_matches program (VMask bits) ty = (case ty of TMask lanes \<Rightarrow> length bits = lanes | _ \<Rightarrow> False)"
| "ssa_matches program (VFloat _ actual) ty = (case ty of TFloat expected \<Rightarrow> actual = expected | _ \<Rightarrow> False)"


section \<open>Normal form\<close>

text \<open>The fields in declared order, each with the normal form of its value for the type the field has;
  a field whose type stays unresolved keeps its value.\<close>

definition ssa_order_fields ::
  "program \<Rightarrow> string \<Rightarrow> record_field list \<Rightarrow> string \<Rightarrow>
   (string \<times> execution_value \<times> (body_type \<Rightarrow> execution_value option)) list \<Rightarrow> (string \<times> execution_value) list option" where
  "ssa_order_fields program ctxt declared module received =
     (case order_fields_by_name ctxt (map rf_name declared) received of
        Inl _ \<Rightarrow> None
      | Inr order \<Rightarrow>
          collect_options (map (\<lambda>(field, index).
              map_option (Pair (rf_name field))
                (case from_program_in_module program (rf_type field) module of
                   TNamed _ \<Rightarrow> Some (fst (snd (received ! index)))
                 | ty \<Rightarrow> snd (snd (received ! index)) ty))
            (zip declared order)))"

definition ssa_normalize_record_fields ::
  "program \<Rightarrow> semantic_id \<Rightarrow> (string \<times> execution_value \<times> (body_type \<Rightarrow> execution_value option)) list \<Rightarrow>
   (string \<times> execution_value) list option" where
  "ssa_normalize_record_fields program identity received =
     (case find (\<lambda>rt. rt_identity rt = identity) (pg_record_types program) of
        None \<Rightarrow> Some (map (\<lambda>(n, v, _). (n, v)) received)
      | Some dcl \<Rightarrow>
          ssa_order_fields program (''record '' @ rt_name dcl) (rt_fields dcl)
            (or_default (declaring_module (rt_identity dcl))) received)"

definition ssa_normalize_finite_payload ::
  "program \<Rightarrow> semantic_id \<Rightarrow> semantic_id \<Rightarrow> (string \<times> execution_value \<times> (body_type \<Rightarrow> execution_value option)) list \<Rightarrow>
   (string \<times> execution_value) list option" where
  "ssa_normalize_finite_payload program type_identity variant_identity received =
     (case do { ft \<leftarrow> find (\<lambda>ft. ft_identity ft = type_identity) (pg_finite_types program);
                var \<leftarrow> find (\<lambda>var. fv_identity var = variant_identity) (ft_variants ft); Some (ft, var) } of
        None \<Rightarrow> Some (map (\<lambda>(n, v, _). (n, v)) received)
      | Some (ft, var) \<Rightarrow>
          ssa_order_fields program (''finite payload '' @ variant_identity) (fv_payload var)
            (or_default (declaring_module (ft_identity ft))) received)"

fun ssa_normalize :: "program \<Rightarrow> execution_value \<Rightarrow> body_type \<Rightarrow> execution_value option" where
  "ssa_normalize program (VInteger v actual) ty =
     (case ty of
        TInteger expected \<Rightarrow>
          if actual = expected \<and> in_range v expected
          then if ty_bits expected = 1 \<and> \<not> ty_signed expected then Some (VBoolean (v = 1))
               else Some (VInteger v actual)
          else None
      | _ \<Rightarrow> None)"
| "ssa_normalize program (VBoolean b) ty =
     (case ty of
        TBool \<Rightarrow> Some (VBoolean b)
      | TNamed name \<Rightarrow> if name = ''bool'' then Some (VBoolean b) else None
      | TInteger integer \<Rightarrow> if ty_bits integer = 1 \<and> \<not> ty_signed integer then Some (VBoolean b) else None
      | _ \<Rightarrow> None)"
| "ssa_normalize program (VFinite type_identity variant_identity discriminant payload) ty =
     (case ty of
        TFinite identity _ \<Rightarrow>
          if type_identity = identity
          then map_option (VFinite type_identity variant_identity discriminant)
                 (ssa_normalize_finite_payload program type_identity variant_identity
                   (map (\<lambda>(n, v). (n, v, ssa_normalize program v)) payload))
          else None
      | _ \<Rightarrow> None)"
| "ssa_normalize program (VRecord type_identity shown fs) ty =
     (case ty of
        TRecord identity _ \<Rightarrow>
          if type_identity = identity
          then map_option (VRecord type_identity shown)
                 (ssa_normalize_record_fields program type_identity
                   (map (\<lambda>(n, v). (n, v, ssa_normalize program v)) fs))
          else None
      | TNamed name \<Rightarrow> if shown = name then Some (VRecord type_identity shown fs) else None
      | _ \<Rightarrow> None)"
| "ssa_normalize program (VByte v) ty = (case ty of TByte \<Rightarrow> if byte_domain v then Some (VByte v) else None | _ \<Rightarrow> None)"
| "ssa_normalize program (VFloat bits actual) ty =
     (case ty of TFloat expected \<Rightarrow> if actual = expected then Some (VFloat bits actual) else None | _ \<Rightarrow> None)"
| "ssa_normalize program (VSequence vs) ty =
     (case ty of
        TSequence element (Exact len) \<Rightarrow>
          if length vs = len
          then map_option VSequence (collect_options (map (\<lambda>v. ssa_normalize program v element) vs)) else None
      | TSequence element (UpTo capacity) \<Rightarrow>
          if length vs \<le> capacity
          then map_option VSequence (collect_options (map (\<lambda>v. ssa_normalize program v element) vs)) else None
      | _ \<Rightarrow> None)"
| "ssa_normalize program (VVector vs) ty =
     (case ty of
        TVector element lanes \<Rightarrow>
          if length vs = lanes
          then map_option VVector (collect_options (map (\<lambda>v. ssa_normalize program v element) vs)) else None
      | _ \<Rightarrow> None)"
| "ssa_normalize program (VMask bits) ty =
     (case ty of TMask lanes \<Rightarrow> if length bits = lanes then Some (VMask bits) else None | _ \<Rightarrow> None)"

text \<open>\<open>normalize_value_owned\<close>: an argument of a nested call keeps the order of its own fields.\<close>

definition ssa_normalize_owned :: "program \<Rightarrow> execution_value \<Rightarrow> body_type \<Rightarrow> execution_value option" where
  "ssa_normalize_owned program v ty =
     (case (v, ty) of
        (VFinite type_identity _ _ _, TFinite identity _) \<Rightarrow>
          if type_identity = identity then Some v else ssa_normalize program v ty
      | (VRecord type_identity _ _, TRecord identity _) \<Rightarrow>
          if type_identity = identity then Some v else ssa_normalize program v ty
      | (VRecord _ shown _, TNamed name) \<Rightarrow> if shown = name then Some v else ssa_normalize program v ty
      | _ \<Rightarrow> ssa_normalize program v ty)"

text \<open>The type of an input, its unresolved names looked up in the program.\<close>

fun ssa_input_type :: "program \<Rightarrow> body_type \<Rightarrow> body_type" where
  "ssa_input_type program (TNamed name) = from_program program name"
| "ssa_input_type program (TSequence element bound) = TSequence (ssa_input_type program element) bound"
| "ssa_input_type program (TVector element lanes) = TVector (ssa_input_type program element) lanes"
| "ssa_input_type program ty = ty"


section \<open>Canonical values\<close>

text \<open>Nominal values by identity, fields sorted by name, and no one-bit integer where a boolean can
  stand.\<close>

fun canonical_value :: "program \<Rightarrow> execution_value \<Rightarrow> bool" where
  "canonical_value program (VInteger _ ty) \<longleftrightarrow> \<not> (ty_bits ty = 1 \<and> \<not> ty_signed ty)"
| "canonical_value program (VFinite type_identity variant_identity _ payload) \<longleftrightarrow>
     list_ex (\<lambda>ft. ft_identity ft = type_identity \<and> list_ex (\<lambda>var. fv_identity var = variant_identity) (ft_variants ft))
       (pg_finite_types program) \<and>
     sorted (map fst payload) \<and> list_all (\<lambda>(_, v). canonical_value program v) payload"
| "canonical_value program (VRecord type_identity _ fs) \<longleftrightarrow>
     list_ex (\<lambda>rt. rt_identity rt = type_identity) (pg_record_types program) \<and>
     sorted (map fst fs) \<and> list_all (\<lambda>(_, v). canonical_value program v) fs"
| "canonical_value program (VSequence vs) \<longleftrightarrow> list_all (canonical_value program) vs"
| "canonical_value program (VVector vs) \<longleftrightarrow> list_all (canonical_value program) vs"
| "canonical_value program _ \<longleftrightarrow> True"

text \<open>A type whose short names are not themselves identities; the declarations of a program that are
  listed in the order of their names and use only such types.\<close>

fun plain_type :: "program \<Rightarrow> body_type \<Rightarrow> bool" where
  "plain_type program (TFinite identity name) \<longleftrightarrow> name = identity \<or> \<not> list_ex (\<lambda>ft. ft_identity ft = name) (pg_finite_types program)"
| "plain_type program (TRecord identity name) \<longleftrightarrow> name = identity \<or> \<not> list_ex (\<lambda>rt. rt_identity rt = name) (pg_record_types program)"
| "plain_type program (TSequence element _) \<longleftrightarrow> plain_type program element"
| "plain_type program (TVector element _) \<longleftrightarrow> plain_type program element"
| "plain_type program _ \<longleftrightarrow> True"

definition plain_fields :: "program \<Rightarrow> semantic_id \<Rightarrow> record_field list \<Rightarrow> bool" where
  "plain_fields program identity fs \<longleftrightarrow>
     sorted_wrt (<) (map rf_name fs) \<and>
     list_all (\<lambda>field. case field_type_in program (or_default (declaring_module identity)) field of
         None \<Rightarrow> True | Some ty \<Rightarrow> plain_type program ty) fs"

definition plain_declarations :: "program \<Rightarrow> bool" where
  "plain_declarations program \<longleftrightarrow>
     list_all (\<lambda>rt. plain_fields program (rt_identity rt) (rt_fields rt)) (pg_record_types program) \<and>
     list_all (\<lambda>ft. list_all (\<lambda>var. plain_fields program (ft_identity ft) (fv_payload var)) (ft_variants ft))
       (pg_finite_types program)"

text \<open>Fields in the declared order stay where they are.\<close>

lemma sorted_names_equal:
  assumes "sorted xs" "distinct xs" "sorted_wrt (<) ys" "set xs = set (ys :: string list)"
  shows "xs = ys"
  using assms by (intro sorted_distinct_set_unique) (simp_all add: strict_sorted_iff)

lemma ssa_order_fields_same:
  assumes plain: "plain_fields program identity declared" and sorted: "sorted (map fst fs)"
    and distinct: "distinct (map fst fs)" and names: "fst ` set fs = rf_name ` set declared"
    and normal: "\<And>field v ty. field \<in> set declared \<Longrightarrow> map_of fs (rf_name field) = Some v \<Longrightarrow>
      field_type_in program (or_default (declaring_module identity)) field = Some ty \<Longrightarrow> nf v ty = Some v"
  shows "ssa_order_fields program ctxt declared (or_default (declaring_module identity))
    (map (\<lambda>(n, v). (n, v, nf v)) fs) = Some fs"
proof -
  let ?received = "map (\<lambda>(n, v). (n, v, nf v)) fs"
  have fst_received: "map fst ?received = map fst fs" by (induction fs) auto
  have same: "map fst fs = map rf_name declared"
    by (rule sorted_names_equal [OF sorted distinct]) (use plain names in \<open>simp_all add: plain_fields_def\<close>)
  then have len: "length fs = length declared" by (metis length_map)
  obtain order where order: "order_fields_by_name ctxt (map rf_name declared) ?received = Inr order"
    using order_accepts [of ?received "map rf_name declared"] fst_received distinct same by fastforce
  note acc = order_accepted [OF order]
  have at: "order ! k = k" if k: "k < length declared" for k
  proof -
    have less: "order ! k < length fs" using acc(4) [of k] k by simp
    have "map fst fs ! (order ! k) = map rf_name declared ! k"
      using acc(4) [of k] k less by (simp add: case_prod_unfold)
    with same distinct k len less show ?thesis
      by (metis length_map nth_eq_iff_index_eq)
  qed
  have field: "map_option (Pair (rf_name (declared ! k)))
      (case from_program_in_module program (rf_type (declared ! k)) (or_default (declaring_module identity)) of
         TNamed _ \<Rightarrow> Some (fst (snd (?received ! k))) | ty \<Rightarrow> snd (snd (?received ! k)) ty) = Some (fs ! k)"
    if k: "k < length declared" for k
  proof -
    obtain n v where nv: "fs ! k = (n, v)" by (metis surj_pair)
    have name: "n = rf_name (declared ! k)" using arg_cong [OF same, of "\<lambda>xs. xs ! k"] k len nv by simp
    have "map_of fs n = Some v" using distinct nv k len by (metis map_of_eq_Some_iff nth_mem)
    with name normal [of "declared ! k" v] k show ?thesis
      using nv len by (auto simp: field_type_in_def split: body_type.splits)
  qed
  have "collect_options (map (\<lambda>(field, index).
      map_option (Pair (rf_name field))
        (case from_program_in_module program (rf_type field) (or_default (declaring_module identity)) of
           TNamed _ \<Rightarrow> Some (fst (snd (?received ! index))) | ty \<Rightarrow> snd (snd (?received ! index)) ty))
      (zip declared order)) = Some fs"
    unfolding collect_options_Some
    by (rule nth_equalityI) (use acc(3) len at field in simp_all)
  then show ?thesis by (simp add: ssa_order_fields_def order)
qed
text \<open>The declaration of a canonical value is the one every lookup finds.\<close>

lemma find_by_identity:
  assumes "x \<in> set xs" "\<And>y. y \<in> set xs \<Longrightarrow> key y = key x \<Longrightarrow> y = x"
  shows "find (\<lambda>y. key y = key x) xs = Some x"
  using assms by (induction xs) auto

lemma canonical_record:
  assumes "nominals_ok program" "plain_declarations program" "canonical_value program (VRecord identity shown fs)"
  obtains rt where "rt_identity rt = identity" "find_record_decl program identity = Some rt"
    and "find (\<lambda>rt. rt_identity rt = identity) (pg_record_types program) = Some rt"
    and "plain_fields program identity (rt_fields rt)"
proof -
  from assms(3) obtain rt where rt: "rt \<in> set (pg_record_types program)" "rt_identity rt = identity"
    by (auto simp: list_ex_iff)
  have "y = rt" if "y \<in> set (pg_record_types program)" "rt_identity y = rt_identity rt" for y
    using conjunct1 [OF nominals_okD(3) [OF assms(1) that(1)]] conjunct1 [OF nominals_okD(3) [OF assms(1) rt(1)]] that(2)
    by (metis option.inject)
  with find_by_identity [of rt "pg_record_types program" rt_identity] rt
  have "find (\<lambda>rt. rt_identity rt = identity) (pg_record_types program) = Some rt" by blast
  moreover have "plain_fields program identity (rt_fields rt)"
    using assms(2) rt by (auto simp: plain_declarations_def list_all_iff)
  moreover have "find_record_decl program identity = Some rt" using nominals_okD(3) [OF assms(1) rt(1)] rt(2) by simp
  ultimately show thesis using rt(2) by (intro that)
qed

lemma canonical_finite:
  assumes "nominals_ok program" "plain_declarations program" "canonical_value program (VFinite identity variant d payload)"
  obtains ft var where "ft_identity ft = identity" "find_finite program identity = Some ft"
    and "find (\<lambda>ft. ft_identity ft = identity) (pg_finite_types program) = Some ft"
    and "find_variant ft variant = Some var" "find (\<lambda>var. fv_identity var = variant) (ft_variants ft) = Some var"
    and "plain_fields program identity (fv_payload var)"
proof -
  from assms(3) obtain ft var where ft: "ft \<in> set (pg_finite_types program)" "ft_identity ft = identity"
    and var: "var \<in> set (ft_variants ft)" "fv_identity var = variant"
    by (auto simp: list_ex_iff)
  have "y = ft" if "y \<in> set (pg_finite_types program)" "ft_identity y = ft_identity ft" for y
    using conjunct1 [OF nominals_okD(1) [OF assms(1) that(1)]] conjunct1 [OF nominals_okD(1) [OF assms(1) ft(1)]] that(2)
    by (metis option.inject)
  with find_by_identity [of ft "pg_finite_types program" ft_identity] ft
  have found: "find (\<lambda>ft. ft_identity ft = identity) (pg_finite_types program) = Some ft" by blast
  have "y = var" if "y \<in> set (ft_variants ft)" "fv_identity y = fv_identity var" for y
    using nominals_okD(2) [OF assms(1) ft(1) that(1)] nominals_okD(2) [OF assms(1) ft(1) var(1)] that(2)
    by (metis option.inject)
  with find_by_identity [of var "ft_variants ft" fv_identity] var
  have "find (\<lambda>var. fv_identity var = variant) (ft_variants ft) = Some var" by blast
  moreover have "plain_fields program identity (fv_payload var)"
    using assms(2) ft var by (auto simp: plain_declarations_def list_all_iff)
  moreover have "find_finite program identity = Some ft" using nominals_okD(1) [OF assms(1) ft(1)] ft(2) by simp
  moreover have "find_variant ft variant = Some var" using nominals_okD(2) [OF assms(1) ft(1) var(1)] var(2) by simp
  ultimately show thesis using ft(2) found by (intro that)
qed

text \<open>What both interpreters make of a value that is canonical and of the type.\<close>

definition stays_normal :: "program \<Rightarrow> execution_value \<Rightarrow> body_type \<Rightarrow> bool" where
  "stays_normal program v ty \<longleftrightarrow>
     normalize_value program v ty = Some v \<and> ssa_matches program v ty \<and> ssa_normalize program v ty = Some v"

lemma collect_options_same: "(\<And>v. v \<in> set vs \<Longrightarrow> f v = Some v) \<Longrightarrow> collect_options (map f vs) = Some vs"
  by (simp add: collect_options_Some)

lemma ssa_fields_match:
  assumes "fields_match program ctxt declared module (checks program fs)"
    and "\<And>field v ty. field \<in> set declared \<Longrightarrow> map_of fs (rf_name field) = Some v \<Longrightarrow>
      field_type_in program module field = Some ty \<Longrightarrow> value_matches_type program v ty \<Longrightarrow> ssa_matches program v ty"
  shows "fields_match program ctxt declared module (map (\<lambda>(n, v). (n, ssa_matches program v)) fs)"
proof -
  have names: "map fst (map (\<lambda>(n, v). (n, ssa_matches program v)) fs) = map fst fs" by (induction fs) auto
  have lookup: "map_of (map (\<lambda>(n, v). (n, ssa_matches program v)) fs) n = map_option (ssa_matches program) (map_of fs n)" for n
    by (induction fs) auto
  show ?thesis
    unfolding fields_match_iff names lookup
  proof (intro conjI ballI)
    from assms(1) show "distinct (map fst fs)" "set (map fst fs) = rf_name ` set declared"
      by (simp_all add: fields_match_checks)
    fix field assume field: "field \<in> set declared"
    with assms(1) obtain v ty where "map_of fs (rf_name field) = Some v"
      "field_type_in program module field = Some ty" "value_matches_type program v ty"
      unfolding fields_match_checks by blast
    with assms(2) [OF field] show "\<exists>matches. map_option (ssa_matches program) (map_of fs (rf_name field)) = Some matches \<and>
        (\<exists>ty. field_type_in program module field = Some ty \<and> matches ty)" by auto
  qed
qed

lemma aggregate_normal:
  assumes plain: "plain_fields program identity declared" and sorted: "sorted (map fst fs)"
    and matches: "fields_match program ctxt declared (or_default (declaring_module identity)) (checks program fs)"
    and parts: "\<And>n v ty. (n, v) \<in> set fs \<Longrightarrow> plain_type program ty \<Longrightarrow> value_matches_type program v ty \<Longrightarrow> stays_normal program v ty"
  shows "fields_match program ctxt declared (or_default (declaring_module identity)) (map (\<lambda>(n, v). (n, ssa_matches program v)) fs)"
    and "ssa_order_fields program ctxt declared (or_default (declaring_module identity))
      (map (\<lambda>(n, v). (n, v, ssa_normalize program v)) fs) = Some fs"
proof -
  have part: "stays_normal program v ty"
    if "field \<in> set declared" "map_of fs (rf_name field) = Some v"
      "field_type_in program (or_default (declaring_module identity)) field = Some ty" "value_matches_type program v ty"
    for field v ty
    using that plain parts [OF map_of_SomeD [OF that(2)], of ty] by (fastforce simp: plain_fields_def list_all_iff)
  show "fields_match program ctxt declared (or_default (declaring_module identity)) (map (\<lambda>(n, v). (n, ssa_matches program v)) fs)"
    by (rule ssa_fields_match [OF matches]) (use part in \<open>auto simp: stays_normal_def\<close>)
  from matches have fs: "distinct (map fst fs)" "fst ` set fs = rf_name ` set declared"
    "\<And>field. field \<in> set declared \<Longrightarrow> \<exists>v ty. map_of fs (rf_name field) = Some v \<and>
      field_type_in program (or_default (declaring_module identity)) field = Some ty \<and> value_matches_type program v ty"
    by (auto simp: fields_match_checks)
  show "ssa_order_fields program ctxt declared (or_default (declaring_module identity))
      (map (\<lambda>(n, v). (n, v, ssa_normalize program v)) fs) = Some fs"
  proof (rule ssa_order_fields_same [OF plain sorted fs(1,2)])
    fix field v ty
    assume field: "field \<in> set declared" "map_of fs (rf_name field) = Some v"
      "field_type_in program (or_default (declaring_module identity)) field = Some ty"
    with fs(3) [OF field(1)] part [OF field] show "ssa_normalize program v ty = Some v" by (auto simp: stays_normal_def)
  qed
qed

lemma canonical_stays_normal:
  assumes nominal: "nominals_ok program" and plain: "plain_declarations program"
  shows "canonical_value program v \<Longrightarrow> plain_type program ty \<Longrightarrow> value_matches_type program v ty \<Longrightarrow> stays_normal program v ty"
proof (induction v arbitrary: ty)
  case (VFinite identity variant d payload)
  from VFinite.prems(3) obtain i shown where ty0: "ty = TFinite i shown" by (cases ty) (simp_all add: value_matches_type.simps)
  have "list_ex (\<lambda>ft. ft_identity ft = identity) (pg_finite_types program)"
    using VFinite.prems(1) by (auto simp: list_ex_iff)
  with VFinite.prems(2,3) ty0 have ty: "ty = TFinite identity shown" by (auto simp: nominal_identity_matches_def value_matches_type.simps)
  from VFinite.prems(1) obtain ft var where decl: "ft_identity ft = identity" "find_finite program identity = Some ft"
    "find (\<lambda>ft. ft_identity ft = identity) (pg_finite_types program) = Some ft"
    "find_variant ft variant = Some var" "find (\<lambda>var. fv_identity var = variant) (ft_variants ft) = Some var"
    and fields: "plain_fields program identity (fv_payload var)"
    by (rule canonical_finite [OF nominal plain])
  have matches: "fields_match program (''finite payload '' @ variant) (fv_payload var)
      (or_default (declaring_module identity)) (checks program payload)"
    using VFinite.prems(3) decl by (simp add: ty value_matches_type.simps finite_payload_matches_def)
  have parts: "stays_normal program v ty"
    if "(n, v) \<in> set payload" "plain_type program ty" "value_matches_type program v ty" for n v ty
    using VFinite.IH [OF that(1) _ _ that(2,3)] that(1) VFinite.prems(1) by (fastforce simp: list_all_iff snds.simps)
  note agg = aggregate_normal [OF fields _ matches parts]
  show ?case
    using VFinite.prems(1,3) agg decl
    by (simp add: ty value_matches_type.simps stays_normal_def ssa_finite_payload_matches_def ssa_normalize_finite_payload_def)
next
  case (VRecord identity shown fs)
  from VRecord.prems(3) obtain i name where ty0: "ty = TRecord i name" by (cases ty) (simp_all add: value_matches_type.simps)
  with VRecord.prems have ty: "ty = TRecord identity name" by (auto simp: nominal_identity_matches_def value_matches_type.simps)
  from VRecord.prems(1) obtain rt where decl: "rt_identity rt = identity" "find_record_decl program identity = Some rt"
    "find (\<lambda>rt. rt_identity rt = identity) (pg_record_types program) = Some rt"
    and fields: "plain_fields program identity (rt_fields rt)"
    by (rule canonical_record [OF nominal plain])
  have matches: "fields_match program (''record '' @ rt_name rt) (rt_fields rt)
      (or_default (declaring_module identity)) (checks program fs)"
    using VRecord.prems(3) decl by (simp add: ty value_matches_type.simps record_fields_match_def)
  have parts: "stays_normal program v ty"
    if "(n, v) \<in> set fs" "plain_type program ty" "value_matches_type program v ty" for n v ty
    using VRecord.IH [OF that(1) _ _ that(2,3)] that(1) VRecord.prems(1) by (fastforce simp: list_all_iff snds.simps)
  note agg = aggregate_normal [OF fields _ matches parts]
  show ?case
    using VRecord.prems(1,3) agg decl
    by (simp add: ty value_matches_type.simps stays_normal_def ssa_record_fields_match_def ssa_normalize_record_fields_def)
next
  case (VSequence vs)
  then obtain element bound where ty: "ty = TSequence element bound" by (cases ty) (auto simp: value_matches_type.simps)
  have parts: "stays_normal program v element" if "v \<in> set vs" for v
    using that VSequence by (auto simp: ty value_matches_type.simps list_all_iff split: sequence_bound.splits)
  then show ?case
    using VSequence.prems(3)
    by (auto simp: ty value_matches_type.simps stays_normal_def list_all_iff collect_options_same split: sequence_bound.splits)
next
  case (VVector vs)
  then obtain element lanes where ty: "ty = TVector element lanes" by (cases ty) (auto simp: value_matches_type.simps)
  have parts: "stays_normal program v element" if "v \<in> set vs" for v
    using that VVector by (auto simp: ty value_matches_type.simps list_all_iff)
  then show ?case
    using VVector.prems(3) by (auto simp: ty value_matches_type.simps stays_normal_def list_all_iff collect_options_same)
qed (auto simp: stays_normal_def value_matches_type.simps split: body_type.splits)

end
