(* ===== verification/Ssa_Exec.thy ===== *)
theory Ssa_Exec
  imports Ssa_Ops Ssa_Value Interp
begin

text \<open>
  The SSA interpreter of \<open>crates/mncs-model/src/ssa_execution.rs\<close>: blocks of instructions over a
  store keyed by semantic identity, one step per instruction and per terminator, counted in one
  result that nested calls share.  A value in the store carries a mark that says whether it passed
  the check of its type; an argument with the mark is not checked again at a call.

  A slot of the prepared function stands for an identity, and every identity an instruction
  stores has one, so the store is a map from identities.  A slot that is not there reads as nothing.
  Host calls, providers, traces, profiles and the cached identities are left out.
\<close>

section \<open>The machine\<close>

type_synonym ssa_env = "semantic_id \<rightharpoonup> execution_value \<times> bool"

text \<open>What stays fixed during a run: program and module, the functions taken from other crates, the
  switch for the reuse of checks, and the request's policy and budgets.\<close>

record ssa_machine =
  mc_lib :: float_library
  mc_sha :: "string \<Rightarrow> string"
  mc_json :: "effect \<Rightarrow> string"
  mc_program :: program
  mc_module :: ssa_module
  mc_reuse :: bool
  mc_record :: bool
  mc_budget :: nat
  mc_depth_limit :: nat

text \<open>The types a prepared function knows; of several for one identity the later counts.\<close>

definition ssa_value_types :: "program \<Rightarrow> ssa_function \<Rightarrow> semantic_id \<rightharpoonup> body_type" where
  "ssa_value_types program f =
     map_of (rev (map (\<lambda>v. (sv_identity v, ssa_input_type program (sv_ty v)))
       (sf_inputs f @ concat (map (\<lambda>b. sb_parameters b @ concat (map si_outputs (sb_instructions b))) (sf_blocks f)))))"

definition ssa_block_map :: "ssa_function \<Rightarrow> semantic_id \<rightharpoonup> ssa_block" where
  "ssa_block_map f = map_of (rev (map (\<lambda>b. (sb_identity b, b)) (sf_blocks f)))"

text \<open>Values for the first output, marked for all outputs once the instruction has succeeded.\<close>

definition ssa_store :: "ssa_value list \<Rightarrow> execution_value \<Rightarrow> ssa_env \<Rightarrow> ssa_env" where
  "ssa_store outputs v vals = (case outputs of [] \<Rightarrow> vals | out # _ \<Rightarrow> vals(sv_identity out \<mapsto> (v, False)))"

definition mark_outputs :: "ssa_value list \<Rightarrow> ssa_env \<Rightarrow> ssa_env" where
  "mark_outputs outputs vals =
     fold (\<lambda>out m. case m (sv_identity out) of None \<Rightarrow> m | Some (v, _) \<Rightarrow> m(sv_identity out \<mapsto> (v, True))) outputs vals"

definition instruction_identity :: "ssa_instruction \<Rightarrow> semantic_id option" where
  "instruction_identity instr = Some (case si_semantic instr of Some i \<Rightarrow> i | None \<Rightarrow> si_identity instr)"


section \<open>Effects\<close>

definition declared_effect :: "(string \<Rightarrow> string) \<Rightarrow> (effect \<Rightarrow> string) \<Rightarrow> program \<Rightarrow> semantic_id \<Rightarrow> effect option" where
  "declared_effect sha json program identity =
     map_option (\<lambda>(_, _, eff). eff)
       (find (\<lambda>(f, occurrence, eff).
           effect_id sha (identity_namespace f (pg_module program)) (fn_name f) (json eff) occurrence = identity)
         (concat (map (\<lambda>f. map (\<lambda>(i, eff). (f, i, eff)) (zip [0..<length (fn_effects f)] (fn_effects f)))
           (pg_functions program))))"

definition ssa_event :: "ssa_machine \<Rightarrow> ssa_instruction \<Rightarrow> semantic_id \<Rightarrow> effect_event" where
  "ssa_event mc instr identity =
     (let found = declared_effect (mc_sha mc) (mc_json mc) (mc_program mc) identity in
      \<lparr>ev_operation = (case instruction_identity instr of Some i \<Rightarrow> i | None \<Rightarrow> identity),
       ev_kind = (case found of Some eff \<Rightarrow> ef_kind eff | None \<Rightarrow> ''effect:'' @ identity),
       ev_target = (case found of Some eff \<Rightarrow> ef_target eff | None \<Rightarrow> identity),
       ev_capability =
         (case found of
            Some eff \<Rightarrow> ef_capability eff
          | None \<Rightarrow> (case si_capability_uses instr of [] \<Rightarrow> [] | use # _ \<Rightarrow> use))\<rparr>)"


section \<open>Instructions\<close>

datatype ssa_step = SsaContinue ssa_env execution_result | SsaStop execution_result | SsaPanic

definition ssa_reject :: "execution_status \<Rightarrow> ssa_instruction \<Rightarrow> execution_result \<Rightarrow> ssa_step" where
  "ssa_reject status instr result = SsaStop (fail_result status (instruction_identity instr) result)"

definition ssa_effect :: "ssa_machine \<Rightarrow> ssa_instruction \<Rightarrow> ssa_env \<Rightarrow> execution_result \<Rightarrow> ssa_step" where
  "ssa_effect mc instr vals result =
     (if \<not> mc_record mc then ssa_reject Unsupported instr result
      else SsaContinue vals (result\<lparr>xr_effects := xr_effects result @ map (ssa_event mc instr) (si_effects instr)\<rparr>))"

text \<open>A nested run takes the callee, its arguments with their marks and the result so far; it gives
  back the result and, when the callee returned, the values.\<close>

type_synonym ssa_callee =
  "ssa_function \<Rightarrow> (execution_value \<times> bool) list \<Rightarrow> execution_result \<Rightarrow>
   (execution_result \<times> execution_value list option) option"

definition arguments_type_match ::
  "program \<Rightarrow> (semantic_id \<rightharpoonup> body_type) \<Rightarrow> semantic_id list \<Rightarrow> ssa_function \<Rightarrow> bool" where
  "arguments_type_match program types arguments callee \<longleftrightarrow>
     length arguments = length (sf_inputs callee) \<and>
     list_all (\<lambda>(argument, input). types argument = Some (ssa_input_type program (sv_ty input)))
       (zip arguments (sf_inputs callee))"

definition ssa_call ::
  "ssa_machine \<Rightarrow> ssa_callee \<Rightarrow> (semantic_id \<rightharpoonup> body_type) \<Rightarrow> ssa_instruction \<Rightarrow> semantic_id \<Rightarrow> ssa_env \<Rightarrow>
   execution_result \<Rightarrow> ssa_step" where
  "ssa_call mc call types instr callee_id vals result =
     (case find (\<lambda>g. sf_semantic g = callee_id) (sm_functions (mc_module mc)) of
        None \<Rightarrow> ssa_reject InvalidRequest instr result
      | Some callee \<Rightarrow>
          if functions_by_identity (mc_program mc) callee_id = None then ssa_reject InvalidRequest instr result
          else
            case collect_options (map vals (si_inputs instr)) of
              None \<Rightarrow> ssa_reject InvalidRequest instr result
            | Some found \<Rightarrow>
                let reusable = mc_reuse mc \<and> arguments_type_match (mc_program mc) types (si_inputs instr) callee;
                    arguments = map (\<lambda>(v, checked). (v, reusable \<and> checked)) found in
                if mc_budget mc - xr_steps result = 0 then ssa_reject BudgetExhausted instr result
                else
                  case call callee arguments result of
                    None \<Rightarrow> SsaPanic
                  | Some (result', None) \<Rightarrow> SsaStop result'
                  | Some (result', Some []) \<Rightarrow> ssa_reject InvalidRequest instr result'
                  | Some (result', Some (v # _)) \<Rightarrow> SsaContinue (ssa_store (si_outputs instr) v vals) result')"

definition execute_instruction ::
  "ssa_machine \<Rightarrow> ssa_callee \<Rightarrow> (semantic_id \<rightharpoonup> body_type) \<Rightarrow> ssa_instruction \<Rightarrow> ssa_env \<Rightarrow> execution_result \<Rightarrow> ssa_step" where
  "execute_instruction mc call types instr vals result =
     (case si_kind instr of
        SsaCall callee_id _ \<Rightarrow> ssa_call mc call types instr callee_id vals result
      | SsaEffect \<Rightarrow> ssa_effect mc instr vals result
      | kind \<Rightarrow>
          (case ssa_pure (mc_lib mc) (mc_program mc) kind (map (\<lambda>i. map_option fst (vals i)) (si_inputs instr)) (si_outputs instr) of
             Yield v \<Rightarrow> SsaContinue (ssa_store (si_outputs instr) v vals) result
           | Quiet \<Rightarrow> SsaContinue vals result
           | Reject status \<Rightarrow> ssa_reject status instr result
           | Halt \<Rightarrow> SsaStop result
           | Abort \<Rightarrow> SsaPanic))"

fun run_instructions ::
  "ssa_machine \<Rightarrow> ssa_callee \<Rightarrow> (semantic_id \<rightharpoonup> body_type) \<Rightarrow> ssa_instruction list \<Rightarrow> ssa_env \<Rightarrow> execution_result \<Rightarrow> ssa_step" where
  "run_instructions mc call types [] vals result = SsaContinue vals result"
| "run_instructions mc call types (instr # instrs) vals result =
     (case consume_step (mc_budget mc) result of
        None \<Rightarrow> ssa_reject BudgetExhausted instr result
      | Some stepped \<Rightarrow>
          (case execute_instruction mc call types instr vals stepped of
             SsaContinue vals' result' \<Rightarrow> run_instructions mc call types instrs (mark_outputs (si_outputs instr) vals') result'
           | SsaStop result' \<Rightarrow> SsaStop result'
           | SsaPanic \<Rightarrow> SsaPanic))"


section \<open>Blocks\<close>

text \<open>A block argument keeps the mark when the types are the same.\<close>

definition ssa_assign_block_arguments ::
  "ssa_machine \<Rightarrow> ssa_function \<Rightarrow> (semantic_id \<rightharpoonup> body_type) \<Rightarrow> semantic_id \<Rightarrow> semantic_id list \<Rightarrow> ssa_env \<Rightarrow> ssa_env option" where
  "ssa_assign_block_arguments mc f types target arguments vals =
     (case ssa_block_map f target of
        None \<Rightarrow> None
      | Some block \<Rightarrow>
          if length (sb_parameters block) \<noteq> length arguments then None
          else
            case collect_options (map (\<lambda>(argument, parameter).
                map_option (\<lambda>(v, checked).
                    (sv_identity parameter, v,
                     mc_reuse mc \<and> types argument \<noteq> None \<and> types argument = types (sv_identity parameter) \<and> checked))
                  (vals argument)) (zip arguments (sb_parameters block))) of
              None \<Rightarrow> None
            | Some incoming \<Rightarrow> Some (vals ++ map_of (rev incoming)))"

datatype ssa_jump = SsaJump semantic_id ssa_env | SsaFinish execution_result "execution_value list option"

definition ssa_exec_terminator ::
  "ssa_machine \<Rightarrow> ssa_function \<Rightarrow> (semantic_id \<rightharpoonup> body_type) \<Rightarrow> ssa_block \<Rightarrow> ssa_env \<Rightarrow> execution_result \<Rightarrow> ssa_jump" where
  "ssa_exec_terminator mc f types block vals result =
     (let refuse = (\<lambda>status. SsaFinish (fail_result status (sb_semantic block) result) None);
          jump_to = (\<lambda>target arguments.
            case ssa_assign_block_arguments mc f types target arguments vals of
              None \<Rightarrow> refuse InvalidRequest
            | Some vals' \<Rightarrow> SsaJump target vals') in
      case sb_terminator block of
        SsaReturn returned \<Rightarrow>
          (case collect_options (map (\<lambda>i. map_option fst (vals i)) returned) of
             None \<Rightarrow> refuse InvalidRequest
           | Some vs \<Rightarrow> SsaFinish result (Some vs))
      | SsaBranch target arguments \<Rightarrow> jump_to target arguments
      | SsaConditionalBranch condition then_target then_arguments else_target else_arguments \<Rightarrow>
          (case Option.bind (vals condition) (\<lambda>(v, _). the_boolean v) of
             None \<Rightarrow> refuse InvalidRequest
           | Some True \<Rightarrow> jump_to then_target then_arguments
           | Some False \<Rightarrow> jump_to else_target else_arguments)
      | SsaFailure _ \<Rightarrow> refuse RuntimeFailure)"

text \<open>The loop of a function; nothing when it panics or never ends.\<close>

partial_function (option) ssa_run_blocks ::
  "ssa_machine \<Rightarrow> ssa_callee \<Rightarrow> ssa_function \<Rightarrow> semantic_id \<Rightarrow> ssa_env \<Rightarrow> execution_result \<Rightarrow>
   (execution_result \<times> execution_value list option) option" where
  "ssa_run_blocks mc call f current vals result =
     (case ssa_block_map f current of
        None \<Rightarrow> Some (fail_result InvalidRequest None result, None)
      | Some block \<Rightarrow>
          (case run_instructions mc call (ssa_value_types (mc_program mc) f) (sb_instructions block) vals result of
             SsaPanic \<Rightarrow> None
           | SsaStop stopped \<Rightarrow> Some (stopped, None)
           | SsaContinue vals' result' \<Rightarrow>
               (case consume_step (mc_budget mc) result' of
                  None \<Rightarrow> Some (fail_result BudgetExhausted (sb_semantic block) result', None)
                | Some stepped \<Rightarrow>
                    (case ssa_exec_terminator mc f (ssa_value_types (mc_program mc) f) block vals' stepped of
                       SsaFinish finished returned \<Rightarrow> Some (finished, returned)
                     | SsaJump target vals'' \<Rightarrow> ssa_run_blocks mc call f target vals'' stepped))))"


section \<open>Functions\<close>

definition finite_argument_ok :: "program \<Rightarrow> execution_value \<Rightarrow> bool" where
  "finite_argument_ok program v =
     (case v of
        VFinite type_identity variant_identity discriminant _ \<Rightarrow>
          valid_finite_value program type_identity variant_identity discriminant
      | _ \<Rightarrow> True)"

text \<open>\<open>owned\<close> says that the arguments come from a call.  A normal form that does not exist ends the run
  without a failure being recorded.\<close>

fun bind_inputs ::
  "program \<Rightarrow> bool \<Rightarrow> ssa_value list \<Rightarrow> (execution_value \<times> bool) list \<Rightarrow> ssa_env \<Rightarrow> execution_result \<Rightarrow>
   execution_result + ssa_env" where
  "bind_inputs program owned (input # inputs) ((v, checked) # arguments) vals result =
     (let ty = ssa_input_type program (sv_ty input) in
      if \<not> checked \<and> \<not> (ssa_matches program v ty \<and> finite_argument_ok program v)
      then Inl (fail_result InvalidRequest (Some (sv_identity input)) result)
      else
        case (if checked then Some v else if owned then ssa_normalize_owned program v ty else ssa_normalize program v ty) of
          None \<Rightarrow> Inl result
        | Some w \<Rightarrow> bind_inputs program owned inputs arguments (vals(sv_identity input \<mapsto> (w, True))) result)"
| "bind_inputs program owned inputs arguments vals result = Inr vals"

definition initialize_inputs ::
  "program \<Rightarrow> ssa_function \<Rightarrow> bool \<Rightarrow> (execution_value \<times> bool) list \<Rightarrow> execution_result \<Rightarrow> execution_result + ssa_env" where
  "initialize_inputs program f owned arguments result =
     (if length (sf_inputs f) \<noteq> length arguments then Inl (fail_result InvalidRequest None result)
      else bind_inputs program owned (sf_inputs f) arguments Map.empty result)"

function execute_prepared ::
  "ssa_machine \<Rightarrow> nat \<Rightarrow> bool \<Rightarrow> ssa_function \<Rightarrow> (execution_value \<times> bool) list \<Rightarrow> execution_result \<Rightarrow>
   (execution_result \<times> execution_value list option) option" where
  "execute_prepared mc depth owned f arguments result =
     (if mc_depth_limit mc < depth then Some (fail_result BudgetExhausted None result, None)
      else
        case initialize_inputs (mc_program mc) f owned arguments result of
          Inl refused \<Rightarrow> Some (refused, None)
        | Inr vals \<Rightarrow>
            (case sf_blocks f of
               [] \<Rightarrow> Some (fail_result InvalidRequest None result, None)
             | entry # _ \<Rightarrow>
                 ssa_run_blocks mc
                   (\<lambda>callee arguments' result'. execute_prepared mc (depth + 1) True callee arguments' result')
                   f (sb_identity entry) vals result))"
  by auto
termination by (relation "measure (\<lambda>(mc, depth, _). mc_depth_limit mc + 1 - depth)") auto

declare execute_prepared.simps [simp del]


section \<open>Requests\<close>

text \<open>The function a request names.  When no function of the program has that name in the module of
  the request, the name is looked up in the program's own module instead.\<close>

definition ssa_target :: "program \<Rightarrow> execution_request \<Rightarrow> semantic_id option" where
  "ssa_target program request =
     (case find_function program (rq_module request) (rq_function request) of
        None \<Rightarrow> Some (function_id (pg_module program) (rq_function request))
      | Some f \<Rightarrow>
          if fn_generic_params f \<noteq> [] then None
          else Some (function_id (identity_namespace f (pg_module program)) (fn_name f)))"

definition prepared_function :: "ssa_module \<Rightarrow> semantic_id \<Rightarrow> ssa_function option" where
  "prepared_function module identity = map_of (rev (map (\<lambda>f. (sf_semantic f, f)) (sm_functions module))) identity"

definition ssa_machine_for ::
  "float_library \<Rightarrow> (string \<Rightarrow> string) \<Rightarrow> (effect \<Rightarrow> string) \<Rightarrow> program \<Rightarrow> ssa_module \<Rightarrow> bool \<Rightarrow> effect_policy \<Rightarrow>
   execution_request \<Rightarrow> ssa_machine" where
  "ssa_machine_for lib sha json program module reuse policy request =
     \<lparr>mc_lib = lib, mc_sha = sha, mc_json = json, mc_program = program, mc_module = module, mc_reuse = reuse,
      mc_record = (policy = PolicyRecord), mc_budget = rq_step_budget request,
      mc_depth_limit = (case rq_call_depth_budget request of None \<Rightarrow> model_max_call_depth | Some d \<Rightarrow> d)\<rparr>"

text \<open>\<open>valid\<close> says that the program and the module validate.\<close>

definition execute_ssa ::
  "float_library \<Rightarrow> (string \<Rightarrow> string) \<Rightarrow> (effect \<Rightarrow> string) \<Rightarrow> program \<Rightarrow> ssa_module \<Rightarrow> bool \<Rightarrow> bool \<Rightarrow> effect_policy \<Rightarrow>
   execution_request \<Rightarrow> execution_result option" where
  "execute_ssa lib sha json program module valid reuse policy request =
     (if \<not> request_admissible program (valid \<and> sm_semantic module = program_id (pg_module program)) request
      then Some invalid
      else
        case Option.bind (ssa_target program request) (prepared_function module) of
          None \<Rightarrow> Some invalid
        | Some f \<Rightarrow>
            map_option (\<lambda>(result, returned).
                case returned of
                  None \<Rightarrow> result
                | Some vs \<Rightarrow> result\<lparr>xr_returned := vs, xr_status := Returned\<rparr>)
              (execute_prepared (ssa_machine_for lib sha json program module reuse policy request) 0 False f
                (map (\<lambda>v. (v, False)) (rq_arguments request)) empty_result))"

end
