(* ===== verification/Ssa_Lowered.thy ===== *)
theory Ssa_Lowered
  imports Ssa_Exec Validated_Flow
begin

text \<open>
  What lowering makes of a validated body: which identity every name gets, and that blocks and
  instructions correspond one to one to those of the body, with the kinds, operands and results of
  the operations.  The one condition lowering needs beyond validation is that a value is listed
  before it is used; an operand that comes too early would be dropped.
\<close>

section \<open>Names and identities\<close>

definition named_ids :: "string \<Rightarrow> string \<Rightarrow> function_body \<Rightarrow> (string \<times> semantic_id) list" where
  "named_ids home name body =
     map (\<lambda>p. (bp_id p, parameter_id home name (bp_id p))) (fb_parameters body) @
     concat (map (\<lambda>b.
         map (\<lambda>p. (bv_id p, value_id home name (bb_id b) ''parameter'' (bv_id p))) (bb_parameters b) @
         concat (map (\<lambda>oper. map (\<lambda>r. (bv_id r, value_id home name (bb_id b) (bo_id oper) (bv_id r))) (bo_results oper))
           (bb_operations b))) (fb_blocks body))"

definition body_ids :: "string \<Rightarrow> string \<Rightarrow> function_body \<Rightarrow> value_ids" where
  "body_ids home name body = map_of (named_ids home name body)"

definition body_names :: "function_body \<Rightarrow> string list" where
  "body_names body = map bp_id (fb_parameters body) @ map bv_id (concat (map block_values (fb_blocks body)))"

lemma names_of_ids: "map fst (named_ids home name body) = body_names body"
  by (simp add: named_ids_def body_names_def block_values_def map_concat comp_def)

lemma body_ids_inject:
  assumes "body_ids home name body x = Some i" "body_ids home name body y = Some i"
  shows "x = y"
proof -
  have "(\<exists>xs. i = make_id IValue ([home, name] @ xs @ [z]))" if "body_ids home name body z = Some i" for z
    using map_of_SomeD [OF that [unfolded body_ids_def]]
    by (auto simp: named_ids_def parameter_id_def value_id_def) (metis append_Cons append_Nil)+
  with assms obtain xs ys where "i = make_id IValue ([home, name] @ xs @ [x])" "i = make_id IValue ([home, name] @ ys @ [y])"
    by metis
  then have "[home, name] @ xs @ [x] = [home, name] @ ys @ [y]" by (simp add: make_id_inject)
  then show ?thesis by (metis last_appendR last_snoc append_is_Nil_conv not_Cons_self2)
qed

text \<open>No name of a validated body is bound twice.\<close>

lemma insert_definitions_distinct:
  "fold (insert_definition code block) vs (codes, m) = ([], m') \<Longrightarrow>
     codes = [] \<and> distinct (map bv_id vs) \<and> dom m \<inter> bv_id ` set vs = {} \<and> dom m' = dom m \<union> bv_id ` set vs"
proof (induction vs arbitrary: codes m)
  case (Cons w vs)
  let ?m = "m(bv_id w \<mapsto> (Some block, bv_ty w))"
  have "insert_definition code block w (codes, m) = (codes @ complain (m (bv_id w) \<noteq> None) code, ?m)"
    by (simp add: insert_definition_def)
  with Cons.prems have "fold (insert_definition code block) vs (codes @ complain (m (bv_id w) \<noteq> None) code, ?m) = ([], m')"
    by simp
  from Cons.IH [OF this] show ?case by (auto simp del: fun_upd_apply)
qed simp

lemma block_definitions_distinct:
  assumes "block_definitions block (codes, m) = ([], m')"
  shows "codes = [] \<and> distinct (map bv_id (block_values block)) \<and> dom m \<inter> bv_id ` set (block_values block) = {} \<and>
    dom m' = dom m \<union> bv_id ` set (block_values block)"
proof -
  define results where "results = concat (map bo_results (bb_operations block))"
  obtain codes1 m1 where first: "fold (insert_definition ''MNB008'' (bb_id block)) (bb_parameters block) (codes, m) = (codes1, m1)"
    by (metis surj_pair)
  with assms have "fold (insert_definition ''MNB011'' (bb_id block)) results (codes1, m1) = ([], m')"
    by (simp add: block_definitions_def results_def)
  note second = insert_definitions_distinct [OF this]
  with first have "fold (insert_definition ''MNB008'' (bb_id block)) (bb_parameters block) (codes, m) = ([], m1)" by simp
  note first' = insert_definitions_distinct [OF this]
  have "block_values block = bb_parameters block @ results" by (simp add: block_values_def results_def)
  with first' second show ?thesis by (auto simp: image_Un)
qed

lemma fold_block_definitions_distinct:
  "fold block_definitions blocks (codes, m) = ([], m') \<Longrightarrow>
     codes = [] \<and> distinct (map bv_id (concat (map block_values blocks))) \<and>
     dom m \<inter> bv_id ` set (concat (map block_values blocks)) = {}"
proof (induction blocks arbitrary: codes m)
  case (Cons block blocks)
  obtain codes1 m1 where first: "block_definitions block (codes, m) = (codes1, m1)" by (metis surj_pair)
  with Cons.prems have "fold block_definitions blocks (codes1, m1) = ([], m')" by simp
  note tail = Cons.IH [OF this]
  with first have "block_definitions block (codes, m) = ([], m1)" by simp
  from block_definitions_distinct [OF this] tail show ?case by auto
qed simp

lemma validated_names_distinct:
  assumes "validate_body digest program f body = Some []"
  shows "distinct (body_names body)"
proof -
  obtain cfg where params: "validate_parameters program f body = []" and defs: "fst (body_definitions body) = []"
    by (rule validate_body_Some [OF assms])
  have "fold block_definitions (fb_blocks body) ([], parameter_definitions body) = ([], snd (body_definitions body))"
    using defs by (metis body_definitions_def prod.collapse)
  note table = fold_block_definitions_distinct [OF this]
  have "dom (parameter_definitions body) = bp_id ` set (fb_parameters body)"
    using parameter_definitions_dom by blast
  with table validate_parameters_distinct [OF params] show ?thesis by (auto simp: body_names_def)
qed

lemma body_ids_in:
  assumes "distinct (body_names body)"
  shows "p \<in> set (fb_parameters body) \<Longrightarrow> body_ids home name body (bp_id p) = Some (parameter_id home name (bp_id p))"
    and "b \<in> set (fb_blocks body) \<Longrightarrow> v \<in> set (bb_parameters b) \<Longrightarrow>
      body_ids home name body (bv_id v) = Some (value_id home name (bb_id b) ''parameter'' (bv_id v))"
    and "b \<in> set (fb_blocks body) \<Longrightarrow> oper \<in> set (bb_operations b) \<Longrightarrow> v \<in> set (bo_results oper) \<Longrightarrow>
      body_ids home name body (bv_id v) = Some (value_id home name (bb_id b) (bo_id oper) (bv_id v))"
  unfolding body_ids_def
  by (rule map_of_is_SomeI; (simp add: names_of_ids assms; fail)?; force simp: named_ids_def)+

lemma dom_body_ids: "dom (body_ids home name body) = set (body_names body)"
  unfolding body_ids_def dom_map_of_conv_image_fst names_of_ids [symmetric, of body home name] by simp


section \<open>Values listed before they are used\<close>

fun listed_operations :: "body_operation list \<Rightarrow> string set \<Rightarrow> bool" where
  "listed_operations [] known \<longleftrightarrow> True"
| "listed_operations (oper # opers) known \<longleftrightarrow>
     set (bo_operands oper) \<subseteq> known \<and> listed_operations opers (known \<union> bv_id ` set (bo_results oper))"

fun listed_blocks :: "body_block list \<Rightarrow> string set \<Rightarrow> bool" where
  "listed_blocks [] known \<longleftrightarrow> True"
| "listed_blocks (block # blocks) known \<longleftrightarrow>
     listed_operations (bb_operations block) (known \<union> bv_id ` set (bb_parameters block)) \<and>
     set (terminator_values (bb_terminator block)) \<subseteq> known \<union> bv_id ` set (block_values block) \<and>
     listed_blocks blocks (known \<union> bv_id ` set (block_values block))"

definition values_listed :: "function_body \<Rightarrow> bool" where
  "values_listed body \<longleftrightarrow> listed_blocks (fb_blocks body) (bp_id ` set (fb_parameters body))"


section \<open>Instructions\<close>

lemma bind_ids_le:
  assumes "ids \<subseteq>\<^sub>m whole" "\<And>v. v \<in> set vs \<Longrightarrow> whole (bv_id v) = Some (identity v)"
  shows "bind_ids identity vs ids \<subseteq>\<^sub>m whole \<and> dom (bind_ids identity vs ids) = dom ids \<union> bv_id ` set vs"
  using assms unfolding bind_ids_def
proof (induction vs arbitrary: ids)
  case (Cons v vs)
  have "ids(bv_id v \<mapsto> identity v) \<subseteq>\<^sub>m whole" using Cons.prems by (auto simp: map_le_def)
  from Cons.IH [OF this] Cons.prems(2) show ?case by (auto simp del: fun_upd_apply)
qed simp

lemma resolve_ids_known:
  assumes "ids \<subseteq>\<^sub>m whole" "set xs \<subseteq> dom ids"
  shows "resolve_ids ids xs = map (the \<circ> whole) xs"
  using assms unfolding resolve_ids_def
  by (induction xs) (auto simp: List.map_filter_simps dest: map_leD split: option.splits)

text \<open>An instruction made from an operation of the function \<open>f\<close>.\<close>

definition home_of :: "program \<Rightarrow> fn \<Rightarrow> string" where
  "home_of program f = identity_namespace f (pg_module program)"

definition made_from ::
  "(string \<Rightarrow> string) \<Rightarrow> (effect \<Rightarrow> string) \<Rightarrow> program \<Rightarrow> fn \<Rightarrow> value_ids \<Rightarrow> string \<Rightarrow> body_operation \<Rightarrow> ssa_instruction \<Rightarrow> bool" where
  "made_from sha json program f ids block oper instr \<longleftrightarrow>
     si_semantic instr = Some (operation_id (home_of program f) (fn_name f) block (bo_id oper)) \<and>
     si_kind instr = ssa_kind_of (ir_kind_of (capability_id (home_of program f) (fn_name f)) (bo_kind oper)) \<and>
     si_inputs instr = map (the \<circ> ids) (bo_operands oper) \<and>
     si_outputs instr = map (lower_value (the \<circ> ids \<circ> bv_id)) (bo_results oper) \<and>
     (\<forall>eff capability. bo_kind oper = Effect eff capability \<longrightarrow>
        si_effects instr = [declared_effect_identity sha json program f eff])"

lemma lower_operation_made:
  assumes le: "ids \<subseteq>\<^sub>m whole" and known: "set (bo_operands oper) \<subseteq> dom ids"
    and results: "\<And>r. r \<in> set (bo_results oper) \<Longrightarrow>
      whole (bv_id r) = Some (value_id (home_of program f) (fn_name f) block (bo_id oper) (bv_id r))"
    and hir: "find (\<lambda>i. io_semantic i = Some (operation_id (home_of program f) (fn_name f) block (bo_id oper))) hir = Some i"
    and made: "lower_ir_operation sha json program f block oper = Some i"
  shows "made_from sha json program f whole block oper
    (lower_operation sha (home_of program f) (fn_name f) hir block oper ids)"
proof -
  from made obtain effects uses where links: "ir_links sha json program f (bo_kind oper) = Some (effects, uses)"
    and i: "io_kind i = ir_kind_of (capability_id (home_of program f) (fn_name f)) (bo_kind oper)" "io_effects i = effects"
    by (auto simp: lower_ir_operation_def home_of_def)
  have "effects = [declared_effect_identity sha json program f eff]" if "bo_kind oper = Effect eff capability" for eff capability
    using links that by (simp add: ir_links_def Let_def)
  with hir i results show ?thesis
    by (simp add: made_from_def lower_operation_def Let_def resolve_ids_known [OF le known] lower_value_def)
qed

lemma lower_operations_made:
  assumes "ids \<subseteq>\<^sub>m whole" "listed_operations opers (dom ids)"
    and "\<And>oper r. oper \<in> set opers \<Longrightarrow> r \<in> set (bo_results oper) \<Longrightarrow>
      whole (bv_id r) = Some (value_id (home_of program f) (fn_name f) block (bo_id oper) (bv_id r))"
    and "\<And>oper. oper \<in> set opers \<Longrightarrow> \<exists>i. lower_ir_operation sha json program f block oper = Some i \<and>
      find (\<lambda>i. io_semantic i = Some (operation_id (home_of program f) (fn_name f) block (bo_id oper))) hir = Some i"
    and "lower_operations sha (home_of program f) (fn_name f) hir block opers ids = (instrs, ids')"
  shows "list_all2 (made_from sha json program f whole block) opers instrs \<and> ids' \<subseteq>\<^sub>m whole \<and>
    dom ids' = dom ids \<union> result_ids opers"
  using assms
proof (induction opers arbitrary: ids instrs ids')
  case (Cons oper opers)
  let ?ids = "bind_ids (\<lambda>r. value_id (home_of program f) (fn_name f) block (bo_id oper) (bv_id r)) (bo_results oper) ids"
  obtain rest where rest: "lower_operations sha (home_of program f) (fn_name f) hir block opers ?ids = (rest, ids')"
    and instrs: "instrs = lower_operation sha (home_of program f) (fn_name f) hir block oper ids # rest"
    using Cons.prems(5) by (auto simp: Let_def split: prod.splits)
  have bound: "?ids \<subseteq>\<^sub>m whole" "dom ?ids = dom ids \<union> bv_id ` set (bo_results oper)"
    using bind_ids_le [OF Cons.prems(1)] Cons.prems(3) by (metis list.set_intros(1))+
  have "list_all2 (made_from sha json program f whole block) opers rest \<and> ids' \<subseteq>\<^sub>m whole \<and>
      dom ids' = dom ?ids \<union> result_ids opers"
    by (rule Cons.IH [OF bound(1) _ _ _ rest]) (use Cons.prems(2-4) bound(2) in auto)
  moreover obtain i where "lower_ir_operation sha json program f block oper = Some i"
    "find (\<lambda>i. io_semantic i = Some (operation_id (home_of program f) (fn_name f) block (bo_id oper))) hir = Some i"
    using Cons.prems(4) by (metis list.set_intros(1))
  then have "made_from sha json program f whole block oper (lower_operation sha (home_of program f) (fn_name f) hir block oper ids)"
    by (intro lower_operation_made [OF Cons.prems(1)]) (use Cons.prems(2,3) in auto)
  ultimately show ?case using bound(2) by (auto simp: instrs)
qed simp
section \<open>Blocks\<close>

definition block_made ::
  "(string \<Rightarrow> string) \<Rightarrow> (effect \<Rightarrow> string) \<Rightarrow> program \<Rightarrow> fn \<Rightarrow> value_ids \<Rightarrow> body_block \<Rightarrow> ssa_block \<Rightarrow> bool" where
  "block_made sha json program f ids block sb \<longleftrightarrow>
     sb_identity sb = ssa_block_identity sha (home_of program f) (fn_name f) (bb_id block) \<and>
     sb_parameters sb = map (lower_value (the \<circ> ids \<circ> bv_id)) (bb_parameters block) \<and>
     list_all2 (made_from sha json program f ids (bb_id block)) (bb_operations block) (sb_instructions sb) \<and>
     sb_terminator sb = lower_terminator (ssa_block_identity sha (home_of program f) (fn_name f)) ids (bb_terminator block)"

lemma lower_terminator_known:
  assumes "ids \<subseteq>\<^sub>m whole" "set (terminator_values terminator) \<subseteq> dom ids"
  shows "lower_terminator target ids terminator = lower_terminator target whole terminator"
proof -
  have "dom ids \<subseteq> dom whole" using assms(1) by (auto dest: map_leD)
  then have same: "resolve_ids ids xs = resolve_ids whole xs" if "set xs \<subseteq> dom ids" for xs
    using resolve_ids_known [OF assms(1) that] resolve_ids_known [of whole whole xs] that by (simp add: order.trans)
  show ?thesis
  proof (cases terminator)
    case (ConditionalBranch condition then_target then_arguments else_target else_arguments)
    then obtain i where "ids condition = Some i" using assms(2) by auto
    with map_leD [OF assms(1)] ConditionalBranch assms(2) same show ?thesis by simp
  qed (use assms(2) same in simp_all)
qed

lemma lower_block_made:
  assumes le: "ids \<subseteq>\<^sub>m whole"
    and listed: "listed_operations (bb_operations block) (dom ids \<union> bv_id ` set (bb_parameters block))"
      "set (terminator_values (bb_terminator block)) \<subseteq> dom ids \<union> bv_id ` set (block_values block)"
    and params: "\<And>v. v \<in> set (bb_parameters block) \<Longrightarrow>
      whole (bv_id v) = Some (value_id (home_of program f) (fn_name f) (bb_id block) ''parameter'' (bv_id v))"
    and results: "\<And>oper r. oper \<in> set (bb_operations block) \<Longrightarrow> r \<in> set (bo_results oper) \<Longrightarrow>
      whole (bv_id r) = Some (value_id (home_of program f) (fn_name f) (bb_id block) (bo_id oper) (bv_id r))"
    and hir: "\<And>oper. oper \<in> set (bb_operations block) \<Longrightarrow> \<exists>i. lower_ir_operation sha json program f (bb_id block) oper = Some i \<and>
      find (\<lambda>i. io_semantic i = Some (operation_id (home_of program f) (fn_name f) (bb_id block) (bo_id oper))) hir = Some i"
    and lowered: "lower_block sha (home_of program f) (fn_name f) hir error block ids = (sb, ids')"
  shows "block_made sha json program f whole block sb \<and> ids' \<subseteq>\<^sub>m whole \<and> dom ids' = dom ids \<union> bv_id ` set (block_values block)"
proof -
  let ?identity = "\<lambda>p. value_id (home_of program f) (fn_name f) (bb_id block) ''parameter'' (bv_id p)"
  let ?start = "bind_ids ?identity (bb_parameters block) ids"
  have start: "?start \<subseteq>\<^sub>m whole" "dom ?start = dom ids \<union> bv_id ` set (bb_parameters block)"
    using bind_ids_le [OF le, of "bb_parameters block" ?identity] params by blast+
  obtain instrs where instrs: "lower_operations sha (home_of program f) (fn_name f) hir (bb_id block) (bb_operations block) ?start = (instrs, ids')"
    and sb: "sb_identity sb = ssa_block_identity sha (home_of program f) (fn_name f) (bb_id block)"
      "sb_parameters sb = map (lower_value ?identity) (bb_parameters block)" "sb_instructions sb = instrs"
      "sb_terminator sb = lower_terminator (ssa_block_identity sha (home_of program f) (fn_name f)) ids' (bb_terminator block)"
    using lowered by (auto simp: lower_block_def Let_def split: prod.splits)
  have opers: "list_all2 (made_from sha json program f whole (bb_id block)) (bb_operations block) instrs \<and> ids' \<subseteq>\<^sub>m whole \<and>
      dom ids' = dom ?start \<union> result_ids (bb_operations block)"
    by (rule lower_operations_made [OF start(1) _ results hir instrs]) (use listed(1) start(2) in simp_all)
  then have dom: "dom ids' = dom ids \<union> bv_id ` set (block_values block)"
    using start(2) by (auto simp: block_values_def result_ids_def)
  have "map (lower_value ?identity) (bb_parameters block) = map (lower_value (the \<circ> whole \<circ> bv_id)) (bb_parameters block)"
    using params by (simp add: lower_value_def)
  with opers sb dom lower_terminator_known [of ids' whole] listed(2) show ?thesis
    by (simp add: block_made_def)
qed

lemma lower_blocks_made:
  assumes "ids \<subseteq>\<^sub>m whole" "listed_blocks blocks (dom ids)"
    and "\<And>b v. b \<in> set blocks \<Longrightarrow> v \<in> set (bb_parameters b) \<Longrightarrow>
      whole (bv_id v) = Some (value_id (home_of program f) (fn_name f) (bb_id b) ''parameter'' (bv_id v))"
    and "\<And>b oper r. b \<in> set blocks \<Longrightarrow> oper \<in> set (bb_operations b) \<Longrightarrow> r \<in> set (bo_results oper) \<Longrightarrow>
      whole (bv_id r) = Some (value_id (home_of program f) (fn_name f) (bb_id b) (bo_id oper) (bv_id r))"
    and "\<And>b oper. b \<in> set blocks \<Longrightarrow> oper \<in> set (bb_operations b) \<Longrightarrow> \<exists>i. lower_ir_operation sha json program f (bb_id b) oper = Some i \<and>
      find (\<lambda>i. io_semantic i = Some (operation_id (home_of program f) (fn_name f) (bb_id b) (bo_id oper))) hir = Some i"
  shows "list_all2 (block_made sha json program f whole) blocks (lower_blocks sha (home_of program f) (fn_name f) hir error blocks ids)"
  using assms
proof (induction blocks arbitrary: ids)
  case (Cons block blocks)
  obtain sb ids' where first: "lower_block sha (home_of program f) (fn_name f) hir error block ids = (sb, ids')" by (metis surj_pair)
  have own: "block_made sha json program f whole block sb \<and> ids' \<subseteq>\<^sub>m whole \<and> dom ids' = dom ids \<union> bv_id ` set (block_values block)"
    by (rule lower_block_made [OF Cons.prems(1) _ _ _ _ _ first]) (use Cons.prems in auto)
  then have "list_all2 (block_made sha json program f whole) blocks (lower_blocks sha (home_of program f) (fn_name f) hir error blocks ids')"
    using Cons.prems(2-) by (intro Cons.IH) auto
  with own show ?case by (simp add: first)
qed simp


section \<open>The operation of an instruction in the high-level IR\<close>

lemma find_unique: "x \<in> set xs \<Longrightarrow> P x \<Longrightarrow> (\<And>y. y \<in> set xs \<Longrightarrow> P y \<Longrightarrow> y = x) \<Longrightarrow> find P xs = Some x"
proof (induction xs)
  case (Cons z zs)
  show ?case
  proof (cases "P z")
    case True
    with Cons.prems(3) have "z = x" by simp
    with True show ?thesis by simp
  next
    case False
    with Cons.prems(1,2) have "x \<in> set zs" "P x" by auto
    then have "find P zs = Some x" by (rule Cons.IH) (rule Cons.prems(3), simp_all)
    with False show ?thesis by simp
  qed
qed simp

lemma collected_in:
  assumes "collect_options (map g xs) = Some ys"
  shows "x \<in> set xs \<Longrightarrow> \<exists>y\<in>set ys. g x = Some y" and "y \<in> set ys \<Longrightarrow> \<exists>x\<in>set xs. g x = Some y"
proof -
  have "set (map g xs) = set (map Some ys)" using assms by (simp add: collect_options_Some)
  then have same: "g ` set xs = Some ` set ys" by simp
  show "\<exists>y\<in>set ys. g x = Some y" if "x \<in> set xs"
  proof -
    have "g x \<in> Some ` set ys" using that same by blast
    then show ?thesis by blast
  qed
  show "\<exists>x\<in>set xs. g x = Some y" if "y \<in> set ys"
  proof -
    have "Some y \<in> g ` set xs" using that same by blast
    then show ?thesis by force
  qed
qed

lemma executable_body_operations:
  assumes "lower_executable_body sha json program f body = Some hir"
  shows "block \<in> set (fb_blocks body) \<Longrightarrow> oper \<in> set (bb_operations block) \<Longrightarrow>
      \<exists>i\<in>set hir. lower_ir_operation sha json program f (bb_id block) oper = Some i"
    and "i \<in> set hir \<Longrightarrow> io_semantic i = Some (operation_id home name b x) \<Longrightarrow>
      \<exists>block\<in>set (fb_blocks body). \<exists>oper\<in>set (bb_operations block). lower_ir_operation sha json program f (bb_id block) oper = Some i"
proof -
  let ?lower = "\<lambda>block. map_option (\<lambda>opers. opers @ return_operation (bb_terminator block))
    (collect_options (map (lower_ir_operation sha json program f (bb_id block)) (bb_operations block)))"
  obtain blocks n where blocks: "collect_options (map ?lower (fb_blocks body)) = Some blocks"
    and hir: "hir = concat blocks @ replicate n (failure_operation program f)"
    using assms unfolding lower_executable_body_def by blast
  show "\<exists>i\<in>set hir. lower_ir_operation sha json program f (bb_id block) oper = Some i"
    if at: "block \<in> set (fb_blocks body)" "oper \<in> set (bb_operations block)"
  proof -
    obtain opers where opers: "collect_options (map (lower_ir_operation sha json program f (bb_id block)) (bb_operations block)) = Some opers"
      "opers @ return_operation (bb_terminator block) \<in> set blocks"
      using collected_in(1) [OF blocks at(1)] by auto
    obtain i where "i \<in> set opers" "lower_ir_operation sha json program f (bb_id block) oper = Some i"
      using collected_in(1) [OF opers(1) at(2)] by blast
    with opers(2) show ?thesis by (intro bexI [of _ i]) (auto simp: hir intro!: bexI [of _ "opers @ return_operation (bb_terminator block)"])
  qed
  show "\<exists>block\<in>set (fb_blocks body). \<exists>oper\<in>set (bb_operations block). lower_ir_operation sha json program f (bb_id block) oper = Some i"
    if i: "i \<in> set hir" "io_semantic i = Some (operation_id home name b x)"
  proof -
    have "i \<noteq> failure_operation program f"
      using i(2) by (auto simp: failure_operation_def operation_id_def function_id_def make_id_inject)
    then obtain opers where "opers \<in> set blocks" "i \<in> set opers" using i(1) by (auto simp: hir)
    moreover have "i \<notin> set (return_operation terminator)" for terminator
      using i(2) by (auto simp: return_operation_def split: body_terminator.splits)
    moreover obtain block where block: "block \<in> set (fb_blocks body)" "?lower block = Some opers"
      using collected_in(2) [OF blocks \<open>opers \<in> set blocks\<close>] by blast
    moreover obtain own where own: "collect_options (map (lower_ir_operation sha json program f (bb_id block)) (bb_operations block)) = Some own"
      "opers = own @ return_operation (bb_terminator block)"
      using block(2) by auto
    ultimately have "i \<in> set own" by auto
    from collected_in(2) [OF own(1) this] block(1) show ?thesis by blast
  qed
qed

lemma validate_operations_distinct:
  "validate_operations program f opers earlier available = ([], earlier', available') \<Longrightarrow>
     distinct (map bo_id opers) \<and> bo_id ` set opers \<inter> earlier = {}"
proof (induction opers arbitrary: earlier available)
  case (Cons oper opers)
  then have rest: "validate_operations program f opers (insert (bo_id oper) earlier) (bind_values (bo_results oper) available) = ([], earlier', available')"
    and fresh: "bo_id oper \<notin> earlier"
    by (auto simp: Let_def split: prod.splits if_splits)
  from Cons.IH [OF rest] fresh show ?case by auto
qed simp

lemma hir_operation:
  assumes valid: "validate_body digest program f body = Some []"
    and lowered: "lower_executable_body sha json program f body = Some hir"
    and block: "block \<in> set (fb_blocks body)" and oper: "oper \<in> set (bb_operations block)"
  shows "\<exists>i. lower_ir_operation sha json program f (bb_id block) oper = Some i \<and>
    find (\<lambda>i. io_semantic i = Some (operation_id (home_of program f) (fn_name f) (bb_id block) (bo_id oper))) hir = Some i"
proof -
  obtain cfg where ids: "card (block_ids body) = length (fb_blocks body)"
    and blocks: "validate_blocks program f body cfg (snd (body_definitions body)) (fb_blocks body) {} = []"
    by (rule validate_body_Some [OF valid])
  obtain i where i: "i \<in> set hir" "lower_ir_operation sha json program f (bb_id block) oper = Some i"
    using executable_body_operations(1) [OF lowered block oper] by blast
  have semantic: "io_semantic y = Some (operation_id (home_of program f) (fn_name f) b (bo_id x))"
    if "lower_ir_operation sha json program f b x = Some y" for b x y
    using that by (auto simp: lower_ir_operation_def home_of_def)
  have unique: "y = i" if y: "y \<in> set hir" "io_semantic y = Some (operation_id (home_of program f) (fn_name f) (bb_id block) (bo_id oper))" for y
  proof -
    obtain block' oper' where o': "block' \<in> set (fb_blocks body)" "oper' \<in> set (bb_operations block')"
      "lower_ir_operation sha json program f (bb_id block') oper' = Some y"
      using executable_body_operations(2) [OF lowered y] by blast
    have same: "bb_id block' = bb_id block" "bo_id oper' = bo_id oper"
      using semantic [OF o'(3)] y(2) by (simp_all add: operation_id_def make_id_inject)
    have "block' = block"
      using block_map_unique [OF ids o'(1)] block_map_unique [OF ids block] same(1) by (metis option.inject)
    moreover have "distinct (map bo_id (bb_operations block))"
    proof -
      obtain earlier earlier'' where "validate_block program f body cfg (snd (body_definitions body)) block earlier = ([], earlier'')"
        using validate_blocks_Nil [OF blocks block] by blast
      then show ?thesis by (auto simp: validate_block_def split: prod.splits dest: validate_operations_distinct)
    qed
    ultimately have "oper' = oper" using same(2) o'(2) oper by (auto simp: distinct_map inj_on_def)
    with o'(3) i(2) same(1) show ?thesis by simp
  qed
  have "find (\<lambda>i. io_semantic i = Some (operation_id (home_of program f) (fn_name f) (bb_id block) (bo_id oper))) hir = Some i"
    by (rule find_unique, rule i(1), rule semantic [OF i(2)], rule unique)
  with i(2) show ?thesis by blast
qed
section \<open>Bodies\<close>

definition body_made ::
  "(string \<Rightarrow> string) \<Rightarrow> (effect \<Rightarrow> string) \<Rightarrow> program \<Rightarrow> fn \<Rightarrow> function_body \<Rightarrow> ssa_function \<Rightarrow> bool" where
  "body_made sha json program f body sf \<longleftrightarrow>
     sf_semantic sf = function_id (home_of program f) (fn_name f) \<and>
     sf_inputs sf = map (\<lambda>p. \<lparr>sv_identity = parameter_id (home_of program f) (fn_name f) (bp_id p), sv_ty = bp_ty p\<rparr>)
       (fb_parameters body) \<and>
     (\<exists>blocks error. sf_blocks sf = blocks @ [error] \<and>
        sb_identity error = ssa_identity sha ''failure'' (function_id (home_of program f) (fn_name f)) 0 \<and>
        list_all2 (block_made sha json program f (body_ids (home_of program f) (fn_name f) body)) (fb_blocks body) blocks)"

lemma parameter_ids_le:
  assumes "\<And>p. p \<in> set (fb_parameters body) \<Longrightarrow> whole (bp_id p) = Some (parameter_id home name (bp_id p))"
  shows "parameter_ids home name (fb_parameters body) \<subseteq>\<^sub>m whole \<and>
    dom (parameter_ids home name (fb_parameters body)) = bp_id ` set (fb_parameters body)"
proof -
  have "fold (\<lambda>p m. m(bp_id p \<mapsto> parameter_id home name (bp_id p))) ps m \<subseteq>\<^sub>m whole \<and>
      dom (fold (\<lambda>p m. m(bp_id p \<mapsto> parameter_id home name (bp_id p))) ps m) = dom m \<union> bp_id ` set ps"
    if "m \<subseteq>\<^sub>m whole" "\<forall>p\<in>set ps. whole (bp_id p) = Some (parameter_id home name (bp_id p))" for ps and m :: value_ids
    using that
  proof (induction ps arbitrary: m)
    case (Cons p ps)
    have "m(bp_id p \<mapsto> parameter_id home name (bp_id p)) \<subseteq>\<^sub>m whole" using Cons.prems by (auto simp: map_le_def)
    from Cons.IH [OF this] Cons.prems(2) show ?case by (auto simp del: fun_upd_apply)
  qed simp
  from this [of Map.empty "fb_parameters body"] assms show ?thesis by (simp add: parameter_ids_def)
qed

lemma lower_body_made:
  assumes valid: "validate_body digest program f body = Some []" and listed: "values_listed body"
    and hir: "lower_executable_body sha json program f body = Some hir"
  shows "body_made sha json program f body (lower_body sha program f body hir)"
proof -
  let ?home = "home_of program f" and ?error = "ssa_identity sha ''failure'' (function_id (home_of program f) (fn_name f)) 0"
  let ?ids = "body_ids ?home (fn_name f) body"
  note names = body_ids_in [OF validated_names_distinct [OF valid], where home = ?home and name = "fn_name f"]
  note start = parameter_ids_le [of body ?ids ?home "fn_name f", OF names(1)]
  have "list_all2 (block_made sha json program f ?ids) (fb_blocks body)
      (lower_blocks sha ?home (fn_name f) hir ?error (fb_blocks body) (parameter_ids ?home (fn_name f) (fb_parameters body)))"
  proof (rule lower_blocks_made)
    show "parameter_ids ?home (fn_name f) (fb_parameters body) \<subseteq>\<^sub>m ?ids" using start by simp
    show "listed_blocks (fb_blocks body) (dom (parameter_ids ?home (fn_name f) (fb_parameters body)))"
      using listed start by (simp add: values_listed_def)
  qed (rule names(2), assumption+, rule names(3), assumption+, rule hir_operation [OF valid hir], assumption+)
  then show ?thesis
    by (auto simp: body_made_def lower_body_def Let_def home_of_def)
qed

text \<open>The digest tells the blocks of a body apart.\<close>

definition blocks_separated :: "(string \<Rightarrow> string) \<Rightarrow> program \<Rightarrow> fn \<Rightarrow> function_body \<Rightarrow> bool" where
  "blocks_separated sha program f body \<longleftrightarrow>
     distinct (map (\<lambda>b. ssa_block_identity sha (home_of program f) (fn_name f) (bb_id b)) (fb_blocks body))"

lemma made_block:
  assumes made: "body_made sha json program f body sf" and apart: "blocks_separated sha program f body"
    and block: "block_map body i = Some block"
  obtains sb where "ssa_block_map sf (ssa_block_identity sha (home_of program f) (fn_name f) i) = Some sb"
    and "block_made sha json program f (body_ids (home_of program f) (fn_name f) body) block sb"
proof -
  obtain sbs error where sf: "sf_blocks sf = sbs @ [error]"
    and error: "sb_identity error = ssa_identity sha ''failure'' (function_id (home_of program f) (fn_name f)) 0"
    and all: "list_all2 (block_made sha json program f (body_ids (home_of program f) (fn_name f) body)) (fb_blocks body) sbs"
    using made by (auto simp: body_made_def)
  obtain k where k: "k < length (fb_blocks body)" "fb_blocks body ! k = block" and i: "bb_id block = i"
    using block_map_in [OF block] by (auto simp: in_set_conv_nth)
  have sb: "k < length sbs" "block_made sha json program f (body_ids (home_of program f) (fn_name f) body) block (sbs ! k)"
    using all k by (auto simp: list_all2_conv_all_nth)
  have keys: "map sb_identity sbs = map (\<lambda>b. ssa_block_identity sha (home_of program f) (fn_name f) (bb_id b)) (fb_blocks body)"
    using all by (intro nth_equalityI) (auto simp: list_all2_conv_all_nth block_made_def)
  have "sb_identity error \<notin> set (map sb_identity sbs)"
    unfolding keys by (auto simp: error ssa_block_identity_def ssa_identity_def)
  then have "distinct (map sb_identity (sf_blocks sf))" using apart keys by (simp add: sf blocks_separated_def)
  then have "distinct (map fst (rev (map (\<lambda>b. (sb_identity b, b)) (sf_blocks sf))))"
    by (simp add: rev_map [symmetric] comp_def)
  moreover have "(sb_identity (sbs ! k), sbs ! k) \<in> set (rev (map (\<lambda>b. (sb_identity b, b)) (sf_blocks sf)))"
    using sb(1) by (auto simp: sf)
  ultimately have "ssa_block_map sf (sb_identity (sbs ! k)) = Some (sbs ! k)"
    unfolding ssa_block_map_def by (rule map_of_is_SomeI)
  with sb(2) i show thesis by (intro that) (simp_all add: block_made_def)
qed


section \<open>Modules\<close>

lemma validated_identities:
  assumes "program_valid digest program"
  shows "distinct (map (identity_of_fn program) (pg_functions program))"
proof (rule with_earlier_distinct, rule ballI)
  obtain codes where codes: "collect_options (map (\<lambda>(earlier, f). validate_function digest program earlier f)
      (with_earlier (pg_functions program))) = Some codes" and clean: "concat codes = []"
    using assms by (auto simp: program_valid_def validate_program_def)
  have each: "\<not> blank (fn_name f) \<and> identity_of_fn program f \<notin> identity_of_fn program ` {e \<in> set earlier. \<not> blank (fn_name e)}"
    if at: "(earlier, f) \<in> set (with_earlier (pg_functions program))" for earlier f
  proof -
    obtain own where "own \<in> set codes" "validate_function digest program earlier f = Some own"
      using collected_in(1) [OF codes at] by auto
    moreover have "own = []" using clean \<open>own \<in> set codes\<close> by (auto simp: concat_eq_Nil_conv)
    ultimately show ?thesis by (auto simp: validate_function_def split: if_splits)
  qed
  have named: "\<not> blank (fn_name e)" if e: "e \<in> set (pg_functions program)" for e
  proof -
    obtain k where "k < length (pg_functions program)" "pg_functions program ! k = e" using e by (auto simp: in_set_conv_nth)
    then have "(take k (pg_functions program), e) \<in> set (with_earlier (pg_functions program))" by (auto simp: with_earlier_def)
    from each [OF this] show ?thesis by simp
  qed
  fix entry assume entry: "entry \<in> set (with_earlier (pg_functions program))"
  obtain earlier f where split: "entry = (earlier, f)" by (cases entry)
  have "set earlier \<subseteq> set (pg_functions program)" using entry split by (auto simp: with_earlier_def dest: in_set_takeD)
  then have "{e \<in> set earlier. \<not> blank (fn_name e)} = set earlier" using named by blast
  with each entry split show "case entry of (earlier, x) \<Rightarrow> identity_of_fn program x \<notin> identity_of_fn program ` set earlier" by auto
qed

lemma validated_identity_unique:
  "program_valid digest program \<Longrightarrow> f \<in> set (pg_functions program) \<Longrightarrow> g \<in> set (pg_functions program) \<Longrightarrow>
     identity_of_fn program f = identity_of_fn program g \<Longrightarrow> f = g"
  using validated_identities [of digest program] by (auto simp: distinct_map inj_on_def)

lemma lower_function_semantic:
  "lower_function sha program hir f = Some sf \<Longrightarrow> sf_semantic sf = identity_of_fn program f"
  by (auto simp: lower_function_def declaration_function_def lower_body_def identity_of_fn_def Let_def split: option.splits)

lemma lowered_module:
  assumes valid: "program_valid digest program" and module: "lower_to_ssa sha json program = Some module"
    and f: "f \<in> set (pg_functions program)" "fn_generic_params f = []" "fn_body f = Some body"
  obtains hir where "lower_executable_body sha json program f body = Some hir"
    and "find (\<lambda>g. sf_semantic g = identity_of_fn program f) (sm_functions module) = Some (lower_body sha program f body hir)"
    and "prepared_function module (identity_of_fn program f) = Some (lower_body sha program f body hir)"
proof -
  obtain hirs sfs where hirs: "ir_functions sha json program = Some hirs"
    and sfs: "collect_options (map (lower_function sha program hirs) (lowered_functions program)) = Some sfs"
    and sm: "sm_functions module = sfs"
    using module by (auto simp: lower_to_ssa_def bind_eq_Some_conv)
  note unique = validated_identity_unique [OF valid]
  have listed: "g \<in> set (lowered_functions program) \<longleftrightarrow> g \<in> set (pg_functions program) \<and> fn_generic_params g = []" for g
    by (auto simp: lowered_functions_def)
  have hirs': "collect_options (map (\<lambda>f. map_option (Pair (identity_of_fn program f))
      (case fn_body f of None \<Rightarrow> Some [] | Some body \<Rightarrow> lower_executable_body sha json program f body)) (lowered_functions program)) = Some hirs"
    using hirs by (simp add: ir_functions_def identity_of_fn_def)
  obtain hir where hir: "lower_executable_body sha json program f body = Some hir" "(identity_of_fn program f, hir) \<in> set hirs"
    using collected_in(1) [OF hirs', of f] listed f by auto
  have "x = hir" if x: "(identity_of_fn program f, x) \<in> set hirs" for x
  proof -
    obtain g where g: "g \<in> set (lowered_functions program)" "identity_of_fn program f = identity_of_fn program g"
      "(case fn_body g of None \<Rightarrow> Some [] | Some body \<Rightarrow> lower_executable_body sha json program g body) = Some x"
      using collected_in(2) [OF hirs' x] by auto
    then have "f = g" using unique [OF f(1) _ g(2)] listed by blast
    with g(3) f(3) hir(1) show ?thesis by simp
  qed
  then have "map_of hirs (identity_of_fn program f) = Some hir"
    using hir(2) by (metis map_of_SomeD not_None_eq weak_map_of_SomeI)
  then have sf: "lower_function sha program hirs f = Some (lower_body sha program f body hir)"
    using f(3) by (simp add: lower_function_def identity_of_fn_def)
  have mem: "lower_body sha program f body hir \<in> set sfs"
    using collected_in(1) [OF sfs, of f] listed f sf by auto
  have only: "y = lower_body sha program f body hir" if y: "y \<in> set sfs" "sf_semantic y = identity_of_fn program f" for y
  proof -
    obtain g where g: "g \<in> set (lowered_functions program)" "lower_function sha program hirs g = Some y"
      using collected_in(2) [OF sfs y(1)] by blast
    have "f = g" using unique [OF f(1)] listed g(1) lower_function_semantic [OF g(2)] y(2) by metis
    with g(2) sf show ?thesis by simp
  qed
  note own = lower_function_semantic [OF sf]
  have "find (\<lambda>g. sf_semantic g = identity_of_fn program f) sfs = Some (lower_body sha program f body hir)"
    by (rule find_unique, rule mem, rule own, rule only)
  moreover have "prepared_function module (identity_of_fn program f) = Some (lower_body sha program f body hir)"
  proof -
    have "identity_of_fn program f \<in> dom (map_of (rev (map (\<lambda>g. (sf_semantic g, g)) sfs)))"
      unfolding dom_map_of_conv_image_fst using imageI [OF mem, of sf_semantic] own by (simp add: image_image)
    then have "prepared_function module (identity_of_fn program f) \<noteq> None" by (simp add: prepared_function_def sm dom_def)
    then obtain y where y: "prepared_function module (identity_of_fn program f) = Some y" by blast
    then have "y \<in> set sfs \<and> sf_semantic y = identity_of_fn program f"
      by (auto simp: prepared_function_def sm dest!: map_of_SomeD)
    with only y show ?thesis by blast
  qed
  ultimately show thesis using hir(1) sm by (intro that) simp_all
qed

end
