(* ===== verification/Ssa_Pure.thy ===== *)
theory Ssa_Pure
  imports Ssa_Ops Ssa_Value
begin

text \<open>
  The arms of the two interpreters agree: on a validated operation and typed operands an SSA
  instruction yields the value the body operation stores, and rejects with the same status.  The
  values stay canonical.
\<close>

section \<open>Slots and operands\<close>

abbreviation slots_of :: "body_operation \<Rightarrow> env \<Rightarrow> slots" where
  "slots_of oper vals \<equiv> map vals (bo_operands oper)"

lemma slot_operand: "slot (slots_of oper vals) i = operand_value oper vals i"
  by (simp add: slot_def operand_value_def operand_def)

lemma slot_pair_operands: "slot_pair g h (slots_of oper vals) = pair_operands g h oper vals"
  by (auto simp: slot_pair_def pair_operands_def split: list.splits)

lemma slot_lanes_of: "slot_lanes g (slots_of oper vals) = lanes_of g oper vals"
  by (simp add: slot_lanes_def lanes_of_def slot_operand)

lemma operand_or_empty_at: "i < length (bo_operands oper) \<Longrightarrow> operand_or_empty oper vals i = operand_value oper vals i"
  by (simp add: operand_or_empty_def operand_value_def operand_def)

lemma ssa_integer_operand_at: "ssa_integer_operand (slots_of oper vals) i = integer_operand oper vals i"
  by (simp add: ssa_integer_operand_def integer_operand_def slot_operand)

lemma ssa_sequence_operand_at: "ssa_sequence_operand (slots_of oper vals) i = sequence_operand oper vals i"
  by (simp add: ssa_sequence_operand_def sequence_operand_def slot_operand)

lemma ssa_float_operand_at: "ssa_float_operand (slots_of oper vals) = float_operand oper vals"
  by (auto simp: ssa_float_operand_def float_operand_def split: list.splits)

lemma collect_slots: "collect_options (slots_of oper vals) = collect_operands oper vals"
  by (simp add: collect_operands_def)

lemmas slot_simps = slot_operand slot_pair_operands slot_lanes_of ssa_integer_operand_at ssa_sequence_operand_at
  ssa_float_operand_at collect_slots
  ssa_boolean_operands_def boolean_operands_def ssa_float_operands_def float_operands_def
  ssa_integer_operands_def integer_operands_def ssa_byte_operands_def byte_operands_def
  ssa_byte_shift_operands_def byte_shift_operands_def ssa_vector_operands_def vector_operands_def
  ssa_mask_operands_def mask_operands_def


section \<open>Agreement\<close>

fun same_outcome :: "op_outcome \<Rightarrow> ssa_outcome \<Rightarrow> bool" where
  "same_outcome (Store v) (Yield w) \<longleftrightarrow> v = w"
| "same_outcome (Fail s) (Reject t) \<longleftrightarrow> s = t"
| "same_outcome _ _ \<longleftrightarrow> False"

lemma same_outcome_iff:
  "same_outcome (Store v) out \<longleftrightarrow> out = Yield v" "same_outcome (Fail s) out \<longleftrightarrow> out = Reject s"
  "\<not> same_outcome Skip out" "\<not> same_outcome Panic out"
  by (cases out; auto)+

text \<open>The outputs of an instruction have the types of the results.\<close>

definition outputs_of :: "body_operation \<Rightarrow> ssa_value list \<Rightarrow> bool" where
  "outputs_of oper outputs \<longleftrightarrow> map sv_ty outputs = map bv_ty (bo_results oper)"

lemma outputs_of_Nil: "outputs_of oper outputs \<Longrightarrow> outputs = [] \<longleftrightarrow> bo_results oper = []"
  by (auto simp: outputs_of_def)

abbreviation ssa_arm :: "float_library \<Rightarrow> program \<Rightarrow> (string \<Rightarrow> semantic_id) \<Rightarrow> operation_kind \<Rightarrow> slots \<Rightarrow> ssa_value list \<Rightarrow> ssa_outcome" where
  "ssa_arm lib program capability kind slots outputs \<equiv> ssa_pure lib program (ssa_kind_of (ir_kind_of capability kind)) slots outputs"

lemmas scalar_arms = ssa_constant_def exec_constant_def ssa_integer_compare_def exec_integer_compare_def
  ssa_float_constant_def exec_float_constant_def ssa_float_compare_def exec_float_compare_def
  ssa_float_intrinsic_def exec_float_intrinsic_def ssa_boolean_op_def exec_boolean_op_def
  ssa_boolean_compare_def exec_boolean_compare_def ssa_byte_bitwise_def exec_byte_bitwise_def
  ssa_byte_shift_def exec_byte_shift_def ssa_byte_compare_def exec_byte_compare_def ssa_convert_def exec_convert_def
  ssa_vector_binary_def exec_vector_binary_def ssa_vector_compare_def exec_vector_compare_def
  ssa_mask_binary_def exec_mask_binary_def ssa_bound_check_def exec_bound_check_def
  ssa_sequence_copy_def exec_sequence_copy_def ssa_sequence_length_def exec_sequence_length_def
  ssa_view_construct_def exec_view_construct_def ssa_view_narrow_def exec_view_narrow_def
  ssa_finite_is_variant_def exec_finite_is_variant_def

text \<open>Most arms read the same; nothing of validation is needed.\<close>

fun same_arm :: "operation_kind \<Rightarrow> bool" where
  "same_arm (Constant _ _) = True" | "same_arm (IntegerCompare _ _) = True" | "same_arm (FloatConstant _ _) = True"
| "same_arm (FloatCompare _) = True" | "same_arm (FloatIntrinsic _) = True" | "same_arm (BooleanOp _) = True"
| "same_arm (BooleanCompare _) = True" | "same_arm (ByteBitwise _) = True" | "same_arm (ByteShift _) = True"
| "same_arm (ByteCompare _) = True" | "same_arm (Convert _ _) = True" | "same_arm (VectorBinary _ _ _ _) = True"
| "same_arm (VectorCompare _ _ _) = True" | "same_arm (MaskBinary _ _) = True" | "same_arm (BoundCheck _) = True"
| "same_arm (SequenceCopy _ _ _ _) = True" | "same_arm (SequenceLength _) = True" | "same_arm (ViewConstruct _ _) = True"
| "same_arm (ViewNarrow _ _) = True" | "same_arm (FiniteIsVariant _ _ _) = True" | "same_arm (RuntimeCheck _ _ _) = True"
| "same_arm _ = False"

lemma same_arm_agrees:
  assumes "same_arm kind" "exec_pure lib program kind oper vals \<noteq> Panic"
  shows "same_outcome (exec_pure lib program kind oper vals) (ssa_arm lib program capability kind (slots_of oper vals) outputs)"
  using assms
  by (cases kind)
    (auto simp: scalar_arms slot_simps split: option.splits sum.splits conversion_failure.splits sequence_bound.splits
      execution_value.splits)
lemma collect_options_length: "collect_options xs = Some ys \<Longrightarrow> length ys = length xs"
  by (simp add: collect_options_Some)

lemma arity_agrees:
  assumes clean: "validate_kind program f kind oper available = Proceed []"
    and safe: "exec_pure lib program kind oper vals \<noteq> Panic" "exec_pure lib program kind oper vals \<noteq> Skip"
    and outputs: "outputs_of oper outputs" and results: "bo_results oper = [r]"
    and kind: "kind \<in> {Integer operator ty intent, Float operator, BooleanNot, VectorConstruct element n, VectorSplat element n,
      VectorExtract element n evidence, VectorReplace element n evidence, MaskNot n, MaskReduce operator n,
      VectorReduce operator element n intent, Select element, SequenceConstruct element n,
      SequenceReplace element bound evidence, FiniteConstruct t var n fs, RecordProject t operator}"
  shows "same_outcome (exec_pure lib program kind oper vals) (ssa_arm lib program capability kind (slots_of oper vals) outputs)"
proof -
  obtain out where out: "outputs = [out]" "sv_ty out = bv_ty r"
    using outputs results by (auto simp: outputs_of_def)
  note arms = slot_simps operand_or_empty_at arity_differs_def out results
  from kind consider "kind = Integer operator ty intent" | "kind = Float operator" | "kind = BooleanNot"
    | "kind = VectorConstruct element n" | "kind = VectorSplat element n" | "kind = VectorExtract element n evidence"
    | "kind = VectorReplace element n evidence" | "kind = MaskNot n" | "kind = MaskReduce operator n"
    | "kind = VectorReduce operator element n intent" | "kind = Select element" | "kind = SequenceConstruct element n"
    | "kind = SequenceReplace element bound evidence" | "kind = FiniteConstruct t var n fs" | "kind = RecordProject t operator"
    by blast
  then show ?thesis
  proof cases
    case 1
    then have "integer_operator_supported operator intent" using clean by (auto simp: valid_integer_def integer_operator_supported_def Let_def)
    with 1 show ?thesis by (auto simp: ssa_integer_def exec_integer_def arms split: option.splits)
  next
    case 2
    then show ?thesis using clean by (auto simp: valid_float_def ssa_float_def exec_float_def arms split: option.splits)
  next
    case 3
    then show ?thesis
      by (auto simp: ssa_boolean_not_def exec_boolean_not_def split: list.splits option.splits)
  next
    case 4
    then show ?thesis by (auto simp: ssa_vector_construct_def exec_vector_construct_def arms split: option.splits)
  next
    case 5
    then show ?thesis using clean
      by (auto simp: valid_vector_splat_def ssa_vector_splat_def exec_vector_splat_def arms split: option.splits)
  next
    case 6
    then show ?thesis using clean safe
      by (auto simp: valid_vector_extract_def ssa_vector_extract_def exec_vector_extract_def arms indexed_def
          ssa_lane_failure_def lane_failure_def split: option.splits if_splits)
  next
    case 7
    then show ?thesis using clean safe
      by (auto simp: valid_vector_replace_def ssa_vector_replace_def exec_vector_replace_def arms
          ssa_lane_failure_def lane_failure_def split: option.splits if_splits)
  next
    case 8
    then show ?thesis using clean
      by (auto simp: valid_mask_not_def ssa_mask_not_def exec_mask_not_def arms split: option.splits)
  next
    case 9
    then show ?thesis using clean
      by (auto simp: valid_mask_reduce_def ssa_mask_reduce_def exec_mask_reduce_def arms split: option.splits)
  next
    case 10
    then show ?thesis using clean
      by (auto simp: valid_vector_reduce_def ssa_vector_reduce_def exec_vector_reduce_def arms split: option.splits)
  next
    case 11
    then have len: "length (bo_operands oper) = 3" using clean by (auto simp: valid_select_def arity_differs_def split: if_splits)
    then have at: "operand oper i = Some (bo_operands oper ! i)" if "i < 3" for i using that by (simp add: operand_def)
    then have found: "operand_value oper vals i = vals (bo_operands oper ! i)" if "i < 3" for i
      using that by (simp add: operand_value_def)
    from 11 show ?thesis
      by (auto simp: ssa_select_def exec_select_def select_lanes_def slot_operand operand_or_empty_at len at found
          split: option.splits execution_value.splits)
  next
    case 12
    then have len: "length (bo_operands oper) = n" using clean by (simp add: valid_sequence_construct_def arity_differs_def)
    show ?thesis
    proof (cases "collect_operands oper vals")
      case None
      with 12 show ?thesis
        by (simp add: ssa_sequence_construct_def exec_sequence_construct_def collect_slots len out)
    next
      case (Some vs)
      then have "length vs = n" using collect_options_length [of "slots_of oper vals"] len by (simp add: collect_operands_def)
      with 12 Some show ?thesis
        by (simp add: ssa_sequence_construct_def exec_sequence_construct_def collect_slots len out)
    qed
  next
    case 13
    then show ?thesis using clean safe
      by (auto simp: valid_sequence_replace_def Let_def ssa_sequence_replace_def exec_sequence_replace_def arms
          split: option.splits sequence_bound.splits if_splits)
  next
    case 14
    have "slot (slots_of oper vals) = operand_value oper vals" by (rule ext) (rule slot_operand)
    with 14 show ?thesis by (auto simp: ssa_finite_construct_def exec_finite_construct_def out split: option.splits)
  next
    case 15
    then have "length (bo_operands oper) = 1" using clean by (auto simp: valid_record_project_def arity_differs_def split: if_splits)
    then obtain x where "bo_operands oper = [x]" by (auto simp: length_Suc_conv)
    with 15 show ?thesis
      by (auto simp: ssa_record_project_def exec_record_project_def operand_def results split: option.splits execution_value.splits)
  qed
qed
lemma u64_range: "value_matches_type program (VInteger v t) u64_type \<Longrightarrow> 0 \<le> v \<and> v < 2 ^ 64"
  by (auto simp: u64_type_def value_matches_type.simps in_range_iff fits_def)

lemma sequence_project_agrees:
  assumes typed: "env_typed program available vals" and valid: "valid_sequence_project bound oper available = []"
  shows "same_outcome (exec_sequence_project evidence oper vals) (ssa_sequence_project evidence (slots_of oper vals))"
proof -
  have u64: "operand_ty oper available 1 = Some u64_type"
    using valid by (simp add: valid_sequence_project_def Let_def)
  have "0 \<le> index \<and> index < 2 ^ 64" if "integer_operand oper vals 1 = Some index" for index
  proof -
    from that obtain t where "operand_value oper vals 1 = Some (VInteger index t)"
      by (auto simp: integer_operand_def bind_eq_Some_conv elim!: the_integer.elims)
    from operand_value_typed [OF typed u64 this] show ?thesis by (rule u64_range)
  qed
  then show ?thesis
    by (auto simp: ssa_sequence_project_def exec_sequence_project_def slot_simps ssa_lane_failure_def lane_failure_def
        split: option.splits)
qed

lemma finite_payload_project_agrees:
  assumes typed: "env_typed program available vals"
    and valid: "valid_finite_payload_project program t var d field oper available = []"
  shows "same_outcome (exec_finite_payload_project program t var d field oper vals) (ssa_finite_payload_project t var d field (slots_of oper vals))"
proof -
  obtain ft where ft: "declared_finite program t = Some ft" and ops: "first_operand_ty oper available = Some (finite_body_type ft)"
    using valid by (auto simp: valid_finite_payload_project_def Let_def)
  have "valid_finite_value program t var d" if "operand_value oper vals 0 = Some (VFinite t var d payload)" for payload
    using first_operand_typed [OF typed ops that] declared_finite_Some [OF ft]
    by (simp add: finite_body_type_def matches_TFinite)
  then show ?thesis
    by (auto simp: ssa_finite_payload_project_def exec_finite_payload_project_def slot_operand
        split: option.splits execution_value.splits)
qed

lemma sort_key_sorted: "sorted (map f xs) \<Longrightarrow> sort_key f xs = xs"
  by (induction xs) (simp_all add: insort_is_Cons)

lemma record_construct_agrees:
  assumes valid: "valid_record_construct program t names oper available = Proceed []"
    and outputs: "outputs_of oper outputs" and results: "bo_results oper = [r]"
  shows "same_outcome (exec_record_construct t names oper vals) (ssa_record_construct t names (slots_of oper vals) outputs)"
proof -
  obtain out where out: "outputs = [out]" "sv_ty out = bv_ty r"
    using outputs results by (auto simp: outputs_of_def)
  have len: "length names = length (bo_operands oper)" and canonical: "sort_dedup names = names"
    using valid by (auto simp: valid_record_construct_def Let_def split: option.splits if_splits)
  have same: "map (\<lambda>(name, v). map_option (Pair name) v) (zip names (slots_of oper vals)) =
      map (\<lambda>(name, x). map_option (Pair name) (vals x)) (zip names (bo_operands oper))"
    by (simp add: zip_map2 case_prod_unfold comp_def)
  have "sort_key fst fs = fs"
    if "collect_options (map (\<lambda>(name, x). map_option (Pair name) (vals x)) (zip names (bo_operands oper))) = Some fs" for fs
  proof -
    from that have eq: "map (\<lambda>(name, x). map_option (Pair name) (vals x)) (zip names (bo_operands oper)) = map Some fs"
      by (simp add: collect_options_Some)
    have "fst (fs ! i) = names ! i" if i: "i < length fs" for i
    proof -
      have "i < length names" using arg_cong [OF eq, of length] i len by simp
      then show ?thesis using arg_cong [OF eq, of "\<lambda>xs. xs ! i"] i len by auto (metis fst_conv)
    qed
    moreover have "length fs = length names" using arg_cong [OF eq, of length] len by simp
    ultimately have "map fst fs = names" by (intro nth_equalityI) simp_all
    moreover have "sorted names" using sorted_sort_dedup [of names] canonical by (simp add: strict_sorted_iff)
    ultimately show ?thesis by (intro sort_key_sorted) simp
  qed
  with out len same results show ?thesis
    by (auto simp: ssa_record_construct_def exec_record_construct_def split: option.splits)
qed

lemma clean_one_result:
  assumes "\<not> same_arm kind" "is_pure kind" "validate_kind program f kind oper available = Proceed []"
  shows "\<exists>r. bo_results oper = [r]"
proof -
  have "length (bo_results oper) = 1"
    using assms
    by (cases kind)
      (auto simp: valid_integer_def valid_float_def valid_boolean_not_def valid_select_def valid_sequence_replace_def
        valid_vector_construct_def valid_vector_splat_def valid_vector_extract_def valid_vector_replace_def
        valid_mask_not_def valid_mask_reduce_def valid_vector_reduce_def valid_sequence_construct_def
        valid_sequence_project_def valid_finite_construct_def valid_finite_payload_project_def
        valid_record_construct_def valid_record_project_def arity_differs_def Let_def split: if_splits option.splits)
  then show ?thesis by (simp add: one_result)
qed

text \<open>Every arm of a validated operation.\<close>

theorem pure_agrees:
  assumes typed: "env_typed program available vals" and nominal: "nominals_ok program" and small: "small_bounds available"
    and known: "\<forall>x\<in>set (bo_operands oper). available x \<noteq> None"
    and clean: "validate_kind program f kind oper available = Proceed []"
    and pure: "is_pure kind" and lane: "in_lane kind" and outputs: "outputs_of oper outputs"
  shows "same_outcome (exec_pure lib program kind oper vals) (ssa_arm lib program capability kind (slots_of oper vals) outputs)"
proof (cases "same_arm kind")
  case True
  have "exec_pure lib program kind oper vals \<noteq> Panic"
    using exec_pure_safe [OF typed nominal small known clean pure lane, of lib] by auto
  with True show ?thesis by (rule same_arm_agrees)
next
  case False
  then obtain r where r: "bo_results oper = [r]" using clean_one_result [OF _ pure clean] by blast
  have "outcome_safe program oper (exec_pure lib program kind oper vals)"
    by (rule exec_pure_safe [OF typed nominal small known clean pure lane])
  then have safe: "exec_pure lib program kind oper vals \<noteq> Panic" "exec_pure lib program kind oper vals \<noteq> Skip" by auto
  note arity = arity_agrees [OF clean safe outputs r]
  from False pure show ?thesis
  proof (cases kind)
    case (SequenceProject bound evidence)
    with sequence_project_agrees [OF typed] clean show ?thesis by simp
  next
    case (FinitePayloadProject t var d field)
    with finite_payload_project_agrees [OF typed] clean show ?thesis by simp
  next
    case (RecordConstruct t names)
    with record_construct_agrees [OF _ outputs r] clean show ?thesis by simp
  qed (simp; fail | (rule arity; simp; fail))+
qed
section \<open>Values stay canonical\<close>

definition canonical_env :: "program \<Rightarrow> env \<Rightarrow> bool" where
  "canonical_env program vals \<longleftrightarrow> (\<forall>x v. vals x = Some v \<longrightarrow> canonical_value program v)"

lemma canonical_envD: "canonical_env program vals \<Longrightarrow> vals x = Some v \<Longrightarrow> canonical_value program v"
  by (simp add: canonical_env_def)

lemma canonical_env_update: "canonical_env program vals \<Longrightarrow> canonical_value program v \<Longrightarrow> canonical_env program (vals(x \<mapsto> v))"
  by (simp add: canonical_env_def)

text \<open>No result of a one-bit unsigned integer type, and none of lanes of it.\<close>

definition wide_type :: "body_type \<Rightarrow> bool" where
  "wide_type ty \<longleftrightarrow>
     (case ty of
        TInteger t \<Rightarrow> \<not> (ty_bits t = 1 \<and> \<not> ty_signed t)
      | TVector (TInteger t) _ \<Rightarrow> \<not> (ty_bits t = 1 \<and> \<not> ty_signed t)
      | _ \<Rightarrow> True)"

fun scalar_value :: "execution_value \<Rightarrow> bool" where
  "scalar_value (VFinite _ _ _ _) = False" | "scalar_value (VRecord _ _ _) = False"
| "scalar_value (VSequence _) = False" | "scalar_value (VVector _) = False" | "scalar_value _ = True"

lemma canonical_scalar: "scalar_value v \<Longrightarrow> value_matches_type program v ty \<Longrightarrow> wide_type ty \<Longrightarrow> canonical_value program v"
  by (cases v) (auto simp: value_matches_type.simps wide_type_def split: body_type.splits)

lemma canonical_operand: "canonical_env program vals \<Longrightarrow> operand_value oper vals i = Some v \<Longrightarrow> canonical_value program v"
  by (auto simp: operand_value_def bind_eq_Some_conv dest: canonical_envD)

lemma canonical_or_empty: "canonical_env program vals \<Longrightarrow> operand_or_empty oper vals i = Some v \<Longrightarrow> canonical_value program v"
  by (auto simp: operand_or_empty_def dest: canonical_envD)

lemma canonical_sequence:
  "canonical_env program vals \<Longrightarrow> sequence_operand oper vals i = Some vs \<Longrightarrow> v \<in> set vs \<Longrightarrow> canonical_value program v"
  by (auto simp: sequence_operand_def bind_eq_Some_conv list_all_iff the_sequence_Some dest!: canonical_operand)

lemma canonical_vector:
  "canonical_value program w \<Longrightarrow> the_vector w = Some vs \<Longrightarrow> v \<in> set vs \<Longrightarrow> canonical_value program v"
  by (auto simp: list_all_iff elim!: the_vector.elims)

lemma canonical_collected:
  "canonical_env program vals \<Longrightarrow> collect_operands oper vals = Some vs \<Longrightarrow> v \<in> set vs \<Longrightarrow> canonical_value program v"
  unfolding collect_operands_def collect_options_Some
  by (metis canonical_envD image_eqI list.set_map imageE)

text \<open>The operations whose values are scalars.\<close>

fun yields_scalar :: "operation_kind \<Rightarrow> bool" where
  "yields_scalar (VectorConstruct _ _) = False" | "yields_scalar (VectorSplat _ _) = False"
| "yields_scalar (VectorExtract _ _ _) = False" | "yields_scalar (VectorReplace _ _ _) = False"
| "yields_scalar (VectorBinary _ _ _ _) = False" | "yields_scalar (Select _) = False"
| "yields_scalar (SequenceConstruct _ _) = False" | "yields_scalar (SequenceProject _ _) = False"
| "yields_scalar (SequenceReplace _ _ _) = False" | "yields_scalar (SequenceCopy _ _ _ _) = False"
| "yields_scalar (ViewConstruct _ _) = False" | "yields_scalar (ViewNarrow _ _) = False"
| "yields_scalar (FiniteConstruct _ _ _ _) = False" | "yields_scalar (FinitePayloadProject _ _ _ _) = False"
| "yields_scalar (RecordConstruct _ _) = False" | "yields_scalar (RecordProject _ _) = False"
| "yields_scalar _ = True"

lemma constant_scalar: "constant_value v ty = Some w \<Longrightarrow> scalar_value w"
  by (auto simp: constant_value_def split: body_type.splits if_splits)

lemma convert_scalar: "convert_scalar_value v source target = Inr w \<Longrightarrow> scalar_value w"
  by (auto simp: convert_scalar_value_def convert_float_edge_def convert_scalar_inner_def from_bits_def Let_def
      split: execution_value.splits body_type.splits if_splits option.splits prod.splits)

lemma reduce_scalar: "evaluate_vector_reduce operator ty intent lanes = Some w \<Longrightarrow> scalar_value w"
  by (auto simp: evaluate_vector_reduce_def bind_eq_Some_conv split: body_type.splits option.splits list.splits)

lemma scalar_outcome:
  "yields_scalar kind \<Longrightarrow> exec_pure lib program kind oper vals = Store v \<Longrightarrow> scalar_value v"
  by (cases kind)
    (auto simp: scalar_arms exec_integer_def exec_float_def exec_boolean_not_def exec_mask_not_def exec_mask_reduce_def
      exec_vector_reduce_def u64_value_def
      dest: constant_scalar convert_scalar reduce_scalar
      split: option.splits if_splits list.splits sum.splits conversion_failure.splits execution_value.splits)
text \<open>The lanes of a binary operation are integers of the element type.\<close>

lemma vector_binary_canonical:
  assumes "value_matches_type program (VVector vs) (TVector element lanes)" "wide_type (TVector element lanes)"
    and "is_integer_type element"
  shows "canonical_value program (VVector vs)"
proof -
  obtain t where t: "element = TInteger t" "\<not> (ty_bits t = 1 \<and> \<not> ty_signed t)"
    using assms(2,3) by (auto simp: is_integer_type_def wide_type_def split: body_type.splits)
  have "canonical_value program v" if "v \<in> set vs" for v
  proof -
    have "value_matches_type program v (TInteger t)"
      using assms(1) that t(1) by (simp add: value_matches_type.simps list_all_iff)
    with t(2) show ?thesis by (cases v) (auto simp: value_matches_type.simps)
  qed
  then show ?thesis by (simp add: list_all_iff)
qed

lemma aggregate_outcome:
  assumes env: "canonical_env program vals" and out: "exec_pure lib program kind oper vals = Store v"
    and kind: "kind \<in> {VectorConstruct element n, VectorSplat element n, VectorExtract element n evidence,
      VectorReplace element n evidence, Select element, SequenceConstruct element n, SequenceProject bound evidence,
      SequenceReplace element bound evidence, SequenceCopy element bound bound' evidence, ViewConstruct bound bound', ViewNarrow m n}"
  shows "canonical_value program v"
proof -
  note parts = canonical_operand [OF env] canonical_or_empty [OF env] canonical_sequence [OF env] canonical_vector
    canonical_collected [OF env] canonical_envD [OF env]
  from kind consider "kind = VectorConstruct element n" | "kind = VectorSplat element n" | "kind = VectorExtract element n evidence"
    | "kind = VectorReplace element n evidence" | "kind = Select element" | "kind = SequenceConstruct element n"
    | "kind = SequenceProject bound evidence" | "kind = SequenceReplace element bound evidence"
    | "kind = SequenceCopy element bound bound' evidence" | "kind = ViewConstruct bound bound'" | "kind = ViewNarrow m n"
    by blast
  then show ?thesis
  proof cases
    case 1
    with out show ?thesis
      by (auto simp: exec_vector_construct_def list_all_iff dest: parts split: option.splits if_splits)
  next
    case 2
    with out show ?thesis
      by (auto simp: exec_vector_splat_def list_all_iff dest: parts split: option.splits)
  next
    case 3
    with out show ?thesis
      by (auto simp: exec_vector_extract_def indexed_def lane_failure_def bind_eq_Some_conv
          intro: canonical_vector [OF canonical_or_empty [OF env]] nth_mem split: option.splits if_splits)
  next
    case 4
    with out show ?thesis
      by (auto simp: exec_vector_replace_def lane_failure_def bind_eq_Some_conv list_all_iff
          dest!: set_update_subset_insert [THEN subsetD]
          intro: canonical_vector [OF canonical_or_empty [OF env]] canonical_or_empty [OF env] split: option.splits if_splits)
  next
    case 5
    have lanes: "canonical_value program t \<and> canonical_value program f"
      if vs: "vals x = Some a" "the_vector a = Some ts" "vals y = Some b" "the_vector b = Some fs"
        and mem: "(lane, t, f) \<in> set (zip lanes (zip ts fs))" for x a ts y b fs lane t f lanes
    proof -
      have inner: "(t, f) \<in> set (zip ts fs)" using mem by (rule set_zip_rightD)
      from canonical_vector [OF canonical_envD [OF env vs(1)] vs(2) set_zip_leftD [OF inner]]
        canonical_vector [OF canonical_envD [OF env vs(3)] vs(4) set_zip_rightD [OF inner]]
      show ?thesis by (rule conjI)
    qed
    from 5 out show ?thesis
      by (auto simp: exec_select_def select_lanes_def list_all_iff bind_eq_Some_conv
          dest: canonical_or_empty [OF env] split: option.splits execution_value.splits if_splits) (metis lanes)+
  next
    case 6
    with out show ?thesis
      by (auto simp: exec_sequence_construct_def list_all_iff dest: parts split: option.splits if_splits)
  next
    case 7
    with out show ?thesis
      by (auto simp: exec_sequence_project_def lane_failure_def intro: canonical_sequence [OF env] nth_mem
          split: option.splits if_splits)
  next
    case 8
    with out show ?thesis
      by (auto simp: exec_sequence_replace_def list_all_iff dest!: set_update_subset_insert [THEN subsetD]
          intro: canonical_sequence [OF env] canonical_or_empty [OF env] split: option.splits if_splits sequence_bound.splits)
  next
    case 9
    with out show ?thesis
      by (auto simp: exec_sequence_copy_def copy_window_def list_all_iff dest!: in_set_takeD in_set_dropD
          intro: canonical_sequence [OF env] split: option.splits if_splits sequence_bound.splits)
  next
    case 10
    with out show ?thesis
      by (auto simp: exec_view_construct_def list_all_iff dest!: in_set_takeD in_set_dropD
          intro: canonical_sequence [OF env] split: option.splits if_splits sequence_bound.splits)
  next
    case 11
    with out show ?thesis
      by (auto simp: exec_view_narrow_def list_all_iff intro: canonical_sequence [OF env] split: option.splits if_splits)
  qed
qed

lemma nominal_outcome:
  assumes env: "canonical_env program vals" and out: "exec_pure lib program kind oper vals = Store v"
    and clean: "validate_kind program f kind oper available = Proceed []"
    and kind: "kind \<in> {FiniteConstruct t var n fs, FinitePayloadProject t var n field, RecordConstruct t fs, RecordProject t field}"
  shows "canonical_value program v"
proof -
  from kind consider "kind = FiniteConstruct t var n fs" | "kind = FinitePayloadProject t var n field"
    | "kind = RecordConstruct t fs" | "kind = RecordProject t field"
    by blast
  then show ?thesis
  proof cases
    case 1
    have valid: "valid_finite_construct program t var n fs oper available = []" using clean 1 by simp
    obtain ft where ft: "declared_finite program t = Some ft"
      using valid by (cases "declared_finite program t") (simp_all add: valid_finite_construct_def Let_def)
    obtain dcl where dcl: "declared_variant (Some ft) var n = Some dcl"
      using valid ft by (cases "declared_variant (Some ft) var n") (simp_all add: valid_finite_construct_def Let_def)
    have sorted: "sorted_wrt (<) fs"
      using valid ft dcl by (simp add: valid_finite_construct_def Let_def split: if_splits)
    obtain vs where vs: "collect_options (map (\<lambda>i. operand_value oper vals i) [0..<length fs]) = Some vs"
      and v: "v = VFinite t var n (zip fs vs)"
      using out 1 by (auto simp: exec_finite_construct_def split: option.splits if_splits)
    note idx = collect_indexed [OF vs]
    have "canonical_value program w" if w: "w \<in> set vs" for w
    proof -
      obtain i where "i < length vs" "w = vs ! i" using w by (auto simp: in_set_conv_nth)
      with idx show ?thesis using canonical_operand [OF env, of oper i w] by simp
    qed
    then have "list_all (\<lambda>(_, w). canonical_value program w) (zip fs vs)" by (auto simp: list_all_iff dest: set_zip_rightD)
    moreover have "sorted (map fst (zip fs vs))" using sorted idx(1) by (simp add: strict_sorted_iff)
    moreover have "list_ex (\<lambda>ft. ft_identity ft = t \<and> list_ex (\<lambda>var'. fv_identity var' = var) (ft_variants ft)) (pg_finite_types program)"
      unfolding list_ex_iff using declared_finite_Some [OF ft] declared_variant_Some [OF dcl] by blast
    ultimately show ?thesis by (simp add: v)
  next
    case 2
    with out show ?thesis
      by (auto simp: exec_finite_payload_project_def list_all_iff dest!: map_of_SomeD canonical_operand [OF env]
          split: option.splits execution_value.splits if_splits)
  next
    case 3
    obtain rt where rt: "declared_record program t = Some rt" and sorted: "sort_dedup fs = fs"
      and len: "length fs = length (bo_operands oper)"
      using clean 3 by (auto simp: valid_record_construct_def Let_def split: option.splits if_splits)
    obtain shown ps where ps: "collect_options (map (\<lambda>(name, x). map_option (Pair name) (vals x)) (zip fs (bo_operands oper))) = Some ps"
      and v: "v = VRecord t shown ps"
      using out 3 by (auto simp: exec_record_construct_def split: option.splits list.splits)
    from ps have eq: "map (\<lambda>(name, x). map_option (Pair name) (vals x)) (zip fs (bo_operands oper)) = map Some ps"
      by (simp add: collect_options_Some)
    have at: "fst (ps ! i) = fs ! i \<and> canonical_value program (snd (ps ! i))" if i: "i < length ps" for i
    proof -
      have "i < length fs" using arg_cong [OF eq, of length] i len by simp
      then obtain w where "vals (bo_operands oper ! i) = Some w" "(fs ! i, w) = ps ! i"
        using arg_cong [OF eq, of "\<lambda>xs. xs ! i"] i len by auto
      with canonical_envD [OF env] show ?thesis by (metis fst_conv snd_conv)
    qed
    have "length ps = length fs" using arg_cong [OF eq, of length] len by simp
    with at have "map fst ps = fs" by (intro nth_equalityI) simp_all
    moreover have "sorted fs" using sorted_sort_dedup [of fs] sorted by (simp add: strict_sorted_iff)
    ultimately show ?thesis
      using at declared_record_Some [OF rt] by (auto simp: v list_ex_iff list_all_length case_prod_unfold)
  next
    case 4
    with out show ?thesis
      by (auto simp: exec_record_project_def list_all_iff dest!: map_of_SomeD canonical_envD [OF env]
          split: option.splits execution_value.splits if_splits)
  qed
qed

lemma pure_canonical:
  assumes typed: "env_typed program available vals" and nominal: "nominals_ok program" and small: "small_bounds available"
    and known: "\<forall>x\<in>set (bo_operands oper). available x \<noteq> None"
    and clean: "validate_kind program f kind oper available = Proceed []"
    and pure: "is_pure kind" and lane: "in_lane kind"
    and wide: "list_all (\<lambda>r. wide_type (bv_ty r)) (bo_results oper)" and env: "canonical_env program vals"
    and out: "exec_pure lib program kind oper vals = Store v"
  shows "canonical_value program v"
proof -
  from exec_pure_safe [OF typed nominal small known clean pure lane, of lib] out wide
  obtain r where r: "bo_results oper = [r]" "value_matches_type program v (bv_ty r)" "wide_type (bv_ty r)" by auto
  show ?thesis
  proof (cases "yields_scalar kind")
    case True
    from canonical_scalar [OF scalar_outcome [OF True out] r(2,3)] show ?thesis .
  next
    case False
    note agg = aggregate_outcome [OF env out] and nom = nominal_outcome [OF env out clean]
    from False show ?thesis
    proof (cases kind)
      case (VectorBinary operator element lanes intent)
      obtain vs where v: "v = VVector vs"
        using out VectorBinary by (auto simp: exec_vector_binary_def split: option.splits)
      have "bv_ty r = TVector element lanes" "is_integer_type element"
        using clean r(1) VectorBinary by (auto simp: valid_vector_binary_def first_result_differs_def split: if_splits)
      have "canonical_value program (VVector vs)"
        by (rule vector_binary_canonical)
           (use r(2,3) v \<open>bv_ty r = TVector element lanes\<close> \<open>is_integer_type element\<close> in simp_all)
      with v show ?thesis by simp
    qed (simp; fail | (rule agg; simp; fail) | (rule nom; simp; fail))+
  qed
qed

definition sum_operation :: body_operation where
  "sum_operation =
     plain_operation ''o'' (Integer ''add'' \<lparr>ty_bits = 8, ty_signed = False\<rparr> Checked) [''x'', ''y'']
       [\<lparr>bv_id = ''s'', bv_ty = TInteger \<lparr>ty_bits = 8, ty_signed = False\<rparr>\<rparr>]"


end
