(* ===== verification/Ssa_Refine.thy ===== *)
theory Ssa_Refine
  imports Ssa_Lowered Ssa_Pure
begin

text \<open>
  The SSA interpreter refines the body interpreter: a request against a validated program runs
  through the same states in both.  The stores correspond by the identity lowering gives each name,
  the counters of a nested call by the result its caller had reached, and the checks of arguments
  never see a difference because values stay canonical.
\<close>

section \<open>Corresponding states\<close>

definition values_related :: "value_ids \<Rightarrow> env \<Rightarrow> ssa_env \<Rightarrow> bool" where
  "values_related ids vals svals \<longleftrightarrow> (\<forall>x i. ids x = Some i \<longrightarrow> map_option fst (svals i) = vals x)"

text \<open>Nested runs of the body interpreter count from zero, those of the SSA interpreter go on counting
  from the result \<open>base\<close> of their caller.\<close>

definition advances :: "execution_result \<Rightarrow> execution_result \<Rightarrow> execution_result \<Rightarrow> bool" where
  "advances base r s \<longleftrightarrow> xr_steps s = xr_steps base + xr_steps r \<and> xr_effects s = xr_effects base @ xr_effects r"

fun step_matches :: "program \<Rightarrow> value_ids \<Rightarrow> execution_result \<Rightarrow> step_outcome \<Rightarrow> ssa_step \<Rightarrow> bool" where
  "step_matches program ids base (Continue vals r) (SsaContinue svals s) \<longleftrightarrow>
     values_related ids vals svals \<and> canonical_env program vals \<and> advances base r s"
| "step_matches program ids base (Stop r) (SsaStop s) \<longleftrightarrow> advances base r s \<and> xr_status s = xr_status r"
| "step_matches program ids base _ _ \<longleftrightarrow> False"

fun answer_matches :: "program \<Rightarrow> execution_result \<Rightarrow> execution_result \<Rightarrow> execution_result \<times> execution_value list option \<Rightarrow> bool" where
  "answer_matches program base r (s, None) \<longleftrightarrow> advances base r s \<and> xr_status r \<noteq> Returned \<and> xr_status s = xr_status r"
| "answer_matches program base r (s, Some vs) \<longleftrightarrow>
     advances base r s \<and> xr_status r = Returned \<and> xr_returned r = vs \<and> list_all (canonical_value program) vs"

lemma advances_fail [simp]: "advances base (fail_result status i r) (fail_result status' j s) \<longleftrightarrow> advances base r s"
  by (simp add: advances_def fail_result_def)

lemma fail_result_status [simp]: "xr_status (fail_result status i r) = status"
  by (simp add: fail_result_def)

lemma advances_consume:
  assumes "advances base r s" "budget' = xr_steps base + budget"
  shows "consume_step budget r = None \<longleftrightarrow> consume_step budget' s = None"
    and "consume_step budget r = Some r' \<Longrightarrow> \<exists>s'. consume_step budget' s = Some s' \<and> advances base r' s'"
  using assms by (auto simp: consume_step_def advances_def)

lemma related_collect:
  assumes "values_related ids vals svals" "set xs \<subseteq> dom ids"
  shows "map (\<lambda>i. map_option fst (svals i)) (map (the \<circ> ids) xs) = map vals xs"
  using assms by (auto simp: values_related_def)

lemma collect_options_map: "collect_options (map (map_option g) xs) = map_option (map g) (collect_options xs)"
  by (induction xs) (auto simp: option.map_comp comp_def split: option.splits)

lemma related_update:
  assumes "values_related ids vals svals" "ids x = Some i" "\<And>y. ids y = Some i \<Longrightarrow> y = x"
  shows "values_related ids (vals(x \<mapsto> v)) (svals(i \<mapsto> (v, b)))"
  unfolding values_related_def
proof (intro allI impI)
  fix y j assume y: "ids y = Some j"
  show "map_option fst ((svals(i \<mapsto> (v, b))) j) = (vals(x \<mapsto> v)) y"
  proof (cases "y = x")
    case True
    with assms(2) y have "j = i" by simp
    with True show ?thesis by simp
  next
    case False
    with assms(3) [of y] y have "j \<noteq> i" by blast
    with False assms(1) y show ?thesis by (simp add: values_related_def)
  qed
qed

lemma related_marks: "values_related ids vals (mark_outputs outputs svals) \<longleftrightarrow> values_related ids vals svals"
proof -
  have "map_option fst (mark_outputs outputs svals i) = map_option fst (svals i)" for i
    unfolding mark_outputs_def
  proof (induction outputs arbitrary: svals)
    case (Cons out outputs)
    have "map_option fst ((case svals (sv_identity out) of None \<Rightarrow> svals | Some (v, _) \<Rightarrow> svals(sv_identity out \<mapsto> (v, True))) i) =
        map_option fst (svals i)"
      by (auto split: option.splits)
    then show ?case by (simp add: Cons.IH)
  qed simp
  then show ?thesis by (simp add: values_related_def)
qed

lemma related_store:
  assumes "values_related ids vals svals" "bo_results oper = r # rs" "bv_id r \<in> dom ids"
    and inject: "\<And>x y i. ids x = Some i \<Longrightarrow> ids y = Some i \<Longrightarrow> x = y"
  shows "values_related ids (vals(bv_id r \<mapsto> v)) (ssa_store (map (lower_value (the \<circ> ids \<circ> bv_id)) (bo_results oper)) v svals)"
proof -
  obtain i where i: "ids (bv_id r) = Some i" using assms(3) by blast
  have "values_related ids (vals(bv_id r \<mapsto> v)) (svals(i \<mapsto> (v, False)))"
    by (rule related_update [OF assms(1) i]) (rule inject [OF _ i])
  then show ?thesis using i assms(2) by (simp add: ssa_store_def lower_value_def)
qed


section \<open>Operations\<close>

text \<open>The result of storing a value: what \<open>exec_pure\<close> and a call have in common.\<close>

lemma store_matches:
  assumes "values_related ids vals svals" "canonical_env program vals" "canonical_value program v" "advances base r s"
    and "store oper v vals r \<noteq> Panicked" "bv_id ` set (bo_results oper) \<subseteq> dom ids"
    and "\<And>x y i. ids x = Some i \<Longrightarrow> ids y = Some i \<Longrightarrow> x = y"
  shows "step_matches program ids base (store oper v vals r)
    (SsaContinue (ssa_store (map (lower_value (the \<circ> ids \<circ> bv_id)) (bo_results oper)) v svals) s)"
proof -
  obtain res rs where results: "bo_results oper = res # rs"
    using assms(5) by (auto simp: store_def split: list.splits)
  have "values_related ids (vals(bv_id res \<mapsto> v)) (ssa_store (map (lower_value (the \<circ> ids \<circ> bv_id)) (bo_results oper)) v svals)"
    by (rule related_store [OF assms(1) results _ assms(7)]) (use assms(6) results in auto)
  then show ?thesis
    using results assms(2-4) canonical_env_update by (auto simp: store_def)
qed

text \<open>What is known of the operation that comes next.\<close>

definition operation_ready :: "program \<Rightarrow> fn \<Rightarrow> types \<Rightarrow> value_ids \<Rightarrow> body_operation \<Rightarrow> bool" where
  "operation_ready program f declared ids oper \<longleftrightarrow>
     operation_checked program f declared oper \<and> in_lane (bo_kind oper) \<and>
     list_all (\<lambda>r. wide_type (bv_ty r)) (bo_results oper) \<and>
     set (bo_operands oper) \<subseteq> dom ids \<and> bv_id ` set (bo_results oper) \<subseteq> dom ids"

lemma pure_matches:
  assumes related: "values_related ids vals svals" and canonical: "canonical_env program vals" and typed: "env_typed program declared vals"
    and nominal: "nominals_ok program" and small: "small_bounds declared" and adv: "advances base r s"
    and ready: "operation_ready program f declared ids oper" and made: "made_from sha json program f ids block oper instr"
    and pure: "is_pure (bo_kind oper)"
    and inject: "\<And>x y i. ids x = Some i \<Longrightarrow> ids y = Some i \<Longrightarrow> x = y"
    and machine: "mc_lib mc = lib" "mc_program mc = program"
    and safe: "execute_operation lib program call frame identity oper vals r \<noteq> Panicked"
  shows "step_matches program ids base (execute_operation lib program call frame identity oper vals r)
    (execute_instruction mc scall types instr svals s)"
proof -
  let ?capability = "capability_id (home_of program f) (fn_name f)"
  let ?outputs = "map (lower_value (the \<circ> ids \<circ> bv_id)) (bo_results oper)"
  obtain available where le: "available \<subseteq>\<^sub>m declared" and known: "\<forall>x\<in>set (bo_operands oper). available x \<noteq> None"
    and valid: "validate_operation program f oper available = []"
    using ready by (auto simp: operation_ready_def operation_checked_def)
  have clean: "validate_kind program f (bo_kind oper) oper available = Proceed []"
    using valid never_bails_clean by (auto simp: validate_operation_Nil)
  have lane: "in_lane (bo_kind oper)" and wide: "list_all (\<lambda>r. wide_type (bv_ty r)) (bo_results oper)"
    and ids: "set (bo_operands oper) \<subseteq> dom ids" "bv_id ` set (bo_results oper) \<subseteq> dom ids"
    using ready by (auto simp: operation_ready_def)
  have outputs: "outputs_of oper ?outputs" by (simp add: outputs_of_def lower_value_def)
  note base = env_typed_le [OF typed le] nominal small_bounds_le [OF small le] known clean pure lane
  note same = pure_agrees [OF base outputs, of lib ?capability]
  have instr: "si_kind instr = ssa_kind_of (ir_kind_of ?capability (bo_kind oper))" "si_outputs instr = ?outputs"
    "map (\<lambda>i. map_option fst (svals i)) (si_inputs instr) = slots_of oper vals"
    using made related_collect [OF related ids(1)] by (simp_all add: made_from_def)
  have "execute_instruction mc scall types instr svals s =
      (case ssa_pure lib program (si_kind instr) (slots_of oper vals) (si_outputs instr) of
         Yield v \<Rightarrow> SsaContinue (ssa_store (si_outputs instr) v svals) s
       | Quiet \<Rightarrow> SsaContinue svals s
       | Reject status \<Rightarrow> ssa_reject status instr s
       | Halt \<Rightarrow> SsaStop s
       | Abort \<Rightarrow> SsaPanic)"
    unfolding instr(3) [symmetric] using pure instr(1) machine by (cases "bo_kind oper") (simp_all add: execute_instruction_def)
  moreover have "execute_operation lib program call frame identity oper vals r =
      (case exec_pure lib program (bo_kind oper) oper vals of
         Store v \<Rightarrow> store oper v vals r
       | Skip \<Rightarrow> Continue vals r
       | Fail status \<Rightarrow> Stop (fail_result status (Some identity) r)
       | Panic \<Rightarrow> Panicked)"
    using pure by (cases "bo_kind oper") (simp_all add: execute_operation_def)
  moreover note pure_canonical [OF base wide canonical]
  ultimately show ?thesis
    using same safe adv
    by (cases "exec_pure lib program (bo_kind oper) oper vals")
      (auto simp: same_outcome_iff instr(1,2) ssa_reject_def intro!: store_matches [OF related canonical _ adv _ ids(2) inject])
qed


section \<open>Effects\<close>

lemma show_nat_suffix:
  assumes "a @ CHR '':'' # show_nat i = b @ CHR '':'' # show_nat j"
  shows "i = j"
proof -
  have tail: "takeWhile (\<lambda>c. c \<noteq> CHR '':'') (rev (x @ CHR '':'' # show_nat k)) = rev (show_nat k)" for x k
  proof -
    have "c \<noteq> CHR '':''" if "c \<in> set (show_nat k)" for c
      using that show_nat_digits [of k] by (auto simp: list_all_iff is_digit_def)
    then show ?thesis by (simp add: takeWhile_append)
  qed
  from tail [of a i] tail [of b j] assms have "show_nat i = show_nat j" by (metis rev_rev_ident)
  then show ?thesis by (metis digits_value_show_nat)
qed

lemma takeWhile_nth: "x \<in> set xs \<Longrightarrow> length (takeWhile (\<lambda>y. y \<noteq> x) xs) < length xs \<and> xs ! length (takeWhile (\<lambda>y. y \<noteq> x) xs) = x"
  by (induction xs) auto

lemma declared_effect_found:
  assumes valid: "program_valid digest program" and f: "f \<in> set (pg_functions program)" and eff: "eff \<in> set (fn_effects f)"
  shows "declared_effect sha json program (declared_effect_identity sha json program f eff) = Some eff"
proof -
  let ?all = "concat (map (\<lambda>f. map (\<lambda>(i, eff). (f, i, eff)) (zip [0..<length (fn_effects f)] (fn_effects f))) (pg_functions program))"
  have first: "declared_effect_identity sha json program f eff =
      effect_id sha (identity_namespace f (pg_module program)) (fn_name f) (json eff) (length (takeWhile (\<lambda>e. e \<noteq> eff) (fn_effects f)))"
    unfolding declared_effect_identity_def using eff by (simp only: if_True)
  obtain k where k: "k < length (fn_effects f)" "fn_effects f ! k = eff"
    and identity: "declared_effect_identity sha json program f eff =
      effect_id sha (identity_namespace f (pg_module program)) (fn_name f) (json eff) k"
    using takeWhile_nth [OF eff] first by blast
  let ?P = "\<lambda>(g, occurrence, e). effect_id sha (identity_namespace g (pg_module program)) (fn_name g) (json e) occurrence =
    effect_id sha (identity_namespace f (pg_module program)) (fn_name f) (json eff) k"
  have entries: "(g, i, e) \<in> set ?all \<longleftrightarrow> g \<in> set (pg_functions program) \<and> i < length (fn_effects g) \<and> e = fn_effects g ! i" for g i e
  proof -
    have "(i, e) \<in> set (zip [0..<length (fn_effects g)] (fn_effects g)) \<longleftrightarrow> i < length (fn_effects g) \<and> e = fn_effects g ! i"
      by (auto simp: in_set_zip intro!: exI [of _ i])
    then show ?thesis by force
  qed
  have "find ?P ?all = Some (f, k, eff)"
  proof (rule find_unique)
    show "(f, k, eff) \<in> set ?all" unfolding entries using f k by simp
    show "?P (f, k, eff)" by simp
    fix entry assume entry: "entry \<in> set ?all" "?P entry"
    obtain g i e where split: "entry = (g, i, e)" by (cases entry)
    have "identity_namespace g (pg_module program) = identity_namespace f (pg_module program)" "fn_name g = fn_name f"
      and "sha (json e) @ CHR '':'' # show_nat i = sha (json eff) @ CHR '':'' # show_nat k"
      using entry(2) by (simp_all add: split effect_id_def make_id_inject)
    then have i: "i = k" and same: "identity_of_fn program g = identity_of_fn program f"
      using show_nat_suffix [of "sha (json e)" i "sha (json eff)" k] by (simp_all add: identity_of_fn_def)
    have g: "g \<in> set (pg_functions program)" "e = fn_effects g ! i" using entry(1) unfolding split entries by simp_all
    have "g = f" by (rule validated_identity_unique [OF valid g(1) f same])
    then show "entry = (f, k, eff)" using i g(2) k(2) by (simp add: split)
  qed
  then show ?thesis by (simp add: declared_effect_def identity)
qed

lemma effect_matches:
  assumes related: "values_related ids vals svals" and canonical: "canonical_env program vals" and adv: "advances base r s"
    and ready: "operation_ready program f declared ids oper" and made: "made_from sha json program f ids block oper instr"
    and kind: "bo_kind oper = Effect eff capability"
    and valid: "program_valid digest program" and f: "f \<in> set (pg_functions program)"
    and machine: "mc_program mc = program" "mc_sha mc = sha" "mc_json mc = json" "mc_record mc = fr_record frame"
    and identity: "identity = operation_id (home_of program f) (fn_name f) block (bo_id oper)"
  shows "step_matches program ids base (execute_operation lib program call frame identity oper vals r)
    (execute_instruction mc scall types instr svals s)"
proof -
  obtain available where "validate_operation program f oper available = []"
    using ready by (auto simp: operation_ready_def operation_checked_def)
  then have "validate_kind program f (bo_kind oper) oper available = Proceed []"
    using never_bails_clean by (auto simp: validate_operation_Nil)
  then have eff: "eff \<in> set (fn_effects f)" "capability = ef_capability eff"
    by (auto simp: kind valid_effect_def)
  have instr: "si_kind instr = SsaEffect" "si_effects instr = [declared_effect_identity sha json program f eff]"
    "instruction_identity instr = Some identity"
    using made kind by (simp_all add: made_from_def instruction_identity_def identity)
  have "ssa_event mc instr (declared_effect_identity sha json program f eff) =
      \<lparr>ev_operation = identity, ev_kind = ef_kind eff, ev_target = ef_target eff, ev_capability = capability\<rparr>"
    by (simp add: ssa_event_def machine declared_effect_found [OF valid f eff(1)] instr(3) eff(2))
  then show ?thesis
    using related canonical adv machine(4)
    by (simp add: execute_operation_def kind exec_effect_def execute_instruction_def instr ssa_effect_def ssa_reject_def)
      (simp add: advances_def)
qed


section \<open>Calls\<close>

definition arguments_fit :: "program \<Rightarrow> function_body \<Rightarrow> execution_value list \<Rightarrow> bool" where
  "arguments_fit program body arguments \<longleftrightarrow>
     list_all2 (\<lambda>p a. value_matches_type program a (bp_ty p) \<and> canonical_value program a) (fb_parameters body) arguments"

definition call_depth_limit :: "execution_request \<Rightarrow> nat" where
  "call_depth_limit request = (case rq_call_depth_budget request of None \<Rightarrow> model_max_call_depth | Some d \<Rightarrow> d)"

definition budgets_agree :: "ssa_machine \<Rightarrow> execution_result \<Rightarrow> execution_request \<Rightarrow> bool" where
  "budgets_agree mc base request \<longleftrightarrow>
     mc_budget mc = xr_steps base + rq_step_budget request \<and> mc_depth_limit mc = call_depth_limit request"

definition callee_matches ::
  "(string \<Rightarrow> string) \<Rightarrow> (effect \<Rightarrow> string) \<Rightarrow> program \<Rightarrow> ssa_machine \<Rightarrow> callee \<Rightarrow> ssa_callee \<Rightarrow> bool" where
  "callee_matches sha json program mc call scall \<longleftrightarrow>
     (\<forall>trusted request f body hir arguments base.
        find_function program (rq_module request) (rq_function request) = Some f \<longrightarrow> fn_body f = Some body \<longrightarrow>
        lower_executable_body sha json program f body = Some hir \<longrightarrow>
        map fst arguments = rq_arguments request \<longrightarrow> arguments_fit program body (rq_arguments request) \<longrightarrow>
        request_admissible program True request \<longrightarrow> budgets_agree mc base request \<longrightarrow>
        (\<exists>r out. call trusted request = Some r \<and> scall (lower_body sha program f body hir) arguments base = Some out \<and>
           answer_matches program base r out))"

lemma call_arguments_fit:
  assumes valid: "valid_call program f callee_id name capabilities effects generic_args oper available = []"
    and g: "call_target program callee_id name = Some g" "fn_generic_params g = []"
    and params: "validate_parameters program g body = []"
    and typed: "env_typed program available vals" and canonical: "canonical_env program vals"
    and arguments: "collect_options (map vals (bo_operands oper)) = Some vs"
  shows "arguments_fit program body vs"
proof -
  have none: "generic_args = []"
    using valid g by (auto simp: valid_call_def valid_generic_arguments_def Let_def split: if_splits)
  have len: "length (bo_operands oper) = length (fn_inputs g)" using valid g by (auto simp: valid_call_def)
  have passes: "has_type available (\<lambda>actual. passes_as actual (body_type_for_function_value program g (nv_type (fn_inputs g ! i)))) (bo_operands oper ! i)"
    if "i < length (fn_inputs g)" for i
  proof -
    have "(bo_operands oper ! i, fn_inputs g ! i) \<in> set (zip (bo_operands oper) (fn_inputs g))" using that len by (auto simp: set_zip)
    with valid g none show ?thesis by (fastforce simp: valid_call_def expected_callee_type_def)
  qed
  have count: "length (fb_parameters body) = length (fn_inputs g)" using params by (auto simp: validate_parameters_def)
  have same: "same_type (bp_ty (fb_parameters body ! i)) (body_type_for_function_value program g (nv_type (fn_inputs g ! i)))"
    if "i < length (fn_inputs g)" for i
  proof -
    have "(i, take i (fb_parameters body), fb_parameters body ! i) \<in>
        set (zip [0..<length (fb_parameters body)] (with_earlier (fb_parameters body)))"
      using that count by (auto simp: in_set_zip with_earlier_def intro!: exI [of _ i])
    with params that show ?thesis by (fastforce simp: validate_parameters_def)
  qed
  note values_at = collect_values [OF arguments]
  have "value_matches_type program (vs ! i) (bp_ty (fb_parameters body ! i)) \<and> canonical_value program (vs ! i)"
    if i: "i < length (fn_inputs g)" for i
  proof -
    have v: "vals (bo_operands oper ! i) = Some (vs ! i)" using values_at(2) i len by simp
    obtain ty where "available (bo_operands oper ! i) = Some ty"
      "passes_as ty (body_type_for_function_value program g (nv_type (fn_inputs g ! i)))"
      using passes [OF i] by (auto simp: has_type_iff)
    with env_typedD [OF typed v] matches_passes_as matches_same_type [OF same [OF i]] canonical_envD [OF canonical v]
    show ?thesis by blast
  qed
  then show ?thesis using count len values_at(1) by (simp add: arguments_fit_def list_all2_conv_all_nth)
qed
text \<open>What the module and the program give every frame.\<close>

definition ssa_ready_type :: "program \<Rightarrow> body_type \<Rightarrow> bool" where
  "ssa_ready_type program ty \<longleftrightarrow> ssa_input_type program ty = ty \<and> plain_type program ty"

definition body_ready :: "program \<Rightarrow> function_body \<Rightarrow> bool" where
  "body_ready program body \<longleftrightarrow>
     values_listed body \<and> fb_blocks body \<noteq> [] \<and> bb_id (hd (fb_blocks body)) = fb_entry body \<and>
     list_all (\<lambda>p. ssa_ready_type program (bp_ty p)) (fb_parameters body) \<and>
     list_all (\<lambda>b. list_all (\<lambda>oper. list_all (\<lambda>r. wide_type (bv_ty r)) (bo_results oper)) (bb_operations b)) (fb_blocks body)"

definition ssa_ready :: "(string \<Rightarrow> string) \<Rightarrow> program \<Rightarrow> bool" where
  "ssa_ready sha program \<longleftrightarrow>
     plain_declarations program \<and>
     list_all (\<lambda>f. fn_generic_params f = [] \<and>
         (case fn_body f of None \<Rightarrow> False | Some body \<Rightarrow> body_ready program body \<and> blocks_separated sha program f body))
       (pg_functions program)"

lemma ssa_ready_function:
  assumes "ssa_ready sha program" "f \<in> set (pg_functions program)"
  obtains body where "fn_generic_params f = []" "fn_body f = Some body" "body_ready program body"
    "blocks_separated sha program f body"
  using assms that by (auto simp: ssa_ready_def list_all_iff split: option.splits)

lemma call_matches:
  assumes related: "values_related ids vals svals" and canonical: "canonical_env program vals" and typed: "env_typed program declared vals"
    and adv: "advances base r s"
    and ready: "operation_ready program f declared ids oper" and made: "made_from sha json program f ids block oper instr"
    and kind: "bo_kind oper = Call callee_id name capabilities effects generic_args"
    and inject: "\<And>x y i. ids x = Some i \<Longrightarrow> ids y = Some i \<Longrightarrow> x = y"
    and valid: "program_valid digest program" and module: "lower_to_ssa sha json program = Some (mc_module mc)"
    and all: "ssa_ready sha program"
    and machine: "mc_program mc = program" and budget: "budgets_agree mc base (fr_request frame)"
    and admissible: "request_admissible program True (fr_request frame)"
    and call: "callee_matches sha json program mc call scall"
    and identity: "identity = operation_id (home_of program f) (fn_name f) block (bo_id oper)"
    and safe: "execute_operation lib program call frame identity oper vals r \<noteq> Panicked"
  shows "step_matches program ids base (execute_operation lib program call frame identity oper vals r)
    (execute_instruction mc scall types instr svals s)"
proof -
  obtain available where le: "available \<subseteq>\<^sub>m declared" and valid_op: "validate_operation program f oper available = []"
    using ready by (auto simp: operation_ready_def operation_checked_def)
  have ids: "set (bo_operands oper) \<subseteq> dom ids" "bv_id ` set (bo_results oper) \<subseteq> dom ids"
    using ready by (auto simp: operation_ready_def)
  have "validate_kind program f (bo_kind oper) oper available = Proceed []"
    using valid_op never_bails_clean by (auto simp: validate_operation_Nil)
  then have clean: "valid_call program f callee_id name capabilities effects generic_args oper available = []"
    by (simp add: kind)
  obtain g where g: "call_target program callee_id name = Some g"
    using clean by (auto simp: valid_call_def split: option.splits)
  note callee = call_target_callee [OF g]
  have in_program: "g \<in> set (pg_functions program)" and id: "identity_of_fn program g = callee_id"
    using callee by (auto simp: find_callee_def find_Some_iff identity_of_fn_def)
  obtain body where body: "fn_generic_params g = []" "fn_body g = Some body" "body_ready program body"
    by (rule ssa_ready_function [OF all in_program])
  obtain hir where hir: "lower_executable_body sha json program g body = Some hir"
    and found: "find (\<lambda>h. sf_semantic h = callee_id) (sm_functions (mc_module mc)) = Some (lower_body sha program g body hir)"
    by (rule lowered_module [OF valid module in_program body(1,2)]) (simp add: id)
  have present: "functions_by_identity program callee_id \<noteq> None"
  proof -
    have "callee_id \<in> dom (functions_by_identity program)"
      unfolding functions_by_identity_def dom_map_of_conv_image_fst
      using imageI [OF in_program, of "identity_of_fn program"] id by (simp add: image_image identity_of_fn_def)
    then show ?thesis by blast
  qed
  obtain cfg where params: "validate_parameters program g body = []"
    by (rule validate_body_Some [OF validated_functions [OF valid in_program body(2)]])
  have instr: "si_kind instr = SsaCall callee_id (map (capability_id (home_of program f) (fn_name f)) capabilities)"
    "si_inputs instr = map (the \<circ> ids) (bo_operands oper)"
    "si_outputs instr = map (lower_value (the \<circ> ids \<circ> bv_id)) (bo_results oper)"
    "instruction_identity instr = Some identity"
    using made kind by (simp_all add: made_from_def instruction_identity_def identity)
  have operands: "collect_operands oper vals = map_option (map fst) (collect_options (map svals (si_inputs instr)))"
  proof -
    have "collect_operands oper vals = collect_options (map (\<lambda>i. map_option fst (svals i)) (si_inputs instr))"
      unfolding collect_operands_def instr(2) related_collect [OF related ids(1)] ..
    also have "map (\<lambda>i. map_option fst (svals i)) (si_inputs instr) = map (map_option fst) (map svals (si_inputs instr))"
      by simp
    finally show ?thesis by (simp only: collect_options_map)
  qed
  have exec: "execute_operation lib program call frame identity oper vals r =
      exec_call program call frame identity callee_id name oper vals r"
    "execute_instruction mc scall types instr svals s = ssa_call mc scall types instr callee_id svals s"
    by (simp_all add: execute_operation_def kind execute_instruction_def instr(1))
  show ?thesis
  proof (cases "collect_options (map svals (si_inputs instr))")
    case None
    with operands adv show ?thesis
      by (simp add: exec exec_call_def ssa_call_def machine found present ssa_reject_def del: not_None_eq)
  next
    case (Some taken)
    have budgets: "mc_budget mc - xr_steps s = rq_step_budget (fr_request frame) - xr_steps r"
      using budget adv by (simp add: budgets_agree_def advances_def)
    show ?thesis
    proof (cases "rq_step_budget (fr_request frame) - xr_steps r = 0")
      case True
      with Some operands adv budgets show ?thesis
        by (simp add: exec exec_call_def ssa_call_def machine found present ssa_reject_def Let_def del: not_None_eq diff_is_0_eq)
    next
      case remaining: False
      let ?request = "nested_request program (fr_request frame) (Some g) name (map fst taken)
        (rq_step_budget (fr_request frame) - xr_steps r)"
      define arguments where "arguments = map (\<lambda>(v, checked).
          (v, (mc_reuse mc \<and> arguments_type_match program types (si_inputs instr) (lower_body sha program g body hir)) \<and> checked)) taken"
      have args: "map fst arguments = map fst taken" by (simp add: arguments_def comp_def case_prod_unfold)
      have fit: "arguments_fit program body (map fst taken)"
        by (rule call_arguments_fit [OF clean g body(1) params env_typed_le [OF typed le] canonical])
          (use operands Some in \<open>simp add: collect_operands_def\<close>)
      have nested_admissible: "request_admissible program True ?request"
        using admissible remaining in_program
        by (auto simp: request_admissible_def nested_request_def list_ex_iff identity_namespace_def split: option.splits)
      have nested_budget: "budgets_agree mc s ?request"
        using budget adv remaining by (simp add: budgets_agree_def advances_def nested_request_def call_depth_limit_def)
      have "\<exists>nested out. call (trusted_marks frame (Some g) (bo_operands oper)) ?request = Some nested \<and>
          scall (lower_body sha program g body hir) arguments s = Some out \<and> answer_matches program s nested out"
        using call [unfolded callee_matches_def, rule_format, of ?request g body hir arguments s]
          find_callee_function [OF callee] body(2) hir args fit nested_admissible nested_budget
        by (simp add: nested_request_def)
      then obtain nested out where
        nested: "call (trusted_marks frame (Some g) (bo_operands oper)) ?request = Some nested"
        and out: "scall (lower_body sha program g body hir) arguments s = Some out"
        and answer: "answer_matches program s nested out" by blast
      obtain s' returned where pair: "out = (s', returned)" by (cases out)
      let ?merged = "r\<lparr>xr_steps := xr_steps r + xr_steps nested, xr_effects := xr_effects r @ xr_effects nested\<rparr>"
      have adv': "advances base ?merged s'"
        using adv answer by (cases returned) (simp_all add: pair advances_def)
      have hir_side: "exec_call program call frame identity callee_id name oper vals r =
          (if xr_status nested \<noteq> Returned
           then Stop (?merged\<lparr>xr_status := xr_status nested, xr_failure := xr_failure nested\<rparr>)
           else (case xr_returned nested of
                   [] \<Rightarrow> Stop (fail_result InvalidRequest (Some identity) ?merged)
                 | v # _ \<Rightarrow> store oper v vals ?merged))"
        using operands Some callee remaining nested by (simp add: exec_call_def Let_def)
      have ssa_side: "ssa_call mc scall types instr callee_id svals s =
          (case returned of
             None \<Rightarrow> SsaStop s'
           | Some [] \<Rightarrow> ssa_reject InvalidRequest instr s'
           | Some (v # _) \<Rightarrow> SsaContinue (ssa_store (si_outputs instr) v svals) s')"
        using Some remaining budgets out
        by (simp add: ssa_call_def machine found present Let_def arguments_def pair del: not_None_eq split: option.splits list.splits)
      show ?thesis
      proof (cases returned)
        case None
        with answer adv' show ?thesis
          by (simp add: exec hir_side ssa_side pair advances_def)
      next
        case (Some vs)
        with answer have vs: "xr_status nested = Returned" "xr_returned nested = vs" "list_all (canonical_value program) vs"
          by (simp_all add: pair)
        show ?thesis
        proof (cases vs)
          case Nil
          with Some vs adv' show ?thesis by (simp add: exec hir_side ssa_side ssa_reject_def)
        next
          case (Cons v rest)
          have "store oper v vals ?merged \<noteq> Panicked" using safe vs Cons by (simp add: exec hir_side)
          from store_matches [OF related canonical _ adv' this ids(2) inject] vs Cons Some show ?thesis
            by (simp add: exec hir_side ssa_side instr(3))
        qed
      qed
    qed
  qed
qed


section \<open>Blocks of instructions\<close>

text \<open>What holds for a whole run, and for a frame of the function \<open>f\<close>.\<close>

definition machine_matches ::
  "(semantic_id \<times> string \<times> cfg_block list \<times> string list \<Rightarrow> string) \<Rightarrow> (string \<Rightarrow> string) \<Rightarrow> (effect \<Rightarrow> string) \<Rightarrow>
   float_library \<Rightarrow> program \<Rightarrow> ssa_machine \<Rightarrow> bool" where
  "machine_matches digest sha json lib program mc \<longleftrightarrow>
     program_valid digest program \<and> nominals_ok program \<and> program_in_machine program \<and> ssa_ready sha program \<and>
     lower_to_ssa sha json program = Some (mc_module mc) \<and>
     mc_program mc = program \<and> mc_lib mc = lib \<and> mc_sha mc = sha \<and> mc_json mc = json"

definition frame_matches :: "program \<Rightarrow> ssa_machine \<Rightarrow> fn \<Rightarrow> execution_result \<Rightarrow> frame \<Rightarrow> bool" where
  "frame_matches program mc f base frame \<longleftrightarrow>
     f \<in> set (pg_functions program) \<and> fn_body f = Some (fr_body frame) \<and>
     fr_namespace frame = home_of program f \<and> fr_function frame = fn_name f \<and> fr_record frame = mc_record mc \<and>
     budgets_agree mc base (fr_request frame) \<and> request_admissible program True (fr_request frame)"

abbreviation frame_ids :: "program \<Rightarrow> fn \<Rightarrow> frame \<Rightarrow> value_ids" where
  "frame_ids program f frame \<equiv> body_ids (home_of program f) (fn_name f) (fr_body frame)"

lemma operation_matches:
  assumes machine: "machine_matches digest sha json lib program mc" and frame: "frame_matches program mc f base frame"
    and call: "callee_matches sha json program mc call scall" "callee_safe program call"
    and related: "values_related (frame_ids program f frame) vals svals" and canonical: "canonical_env program vals"
    and typed: "env_typed program (declared_types (fr_body frame)) vals" and adv: "advances base r s"
    and ready: "operation_ready program f (declared_types (fr_body frame)) (frame_ids program f frame) oper"
    and made: "made_from sha json program f (frame_ids program f frame) block oper instr"
  shows "step_matches program (frame_ids program f frame) base
      (execute_operation lib program call frame (operation_id (fr_namespace frame) (fr_function frame) block (bo_id oper)) oper vals r)
      (execute_instruction mc scall types instr svals s) \<and>
    step_safe program (declared_types (fr_body frame))
      (execute_operation lib program call frame (operation_id (fr_namespace frame) (fr_function frame) block (bo_id oper)) oper vals r)"
proof -
  let ?identity = "operation_id (fr_namespace frame) (fr_function frame) block (bo_id oper)"
  have in_machine: "body_in_machine (fr_body frame)"
    using machine frame by (auto simp: machine_matches_def frame_matches_def program_in_machine_def list_all_iff)
  note small = body_in_machine_small [OF in_machine]
  have checked: "in_lane (bo_kind oper)" "operation_checked program f (declared_types (fr_body frame)) oper"
    using ready by (simp_all add: operation_ready_def)
  have nominal: "nominals_ok program" using machine by (simp add: machine_matches_def)
  have safe: "step_safe program (declared_types (fr_body frame)) (execute_operation lib program call frame ?identity oper vals r)"
    by (rule execute_operation_safe [OF typed call(2) nominal small checked])
  then have quiet: "execute_operation lib program call frame ?identity oper vals r \<noteq> Panicked" by auto
  have identity: "?identity = operation_id (home_of program f) (fn_name f) block (bo_id oper)"
    using frame by (simp add: frame_matches_def)
  show ?thesis
  proof (cases "is_pure (bo_kind oper)")
    case True
    have "step_matches program (frame_ids program f frame) base (execute_operation lib program call frame ?identity oper vals r)
        (execute_instruction mc scall types instr svals s)"
      by (rule pure_matches [OF related canonical typed nominal small adv ready made True body_ids_inject _ _ quiet])
        (use machine in \<open>simp_all add: machine_matches_def\<close>)
    with safe show ?thesis by (rule conjI [rotated])
  next
    case False
    then consider callee_id name capabilities effects generic_args where "bo_kind oper = Call callee_id name capabilities effects generic_args"
      | eff capability where "bo_kind oper = Effect eff capability"
      by (cases "bo_kind oper") auto
    then show ?thesis
    proof cases
      case 1
      have "step_matches program (frame_ids program f frame) base (execute_operation lib program call frame ?identity oper vals r)
          (execute_instruction mc scall types instr svals s)"
        by (rule call_matches [where digest = digest, OF related canonical typed adv ready made 1 body_ids_inject _ _ _ _ _ _ call(1) identity quiet])
          (use machine frame in \<open>simp_all add: machine_matches_def frame_matches_def\<close>)
      with safe show ?thesis by (rule conjI [rotated])
    next
      case 2
      have "step_matches program (frame_ids program f frame) base (execute_operation lib program call frame ?identity oper vals r)
          (execute_instruction mc scall types instr svals s)"
        by (rule effect_matches [where digest = digest, OF related canonical adv ready made 2 _ _ _ _ _ _ identity])
          (use machine frame in \<open>simp_all add: machine_matches_def frame_matches_def\<close>)
      with safe show ?thesis by (rule conjI [rotated])
    qed
  qed
qed

lemma operations_match:
  assumes machine: "machine_matches digest sha json lib program mc" and frame: "frame_matches program mc f base frame"
    and call: "callee_matches sha json program mc call scall" "callee_safe program call"
    and related: "values_related (frame_ids program f frame) vals svals" and canonical: "canonical_env program vals"
    and typed: "env_typed program (declared_types (fr_body frame)) vals" and adv: "advances base r s"
    and ready: "\<forall>oper\<in>set opers. operation_ready program f (declared_types (fr_body frame)) (frame_ids program f frame) oper"
    and made: "list_all2 (made_from sha json program f (frame_ids program f frame) block) opers instrs"
  shows "step_matches program (frame_ids program f frame) base (run_operations lib program call frame block opers vals r)
      (run_instructions mc scall types instrs svals s)"
  using made related canonical typed adv ready
proof (induction opers instrs arbitrary: vals svals r s rule: list_all2_induct)
  case Nil
  then show ?case by simp
next
  case (Cons oper opers instr instrs)
  let ?identity = "operation_id (fr_namespace frame) (fr_function frame) block (bo_id oper)"
  have budget: "mc_budget mc = xr_steps base + rq_step_budget (fr_request frame)"
    using frame by (simp add: frame_matches_def budgets_agree_def)
  show ?case
  proof (cases "consume_step (rq_step_budget (fr_request frame)) r")
    case None
    with advances_consume(1) [OF Cons.prems(4) budget] Cons.prems(4) show ?thesis by (simp add: Let_def ssa_reject_def)
  next
    case (Some r1)
    then obtain s1 where s1: "consume_step (mc_budget mc) s = Some s1" and adv1: "advances base r1 s1"
      using advances_consume(2) [OF Cons.prems(4) budget] by blast
    have "operation_ready program f (declared_types (fr_body frame)) (frame_ids program f frame) oper" using Cons.prems(5) by simp
    note first = operation_matches [OF machine frame call Cons.prems(1-3) adv1 this Cons.hyps(1), of types]
    show ?thesis
    proof (cases "execute_operation lib program call frame ?identity oper vals r1")
      case (Continue vals2 r2)
      then obtain svals2 s2 where ssa: "execute_instruction mc scall types instr svals s1 = SsaContinue svals2 s2"
        and m: "values_related (frame_ids program f frame) vals2 svals2" "canonical_env program vals2" "advances base r2 s2"
        using first by (cases "execute_instruction mc scall types instr svals s1") auto
      have "env_typed program (declared_types (fr_body frame)) vals2" using first Continue by simp
      with Cons.IH [of vals2 "mark_outputs (si_outputs instr) svals2" r2 s2] m Cons.prems(5) show ?thesis
        by (simp add: Let_def Some s1 Continue ssa related_marks)
    next
      case (Stop r2)
      then obtain s2 where "execute_instruction mc scall types instr svals s1 = SsaStop s2" "advances base r2 s2" "xr_status s2 = xr_status r2"
        using first by (cases "execute_instruction mc scall types instr svals s1") auto
      then show ?thesis by (simp add: Let_def Some s1 Stop)
    next
      case Panicked
      with first show ?thesis by simp
    qed
  qed
qed


section \<open>Terminators\<close>

lemma related_assign:
  assumes "values_related ids vals svals" "set xs \<subseteq> dom ids" "length vs = length xs"
    and "map (\<lambda>(i, v, b). (i, v)) incoming = zip (map (the \<circ> ids) xs) vs"
    and inject: "\<And>x y i. ids x = Some i \<Longrightarrow> ids y = Some i \<Longrightarrow> x = y"
  shows "values_related ids (vals ++ map_of (rev (zip xs vs))) (svals ++ map_of (rev incoming))"
  using assms(1-4)
proof (induction xs arbitrary: vals svals vs incoming)
  case (Cons x xs)
  then obtain v vs' where vs: "vs = v # vs'" by (cases vs) auto
  with Cons.prems(4) obtain entry rest where cons: "incoming = entry # rest" by (cases incoming) auto
  obtain i0 v0 b where entry: "entry = (i0, v0, b)" by (cases entry)
  have incoming: "incoming = (the (ids x), v, b) # rest" and rest: "map (\<lambda>(i, v, b). (i, v)) rest = zip (map (the \<circ> ids) xs) vs'"
    using Cons.prems(4) by (simp_all add: vs cons entry comp_def)
  obtain i where i: "ids x = Some i" using Cons.prems(2) by auto
  have "values_related ids (vals(x \<mapsto> v)) (svals(i \<mapsto> (v, b)))"
    by (rule related_update [OF Cons.prems(1) i]) (rule inject [OF _ i])
  then have "values_related ids (vals(x \<mapsto> v) ++ map_of (rev (zip xs vs'))) (svals(i \<mapsto> (v, b)) ++ map_of (rev rest))"
    by (rule Cons.IH [OF _ _ _ rest]) (use Cons.prems(2,3) vs in auto)
  then show ?case by (simp add: vs incoming i del: fun_upd_apply)
qed simp

lemma canonical_assign:
  assumes "canonical_env program vals" "list_all (canonical_value program) vs"
  shows "canonical_env program (vals ++ map_of (rev (zip xs vs)))"
  unfolding canonical_env_def
proof (intro allI impI)
  fix x v assume v: "(vals ++ map_of (rev (zip xs vs))) x = Some v"
  show "canonical_value program v"
  proof (cases "map_of (rev (zip xs vs)) x")
    case None
    with v assms(1) show ?thesis by (auto simp: map_add_def dest: canonical_envD)
  next
    case (Some w)
    then have "(x, w) \<in> set (zip xs vs)" using map_of_SomeD by fastforce
    with assms(2) Some v show ?thesis by (auto simp: list_all_iff map_add_def dest: set_zip_rightD)
  qed
qed

lemma canonical_collect:
  "canonical_env program vals \<Longrightarrow> collect_options (map vals xs) = Some vs \<Longrightarrow> list_all (canonical_value program) vs"
  using collected_in(2) [of vals xs vs] canonical_envD by (fastforce simp: list_all_iff)

text \<open>The arguments of a jump, each with the parameter it is for.\<close>

lemma collect_incoming:
  assumes related: "values_related ids vals svals" and xs: "set xs \<subseteq> dom ids" and len: "length ps = length xs"
  shows "map_option (map (\<lambda>(i, v, b). (i, v))) (collect_options (map (\<lambda>(argument, parameter).
      map_option (\<lambda>(v, checked). (sv_identity parameter, v, mark argument parameter checked)) (svals argument))
        (zip (map (the \<circ> ids) xs) ps))) =
    map_option (zip (map sv_identity ps)) (collect_options (map vals xs))"
  using xs len
proof (induction xs arbitrary: ps)
  case (Cons x xs)
  then obtain p ps' where ps: "ps = p # ps'" by (cases ps) auto
  obtain i where i: "ids x = Some i" using Cons.prems(1) by auto
  with related have here: "map_option fst (svals i) = vals x" by (simp add: values_related_def)
  have "set xs \<subseteq> dom ids" "length ps' = length xs" using Cons.prems ps by auto
  note rest = Cons.IH [OF this]
  let ?rest = "collect_options (map (\<lambda>(argument, parameter).
      map_option (\<lambda>(v, checked). (sv_identity parameter, v, mark argument parameter checked)) (svals argument))
        (zip (map (the \<circ> ids) xs) ps'))"
  show ?case
    using rest here [symmetric]
    by (cases "svals i"; cases ?rest; cases "collect_options (map vals xs)") (auto simp: ps i)
qed simp

fun jump_matches :: "program \<Rightarrow> (string \<Rightarrow> semantic_id) \<Rightarrow> value_ids \<Rightarrow> execution_result \<Rightarrow> execution_result \<Rightarrow> execution_result \<Rightarrow> jump \<Rightarrow> ssa_jump \<Rightarrow> bool" where
  "jump_matches program target ids base r s (Jump i vals) (SsaJump j svals) \<longleftrightarrow>
     j = target i \<and> values_related ids vals svals \<and> canonical_env program vals"
| "jump_matches program target ids base r s (Finish r') (SsaFinish s' returned) \<longleftrightarrow> answer_matches program base r' (s', returned)"
| "jump_matches program target ids base r s _ _ \<longleftrightarrow> False"

lemma assign_matches:
  assumes related: "values_related ids vals svals" and canonical: "canonical_env program vals"
    and known: "set xs \<subseteq> dom ids" and inject: "\<And>x y i. ids x = Some i \<Longrightarrow> ids y = Some i \<Longrightarrow> x = y"
    and block: "block_map body i = Some block" "ssa_block_map sf j = Some sb"
    and params: "sb_parameters sb = map (lower_value (the \<circ> ids \<circ> bv_id)) (bb_parameters block)"
      "bv_id ` set (bb_parameters block) \<subseteq> dom ids"
  shows "case assign_block_arguments body i xs vals of
      None \<Rightarrow> ssa_assign_block_arguments mc sf types j (map (the \<circ> ids) xs) svals = None
    | Some vals' \<Rightarrow> \<exists>svals'. ssa_assign_block_arguments mc sf types j (map (the \<circ> ids) xs) svals = Some svals' \<and>
        values_related ids vals' svals' \<and> canonical_env program vals'"
proof (cases "length (bb_parameters block) = length xs")
  case False
  with block params(1) show ?thesis by (simp add: assign_block_arguments_def ssa_assign_block_arguments_def)
next
  case True
  let ?incoming = "collect_options (map (\<lambda>(argument, parameter).
      map_option (\<lambda>(v, checked). (sv_identity parameter, v,
          mc_reuse mc \<and> types argument \<noteq> None \<and> types argument = types (sv_identity parameter) \<and> checked)) (svals argument))
        (zip (map (the \<circ> ids) xs) (sb_parameters sb)))"
  have ssa: "ssa_assign_block_arguments mc sf types j (map (the \<circ> ids) xs) svals =
      map_option (\<lambda>incoming. svals ++ map_of (rev incoming)) ?incoming"
    using block(2) params(1) True by (simp add: ssa_assign_block_arguments_def split: option.splits)
  have hir: "assign_block_arguments body i xs vals =
      map_option (\<lambda>resolved. vals ++ map_of (rev (zip (map bv_id (bb_parameters block)) resolved))) (collect_options (map vals xs))"
    using block(1) True by (simp add: assign_block_arguments_def split: option.splits)
  have same: "map_option (map (\<lambda>(i, v, b). (i, v))) ?incoming =
      map_option (zip (map sv_identity (sb_parameters sb))) (collect_options (map vals xs))"
    by (rule collect_incoming [OF related known]) (simp add: params(1) True)
  show ?thesis
  proof (cases "collect_options (map vals xs)")
    case None
    with same have "?incoming = None" by (cases ?incoming) simp_all
    then show ?thesis unfolding ssa hir None by simp
  next
    case (Some vs)
    then obtain incoming where incoming: "?incoming = Some incoming"
      "map (\<lambda>(i, v, b). (i, v)) incoming = zip (map sv_identity (sb_parameters sb)) vs"
      using same by (cases ?incoming) simp_all
    have "map sv_identity (sb_parameters sb) = map (the \<circ> ids) (map bv_id (bb_parameters block))"
      by (simp add: params(1) lower_value_def)
    with incoming(2) have "values_related ids (vals ++ map_of (rev (zip (map bv_id (bb_parameters block)) vs))) (svals ++ map_of (rev incoming))"
      using params(2) collect_values(1) [OF Some] True by (intro related_assign [OF related _ _ _ inject]) simp_all
    with canonical_assign [OF canonical canonical_collect [OF canonical Some]] show ?thesis
      unfolding ssa hir incoming(1) Some by simp
  qed
qed
lemma dom_declared_types: "dom (declared_types body) = set (body_names body)"
proof -
  have insert: "dom (snd (fold (insert_definition code block) vs state)) = dom (snd state) \<union> bv_id ` set vs" for code block vs state
    by (induction vs arbitrary: state) (auto simp: insert_definition_def simp del: fun_upd_apply)
  have own: "dom (snd (block_definitions block state)) = dom (snd state) \<union> bv_id ` set (block_values block)" for block state
    by (simp only: block_definitions_def insert block_values_def set_append image_Un Un_assoc)
  have "dom (snd (fold block_definitions blocks state)) = dom (snd state) \<union> bv_id ` set (concat (map block_values blocks))" for blocks state
    by (induction blocks arbitrary: state)
      (simp_all only: fold_simps own concat.simps list.map set_append image_Un Un_assoc list.set image_empty Un_empty_right)
  moreover have params: "dom (parameter_definitions body) = bp_id ` set (fb_parameters body)"
    using parameter_definitions_dom by blast
  ultimately have "dom (snd (body_definitions body)) = bp_id ` set (fb_parameters body) \<union> bv_id ` set (concat (map block_values (fb_blocks body)))"
    using params by (simp only: body_definitions_def snd_conv)
  moreover have "dom (declared_types body) = dom (snd (body_definitions body))" by (auto simp: declared_types_def)
  ultimately show ?thesis by (simp add: body_names_def)
qed

text \<open>A frame, the body it runs and the lowered function.\<close>

definition lowered_frame ::
  "(semantic_id \<times> string \<times> cfg_block list \<times> string list \<Rightarrow> string) \<Rightarrow> (string \<Rightarrow> string) \<Rightarrow> (effect \<Rightarrow> string) \<Rightarrow>
   program \<Rightarrow> fn \<Rightarrow> frame \<Rightarrow> ssa_function \<Rightarrow> bool" where
  "lowered_frame digest sha json program f frame sf \<longleftrightarrow>
     validate_body digest program f (fr_body frame) = Some [] \<and> body_ready program (fr_body frame) \<and>
     body_in_machine (fr_body frame) \<and>
     blocks_separated sha program f (fr_body frame) \<and> body_made sha json program f (fr_body frame) sf"

lemma lowered_frame_operation:
  assumes "lowered_frame digest sha json program f frame sf" "block \<in> set (fb_blocks (fr_body frame))" "oper \<in> set (bb_operations block)"
  shows "operation_ready program f (declared_types (fr_body frame)) (frame_ids program f frame) oper"
proof -
  have checked: "operation_checked program f (declared_types (fr_body frame)) oper"
    using validated_body_checked assms by (auto simp: lowered_frame_def body_checked_def block_checked_def)
  then have "set (bo_operands oper) \<subseteq> dom (declared_types (fr_body frame))"
    "bv_id ` set (bo_results oper) \<subseteq> dom (declared_types (fr_body frame))"
    by (auto simp: operation_checked_def dom_def dest: map_leD) (metis map_leD)
  with checked assms show ?thesis
    by (auto simp: operation_ready_def dom_body_ids dom_declared_types lowered_frame_def body_ready_def body_in_machine_def list_all_iff)
qed

lemma lowered_frame_block:
  assumes low: "lowered_frame digest sha json program f frame sf" and i: "i \<in> block_ids (fr_body frame)"
  obtains block sb where "block_map (fr_body frame) i = Some block" "block \<in> set (fb_blocks (fr_body frame))"
    and "ssa_block_map sf (ssa_block_identity sha (home_of program f) (fn_name f) i) = Some sb"
    and "block_made sha json program f (frame_ids program f frame) block sb"
    and "bv_id ` set (bb_parameters block) \<subseteq> dom (frame_ids program f frame)"
proof -
  have "i \<in> dom (block_map (fr_body frame))" using i by (simp add: dom_block_map block_ids_def)
  then obtain block where block: "block_map (fr_body frame) i = Some block" by blast
  note here = conjunct1 [OF block_map_in [OF block]]
  have made: "body_made sha json program f (fr_body frame) sf" and apart: "blocks_separated sha program f (fr_body frame)"
    using low by (auto simp: lowered_frame_def)
  obtain sb where "ssa_block_map sf (ssa_block_identity sha (home_of program f) (fn_name f) i) = Some sb"
    and "block_made sha json program f (frame_ids program f frame) block sb"
    by (rule made_block [OF made apart block])
  moreover have "bv_id ` set (bb_parameters block) \<subseteq> dom (frame_ids program f frame)"
    using here by (auto simp: dom_body_ids body_names_def block_values_def)
  ultimately show thesis using block here by (intro that)
qed

lemma terminator_matches:
  assumes low: "lowered_frame digest sha json program f frame sf"
    and block: "block \<in> set (fb_blocks (fr_body frame))"
    and made: "block_made sha json program f (frame_ids program f frame) block sb"
    and related: "values_related (frame_ids program f frame) vals svals" and canonical: "canonical_env program vals"
    and adv: "advances base r s"
  shows "jump_matches program (ssa_block_identity sha (home_of program f) (fn_name f)) (frame_ids program f frame) base r s
      (exec_terminator (fr_body frame) (bb_terminator block) vals r) (ssa_exec_terminator mc sf types sb svals s)"
    and "exec_terminator (fr_body frame) (bb_terminator block) vals r = Jump i vals' \<Longrightarrow> i \<in> block_ids (fr_body frame)"
proof -
  let ?ids = "frame_ids program f frame" and ?target = "ssa_block_identity sha (home_of program f) (fn_name f)"
  have "block_checked program f (fr_body frame) (declared_types (fr_body frame)) block"
    using validated_body_checked low block by (auto simp: lowered_frame_def body_checked_def)
  then obtain available where le: "available \<subseteq>\<^sub>m declared_types (fr_body frame)"
    and valid: "validate_terminator (bb_terminator block) available (block_ids (fr_body frame))
        (map_option bb_parameters \<circ> block_map (fr_body frame)) = []"
    by (auto simp: block_checked_def)
  have "dom available \<subseteq> dom ?ids"
    unfolding dom_body_ids dom_declared_types [symmetric] using le by (auto dest: map_leD)
  then have known: "set (terminator_values (bb_terminator block)) \<subseteq> dom ?ids"
    using validate_terminator_defined [OF valid] by blast
  have ending: "sb_terminator sb = lower_terminator ?target ?ids (bb_terminator block)"
    using made by (simp add: block_made_def)
  have resolve: "resolve_ids ?ids xs = map (the \<circ> ?ids) xs" if "set xs \<subseteq> dom ?ids" for xs
    using that by (rule resolve_ids_known [OF map_le_refl])
  have jump: "jump_matches program ?target ?ids base r s
      (case assign_block_arguments (fr_body frame) j xs vals of
         None \<Rightarrow> Finish (fail_result InvalidRequest None r) | Some vals' \<Rightarrow> Jump j vals')
      (case ssa_assign_block_arguments mc sf types (?target j) (map (the \<circ> ?ids) xs) svals of
         None \<Rightarrow> SsaFinish (fail_result InvalidRequest (sb_semantic sb) s) None | Some svals' \<Rightarrow> SsaJump (?target j) svals')"
    if j: "j \<in> block_ids (fr_body frame)" and xs: "set xs \<subseteq> dom ?ids" for j xs
  proof -
    obtain block' sb' where b: "block_map (fr_body frame) j = Some block'" "ssa_block_map sf (?target j) = Some sb'"
      and m: "block_made sha json program f ?ids block' sb'" and p: "bv_id ` set (bb_parameters block') \<subseteq> dom ?ids"
      by (rule lowered_frame_block [OF low j])
    have "sb_parameters sb' = map (lower_value (the \<circ> ?ids \<circ> bv_id)) (bb_parameters block')" using m by (simp add: block_made_def)
    note parameters = this
    have "case assign_block_arguments (fr_body frame) j xs vals of
        None \<Rightarrow> ssa_assign_block_arguments mc sf types (?target j) (map (the \<circ> ?ids) xs) svals = None
      | Some vals' \<Rightarrow> \<exists>svals'. ssa_assign_block_arguments mc sf types (?target j) (map (the \<circ> ?ids) xs) svals = Some svals' \<and>
          values_related ?ids vals' svals' \<and> canonical_env program vals'"
      by (rule assign_matches [OF related canonical xs _ b parameters p]) (erule (1) body_ids_inject)
    with adv
    show ?thesis by (auto split: option.splits)
  qed
  show "jump_matches program ?target ?ids base r s
      (exec_terminator (fr_body frame) (bb_terminator block) vals r) (ssa_exec_terminator mc sf types sb svals s)"
  proof (cases "bb_terminator block")
    case (Return returned)
    have "collect_options (map (\<lambda>i. map_option fst (svals i)) (map (the \<circ> ?ids) returned)) = collect_options (map vals returned)"
      using known Return by (simp only: related_collect [OF related] terminator_values.simps)
    then show ?thesis
      using Return known resolve adv canonical_collect [OF canonical]
      by (auto simp: exec_terminator_def ssa_exec_terminator_def ending Let_def advances_def split: option.splits)
  next
    case (Branch j xs)
    with valid jump [of j xs] known resolve show ?thesis
      by (simp add: exec_terminator_def ssa_exec_terminator_def ending Let_def validate_terminator_def check_target_def)
  next
    case (ConditionalBranch condition j1 xs1 j2 xs2)
    then obtain c where c: "?ids condition = Some c" using known by auto
    have "Option.bind (svals c) (\<lambda>(v, _). the_boolean v) = Option.bind (vals condition) the_boolean"
    proof -
      have "vals condition = map_option fst (svals c)" using related c by (simp add: values_related_def)
      then show ?thesis by (cases "svals c") auto
    qed
    with ConditionalBranch valid jump [of j1 xs1] jump [of j2 xs2] known resolve c adv show ?thesis
      by (auto simp: exec_terminator_def ssa_exec_terminator_def ending Let_def validate_terminator_def check_target_def split: option.splits bool.splits)
  next
    case (Failure mode)
    with adv show ?thesis by (simp add: exec_terminator_def ssa_exec_terminator_def ending Let_def)
  qed
  show "i \<in> block_ids (fr_body frame)" if "exec_terminator (fr_body frame) (bb_terminator block) vals r = Jump i vals'"
    using that valid
    by (cases "bb_terminator block")
      (auto simp: exec_terminator_def Let_def validate_terminator_def check_target_def split: option.splits bool.splits if_splits)
qed

lemma terminator_typed:
  assumes low: "lowered_frame digest sha json program f frame sf" and block: "block \<in> set (fb_blocks (fr_body frame))"
    and typed: "env_typed program (declared_types (fr_body frame)) vals"
    and jump: "exec_terminator (fr_body frame) (bb_terminator block) vals r = Jump i vals'"
  shows "env_typed program (declared_types (fr_body frame)) vals'"
proof -
  have body: "body_checked program f (fr_body frame)" using validated_body_checked low by (auto simp: lowered_frame_def)
  then obtain available where le: "available \<subseteq>\<^sub>m declared_types (fr_body frame)"
    and ends: "validate_terminator (bb_terminator block) available (block_ids (fr_body frame))
        (map_option bb_parameters \<circ> block_map (fr_body frame)) = []"
      "validate_return_types (bb_terminator block) program f available = []"
    using block by (auto simp: body_checked_def block_checked_def)
  have "declared_types (fr_body frame) (bv_id v) = Some (bv_ty v)"
    if "b \<in> set (fb_blocks (fr_body frame))" "v \<in> set (bb_parameters b)" for b v
    using body that by (auto simp: body_checked_def block_checked_def)
  from exec_terminator_safe [OF typed le ends this, where result = r] jump show ?thesis by (simp add: jump_safe_def)
qed

lemma blocks_match:
  assumes machine: "machine_matches digest sha json lib program mc"
    and call: "callee_matches sha json program mc call scall" "callee_safe program call"
    and frame: "frame_matches program mc f base frame" and low: "lowered_frame digest sha json program f frame sf"
  shows "current \<in> block_ids (fr_body frame) \<Longrightarrow> values_related (frame_ids program f frame) vals svals \<Longrightarrow>
    canonical_env program vals \<Longrightarrow> env_typed program (declared_types (fr_body frame)) vals \<Longrightarrow> advances base r s \<Longrightarrow>
    \<exists>r' out. run_blocks lib program call frame current vals r = Some r' \<and>
      ssa_run_blocks mc scall sf (ssa_block_identity sha (home_of program f) (fn_name f) current) svals s = Some out \<and>
      answer_matches program base r' out"
  using machine call frame low
proof (induction lib program call frame current vals r arbitrary: svals s rule: run_blocks.induct)
  case (1 lib program call frame current vals r)
  note prems = 1(2-6) and machine = 1(7) and call = 1(8,9) and frame = 1(10) and low = 1(11)
  let ?ids = "frame_ids program f frame" and ?target = "ssa_block_identity sha (home_of program f) (fn_name f)"
  let ?types = "ssa_value_types program sf" and ?budget = "rq_step_budget (fr_request frame)"
  obtain block sb where block: "block_map (fr_body frame) current = Some block" "block \<in> set (fb_blocks (fr_body frame))"
    and sb: "ssa_block_map sf (?target current) = Some sb" and made: "block_made sha json program f ?ids block sb"
    by (rule lowered_frame_block [OF low prems(1)])
  have mc: "mc_program mc = program" "mc_budget mc = xr_steps base + ?budget"
    using machine frame by (simp_all add: machine_matches_def frame_matches_def budgets_agree_def)
  have ready: "\<forall>oper\<in>set (bb_operations block). operation_ready program f (declared_types (fr_body frame)) ?ids oper"
    using lowered_frame_operation [OF low block(2)] by blast
  have instrs: "list_all2 (made_from sha json program f ?ids (bb_id block)) (bb_operations block) (sb_instructions sb)"
    using made by (simp add: block_made_def)
  note body = operations_match [OF machine frame call prems(2-5) ready instrs, of ?types]
  have safe: "step_safe program (declared_types (fr_body frame)) (run_operations lib program call frame (bb_id block) (bb_operations block) vals r)"
    by (rule run_operations_safe [OF prems(4) call(2)])
      (use machine ready low body_in_machine_small in \<open>auto simp: machine_matches_def operation_ready_def lowered_frame_def\<close>)
  show ?case
  proof (cases "run_operations lib program call frame (bb_id block) (bb_operations block) vals r")
    case (Continue vals1 r1)
    then obtain svals1 s1 where ssa: "run_instructions mc scall ?types (sb_instructions sb) svals s = SsaContinue svals1 s1"
      and m: "values_related ?ids vals1 svals1" "canonical_env program vals1" "advances base r1 s1"
      using body by (cases "run_instructions mc scall ?types (sb_instructions sb) svals s") auto
    show ?thesis
    proof (cases "consume_step ?budget r1")
      case None
      with advances_consume(1) [OF m(3) mc(2)] m(3) show ?thesis
        by (subst run_blocks.simps, subst ssa_run_blocks.simps) (simp add: block sb mc(1) Continue ssa)
    next
      case (Some r2)
      then obtain s2 where s2: "consume_step (mc_budget mc) s1 = Some s2" and adv2: "advances base r2 s2"
        using advances_consume(2) [OF m(3) mc(2)] by blast
      note ends = terminator_matches(1) [OF low block(2) made m(1,2) adv2, where mc = mc and types = ?types]
        terminator_matches(2) [OF low block(2) made m(1,2) adv2]
      show ?thesis
      proof (cases "exec_terminator (fr_body frame) (bb_terminator block) vals1 r2")
        case (Jump target vals2)
        then obtain svals2 where jump: "ssa_exec_terminator mc sf ?types sb svals1 s2 = SsaJump (?target target) svals2"
          and m2: "values_related ?ids vals2 svals2" "canonical_env program vals2"
          using ends(1) by (cases "ssa_exec_terminator mc sf ?types sb svals1 s2") auto
        have typed2: "env_typed program (declared_types (fr_body frame)) vals2"
          by (rule terminator_typed [OF low block(2) _ Jump]) (use Continue safe in simp)
        from 1(1) [OF block(1) Continue Some Jump ends(2) [OF Jump] m2 typed2 adv2 machine call frame low]
        show ?thesis
          by (subst run_blocks.simps, subst ssa_run_blocks.simps) (simp add: block sb mc(1) Continue ssa Some s2 Jump jump)
      next
        case (Finish finished)
        then obtain s' returned where "ssa_exec_terminator mc sf ?types sb svals1 s2 = SsaFinish s' returned"
          "answer_matches program base finished (s', returned)"
          using ends(1) by (cases "ssa_exec_terminator mc sf ?types sb svals1 s2") auto
        then show ?thesis
          by (subst run_blocks.simps, subst ssa_run_blocks.simps) (simp add: block sb mc(1) Continue ssa Some s2 Finish)
      qed
    qed
  next
    case (Stop stopped)
    then obtain s1 where "run_instructions mc scall ?types (sb_instructions sb) svals s = SsaStop s1"
      "advances base stopped s1" "xr_status s1 = xr_status stopped"
      using body by (cases "run_instructions mc scall ?types (sb_instructions sb) svals s") auto
    with safe Stop show ?thesis
      by (subst run_blocks.simps, subst ssa_run_blocks.simps) (simp add: block sb mc(1))
  next
    case Panicked
    with safe show ?thesis by simp
  qed
qed


section \<open>Arguments\<close>

text \<open>A canonical argument of its parameter's type passes the checks of both interpreters and is its own
  normal form in both.\<close>

lemma argument_accepted:
  assumes nominal: "nominals_ok program" and plain: "plain_declarations program"
    and canonical: "canonical_value program v" and ready: "ssa_ready_type program ty" and matches: "value_matches_type program v ty"
  shows "normalize_value program v ty = Some v" "ssa_matches program v ty" "finite_argument_ok program v"
    and "ssa_normalize program v ty = Some v" "ssa_normalize_owned program v ty = Some v"
proof -
  have "stays_normal program v ty"
    by (rule canonical_stays_normal [OF nominal plain canonical _ matches]) (use ready in \<open>simp add: ssa_ready_type_def\<close>)
  then show same: "normalize_value program v ty = Some v" "ssa_matches program v ty" "ssa_normalize program v ty = Some v"
    by (simp_all add: stays_normal_def)
  from same(1) show "finite_argument_ok program v"
    by (cases v; cases ty) (auto simp: finite_argument_ok_def split: if_splits)
  from same(3) show "ssa_normalize_owned program v ty = Some v"
    by (cases v; cases ty) (auto simp: ssa_normalize_owned_def split: if_splits)
qed

lemma normalized_arguments:
  assumes nominal: "nominals_ok program" and plain: "plain_declarations program"
    and ready: "list_all (\<lambda>p. ssa_ready_type program (bp_ty p)) (fb_parameters body)" and fit: "arguments_fit program body vs"
  shows "validate_arguments program body None vs"
    and "normalize_arguments program body None vs = Some (zip (map bp_id (fb_parameters body)) vs)"
proof -
  have len: "length (fb_parameters body) = length vs"
    and each: "value_matches_type program (vs ! i) (bp_ty (fb_parameters body ! i))"
      "normalize_value program (vs ! i) (bp_ty (fb_parameters body ! i)) = Some (vs ! i)" if "i < length vs" for i
    using fit ready argument_accepted(1) [OF nominal plain] that
    by (auto simp: arguments_fit_def list_all2_conv_all_nth list_all_length)
  have len: "length (fb_parameters body) = length vs" using fit by (simp add: arguments_fit_def list_all2_lengthD)
  then show "validate_arguments program body None vs"
    using each(1) by (auto simp: validate_arguments_def trusted_at_def list_all_iff set_zip)
  have "map (\<lambda>(i, p, a). map_option (Pair (bp_id p)) (if trusted_at None i then Some a else normalize_value program a (bp_ty p)))
      (zip [0..<length vs] (zip (fb_parameters body) vs)) = map Some (zip (map bp_id (fb_parameters body)) vs)"
    by (rule nth_equalityI) (use len each(2) in \<open>simp_all add: trusted_at_def\<close>)
  then show "normalize_arguments program body None vs = Some (zip (map bp_id (fb_parameters body)) vs)"
    by (simp add: normalize_arguments_def collect_options_Some del: map_map)
qed

lemma bound_inputs:
  assumes nominal: "nominals_ok program" and plain: "plain_declarations program"
    and inject: "\<And>x y i. ids x = Some i \<Longrightarrow> ids y = Some i \<Longrightarrow> x = y"
  shows "list_all (\<lambda>p. ssa_ready_type program (bp_ty p)) ps \<Longrightarrow>
    list_all2 (\<lambda>p a. value_matches_type program a (bp_ty p) \<and> canonical_value program a) ps (map fst arguments) \<Longrightarrow>
    (\<And>p. p \<in> set ps \<Longrightarrow> ids (bp_id p) = Some (name (bp_id p))) \<Longrightarrow> values_related ids vals svals \<Longrightarrow>
    \<exists>svals'. bind_inputs program owned (map (\<lambda>p. \<lparr>sv_identity = name (bp_id p), sv_ty = bp_ty p\<rparr>) ps) arguments svals r = Inr svals' \<and>
      values_related ids (vals ++ map_of (rev (zip (map bp_id ps) (map fst arguments)))) svals'"
proof (induction ps arbitrary: arguments vals svals)
  case (Cons p ps)
  then obtain v checked rest where arguments: "arguments = (v, checked) # rest" by (cases arguments) auto
  have here: "ssa_ready_type program (bp_ty p)" "value_matches_type program v (bp_ty p)" "canonical_value program v"
    and i: "ids (bp_id p) = Some (name (bp_id p))"
    using Cons.prems by (auto simp: arguments)
  note accepted = argument_accepted [OF nominal plain here(3,1,2)]
  have ty: "ssa_input_type program (bp_ty p) = bp_ty p" using here(1) by (simp add: ssa_ready_type_def)
  have "values_related ids (vals(bp_id p \<mapsto> v)) (svals(name (bp_id p) \<mapsto> (v, True)))"
    by (rule related_update [OF Cons.prems(4) i]) (rule inject [OF _ i])
  from Cons.IH [OF _ _ _ this, of rest] Cons.prems(1-3) show ?case
    by (auto simp: arguments ty accepted Let_def simp del: fun_upd_apply)
qed simp


section \<open>Functions\<close>

lemma answer_depth:
  "answer_matches program base (fail_result BudgetExhausted None empty_result) (fail_result BudgetExhausted None base, None)"
  by (simp add: advances_def empty_result_def fail_result_def)

lemma entered_frame:
  assumes admissible: "request_admissible program True request"
    and f: "find_function program (rq_module request) (rq_function request) = Some f" "fn_generic_params f = []" "fn_body f = Some body"
    and depth: "depth \<le> call_depth_limit request"
    and nominal: "nominals_ok program" and plain: "plain_declarations program"
    and ready: "body_ready program body" and fit: "arguments_fit program body (rq_arguments request)"
  obtains frame where "enter_function (\<lambda>_ _ _. []) program True record_effects depth None request =
      Inr (frame, map_of (rev (zip (map bp_id (fb_parameters body)) (rq_arguments request))))"
    and "fr_namespace frame = home_of program f" "fr_function frame = fn_name f" "fr_body frame = body"
    and "fr_request frame = request" "fr_record frame = record_effects"
proof -
  have "find_function program (rq_module request) (fn_name f) = Some f"
    using f(1) by (auto simp: find_function_def find_Some_iff)
  moreover have "resolve_concrete_entry program (rq_module request) (rq_function request) = Some (fn_name f)"
    using f(1,2) by (simp add: resolve_concrete_entry_def)
  moreover note normalized_arguments [OF nominal plain _ fit]
  ultimately show thesis
    using assms by (intro that [of "\<lparr>fr_namespace = home_of program f, fr_function = fn_name f, fr_body = body,
        fr_reusable = [], fr_request = request, fr_record = record_effects\<rparr>"])
      (simp_all add: enter_function_def body_ready_def call_depth_limit_def home_of_def Let_def)
qed

lemma functions_match:
  assumes machine: "machine_matches digest sha json lib program mc"
  shows "callee_matches sha json program mc (\<lambda>_. execute_checking lib program True (mc_record mc) depth)
    (execute_prepared mc depth owned)"
proof (induction "mc_depth_limit mc + 1 - depth" arbitrary: depth owned rule: less_induct)
  case less
  show ?case
    unfolding callee_matches_def
  proof (intro allI impI)
    fix trusted :: "bool list option" and request f body hir base
    fix arguments :: "(execution_value \<times> bool) list"
    assume f: "find_function program (rq_module request) (rq_function request) = Some f" and body: "fn_body f = Some body"
      and hir: "lower_executable_body sha json program f body = Some hir"
      and args: "map fst arguments = rq_arguments request" and fit: "arguments_fit program body (rq_arguments request)"
      and admissible: "request_admissible program True request" and budgets: "budgets_agree mc base request"
    let ?sf = "lower_body sha program f body hir" and ?ids = "body_ids (home_of program f) (fn_name f) body"
    let ?vals = "map_of (rev (zip (map bp_id (fb_parameters body)) (rq_arguments request)))"
    have valid: "program_valid digest program" and nominal: "nominals_ok program" and small: "program_in_machine program"
      and all: "ssa_ready sha program" and mc: "mc_program mc = program"
      using machine by (simp_all add: machine_matches_def)
    have plain: "plain_declarations program" using all by (simp add: ssa_ready_def)
    have in_program: "f \<in> set (pg_functions program)" using f by (auto simp: find_function_def find_Some_iff)
    have concrete: "fn_generic_params f = []" and ready: "body_ready program body" and apart: "blocks_separated sha program f body"
      using body by (auto intro: ssa_ready_function [OF all in_program])
    have limit: "call_depth_limit request = mc_depth_limit mc" using budgets by (simp add: budgets_agree_def)
    show "\<exists>r out. execute_checking lib program True (mc_record mc) depth request = Some r \<and>
        execute_prepared mc depth owned ?sf arguments base = Some out \<and> answer_matches program base r out"
    proof (cases "mc_depth_limit mc < depth")
      case True
      have "resolve_concrete_entry program (rq_module request) (rq_function request) = Some (fn_name f)"
        using f concrete by (simp add: resolve_concrete_entry_def)
      moreover have "find_function program (rq_module request) (fn_name f) = Some f"
        using f by (auto simp: find_function_def find_Some_iff)
      ultimately have "enter_function (\<lambda>_ _ _. []) program True (mc_record mc) depth None request =
          Inl (fail_result BudgetExhausted None empty_result)"
        using True admissible body limit by (simp add: enter_function_def call_depth_limit_def Let_def)
      with True answer_depth show ?thesis by (simp add: execute_checking.simps execute_prepared.simps del: answer_matches.simps)
    next
      case False
      then have depth: "depth \<le> call_depth_limit request" using limit by simp
      obtain frame where enter: "enter_function (\<lambda>_ _ _. []) program True (mc_record mc) depth None request = Inr (frame, ?vals)"
        and frame: "fr_namespace frame = home_of program f" "fr_function frame = fn_name f" "fr_body frame = body"
          "fr_request frame = request" "fr_record frame = mc_record mc"
        by (rule entered_frame [OF admissible f concrete body depth nominal plain ready fit])
      have matches: "frame_matches program mc f base frame"
        using frame in_program body budgets admissible by (simp add: frame_matches_def)
      have made: "body_made sha json program f body ?sf"
        by (rule lower_body_made [OF validated_functions [OF valid in_program body] _ hir]) (use ready in \<open>simp add: body_ready_def\<close>)
      have low: "lowered_frame digest sha json program f frame ?sf"
        using validated_functions [OF valid in_program body] ready apart made small in_program body
        by (auto simp: lowered_frame_def frame program_in_machine_def list_all_iff)
      have typed: "env_typed program (declared_types (fr_body frame)) ?vals"
        by (rule enter_function_typed [OF enter program_valid_checked(1) [OF valid]])
      have "length (fb_parameters body) = length (rq_arguments request)" "\<forall>v\<in>set (rq_arguments request). canonical_value program v"
        using fit by (auto simp: arguments_fit_def list_all2_conv_all_nth in_set_conv_nth)
      then have canonical: "canonical_env program ?vals"
        by (auto simp: canonical_env_def dest!: map_of_SomeD set_zip_rightD)
      obtain entry rest where blocks: "fb_blocks body = entry # rest" and first: "bb_id entry = fb_entry body"
        using ready by (cases "fb_blocks body") (auto simp: body_ready_def)
      obtain sb more where sf: "sf_blocks ?sf = sb # more"
        and sb: "sb_identity sb = ssa_block_identity sha (home_of program f) (fn_name f) (fb_entry body)"
        using made blocks first by (auto simp: body_made_def list_all2_Cons1 block_made_def)
      have inputs: "sf_inputs ?sf = map (\<lambda>p. \<lparr>sv_identity = parameter_id (home_of program f) (fn_name f) (bp_id p), sv_ty = bp_ty p\<rparr>)
          (fb_parameters body)"
        using made by (simp add: body_made_def)
      have "list_all (\<lambda>p. ssa_ready_type program (bp_ty p)) (fb_parameters body)" using ready by (simp add: body_ready_def)
      then have "\<exists>svals. bind_inputs program owned (sf_inputs ?sf) arguments Map.empty base = Inr svals \<and>
          values_related ?ids (Map.empty ++ map_of (rev (zip (map bp_id (fb_parameters body)) (map fst arguments)))) svals"
        unfolding inputs
      proof (rule bound_inputs [OF nominal plain body_ids_inject, rotated 2])
        show "list_all2 (\<lambda>p a. value_matches_type program a (bp_ty p) \<and> canonical_value program a) (fb_parameters body) (map fst arguments)"
          using fit args by (simp add: arguments_fit_def)
        show "?ids (bp_id p) = Some (parameter_id (home_of program f) (fn_name f) (bp_id p))" if "p \<in> set (fb_parameters body)" for p
          by (rule body_ids_in(1) [OF validated_names_distinct [OF validated_functions [OF valid in_program body]] that])
        show "values_related ?ids Map.empty Map.empty" by (simp add: values_related_def)
      qed
      then obtain svals where bound: "bind_inputs program owned (sf_inputs ?sf) arguments Map.empty base = Inr svals"
        and related: "values_related ?ids ?vals svals"
        by (auto simp: args)
      have len: "length (sf_inputs ?sf) = length arguments"
        using fit by (simp add: inputs arguments_fit_def list_all2_lengthD flip: args)
      have callee: "callee_matches sha json program mc (\<lambda>_. execute_checking lib program True (mc_record mc) (depth + 1))
          (execute_prepared mc (depth + 1) True)"
        by (rule less.hyps) (use False in simp)
      have entry_in: "fb_entry body \<in> block_ids (fr_body frame)" by (simp add: block_ids_def frame blocks flip: first)
      note safe = checking_callee_safe [OF program_valid_checked(1) [OF valid] nominal small, where valid = True]
      have start: "advances base empty_result base" by (simp add: advances_def empty_result_def)
      obtain r out where "run_blocks lib program (\<lambda>_. execute_checking lib program True (mc_record mc) (depth + 1)) frame
          (fb_entry body) ?vals empty_result = Some r"
        and "ssa_run_blocks mc (execute_prepared mc (depth + 1) True) ?sf
          (ssa_block_identity sha (home_of program f) (fn_name f) (fb_entry body)) svals base = Some out"
        and "answer_matches program base r out"
        using blocks_match [OF machine callee safe matches low entry_in _ canonical typed start] related frame(3) by metis
      then show ?thesis
        using False enter bound len sf
        by (subst execute_checking.simps, subst execute_prepared.simps) (simp add: initialize_inputs_def mc frame(3) sb)
    qed
  qed
qed


section \<open>Requests\<close>

lemma inadmissible_execute:
  assumes "\<not> request_admissible program True request"
  shows "execute lib program True policy request = Some invalid"
  using assms by (simp add: execute_def execute_inner.simps enter_function_def)


lemma demo_ready: "ssa_ready id demo_program"
  by code_simp

lemma demo_lowered: "lower_to_ssa id (\<lambda>_. []) demo_program \<noteq> None"
  by code_simp

lemma demo_fit: "arguments_fit demo_program main_body (rq_arguments (demo_request ''main'' 9))"
  by code_simp

lemma demo_found: "find_function demo_program ''app'' ''main'' = Some (demo_fn ''main'' main_body)"
  by (simp add: find_function_def demo_program_def identity_namespace_def)


end
