(* ===== verification/Run_Invariant.thy ===== *)
theory Run_Invariant
  imports Ssa_Lowered
begin

text \<open>
  What an invariant of the store has to be checked against: a run writes only the first result of an
  operation and the parameters of the block it jumps to, and in a validated body each name is
  written in one place.
\<close>

section \<open>Writes of a run\<close>

lemma operation_writes:
  assumes "execute_operation lib program call frame identity oper vals r = Continue vals' r'"
  obtains "vals' = vals"
  | res rs v where "bo_results oper = res # rs" "vals' = vals(bv_id res \<mapsto> v)"
      "is_pure (bo_kind oper) \<Longrightarrow> exec_pure lib program (bo_kind oper) oper vals = Store v"
proof (cases "is_pure (bo_kind oper)")
  case True
  have "execute_operation lib program call frame identity oper vals r =
      (case exec_pure lib program (bo_kind oper) oper vals of
         Store v \<Rightarrow> store oper v vals r
       | Skip \<Rightarrow> Continue vals r
       | Fail status \<Rightarrow> Stop (fail_result status (Some identity) r)
       | Panic \<Rightarrow> Panicked)"
    using True by (cases "bo_kind oper") (simp_all add: execute_operation_def)
  with assms that show thesis by (auto simp: store_def split: op_outcome.splits list.splits)
next
  case False
  then show thesis
    using assms that
    by (cases "bo_kind oper")
      (auto simp: execute_operation_def exec_call_def exec_effect_def store_def Let_def split: option.splits list.splits if_splits)
qed

lemma visits_in_block:
  "visits lib program call frame start i opers vals r \<Longrightarrow>
     \<exists>block before. block_map (fr_body frame) i = Some block \<and> bb_operations block = before @ opers"
proof (induction rule: visits.induct)
  case (visits_operation i oper opers vals r stepped vals' r')
  then obtain block before where "block_map (fr_body frame) i = Some block" "bb_operations block = (before @ [oper]) @ opers"
    by auto
  then show ?case by blast
qed auto

lemma visits_operation_in:
  "visits lib program call frame start i (oper # opers) vals r \<Longrightarrow>
     \<exists>block\<in>set (fb_blocks (fr_body frame)). bb_id block = i \<and> oper \<in> set (bb_operations block)"
  using visits_in_block [of lib program call frame start i "oper # opers" vals r] block_map_in by fastforce

text \<open>To keep \<open>P\<close> it is enough to keep it at writes; \<open>Q\<close> is what is known of all stores beforehand.\<close>

lemma visits_invariant:
  assumes "visits lib program call frame start i opers vals r"
    and start: "P start" and known: "\<And>i opers vals r. visits lib program call frame start i opers vals r \<Longrightarrow> Q vals"
    and result: "\<And>block oper res rs v vals. block \<in> set (fb_blocks (fr_body frame)) \<Longrightarrow> oper \<in> set (bb_operations block) \<Longrightarrow>
      bo_results oper = res # rs \<Longrightarrow> (is_pure (bo_kind oper) \<Longrightarrow> exec_pure lib program (bo_kind oper) oper vals = Store v) \<Longrightarrow>
      P vals \<Longrightarrow> Q vals \<Longrightarrow> Q (vals(bv_id res \<mapsto> v)) \<Longrightarrow> P (vals(bv_id res \<mapsto> v))"
    and jump: "\<And>block vs vals. block \<in> set (fb_blocks (fr_body frame)) \<Longrightarrow> length vs = length (bb_parameters block) \<Longrightarrow>
      P vals \<Longrightarrow> Q (vals ++ map_of (rev (zip (map bv_id (bb_parameters block)) vs))) \<Longrightarrow>
      P (vals ++ map_of (rev (zip (map bv_id (bb_parameters block)) vs)))"
  shows "P vals"
  using assms(1)
proof (induction rule: visits.induct)
  case (visits_entry block)
  show ?case by (rule start)
next
  case (visits_operation i oper opers vals r stepped vals' r')
  note here = visits_operation_in [OF visits_operation(1)]
  have later: "Q vals'" by (rule known) (rule visits.visits_operation [OF visits_operation(1,2,3)])
  from visits_operation(3) show ?case
  proof (cases rule: operation_writes)
    case 1
    with visits_operation.IH show ?thesis by simp
  next
    case (2 res rs v)
    obtain block where "block \<in> set (fb_blocks (fr_body frame))" "oper \<in> set (bb_operations block)" using here by blast
    from result [OF this 2(1,3) visits_operation.IH known [OF visits_operation(1)] later [unfolded 2(2)]] show ?thesis
      by (simp only: 2(2))
  qed
next
  case (visits_jump i vals r block stepped target vals' block')
  from visits_jump(4) have assign: "\<exists>arguments. assign_block_arguments (fr_body frame) target arguments vals = Some vals'"
    by (auto simp: exec_terminator_def Let_def split: body_terminator.splits option.splits bool.splits)
  then obtain arguments vs where "length (bb_parameters block') = length arguments"
    and collect: "collect_options (map vals arguments) = Some vs"
    and update: "vals' = vals ++ map_of (rev (zip (map bv_id (bb_parameters block')) vs))"
    using visits_jump(5) by (auto simp: assign_block_arguments_def split: option.splits if_splits)
  with collect_values(1) [OF collect] have vs: "length vs = length (bb_parameters block')"
    "vals' = vals ++ map_of (rev (zip (map bv_id (bb_parameters block')) vs))" by simp_all
  have "Q vals'" by (rule known) (rule visits.visits_jump [OF visits_jump(1-5)])
  with jump [OF conjunct1 [OF block_map_in [OF visits_jump(5)]] vs(1) visits_jump.IH] show ?case by (simp add: vs(2))
qed


section \<open>Each name is written in one place\<close>

lemma distinct_concat_unique:
  "distinct (concat (map f xs)) \<Longrightarrow> x \<in> set xs \<Longrightarrow> y \<in> set xs \<Longrightarrow> z \<in> set (f x) \<Longrightarrow> z \<in> set (f y) \<Longrightarrow> x = y"
  by (induction xs) auto

definition result_names :: "body_operation \<Rightarrow> string list" where
  "result_names oper = map bv_id (bo_results oper)"

lemma body_names_blocks:
  "body_names body = map bp_id (fb_parameters body) @
     concat (map (\<lambda>b. map bv_id (bb_parameters b) @ concat (map result_names (bb_operations b))) (fb_blocks body))"
  by (simp add: body_names_def block_values_def map_concat comp_def result_names_def [abs_def])

lemma single_writer:
  assumes distinct: "distinct (body_names body)" and block: "b \<in> set (fb_blocks body)" "oper \<in> set (bb_operations b)"
    and name: "x \<in> set (result_names oper)"
  shows "x \<notin> bp_id ` set (fb_parameters body)" and "b' \<in> set (fb_blocks body) \<Longrightarrow> x \<notin> bv_id ` set (bb_parameters b')"
    and "b' \<in> set (fb_blocks body) \<Longrightarrow> oper' \<in> set (bb_operations b') \<Longrightarrow> x \<in> set (result_names oper') \<Longrightarrow> oper' = oper"
proof -
  let ?names = "\<lambda>b. map bv_id (bb_parameters b) @ concat (map result_names (bb_operations b))"
  have all: "distinct (concat (map ?names (fb_blocks body)))"
    and apart: "set (concat (map ?names (fb_blocks body))) \<inter> bp_id ` set (fb_parameters body) = {}"
    using distinct by (auto simp: body_names_blocks)
  have x: "x \<in> set (?names b)" using block name by auto
  with block(1) apart show "x \<notin> bp_id ` set (fb_parameters body)" by fastforce
  have own: "distinct (?names b)" using all block(1) by (auto simp add: distinct_concat_iff simp del: distinct_append)
  show "x \<notin> bv_id ` set (bb_parameters b')" if "b' \<in> set (fb_blocks body)"
  proof
    assume "x \<in> bv_id ` set (bb_parameters b')"
    with distinct_concat_unique [OF all that block(1) _ x] have "b' = b" "x \<in> bv_id ` set (bb_parameters b')" by auto
    with own block(2) name show False by auto
  qed
  show "oper' = oper" if "b' \<in> set (fb_blocks body)" "oper' \<in> set (bb_operations b')" "x \<in> set (result_names oper')"
  proof -
    have "b' = b" by (rule distinct_concat_unique [OF all that(1) block(1) _ x]) (use that in auto)
    moreover have "distinct (concat (map result_names (bb_operations b)))" using own by simp
    ultimately show ?thesis using distinct_concat_unique [of result_names "bb_operations b" oper' oper x] that block(2) name by blast
  qed
qed

end
