(* ===== verification/Bindings.thy ===== *)
theory Bindings
  imports Body
begin

text \<open>
  The semantic binding records of \<open>crates/mncs-model/src/bindings.rs\<close>: namespaces, scopes, bindings
  and references of an elaborated program, each list put in the order of its identities with one
  record for each.
\<close>

datatype binding_kind =
  FunctionBinding | TestBinding | ParameterBinding | LocalBinding | IterationStateBinding |
  FiniteTypeBinding | FiniteVariantBinding | RecordTypeBinding | RecordFieldBinding

datatype resolution_provenance = LocalName | DirectImport | Qualified | Aliased | TransitiveImport

record semantic_namespace =
  ns_identity :: semantic_id
  ns_name :: string

record semantic_scope =
  sc_identity :: semantic_id
  sc_namespace :: semantic_id
  sc_parent :: "semantic_id option"
  sc_owner :: "semantic_id option"
  sc_path :: string

record semantic_binding =
  bd_identity :: semantic_id
  bd_spelling :: string
  bd_namespace :: semantic_id
  bd_scope :: semantic_id
  bd_declaration :: semantic_id
  bd_kind :: binding_kind
  bd_projected_from :: "semantic_id option"

record semantic_reference =
  sr_identity :: semantic_id
  sr_spelling :: string
  sr_occurrence :: "nat \<times> nat"
  sr_namespace :: semantic_id
  sr_scope :: semantic_id
  sr_binding :: semantic_id
  sr_path :: "string list"
  sr_provenance :: resolution_provenance

record binding_table =
  bt_schema :: string
  bt_namespaces :: "semantic_namespace list"
  bt_scopes :: "semantic_scope list"
  bt_bindings :: "semantic_binding list"
  bt_references :: "semantic_reference list"

text \<open>\<open>dedup_by\<close>: of neighbours with one key the first stays.  \<open>sort_by\<close> is stable.\<close>

fun dedup_by :: "('a \<Rightarrow> 'b) \<Rightarrow> 'a list \<Rightarrow> 'a list" where
  "dedup_by key (x # y # xs) = (if key x = key y then dedup_by key (x # xs) else x # dedup_by key (y # xs))"
| "dedup_by key xs = xs"

definition canonical_by :: "('a \<Rightarrow> string) \<Rightarrow> 'a list \<Rightarrow> 'a list" where
  "canonical_by key xs = dedup_by key (sort_key key xs)"

definition binding_table_new ::
  "semantic_namespace list \<Rightarrow> semantic_scope list \<Rightarrow> semantic_binding list \<Rightarrow> semantic_reference list \<Rightarrow> binding_table" where
  "binding_table_new namespaces scopes bindings references =
     \<lparr>bt_schema = ''0.1'', bt_namespaces = canonical_by ns_identity namespaces, bt_scopes = canonical_by sc_identity scopes,
      bt_bindings = canonical_by bd_identity bindings, bt_references = canonical_by sr_identity references\<rparr>"

definition binding_table_is_empty :: "binding_table \<Rightarrow> bool" where
  "binding_table_is_empty table \<longleftrightarrow>
     bt_namespaces table = [] \<and> bt_scopes table = [] \<and> bt_bindings table = [] \<and> bt_references table = []"


section \<open>Canonical lists\<close>

text \<open>A canonical list has its keys in strictly ascending order, so it is the only list of the same
  records in that order.\<close>

lemma dedup_by_keys: "key ` set (dedup_by key xs) = key ` set xs"
  by (induction key xs rule: dedup_by.induct) auto

lemma dedup_by_subset: "set (dedup_by key xs) \<subseteq> set xs"
  by (induction key xs rule: dedup_by.induct) auto

lemma dedup_by_strict: "sorted (map key xs) \<Longrightarrow> sorted_wrt (<) (map key (dedup_by key (xs :: 'a list) :: 'a list) :: 'b :: linorder list)"
proof (induction key xs rule: dedup_by.induct)
  case (1 key x y xs)
  then show ?case
  proof (cases "key x = key y")
    case False
    with 1 have rest: "sorted_wrt (<) (map key (dedup_by key (y # xs)))" and less: "key x < key y" by auto
    have "key x < k" if "k \<in> key ` set (dedup_by key (y # xs))" for k
      using that 1(3) less unfolding dedup_by_keys by auto
    with rest False show ?thesis by auto
  qed auto
qed auto

lemma canonical_by_strict: "sorted_wrt (<) (map key (canonical_by key xs))"
  unfolding canonical_by_def by (rule dedup_by_strict) simp

lemma canonical_by_distinct: "distinct (map key (canonical_by key xs))"
  using canonical_by_strict [of key xs] by (simp add: strict_sorted_iff)

lemma canonical_by_keys: "key ` set (canonical_by key xs) = key ` set xs"
  by (simp add: canonical_by_def dedup_by_keys)

lemma canonical_by_subset: "set (canonical_by key xs) \<subseteq> set xs"
  using dedup_by_subset [of key "sort_key key xs"] by (simp add: canonical_by_def)

lemma dedup_by_id: "sorted_wrt (<) (map key xs) \<Longrightarrow> dedup_by key (xs :: 'a list) = xs" for key :: "'a \<Rightarrow> 'b :: linorder"
  by (induction key xs rule: dedup_by.induct) auto

lemma canonical_by_idem: "canonical_by key (canonical_by key xs) = canonical_by key xs"
proof -
  have "sort_key key (canonical_by key xs) = canonical_by key xs"
    using canonical_by_strict [of key xs] by (intro sort_key_id_if_sorted) (simp add: strict_sorted_iff)
  with dedup_by_id [OF canonical_by_strict] show ?thesis by (metis canonical_by_def)
qed

end
