(* ===== verification/Decrease.thy ===== *)
theory Decrease
  imports Run_Invariant Bindings
begin

text \<open>
  Structural recursion, \<open>crates/mncs-model/src/termination.rs\<close>: the evidence that a recursive call
  consumes a proper part of the function's first parameter is rechecked against the body and the
  binding table.  What the check accepts is true of every run: the argument of the call is a
  payload part of the caller's argument, so a chain of such calls ends.

  Decoding a claim from its JSON text is left out.
\<close>

section \<open>Claims\<close>

record decrease_link =
  dl_op :: string
  dl_parent_binding :: semantic_id
  dl_child_binding :: semantic_id
  dl_parent_value :: string
  dl_child_value :: string

record decrease_claim =
  dc_call_op :: string
  dc_function :: semantic_id
  dc_param_binding :: semantic_id
  dc_param_value :: string
  dc_arg_binding :: semantic_id
  dc_links :: "decrease_link list"

text \<open>One constructor for each message of the source.\<close>

datatype decrease_error =
  EmptyChain | UnknownFunction | GenericTemplate | Bodyless | NoParameters | NotFinite | WrongParameterValue |
  UnknownOperation string | NotProjection string | WrongParent string | WrongChild string | MixedTypes |
  UndeclaredType | UndeclaredVariant | UndeclaredPayload | NotRooted | ChainBroken | NotCall | OtherFunction |
  WrongArgument | NoBindingTable | UndeclaredParameter | NotParameter | WrongArgumentBinding |
  BindingChainBroken | UndeclaredChild semantic_id | NotLocal | NotProjectedFrom semantic_id


section \<open>The check\<close>

definition find_operation :: "function_body \<Rightarrow> string \<Rightarrow> decrease_error + body_operation" where
  "find_operation body op =
     (case find (\<lambda>oper. bo_id oper = op) (concat (map bb_operations (fb_blocks body))) of
        None \<Rightarrow> Inl (UnknownOperation op)
      | Some oper \<Rightarrow> Inr oper)"

definition first_result_id :: "body_operation \<Rightarrow> string" where
  "first_result_id oper = (case bo_results oper of [] \<Rightarrow> [] | res # _ \<Rightarrow> bv_id res)"

text \<open>One projection; the type it projects from has to be that of the links before it.\<close>

definition check_link ::
  "program \<Rightarrow> function_body \<Rightarrow> semantic_id option \<Rightarrow> decrease_link \<Rightarrow> decrease_error + semantic_id" where
  "check_link program body projected link =
     (case find_operation body (dl_op link) of
        Inl e \<Rightarrow> Inl e
      | Inr oper \<Rightarrow>
          (case bo_kind oper of
             FinitePayloadProject type_identity variant_identity _ field \<Rightarrow>
               if bo_operands oper \<noteq> [dl_parent_value link] then Inl (WrongParent (dl_op link))
               else if first_result_id oper \<noteq> dl_child_value link then Inl (WrongChild (dl_op link))
               else if projected \<noteq> None \<and> projected \<noteq> Some type_identity then Inl MixedTypes
               else
                 (case find (\<lambda>ft. ft_identity ft = type_identity) (pg_finite_types program) of
                    None \<Rightarrow> Inl UndeclaredType
                  | Some ft \<Rightarrow>
                      (case find (\<lambda>var. fv_identity var = variant_identity) (ft_variants ft) of
                         None \<Rightarrow> Inl UndeclaredVariant
                       | Some var \<Rightarrow>
                           if list_ex (\<lambda>p. rf_name p = field) (fv_payload var) then Inr type_identity
                           else Inl UndeclaredPayload))
           | _ \<Rightarrow> Inl (NotProjection (dl_op link))))"

fun check_links :: "program \<Rightarrow> function_body \<Rightarrow> semantic_id option \<Rightarrow> decrease_link list \<Rightarrow> decrease_error option" where
  "check_links program body projected [] = None"
| "check_links program body projected (link # links) =
     (case check_link program body projected link of
        Inl e \<Rightarrow> Some e
      | Inr type_identity \<Rightarrow> check_links program body (Some type_identity) links)"

text \<open>The values form a chain from the parameter to the argument of the call.\<close>

definition check_flow :: "function_body \<Rightarrow> decrease_claim \<Rightarrow> decrease_error option" where
  "check_flow body claim =
     (let links = dc_links claim in
      if dl_parent_value (hd links) \<noteq> dc_param_value claim then Some NotRooted
      else if \<not> list_all (\<lambda>(a, b). dl_child_value a = dl_parent_value b) (zip links (tl links)) then Some ChainBroken
      else
        case find_operation body (dc_call_op claim) of
          Inl e \<Rightarrow> Some e
        | Inr call \<Rightarrow>
            (case bo_kind call of
               Call callee _ _ _ _ \<Rightarrow>
                 if callee \<noteq> dc_function claim then Some OtherFunction
                 else if (case bo_operands call of [] \<Rightarrow> [] | x # _ \<Rightarrow> x) \<noteq> dl_child_value (last links) then Some WrongArgument
                 else None
             | _ \<Rightarrow> Some NotCall))"

text \<open>The bindings form the same chain in the binding table.\<close>

fun check_binding_links ::
  "(semantic_id \<rightharpoonup> semantic_binding) \<Rightarrow> semantic_id \<Rightarrow> decrease_link list \<Rightarrow> decrease_error option" where
  "check_binding_links bindings parent [] = None"
| "check_binding_links bindings parent (link # links) =
     (if dl_parent_binding link \<noteq> parent then Some BindingChainBroken
      else
        case bindings (dl_child_binding link) of
          None \<Rightarrow> Some (UndeclaredChild (dl_child_binding link))
        | Some child \<Rightarrow>
            if bd_kind child \<noteq> LocalBinding then Some NotLocal
            else if bd_projected_from child \<noteq> Some (dl_parent_binding link)
            then Some (NotProjectedFrom (dl_child_binding link))
            else check_binding_links bindings (dl_child_binding link) links)"

definition check_bindings :: "binding_table option \<Rightarrow> decrease_claim \<Rightarrow> decrease_error option" where
  "check_bindings table claim =
     (case table of
        None \<Rightarrow> Some NoBindingTable
      | Some t \<Rightarrow>
          let bindings = map_of (rev (map (\<lambda>b. (bd_identity b, b)) (bt_bindings t))) in
          case bindings (dc_param_binding claim) of
            None \<Rightarrow> Some UndeclaredParameter
          | Some param \<Rightarrow>
              if bd_kind param \<noteq> ParameterBinding then Some NotParameter
              else if dc_arg_binding claim \<noteq>
                  (if dc_links claim = [] then dc_param_binding claim else dl_child_binding (last (dc_links claim)))
              then Some WrongArgumentBinding
              else check_binding_links bindings (dc_param_binding claim) (dc_links claim))"

text \<open>The binding table is a field of the program in the source; nothing stands for \<open>Ok\<close>.\<close>

definition verify_structural_decrease ::
  "program \<Rightarrow> binding_table option \<Rightarrow> decrease_claim \<Rightarrow> decrease_error option" where
  "verify_structural_decrease program table claim =
     (if dc_links claim = [] then Some EmptyChain
      else
        case find_callee program (dc_function claim) of
          None \<Rightarrow> Some UnknownFunction
        | Some f \<Rightarrow>
            if fn_generic_params f \<noteq> [] then Some GenericTemplate
            else
              case fn_body f of
                None \<Rightarrow> Some Bodyless
              | Some body \<Rightarrow>
                  (case fb_parameters body of
                     [] \<Rightarrow> Some NoParameters
                   | param # _ \<Rightarrow>
                       if \<not> (case bp_ty param of TFinite _ _ \<Rightarrow> True | _ \<Rightarrow> False) then Some NotFinite
                       else if bp_id param \<noteq> dc_param_value claim then Some WrongParameterValue
                       else
                         case check_links program body None (dc_links claim) of
                           Some e \<Rightarrow> Some e
                         | None \<Rightarrow>
                             (case check_flow body claim of
                                Some e \<Rightarrow> Some e
                              | None \<Rightarrow> check_bindings table claim)))"


section \<open>Parts of a value\<close>

text \<open>What is in the payload of a value is smaller than the value.\<close>

inductive payload_part :: "execution_value \<Rightarrow> execution_value \<Rightarrow> bool" where
  payload_part: "(field, v) \<in> set payload \<Longrightarrow> payload_part v (VFinite type_identity variant_identity discriminant payload)"

inductive_cases payload_partE: "payload_part v w"

lemma payload_part_size: "payload_part v w \<Longrightarrow> size v < size w"
proof (induction rule: payload_part.induct)
  case (payload_part field v payload t var d)
  have "size_prod (\<lambda>_. 0) size (field, v) \<le> size_list (size_prod (\<lambda>_. 0) size) payload"
    by (rule size_list_estimation' [OF payload_part]) simp
  then show ?case by simp
qed

lemma payload_parts_size: "payload_part\<^sup>+\<^sup>+ v w \<Longrightarrow> size v < size w"
  by (induction rule: tranclp.induct) (auto dest: payload_part_size intro: less_trans)


section \<open>What an accepted claim says\<close>

lemma find_operation_in:
  "find_operation body op = Inr oper \<Longrightarrow> bo_id oper = op \<and> (\<exists>b\<in>set (fb_blocks body). oper \<in> set (bb_operations b))"
  by (auto simp: find_operation_def find_Some_iff dest!: nth_mem split: option.splits)

definition link_operation :: "function_body \<Rightarrow> decrease_link \<Rightarrow> body_operation \<Rightarrow> bool" where
  "link_operation body link oper \<longleftrightarrow>
     find_operation body (dl_op link) = Inr oper \<and> bo_operands oper = [dl_parent_value link] \<and>
     first_result_id oper = dl_child_value link \<and> (\<exists>t var d field. bo_kind oper = FinitePayloadProject t var d field)"

lemma check_link_operation: "check_link program body projected link = Inr t \<Longrightarrow> \<exists>oper. link_operation body link oper"
  by (auto simp: check_link_def link_operation_def split: sum.splits operation_kind.splits if_splits)

lemma check_links_operation:
  "check_links program body projected links = None \<Longrightarrow> link \<in> set links \<Longrightarrow> \<exists>oper. link_operation body link oper"
  by (induction links arbitrary: projected) (auto split: sum.splits dest: check_link_operation)

lemma chain_parent:
  assumes "list_all (\<lambda>(a, b). dl_child_value a = dl_parent_value b) (zip links (tl links))" "link \<in> set links"
  shows "dl_parent_value link = dl_parent_value (hd links) \<or> (\<exists>earlier\<in>set links. dl_parent_value link = dl_child_value earlier)"
  using assms
proof (induction links)
  case (Cons a links)
  then show ?case
  proof (cases links)
    case (Cons b rest)
    with Cons.prems Cons.IH show ?thesis by (auto split: prod.splits)
  qed auto
qed simp

definition claim_holds :: "function_body \<Rightarrow> decrease_claim \<Rightarrow> bool" where
  "claim_holds body claim \<longleftrightarrow>
     dc_links claim \<noteq> [] \<and>
     (\<exists>param rest t shown. fb_parameters body = param # rest \<and> bp_ty param = TFinite t shown \<and> bp_id param = dc_param_value claim) \<and>
     (\<forall>link\<in>set (dc_links claim). (\<exists>oper. link_operation body link oper) \<and>
        (dl_parent_value link = dc_param_value claim \<or>
         (\<exists>earlier\<in>set (dc_links claim). dl_parent_value link = dl_child_value earlier))) \<and>
     (\<exists>call name capabilities effects args. find_operation body (dc_call_op claim) = Inr call \<and>
        bo_kind call = Call (dc_function claim) name capabilities effects args \<and>
        (case bo_operands call of [] \<Rightarrow> [] | x # _ \<Rightarrow> x) = dl_child_value (last (dc_links claim)))"

lemma verified_claim_holds:
  assumes "verify_structural_decrease program table claim = None"
  obtains f body where "find_callee program (dc_function claim) = Some f" "fn_generic_params f = []" "fn_body f = Some body"
    and "claim_holds body claim"
proof -
  from assms obtain f body param rest where f: "find_callee program (dc_function claim) = Some f" "fn_generic_params f = []"
      "fn_body f = Some body"
    and param: "fb_parameters body = param # rest" "\<exists>t shown. bp_ty param = TFinite t shown" "bp_id param = dc_param_value claim"
    and links: "dc_links claim \<noteq> []" "check_links program body None (dc_links claim) = None" and flow: "check_flow body claim = None"
    by (auto simp: verify_structural_decrease_def split: if_splits option.splits list.splits body_type.splits)
  from flow have chain: "dl_parent_value (hd (dc_links claim)) = dc_param_value claim"
    "list_all (\<lambda>(a, b). dl_child_value a = dl_parent_value b) (zip (dc_links claim) (tl (dc_links claim)))"
    by (auto simp: check_flow_def Let_def split: if_splits)
  from flow have call: "\<exists>call name capabilities effects args. find_operation body (dc_call_op claim) = Inr call \<and>
      bo_kind call = Call (dc_function claim) name capabilities effects args \<and>
      (case bo_operands call of [] \<Rightarrow> [] | x # _ \<Rightarrow> x) = dl_child_value (last (dc_links claim))"
    unfolding check_flow_def Let_def
    by (auto split: if_splits sum.splits operation_kind.splits)
  have "claim_holds body claim"
    unfolding claim_holds_def
    using links(1) param call check_links_operation [OF links(2)] chain_parent [OF chain(2)] chain(1) by auto
  with f that show thesis by blast
qed


section \<open>Runs\<close>

text \<open>A body in which no name is bound twice and every projection has a place for its result.\<close>

definition well_named :: "function_body \<Rightarrow> bool" where
  "well_named body \<longleftrightarrow> distinct (body_names body) \<and>
     (\<forall>b\<in>set (fb_blocks body). \<forall>oper\<in>set (bb_operations b). \<forall>t var d field.
        bo_kind oper = FinitePayloadProject t var d field \<longrightarrow> bo_results oper \<noteq> [])"

lemma validated_well_named:
  assumes "validate_body digest program f body = Some []"
  shows "well_named body"
proof -
  have "bo_results oper \<noteq> []" if "b \<in> set (fb_blocks body)" "oper \<in> set (bb_operations b)" "bo_kind oper = FinitePayloadProject t var d field"
    for b oper t var d field
  proof -
    have "operation_checked program f (declared_types body) oper"
      using validated_body_checked [OF assms] that by (auto simp: body_checked_def block_checked_def)
    then obtain available where "validate_operation program f oper available = []" by (auto simp: operation_checked_def)
    with that(3) show ?thesis
      using never_bails_clean by (auto simp: validate_operation_Nil valid_finite_payload_project_def Let_def dest: arity_result)
  qed
  with validated_names_distinct [OF assms] show ?thesis by (auto simp: well_named_def)
qed

text \<open>The store while a body with an accepted claim runs: the parameter has the value it came with, and
  what a link has projected is a part of it.\<close>

definition descends :: "decrease_claim \<Rightarrow> execution_value \<Rightarrow> env \<Rightarrow> bool" where
  "descends claim v vals \<longleftrightarrow>
     vals (dc_param_value claim) = Some v \<and>
     (\<forall>link\<in>set (dc_links claim). \<forall>w. vals (dl_child_value link) = Some w \<longrightarrow> payload_part\<^sup>+\<^sup>+ w v)"

lemma link_writes:
  assumes named: "well_named body" and oper: "link_operation body link oper"
  obtains b res rs where "b \<in> set (fb_blocks body)" "oper \<in> set (bb_operations b)" "bo_results oper = res # rs"
    "dl_child_value link = bv_id res" "dl_child_value link \<in> set (result_names oper)"
proof -
  obtain b where b: "b \<in> set (fb_blocks body)" "oper \<in> set (bb_operations b)"
    using oper find_operation_in [of body "dl_op link" oper] by (auto simp: link_operation_def)
  have "bo_results oper \<noteq> []" using named oper b unfolding well_named_def link_operation_def by blast
  then obtain res rs where "bo_results oper = res # rs" by (cases "bo_results oper") auto
  with b oper that show thesis by (auto simp: link_operation_def first_result_id_def result_names_def)
qed

lemma project_part:
  assumes "exec_pure lib program (FinitePayloadProject t var d field) oper vals = Store v" "bo_operands oper = [x]"
  shows "\<exists>w. vals x = Some w \<and> payload_part v w"
  using assms
  by (auto simp: exec_finite_payload_project_def operand_value_def operand_def split: option.splits execution_value.splits if_splits
      dest!: map_of_SomeD intro: payload_part)

lemma visits_descend:
  assumes run: "visits lib program call frame start i opers vals r" and named: "well_named (fr_body frame)"
    and claim: "claim_holds (fr_body frame) claim"
    and start: "start (dc_param_value claim) = Some v" "dom start \<subseteq> bp_id ` set (fb_parameters (fr_body frame))"
  shows "descends claim v vals"
  using run
proof (rule visits_invariant [where Q = "\<lambda>_. True"])
  let ?body = "fr_body frame"
  have distinct: "distinct (body_names ?body)" using named by (simp add: well_named_def)
  note writer = single_writer [OF distinct]
  have param: "dc_param_value claim \<in> bp_id ` set (fb_parameters ?body)" using claim by (auto simp: claim_holds_def)
  have link: "\<exists>oper. link_operation ?body link oper"
    "dl_parent_value link = dc_param_value claim \<or> (\<exists>earlier\<in>set (dc_links claim). dl_parent_value link = dl_child_value earlier)"
    if "link \<in> set (dc_links claim)" for link
    using claim that by (auto simp: claim_holds_def)
  have child: "dl_child_value link \<notin> bp_id ` set (fb_parameters ?body)"
    "b \<in> set (fb_blocks ?body) \<Longrightarrow> dl_child_value link \<notin> bv_id ` set (bb_parameters b)" if "link \<in> set (dc_links claim)" for link b
    using link(1) [OF that] link_writes [OF named] writer(1,2) by metis+
  show "descends claim v start"
    using start child(1) by (fastforce simp: descends_def)
  show True ..
  fix block oper res rs w vals
  assume here: "block \<in> set (fb_blocks ?body)" "oper \<in> set (bb_operations block)" and results: "bo_results oper = res # rs"
    and pure: "is_pure (bo_kind oper) \<Longrightarrow> exec_pure lib program (bo_kind oper) oper vals = Store w" and before: "descends claim v vals"
  have own: "bv_id res \<in> set (result_names oper)" by (simp add: result_names_def results)
  have "payload_part\<^sup>+\<^sup>+ w v" if "l \<in> set (dc_links claim)" "dl_child_value l = bv_id res" for l
  proof -
    note l = that
    obtain oper' where op: "link_operation ?body l oper'" using link(1) [OF l(1)] by blast
    have "oper' = oper"
    proof (rule link_writes [OF named op])
      fix b res' rs'
      assume "b \<in> set (fb_blocks ?body)" "oper' \<in> set (bb_operations b)" "dl_child_value l \<in> set (result_names oper')"
      then show "oper' = oper" unfolding l(2) by (rule writer(3) [OF here own])
    qed
    with op obtain t var d field where kind: "bo_kind oper = FinitePayloadProject t var d field" "bo_operands oper = [dl_parent_value l]"
      by (auto simp: link_operation_def)
    have "exec_pure lib program (FinitePayloadProject t var d field) oper vals = Store w" using pure kind(1) by simp
    from project_part [OF this kind(2)] obtain u where u: "vals (dl_parent_value l) = Some u" "payload_part w u" by blast
    show ?thesis
      using link(2) [OF l(1)]
    proof
      assume "dl_parent_value l = dc_param_value claim"
      with u before show ?thesis by (auto simp: descends_def)
    next
      assume "\<exists>earlier\<in>set (dc_links claim). dl_parent_value l = dl_child_value earlier"
      with u before have "payload_part\<^sup>+\<^sup>+ u v" by (auto simp: descends_def)
      with u(2) show ?thesis by (rule tranclp_into_tranclp2 [of payload_part w u v])
    qed
  qed
  moreover have "dc_param_value claim \<noteq> bv_id res" using writer(1) [OF here own] param by auto
  ultimately show "descends claim v (vals(bv_id res \<mapsto> w))"
    using before by (auto simp: descends_def)
next
  let ?body = "fr_body frame"
  have distinct: "distinct (body_names ?body)" using named by (simp add: well_named_def)
  have link: "\<exists>oper. link_operation ?body link oper" if "link \<in> set (dc_links claim)" for link
    using claim that by (auto simp: claim_holds_def)
  fix block vals and vs :: "execution_value list"
  assume block: "block \<in> set (fb_blocks ?body)" and before: "descends claim v vals"
  let ?update = "map_of (rev (zip (map bv_id (bb_parameters block)) vs))"
  have "dc_param_value claim \<in> bp_id ` set (fb_parameters ?body)" using claim by (auto simp: claim_holds_def)
  then have "dc_param_value claim \<notin> bv_id ` set (bb_parameters block)"
    using distinct block by (auto simp: body_names_blocks)
  moreover have "dl_child_value l \<notin> bv_id ` set (bb_parameters block)" if "l \<in> set (dc_links claim)" for l
    using link [OF that] link_writes [OF named] single_writer(2) [OF distinct] block by metis
  moreover have "?update x = None" if "x \<notin> bv_id ` set (bb_parameters block)" for x
  proof (rule ccontr)
    assume "?update x \<noteq> None"
    then have "x \<in> fst ` set (zip (map bv_id (bb_parameters block)) vs)" by (force dest: map_of_SomeD)
    with that show False by (auto dest: set_zip_leftD)
  qed
  ultimately show "descends claim v (vals ++ ?update)"
    using before by (auto simp: descends_def map_add_def)
qed


section \<open>Calls\<close>

lemma bound_names:
  assumes "normalize_arguments program body trusted arguments = Some bound" "length (fb_parameters body) = length arguments"
  shows "map fst bound = map bp_id (fb_parameters body)"
proof -
  have all: "map (\<lambda>(i, p, a). map_option (Pair (bp_id p)) (if trusted_at trusted i then Some a else normalize_value program a (bp_ty p)))
      (zip [0..<length arguments] (zip (fb_parameters body) arguments)) = map Some bound"
    using assms(1) by (simp add: normalize_arguments_def collect_options_Some)
  then have len: "length bound = length arguments" using assms(2) by (auto dest: map_eq_imp_length_eq)
  show ?thesis
  proof (rule nth_equalityI)
    fix i assume "i < length (map fst bound)"
    then have i: "i < length arguments" using len by simp
    from arg_cong [OF all, of "\<lambda>l. l ! i"] i assms(2) len show "map fst bound ! i = map bp_id (fb_parameters body) ! i"
      by (auto split: if_splits) (metis fst_conv)+
  qed (simp add: len assms(2))
qed

lemma entered_argument:
  assumes enter: "enter_function select program valid record_effects depth trusted request = Inr (frame, start)"
    and params: "fb_parameters (fr_body frame) = param # rest" "bp_ty param = TFinite t shown"
    and distinct: "distinct (map bp_id (fb_parameters (fr_body frame)))"
  obtains a as where "rq_arguments request = a # as" "start (bp_id param) = Some a"
    "dom start \<subseteq> bp_id ` set (fb_parameters (fr_body frame))"
proof -
  from enter obtain bound where valid: "validate_arguments program (fr_body frame) trusted (rq_arguments request)"
    and bound: "normalize_arguments program (fr_body frame) trusted (rq_arguments request) = Some bound"
    and start: "start = map_of (rev bound)"
    by (auto simp: enter_function_def Let_def split: if_splits option.splits)
  have len: "length (fb_parameters (fr_body frame)) = length (rq_arguments request)"
    using valid by (simp add: validate_arguments_def)
  note names = bound_names [OF bound len]
  obtain a as where args: "rq_arguments request = a # as" using len params(1) by (cases "rq_arguments request") auto
  have all: "map (\<lambda>(i, p, a). map_option (Pair (bp_id p)) (if trusted_at trusted i then Some a else normalize_value program a (bp_ty p)))
      (zip [0..<length (rq_arguments request)] (zip (fb_parameters (fr_body frame)) (rq_arguments request))) = map Some bound"
    using bound by (simp add: normalize_arguments_def collect_options_Some)
  have "normalize_value program a (TFinite t shown) = Some w \<Longrightarrow> w = a" for w
    by (cases a) (auto split: if_splits)
  with all args params have "hd bound = (bp_id param, a)" "bound \<noteq> []"
    by (cases bound; auto simp: upt_rec [of 0] simp del: upt_Suc split: if_splits)+
  then obtain bound' where cons: "bound = (bp_id param, a) # bound'" by (cases bound) auto
  have "start (bp_id param) = Some a"
    using names distinct by (auto simp: start cons map_add_def params(1) map_of_eq_None_iff [symmetric] split: option.splits
        dest!: map_of_SomeD) (metis fst_conv image_eqI image_set)
  moreover have "dom start \<subseteq> bp_id ` set (fb_parameters (fr_body frame))"
    using arg_cong [OF names, of set] by (auto simp: start dom_map_of_conv_image_fst)
  ultimately show thesis using args that by blast
qed

lemma decrease_core:
  assumes claim: "verify_structural_decrease program table claim = None"
    and enter: "enter_function select program valid record_effects depth trusted request = Inr (frame, start)"
    and f: "find_callee program (dc_function claim) = Some f" "fn_body f = Some (fr_body frame)"
    and named: "well_named (fr_body frame)"
    and run: "visits lib program call frame start i (oper # opers) vals r"
    and oper: "find_operation (fr_body frame) (dc_call_op claim) = Inr oper"
    and arguments: "bo_operands oper \<noteq> []" "collect_operands oper vals = Some arguments"
  shows "rq_arguments request \<noteq> [] \<and> arguments \<noteq> [] \<and> payload_part\<^sup>+\<^sup>+ (hd arguments) (hd (rq_arguments request))"
proof -
  have holds: "claim_holds (fr_body frame) claim"
    using verified_claim_holds [OF claim] f by (metis option.inject)
  have distinct: "distinct (map bp_id (fb_parameters (fr_body frame)))" using named by (simp add: well_named_def body_names_def)
  obtain param rest t shown where param: "fb_parameters (fr_body frame) = param # rest" "bp_ty param = TFinite t shown"
    "bp_id param = dc_param_value claim"
    using holds by (auto simp: claim_holds_def)
  obtain a as where a: "rq_arguments request = a # as" "start (bp_id param) = Some a"
    "dom start \<subseteq> bp_id ` set (fb_parameters (fr_body frame))"
    by (rule entered_argument [OF enter param(1,2) distinct])
  have down: "descends claim a vals"
    by (rule visits_descend [OF run named holds _ a(3)]) (use a(2) param(3) in simp)
  obtain x xs where xs: "bo_operands oper = x # xs" using arguments(1) by (cases "bo_operands oper") auto
  have x: "x = dl_child_value (last (dc_links claim))" "last (dc_links claim) \<in> set (dc_links claim)"
    using holds oper xs by (auto simp: claim_holds_def)
  obtain w ws where w: "arguments = w # ws" "vals x = Some w"
    using arguments(2) xs by (auto simp: collect_operands_def split: option.splits)
  with down x have "payload_part\<^sup>+\<^sup>+ w a" by (auto simp: descends_def)
  then show ?thesis by (simp add: a(1) w(1))
qed

text \<open>A request leads to another through a call site with an accepted claim.\<close>

definition verified_call ::
  "float_library \<Rightarrow> program \<Rightarrow> binding_table option \<Rightarrow> execution_request \<Rightarrow> execution_request \<Rightarrow> bool" where
  "verified_call lib program table caller callee \<longleftrightarrow>
     (\<exists>claim select record_effects depth trusted frame start call i oper opers vals r f arguments budget name.
        verify_structural_decrease program table claim = None \<and>
        enter_function select program True record_effects depth trusted caller = Inr (frame, start) \<and>
        find_callee program (dc_function claim) = Some f \<and> fn_body f = Some (fr_body frame) \<and>
        visits lib program call frame start i (oper # opers) vals r \<and>
        find_operation (fr_body frame) (dc_call_op claim) = Inr oper \<and>
        bo_operands oper \<noteq> [] \<and> collect_operands oper vals = Some arguments \<and>
        callee = nested_request program caller (Some f) name arguments budget)"

lemma verified_call_smaller:
  assumes "verified_call lib program table caller callee" "program_valid digest program"
  shows "size (hd (rq_arguments callee)) < size (hd (rq_arguments caller))"
proof -
  from assms(1) obtain claim select record_effects depth trusted frame start call i oper opers vals r f arguments budget name
    where claim: "verify_structural_decrease program table claim = None"
      and enter: "enter_function select program True record_effects depth trusted caller = Inr (frame, start)"
      and f: "find_callee program (dc_function claim) = Some f" "fn_body f = Some (fr_body frame)"
      and rest: "visits lib program call frame start i (oper # opers) vals r"
        "find_operation (fr_body frame) (dc_call_op claim) = Inr oper"
        "bo_operands oper \<noteq> []" "collect_operands oper vals = Some arguments"
      and callee: "callee = nested_request program caller (Some f) name arguments budget"
    unfolding verified_call_def by blast
  have "f \<in> set (pg_functions program)" using f(1) by (auto simp: find_callee_def find_Some_iff)
  then have "validate_body digest program f (fr_body frame) = Some []" by (rule validated_functions [OF assms(2) _ f(2)])
  then have named: "well_named (fr_body frame)" by (rule validated_well_named)
  from decrease_core [OF claim enter f named rest] payload_parts_size show ?thesis
    by (simp add: callee nested_request_def)
qed



text \<open>Property C8.  The evidence of a structural decrease is sound for execution: when the check accepts
  a claim, then in every configuration of a run of its function in which the claimed call is next,
  the first argument of the call is a proper payload part of the first argument of the caller.
  Validation gives the naming condition.\<close>

theorem verified_decrease_descends:
  assumes "verify_structural_decrease program table claim = None"
    and "enter_function select program valid record_effects depth trusted request = Inr (frame, start)"
    and "find_callee program (dc_function claim) = Some f" "fn_body f = Some (fr_body frame)"
    and "well_named (fr_body frame)"
    and "visits lib program call frame start i (oper # opers) vals r"
    and "find_operation (fr_body frame) (dc_call_op claim) = Inr oper"
    and "bo_operands oper \<noteq> []" "collect_operands oper vals = Some arguments"
  shows "payload_part\<^sup>+\<^sup>+ (hd arguments) (hd (rq_arguments request))"
  using decrease_core [OF assms] by blast


section \<open>A recursive function\<close>

text \<open>\<open>walk\<close> calls itself with the tail of its list.\<close>

definition list_id :: semantic_id where
  "list_id = finite_type_id ''app'' ''List''"

definition list_type :: body_type where
  "list_type = TFinite list_id ''List''"

definition walk_body :: function_body where
  "walk_body =
     plain_body ''b'' [\<lparr>bp_id = ''x'', bp_name = ''x'', bp_ty = list_type\<rparr>]
       [\<lparr>bb_id = ''b'', bb_parameters = [],
         bb_operations =
           [plain_operation ''o1'' (FinitePayloadProject list_id ''cons'' 1 ''tail'') [''x''] [\<lparr>bv_id = ''t'', bv_ty = list_type\<rparr>],
            plain_operation ''o2'' (Call (function_id ''app'' ''walk'') ''walk'' [] [] []) [''t'']
              [\<lparr>bv_id = ''y'', bv_ty = list_type\<rparr>]],
         bb_terminator = Return [''y'']\<rparr>]"

definition walk_fn :: fn where
  "walk_fn = plain_fn ''walk'' [\<lparr>nv_name = ''x'', nv_type = ''List''\<rparr>] [\<lparr>nv_name = ''r'', nv_type = ''List''\<rparr>] walk_body"

definition walk_program :: program where
  "walk_program = plain_program ''app''
     [\<lparr>ft_identity = list_id, ft_name = ''List'', ft_variants =
        [\<lparr>fv_identity = ''nil'', fv_name = ''nil'', fv_discriminant = 0, fv_payload = []\<rparr>,
         \<lparr>fv_identity = ''cons'', fv_name = ''cons'', fv_discriminant = 1, fv_payload = [\<lparr>rf_name = ''tail'', rf_type = ''List''\<rparr>]\<rparr>]\<rparr>]
     [] [walk_fn]"

definition walk_table :: binding_table where
  "walk_table = binding_table_new [] []
     [\<lparr>bd_identity = ''bx'', bd_spelling = ''x'', bd_namespace = ''n'', bd_scope = ''s'', bd_declaration = ''d'',
       bd_kind = ParameterBinding, bd_projected_from = None\<rparr>,
      \<lparr>bd_identity = ''bt'', bd_spelling = ''t'', bd_namespace = ''n'', bd_scope = ''s'', bd_declaration = ''d'',
       bd_kind = LocalBinding, bd_projected_from = Some ''bx''\<rparr>] []"

definition walk_claim :: decrease_claim where
  "walk_claim =
     \<lparr>dc_call_op = ''o2'', dc_function = function_id ''app'' ''walk'', dc_param_binding = ''bx'', dc_param_value = ''x'',
      dc_arg_binding = ''bt'',
      dc_links = [\<lparr>dl_op = ''o1'', dl_parent_binding = ''bx'', dl_child_binding = ''bt'', dl_parent_value = ''x'', dl_child_value = ''t''\<rparr>]\<rparr>"

definition walk_argument :: execution_value where
  "walk_argument = VFinite list_id ''cons'' 1 [(''tail'', VFinite list_id ''nil'' 0 [])]"

definition walk_request :: execution_request where
  "walk_request =
     \<lparr>rq_schema = ''0.1'', rq_module = ''app'', rq_function = ''walk'', rq_arguments = [walk_argument],
      rq_step_budget = 9, rq_call_depth_budget = None\<rparr>"

definition walk_frame :: frame where
  "walk_frame =
     \<lparr>fr_namespace = ''app'', fr_function = ''walk'', fr_body = walk_body, fr_reusable = [],
      fr_request = walk_request, fr_record = False\<rparr>"

lemma walk_accepted: "verify_structural_decrease walk_program (Some walk_table) walk_claim = None"
  by code_simp

lemma walk_well_named: "well_named walk_body"
  by (simp add: well_named_def walk_body_def body_names_def block_values_def)

lemma walk_arguments:
  "validate_arguments walk_program walk_body None [walk_argument]"
  "normalize_arguments walk_program walk_body None [walk_argument] = Some [(''x'', walk_argument)]"
  by code_simp+

lemma walk_fields: "fn_name walk_fn = ''walk''" "fn_home_module walk_fn = None" "fn_generic_params walk_fn = []"
  "fn_body walk_fn = Some walk_body" "pg_functions walk_program = [walk_fn]" "pg_module walk_program = ''app''"
  by (simp_all add: walk_fn_def walk_program_def)

lemma walk_found:
  "find_function walk_program ''app'' ''walk'' = Some walk_fn"
  "find_callee walk_program (function_id ''app'' ''walk'') = Some walk_fn"
  by (simp_all add: walk_fields find_function_def find_callee_def identity_namespace_def)

lemma walk_request_fields: "rq_module walk_request = ''app''" "rq_function walk_request = ''walk''"
  "rq_arguments walk_request = [walk_argument]" "rq_call_depth_budget walk_request = None" "rq_step_budget walk_request = 9"
  by (simp_all add: walk_request_def)

lemma walk_enter: "enter_function (\<lambda>_ _ _. []) walk_program True False 0 None walk_request = Inr (walk_frame, [''x'' \<mapsto> walk_argument])"
proof -
  have admissible: "request_admissible walk_program True walk_request"
    by (simp add: request_admissible_def walk_request_def walk_fields max_execution_budget_def)
  have "resolve_concrete_entry walk_program ''app'' ''walk'' = Some ''walk''"
    by (simp add: resolve_concrete_entry_def walk_found walk_fields)
  then show ?thesis
    by (simp add: enter_function_def admissible walk_request_fields walk_found walk_fields walk_arguments walk_frame_def
        identity_namespace_def)
qed

lemma walk_project:
  "exec_pure lib walk_program (FinitePayloadProject list_id ''cons'' 1 ''tail'') (hd (bb_operations (hd (fb_blocks walk_body))))
     [''x'' \<mapsto> walk_argument] = Store (VFinite list_id ''nil'' 0 [])"
  by (simp add: exec_finite_payload_project_def walk_body_def operand_value_def operand_def walk_argument_def
      valid_finite_value_def walk_program_def nominal_identity_matches_def find_finite_def)

theorem verified_decrease_descends_witness:
  "payload_part\<^sup>+\<^sup>+ (hd [VFinite list_id ''nil'' 0 []]) (hd [walk_argument])"
proof -
  let ?lib = "\<lparr>sin_bits = id, cos_bits = id\<rparr>" and ?call = "\<lambda>_ _. None"
  obtain o1 o2 where opers: "bb_operations (hd (fb_blocks walk_body)) = [o1, o2]"
    and o1: "bo_kind o1 = FinitePayloadProject list_id ''cons'' 1 ''tail''" "bo_results o1 = [\<lparr>bv_id = ''t'', bv_ty = list_type\<rparr>]"
    and o2: "find_operation walk_body ''o2'' = Inr o2" "bo_operands o2 = [''t'']"
    by (simp add: walk_body_def find_operation_def)
  have body: "fr_body walk_frame = walk_body" "rq_arguments walk_request = [walk_argument]"
    by (simp_all add: walk_frame_def walk_request_fields)
  have block: "block_map walk_body (fb_entry walk_body) = Some (hd (fb_blocks walk_body))"
    by (simp add: walk_body_def block_map_def)
  have "visits ?lib walk_program ?call walk_frame [''x'' \<mapsto> walk_argument] (fb_entry walk_body) [o1, o2] [''x'' \<mapsto> walk_argument] empty_result"
    using visits_entry [of walk_frame "hd (fb_blocks walk_body)" ?lib walk_program ?call "[''x'' \<mapsto> walk_argument]"] block opers body by simp
  moreover have "consume_step (rq_step_budget (fr_request walk_frame)) empty_result = Some (empty_result\<lparr>xr_steps := 1\<rparr>)"
    by (simp add: consume_step_def walk_frame_def walk_request_fields empty_result_def)
  moreover have "execute_operation ?lib walk_program ?call walk_frame i o1 [''x'' \<mapsto> walk_argument] r =
      Continue [''x'' \<mapsto> walk_argument, ''t'' \<mapsto> VFinite list_id ''nil'' 0 []] r" for i r
    using walk_project [of ?lib] opers o1 by (simp add: execute_operation_def store_def)
  ultimately have run: "visits ?lib walk_program ?call walk_frame [''x'' \<mapsto> walk_argument] (fb_entry walk_body) [o2]
      [''x'' \<mapsto> walk_argument, ''t'' \<mapsto> VFinite list_id ''nil'' 0 []] (empty_result\<lparr>xr_steps := 1\<rparr>)"
    by (rule visits_operation)
  have claim: "dc_function walk_claim = function_id ''app'' ''walk''" "dc_call_op walk_claim = ''o2''"
    by (simp_all add: walk_claim_def)
  show ?thesis
    using verified_decrease_descends [OF walk_accepted walk_enter _ _ _ run, of walk_fn "[VFinite list_id ''nil'' 0 []]"]
      walk_found walk_fields walk_well_named o2
    by (simp add: claim body collect_operands_def)
qed

end
