(* ===== verification/Ranges.thy ===== *)
theory Ranges
  imports Run_Invariant
begin

text \<open>
  The interval analysis of \<open>crates/mncs-model/src/obligations.rs\<close>, by which arithmetic obligations are
  discharged without a proof: \<open>collect_body_ranges\<close> gives the integers and bytes of a body closed
  intervals, \<open>range_proves_integer_operation\<close> asks whether a checked operation stays in its type, and
  literal divisors discharge the obligations of a division.

  The analysis is sound for every run of a validated body without widening arithmetic; with it, it
  is not.
\<close>

section \<open>Intervals\<close>

type_synonym interval = "int \<times> int"
type_synonym ranges = "string \<rightharpoonup> interval"

text \<open>\<open>saturating_sub(1)\<close> on the width is subtraction of naturals.  Validated widths are at most 126, so
  no shift leaves \<open>i128\<close>.\<close>

definition integer_bounds :: "integer_type \<Rightarrow> interval" where
  "integer_bounds ty =
     (if ty_signed ty then (- (2 ^ (ty_bits ty - 1)), 2 ^ (ty_bits ty - 1) - 1) else (0, 2 ^ ty_bits ty - 1))"

definition scalar_value_bounds :: "body_type \<Rightarrow> interval option" where
  "scalar_value_bounds ty =
     (case ty of TInteger integer \<Rightarrow> Some (integer_bounds integer) | TByte \<Rightarrow> Some (0, 255) | _ \<Rightarrow> None)"

definition saturate :: "int \<Rightarrow> int" where
  "saturate v = max i128_min (min i128_max v)"

definition range_interval :: "string \<Rightarrow> interval option \<Rightarrow> interval option \<Rightarrow> interval option" where
  "range_interval operator left right =
     (case (left, right) of
        (Some (alo, ahi), Some (blo, bhi)) \<Rightarrow>
          if operator = ''add'' then Some (saturate (alo + blo), saturate (ahi + bhi))
          else if operator = ''sub'' then Some (saturate (alo - bhi), saturate (ahi - blo))
          else if operator = ''mul'' then
            (let products = [saturate (alo * blo), saturate (alo * bhi), saturate (ahi * blo), saturate (ahi * bhi)] in
             Some (Min (set products), Max (set products)))
          else None
      | _ \<Rightarrow> None)"

definition within :: "interval \<Rightarrow> interval \<Rightarrow> bool" where
  "within inner outer \<longleftrightarrow> fst outer \<le> fst inner \<and> snd inner \<le> snd outer"

definition operand_range :: "body_operation \<Rightarrow> ranges \<Rightarrow> nat \<Rightarrow> interval option" where
  "operand_range oper ranges i = Option.bind (operand oper i) ranges"


section \<open>The analysis of a body\<close>

text \<open>What an operation makes of the intervals of its operands; nothing where the analysis leaves its
  results without an entry.  Only the last case keeps an entry that is there already.\<close>

definition convert_range :: "body_operation \<Rightarrow> ranges \<Rightarrow> body_type \<Rightarrow> body_type \<Rightarrow> interval option" where
  "convert_range oper ranges source target =
     (case scalar_value_bounds target of
        None \<Rightarrow> None
      | Some dest \<Rightarrow>
          let known = (case operand_range oper ranges 0 of
                None \<Rightarrow> (case scalar_value_bounds source of None \<Rightarrow> dest | Some b \<Rightarrow> b)
              | Some b \<Rightarrow> b) in
          Some (if within known dest then known else dest))"

definition arithmetic_range :: "string \<Rightarrow> integer_type \<Rightarrow> body_operation \<Rightarrow> ranges \<Rightarrow> interval" where
  "arithmetic_range operator operand_type oper ranges =
     (case range_interval operator (operand_range oper ranges 0) (operand_range oper ranges 1) of
        Some interval \<Rightarrow> if within interval (integer_bounds operand_type) then interval else integer_bounds operand_type
      | None \<Rightarrow> integer_bounds operand_type)"

definition record_results :: "(ranges \<Rightarrow> body_value \<Rightarrow> bool) \<Rightarrow> (body_value \<Rightarrow> interval option) \<Rightarrow> body_value list \<Rightarrow> ranges \<Rightarrow> ranges" where
  "record_results skip entry results ranges =
     fold (\<lambda>res m. if skip m res then m else case entry res of None \<Rightarrow> m | Some b \<Rightarrow> m(bv_id res \<mapsto> b)) results ranges"

definition analyse_operation :: "string set \<Rightarrow> body_operation \<Rightarrow> ranges \<Rightarrow> ranges" where
  "analyse_operation pinned oper ranges =
     (let is_pinned = (\<lambda>_ res. bv_id res \<in> pinned);
          scalar = (\<lambda>b res. if scalar_value_bounds (bv_ty res) = None then None else Some b);
          widen = record_results (\<lambda>m res. m (bv_id res) \<noteq> None) (\<lambda>res. scalar_value_bounds (bv_ty res)) (bo_results oper) in
      case bo_kind oper of
        Constant v ty \<Rightarrow>
          record_results is_pinned (\<lambda>_. if scalar_value_bounds ty = None then None else Some (v, v)) (bo_results oper) ranges
      | Convert source target \<Rightarrow>
          (case convert_range oper ranges source target of
             None \<Rightarrow> ranges
           | Some b \<Rightarrow> record_results is_pinned (scalar b) (bo_results oper) ranges)
      | Integer operator operand_type _ \<Rightarrow>
          if operator \<in> {''add'', ''sub'', ''mul''}
          then record_results is_pinned (scalar (arithmetic_range operator operand_type oper ranges)) (bo_results oper) ranges
          else widen ranges
      | _ \<Rightarrow> widen ranges)"

definition body_operations :: "function_body \<Rightarrow> body_operation list" where
  "body_operations body = concat (map bb_operations (fb_blocks body))"

definition body_results :: "function_body \<Rightarrow> body_value list" where
  "body_results body = concat (map bo_results (body_operations body))"

text \<open>The entries made before the operations: parameters of blocks, then of the body, then names defined
  more than once, with the names that are never narrowed.\<close>

definition pin_multiple :: "string list \<Rightarrow> body_value \<Rightarrow> ranges \<times> string set \<Rightarrow> ranges \<times> string set" where
  "pin_multiple defined res state =
     (case state of
        (ranges, pinned) \<Rightarrow>
          if 1 < count_list defined (bv_id res) \<and> ranges (bv_id res) = None
          then (case scalar_value_bounds (bv_ty res) of None \<Rightarrow> ranges | Some b \<Rightarrow> ranges(bv_id res \<mapsto> b),
                insert (bv_id res) pinned)
          else (ranges, pinned))"

definition initial_ranges :: "function_body \<Rightarrow> ranges \<times> string set" where
  "initial_ranges body =
     (let block_params = concat (map bb_parameters (fb_blocks body));
          pinned = bv_id ` set block_params;
          ranges = record_results (\<lambda>_ _. False) (\<lambda>p. scalar_value_bounds (bv_ty p)) block_params Map.empty;
          ranges' = fold (\<lambda>p m. case scalar_value_bounds (bp_ty p) of
                None \<Rightarrow> m
              | Some b \<Rightarrow> if m (bp_id p) = None then m(bp_id p \<mapsto> b) else m) (fb_parameters body) ranges
      in fold (pin_multiple (map bv_id (body_results body))) (body_results body) (ranges', pinned))"

definition collect_body_ranges :: "function_body \<Rightarrow> ranges" where
  "collect_body_ranges body =
     (case initial_ranges body of
        (ranges, pinned) \<Rightarrow> fold (analyse_operation pinned) (body_operations body) ranges)"

definition range_proves_integer_operation ::
  "body_operation \<Rightarrow> integer_type \<Rightarrow> string \<Rightarrow> arithmetic_intent \<Rightarrow> ranges \<Rightarrow> bool" where
  "range_proves_integer_operation oper operand_type operator intent ranges \<longleftrightarrow>
     intent \<in> {Checked, Trapping} \<and> operator \<in> {''add'', ''sub'', ''mul''} \<and>
     (case range_interval operator (operand_range oper ranges 0) (operand_range oper ranges 1) of
        None \<Rightarrow> False
      | Some interval \<Rightarrow> within interval (integer_bounds operand_type))"

text \<open>Integer literals by the name of their result; of several the later counts.\<close>

definition collect_body_constants :: "function_body \<Rightarrow> string \<rightharpoonup> int \<times> integer_type" where
  "collect_body_constants body =
     map_of (rev (concat (map (\<lambda>oper.
         case bo_kind oper of
           Constant v (TInteger ty) \<Rightarrow> map (\<lambda>res. (bv_id res, (v, ty))) (bo_results oper)
         | _ \<Rightarrow> []) (body_operations body))))"

definition operand_constant :: "(string \<rightharpoonup> int \<times> integer_type) \<Rightarrow> body_operation \<Rightarrow> nat \<Rightarrow> int option" where
  "operand_constant constants oper i = map_option fst (Option.bind (operand oper i) constants)"

text \<open>The two obligations of a division that literals discharge.\<close>

definition divisor_nonzero :: "(string \<rightharpoonup> int \<times> integer_type) \<Rightarrow> body_operation \<Rightarrow> bool" where
  "divisor_nonzero constants oper \<longleftrightarrow> (\<exists>v\<in>set_option (operand_constant constants oper 1). v \<noteq> 0)"

definition division_bounds_clear :: "(string \<rightharpoonup> int \<times> integer_type) \<Rightarrow> integer_type \<Rightarrow> body_operation \<Rightarrow> bool" where
  "division_bounds_clear constants operand_type oper \<longleftrightarrow>
     divisor_nonzero constants oper \<and>
     (\<exists>v\<in>set_option (operand_constant constants oper 1).
        v \<noteq> -1 \<or> (\<exists>d\<in>set_option (operand_constant constants oper 0). d \<noteq> - (2 ^ (ty_bits operand_type - 1))))"


section \<open>Interval arithmetic is sound\<close>

definition inside :: "interval \<Rightarrow> int \<Rightarrow> bool" where
  "inside b n \<longleftrightarrow> fst b \<le> n \<and> n \<le> snd b"

lemma inside_within: "inside b n \<Longrightarrow> within b c \<Longrightarrow> inside c n"
  by (auto simp: inside_def within_def)

lemma integer_bounds_inside: "valid_bits (ty_bits ty) \<Longrightarrow> inside (integer_bounds ty) n \<longleftrightarrow> fits_type ty n"
  by (auto simp: inside_def integer_bounds_def fits_def)

lemma integer_bounds_range: "in_range n ty \<Longrightarrow> inside (integer_bounds ty) n"
  by (simp add: in_range_iff integer_bounds_inside)

text \<open>A saturated bound that lies in a validated type was not clamped.\<close>

lemma saturate_interior:
  assumes "valid_bits b" "- (2 ^ b) \<le> saturate v" "saturate v \<le> 2 ^ b"
  shows "saturate v = v"
proof -
  have "(2::int) ^ b \<le> 2 ^ 126" using assms(1) by (intro power_increasing) (simp_all add: valid_bits_def)
  with assms(2,3) show ?thesis
    by (simp add: saturate_def i128_min_def i128_max_def max_def min_def split: if_splits) linarith?
qed

lemma integer_bounds_interior:
  "valid_bits (ty_bits ty) \<Longrightarrow> inside (integer_bounds ty) v \<Longrightarrow> - (2 ^ ty_bits ty) \<le> v \<and> v \<le> 2 ^ ty_bits ty"
proof -
  assume "valid_bits (ty_bits ty)" "inside (integer_bounds ty) v"
  moreover define half whole :: int where "half = 2 ^ (ty_bits ty - 1)" and "whole = 2 ^ ty_bits ty"
  moreover have "half \<le> whole" "0 < half" unfolding half_def whole_def by (intro power_increasing) simp_all
  ultimately show ?thesis by (simp add: inside_def integer_bounds_def split: if_splits flip: half_def whole_def)
qed

lemma product_between:
  fixes a b :: int
  assumes "alo \<le> a" "a \<le> ahi" "blo \<le> b" "b \<le> bhi"
  shows "Min {alo * blo, alo * bhi, ahi * blo, ahi * bhi} \<le> a * b" "a * b \<le> Max {alo * blo, alo * bhi, ahi * blo, ahi * bhi}"
proof -
  have ends: "min (x * y) (x * z) \<le> x * w \<and> x * w \<le> max (x * y) (x * z)" if "y \<le> w" "w \<le> z" for x y z w :: int
  proof (cases "0 \<le> x")
    case True
    with that show ?thesis by (simp add: min.coboundedI1 max.coboundedI2 mult_left_mono)
  next
    case False
    with that show ?thesis by (simp add: min.coboundedI2 max.coboundedI1 mult_left_mono_neg)
  qed
  from ends [OF assms(3,4), of a] ends [OF assms(1,2), of blo] ends [OF assms(1,2), of bhi]
  show "Min {alo * blo, alo * bhi, ahi * blo, ahi * bhi} \<le> a * b" "a * b \<le> Max {alo * blo, alo * bhi, ahi * blo, ahi * bhi}"
    by (auto simp: mult.commute min_def max_def split: if_splits)
qed

lemma range_interval_exact:
  assumes interval: "range_interval operator (Some ra) (Some rb) = Some b" and within: "within b (integer_bounds ty)"
    and valid: "valid_bits (ty_bits ty)" and operands: "inside ra l" "inside rb r"
  shows "\<exists>x. exact_result operator (ty_bits ty) l r = Some x \<and> inside b x"
proof -
  obtain alo ahi blo bhi where ra: "ra = (alo, ahi)" and rb: "rb = (blo, bhi)" by (cases ra; cases rb)
  have bounds: "alo \<le> l" "l \<le> ahi" "blo \<le> r" "r \<le> bhi" using operands by (simp_all add: ra rb inside_def)
  have ordered: "fst b \<le> snd b"
  proof -
    have mono: "saturate x \<le> saturate y" if "x \<le> y" for x y using that by (auto simp: saturate_def)
    have "alo + blo \<le> ahi + bhi" "alo - bhi \<le> ahi - blo" using bounds by linarith+
    with interval mono show ?thesis
      by (auto simp: range_interval_def ra rb Let_def split: if_splits intro!: min.coboundedI1 max.coboundedI1)
  qed
  then have ends: "inside (integer_bounds ty) (fst b)" "inside (integer_bounds ty) (snd b)"
    using within by (auto simp: within_def inside_def)
  note unclamped = integer_bounds_interior [OF valid ends(1)] integer_bounds_interior [OF valid ends(2)]
  consider "operator = ''add''" | "operator = ''sub''" | "operator = ''mul''"
    using interval by (auto simp: range_interval_def ra rb split: if_splits)
  then show ?thesis
  proof cases
    case 1
    then have "b = (saturate (alo + blo), saturate (ahi + bhi))" using interval by (simp add: range_interval_def ra rb)
    with unclamped saturate_interior [OF valid] have "b = (alo + blo, ahi + bhi)" by simp
    with bounds 1 show ?thesis by (simp add: exact_result_def inside_def)
  next
    case 2
    then have "b = (saturate (alo - bhi), saturate (ahi - blo))" using interval by (simp add: range_interval_def ra rb)
    with unclamped saturate_interior [OF valid] have "b = (alo - bhi, ahi - blo)" by simp
    with bounds 2 show ?thesis by (simp add: exact_result_def inside_def)
  next
    case 3
    let ?products = "{alo * blo, alo * bhi, ahi * blo, ahi * bhi}"
    have b: "b = (Min (saturate ` ?products), Max (saturate ` ?products))"
      using 3 interval by (simp add: range_interval_def ra rb Let_def)
    have "saturate x = x" if "x \<in> ?products" for x
    proof -
      have "fst b \<le> saturate x" "saturate x \<le> snd b" using that unfolding b fst_conv snd_conv by (intro Min_le Max_ge; blast)+
      with unclamped show ?thesis by (intro saturate_interior [OF valid]) linarith+
    qed
    then have "b = (Min ?products, Max ?products)" unfolding b by simp
    with product_between [OF bounds] 3 show ?thesis by (simp add: exact_result_def inside_def)
  qed
qed


section \<open>What the analysis records\<close>

lemma record_results_other: "x \<notin> bv_id ` set results \<Longrightarrow> record_results skip entry results m x = m x"
  unfolding record_results_def
proof (induction results arbitrary: m)
  case (Cons res results)
  have "(if skip m res then m else case entry res of None \<Rightarrow> m | Some b \<Rightarrow> m(bv_id res \<mapsto> b)) x = m x"
    using Cons.prems by (auto split: option.splits)
  with Cons show ?case by simp
qed simp

lemma record_results_fresh:
  assumes "distinct (map bv_id results)" "\<And>res. res \<in> set results \<Longrightarrow> m (bv_id res) = None"
    and "\<And>m res. res \<in> set results \<Longrightarrow> m (bv_id res) = None \<Longrightarrow> \<not> skip m res" "res \<in> set results"
  shows "record_results skip entry results m (bv_id res) = entry res"
  using assms
proof (induction results arbitrary: m)
  case (Cons r results)
  let ?m = "if skip m r then m else case entry r of None \<Rightarrow> m | Some b \<Rightarrow> m(bv_id r \<mapsto> b)"
  have step: "record_results skip entry (r # results) m = record_results skip entry results ?m"
    by (simp add: record_results_def)
  have m: "?m = (case entry r of None \<Rightarrow> m | Some b \<Rightarrow> m(bv_id r \<mapsto> b))" using Cons.prems(2,3) by simp
  show ?case
  proof (cases "res = r")
    case True
    have "bv_id r \<notin> bv_id ` set results" using Cons.prems(1) by auto
    then show ?thesis
      unfolding step m True record_results_other [OF \<open>bv_id r \<notin> _\<close>]
      using Cons.prems(2) [of r] by (simp split: option.splits)
  next
    case False
    have "?m (bv_id res') = None" if "res' \<in> set results" for res'
    proof -
      have "bv_id res' \<noteq> bv_id r" using Cons.prems(1) that by (metis distinct.simps(2) image_eqI list.map(2) list.set_map)
      then show ?thesis unfolding m using Cons.prems(2) that by (auto split: option.splits)
    qed
    with False Cons.prems show ?thesis unfolding step by (intro Cons.IH) auto
  qed
qed simp

text \<open>The entry of a result in terms of the entries before it.\<close>

definition result_range :: "body_operation \<Rightarrow> ranges \<Rightarrow> body_value \<Rightarrow> interval option" where
  "result_range oper ranges res =
     (let scalar = (\<lambda>b. if scalar_value_bounds (bv_ty res) = None then None else Some b) in
      case bo_kind oper of
        Constant v ty \<Rightarrow> if scalar_value_bounds ty = None then None else Some (v, v)
      | Convert source target \<Rightarrow> Option.bind (convert_range oper ranges source target) scalar
      | Integer operator operand_type _ \<Rightarrow>
          if operator \<in> {''add'', ''sub'', ''mul''} then scalar (arithmetic_range operator operand_type oper ranges)
          else scalar_value_bounds (bv_ty res)
      | _ \<Rightarrow> scalar_value_bounds (bv_ty res))"

lemma analyse_other: "x \<notin> set (result_names oper) \<Longrightarrow> analyse_operation pinned oper m x = m x"
  by (simp add: analyse_operation_def Let_def result_names_def record_results_other split: operation_kind.splits option.splits)

lemma analyse_fresh:
  assumes "distinct (result_names oper)" "\<And>x. x \<in> set (result_names oper) \<Longrightarrow> m x = None \<and> x \<notin> pinned" "res \<in> set (bo_results oper)"
  shows "analyse_operation pinned oper m (bv_id res) = result_range oper m res"
proof -
  have distinct: "distinct (map bv_id (bo_results oper))" using assms(1) by (simp add: result_names_def)
  have fresh: "m (bv_id r) = None" "bv_id r \<notin> pinned" if "r \<in> set (bo_results oper)" for r
    using assms(2) that by (auto simp: result_names_def)
  have pin: "record_results (\<lambda>_ res. bv_id res \<in> pinned) entry (bo_results oper) m (bv_id res) = entry res" for entry
    by (rule record_results_fresh [where m = m, OF distinct fresh(1) _ assms(3)]) (use fresh(2) in auto)
  have keep: "record_results (\<lambda>m res. m (bv_id res) \<noteq> None) entry (bo_results oper) m (bv_id res) = entry res" for entry
    by (rule record_results_fresh [where m = m, OF distinct fresh(1) _ assms(3)]) auto
  show ?thesis
    unfolding analyse_operation_def result_range_def Let_def
    by (cases "bo_kind oper") (auto simp: pin keep fresh(1) assms(3) simp del: not_None_eq split: option.splits)
qed

lemma analyse_operations:
  assumes "distinct (concat (map result_names opers))"
    and "\<And>x. x \<in> set (concat (map result_names opers)) \<Longrightarrow> m x = None \<and> x \<notin> pinned"
  shows "m \<subseteq>\<^sub>m fold (analyse_operation pinned) opers m \<and>
    (\<forall>oper\<in>set opers. \<exists>m'. m' \<subseteq>\<^sub>m fold (analyse_operation pinned) opers m \<and>
      (\<forall>res\<in>set (bo_results oper). fold (analyse_operation pinned) opers m (bv_id res) = result_range oper m' res)) \<and>
    (\<forall>x. x \<notin> set (concat (map result_names opers)) \<longrightarrow> fold (analyse_operation pinned) opers m x = m x)"
  using assms
proof (induction opers arbitrary: m)
  case (Cons first opers)
  let ?m = "analyse_operation pinned first m"
  let ?final = "fold (analyse_operation pinned) opers ?m"
  have distinct: "distinct (result_names first)" "distinct (concat (map result_names opers))"
    and fresh: "\<And>x. x \<in> set (result_names first) \<Longrightarrow> m x = None \<and> x \<notin> pinned"
    using Cons.prems by auto
  have later: "?m x = None \<and> x \<notin> pinned" if "x \<in> set (concat (map result_names opers))" for x
  proof -
    have "x \<notin> set (result_names first)" using Cons.prems(1) that by auto
    with Cons.prems(2) [of x] that show ?thesis by (auto simp: analyse_other)
  qed
  note rest = Cons.IH [OF distinct(2) later]
  have "m \<subseteq>\<^sub>m ?m"
    unfolding map_le_def by (metis analyse_other domIff fresh)
  then have le: "m \<subseteq>\<^sub>m ?final" using rest map_le_trans by blast
  have "?final (bv_id res) = result_range first m res" if "res \<in> set (bo_results first)" for res
  proof -
    have "bv_id res \<in> set (result_names first)" using that by (simp add: result_names_def)
    then have "bv_id res \<notin> set (concat (map result_names opers))" using Cons.prems(1) by auto
    then have "?final (bv_id res) = ?m (bv_id res)" using rest by blast
    with analyse_fresh [OF distinct(1) fresh that] show ?thesis by simp
  qed
  with le have "\<exists>m'. m' \<subseteq>\<^sub>m ?final \<and> (\<forall>res\<in>set (bo_results first). ?final (bv_id res) = result_range first m' res)" by blast
  moreover have "?final x = m x" if "x \<notin> set (concat (map result_names (first # opers)))" for x
    using rest that by (auto simp: analyse_other)
  ultimately show ?case using rest le by simp
qed auto

lemma record_results_in:
  "record_results skip entry results m x = Some b \<Longrightarrow> m x = Some b \<or> (\<exists>res\<in>set results. bv_id res = x \<and> entry res = Some b)"
  unfolding record_results_def
proof (induction results arbitrary: m)
  case (Cons res results)
  let ?m = "if skip m res then m else case entry res of None \<Rightarrow> m | Some b \<Rightarrow> m(bv_id res \<mapsto> b)"
  from Cons.IH [of ?m] Cons.prems
  have "?m x = Some b \<or> (\<exists>res\<in>set results. bv_id res = x \<and> entry res = Some b)" by simp
  then show ?case by (auto split: if_splits option.splits)
qed simp

lemma parameter_ranges_in:
  "fold (\<lambda>p m. case scalar_value_bounds (bp_ty p) of
        None \<Rightarrow> m
      | Some b \<Rightarrow> if m (bp_id p) = None then m(bp_id p \<mapsto> b) else m) ps m x = Some b \<Longrightarrow>
     m x = Some b \<or> (\<exists>p\<in>set ps. bp_id p = x \<and> scalar_value_bounds (bp_ty p) = Some b)"
proof (induction ps arbitrary: m)
  case (Cons p ps)
  let ?m = "case scalar_value_bounds (bp_ty p) of None \<Rightarrow> m | Some b \<Rightarrow> if m (bp_id p) = None then m(bp_id p \<mapsto> b) else m"
  from Cons.IH [of ?m] Cons.prems
  have "?m x = Some b \<or> (\<exists>p\<in>set ps. bp_id p = x \<and> scalar_value_bounds (bp_ty p) = Some b)" by simp
  then show ?case by (auto split: if_splits option.splits)
qed simp

lemma pin_multiple_distinct:
  assumes "distinct defined"
  shows "fold (pin_multiple defined) results state = state"
proof -
  have "\<not> 1 < count_list defined x" for x using assms by (induction defined) auto
  then have "pin_multiple defined res state = state" for res state by (simp add: pin_multiple_def split: prod.splits)
  then show ?thesis by (induction results) simp_all
qed

lemma body_results_names: "map bv_id (body_results body) = concat (map result_names (body_operations body))"
  by (simp add: body_results_def map_concat comp_def result_names_def [abs_def])

definition declared_in_head :: "function_body \<Rightarrow> string \<Rightarrow> interval \<Rightarrow> bool" where
  "declared_in_head body x b \<longleftrightarrow>
     (\<exists>block\<in>set (fb_blocks body). \<exists>p\<in>set (bb_parameters block). bv_id p = x \<and> scalar_value_bounds (bv_ty p) = Some b) \<or>
     (\<exists>p\<in>set (fb_parameters body). bp_id p = x \<and> scalar_value_bounds (bp_ty p) = Some b)"

lemma collected_ranges:
  assumes distinct: "distinct (body_names body)"
  shows "oper \<in> set (body_operations body) \<Longrightarrow> \<exists>m'. m' \<subseteq>\<^sub>m collect_body_ranges body \<and>
      (\<forall>res\<in>set (bo_results oper). collect_body_ranges body (bv_id res) = result_range oper m' res)"
    and "collect_body_ranges body x = Some b \<Longrightarrow> x \<notin> set (map bv_id (body_results body)) \<Longrightarrow> declared_in_head body x b"
proof -
  let ?names = "concat (map result_names (body_operations body))"
  let ?params = "concat (map bb_parameters (fb_blocks body))"
  have writer: "\<exists>b\<in>set (fb_blocks body). \<exists>oper\<in>set (bb_operations b). x \<in> set (result_names oper)" if "x \<in> set ?names" for x
    using that by (auto simp: body_operations_def)
  have names: "distinct ?names"
  proof -
    have operations: "distinct (concat (map (\<lambda>b. concat (map result_names (bb_operations b))) bs))"
      if "distinct (concat (map (\<lambda>b. map bv_id (bb_parameters b) @ concat (map result_names (bb_operations b))) bs))" for bs
      using that by (induction bs) auto
    have "distinct (concat (map (\<lambda>b. map bv_id (bb_parameters b) @ concat (map result_names (bb_operations b))) (fb_blocks body)))"
      using distinct by (simp only: body_names_blocks distinct_append)
    from operations [OF this] have "distinct (concat (map (\<lambda>b. concat (map result_names (bb_operations b))) (fb_blocks body)))" .
    moreover have "?names = concat (map (\<lambda>b. concat (map result_names (bb_operations b))) (fb_blocks body))"
    proof -
      have "concat (map result_names (concat (map bb_operations bs))) = concat (map (\<lambda>b. concat (map result_names (bb_operations b))) bs)" for bs
        by (induction bs) simp_all
      then show ?thesis by (simp add: body_operations_def)
    qed
    ultimately show ?thesis by (simp only:)
  qed
  obtain m pinned where init: "initial_ranges body = (m, pinned)" by (cases "initial_ranges body")
  have pinned: "pinned = bv_id ` set ?params"
    and m: "m = fold (\<lambda>p m. case scalar_value_bounds (bp_ty p) of
        None \<Rightarrow> m
      | Some b \<Rightarrow> if m (bp_id p) = None then m(bp_id p \<mapsto> b) else m) (fb_parameters body)
      (record_results (\<lambda>_ _. False) (\<lambda>p. scalar_value_bounds (bv_ty p)) ?params Map.empty)"
    using init unfolding initial_ranges_def Let_def body_results_names pin_multiple_distinct [OF names] by simp_all
  have head: "declared_in_head body y c" if "m y = Some c" for y c
    using parameter_ranges_in [OF that [unfolded m]]
  proof
    assume "record_results (\<lambda>_ _. False) (\<lambda>p. scalar_value_bounds (bv_ty p)) ?params Map.empty y = Some c"
    from record_results_in [OF this] obtain p where "p \<in> set ?params" "bv_id p = y" "scalar_value_bounds (bv_ty p) = Some c" by auto
    then show ?thesis unfolding declared_in_head_def by (intro disjI1) (simp; blast)
  next
    assume "\<exists>p\<in>set (fb_parameters body). bp_id p = y \<and> scalar_value_bounds (bp_ty p) = Some c"
    then show ?thesis unfolding declared_in_head_def by (rule disjI2)
  qed
  have fresh: "m y = None \<and> y \<notin> pinned" if y: "y \<in> set ?names" for y
  proof -
    obtain b oper where w: "b \<in> set (fb_blocks body)" "oper \<in> set (bb_operations b)" "y \<in> set (result_names oper)"
      using writer [OF y] by blast
    note apart = single_writer(1,2) [OF distinct w]
    have "m y = None"
    proof (rule ccontr)
      assume "m y \<noteq> None"
      then obtain c where "m y = Some c" by blast
      from head [OF this] apart show False by (auto simp: declared_in_head_def)
    qed
    with apart show ?thesis by (auto simp: pinned)
  qed
  have final: "collect_body_ranges body = fold (analyse_operation pinned) (body_operations body) m"
    by (simp add: collect_body_ranges_def init)
  note analysed = analyse_operations [OF names fresh, folded final]
  show "\<exists>m'. m' \<subseteq>\<^sub>m collect_body_ranges body \<and>
      (\<forall>res\<in>set (bo_results oper). collect_body_ranges body (bv_id res) = result_range oper m' res)"
    if "oper \<in> set (body_operations body)"
    using analysed that by blast
  show "declared_in_head body x b" if "collect_body_ranges body x = Some b" "x \<notin> set (map bv_id (body_results body))"
  proof -
    have "x \<notin> set ?names" using that(2) unfolding body_results_names .
    with analysed that(1) have "m x = Some b" by metis
    then show ?thesis by (rule head)
  qed
qed


section \<open>The analysis is sound for runs\<close>

fun number_of :: "execution_value \<Rightarrow> int option" where
  "number_of (VInteger n _) = Some n"
| "number_of (VByte n) = Some n"
| "number_of (VBoolean b) = Some (of_bool b)"
| "number_of _ = None"

definition in_interval :: "interval \<Rightarrow> execution_value \<Rightarrow> bool" where
  "in_interval b v \<longleftrightarrow> (\<exists>n\<in>set_option (number_of v). inside b n)"

definition ranges_hold :: "ranges \<Rightarrow> env \<Rightarrow> bool" where
  "ranges_hold ranges vals \<longleftrightarrow> (\<forall>x b v. ranges x = Some b \<longrightarrow> vals x = Some v \<longrightarrow> in_interval b v)"

lemma ranges_holdD: "ranges_hold ranges vals \<Longrightarrow> ranges x = Some b \<Longrightarrow> vals x = Some v \<Longrightarrow> in_interval b v"
  unfolding ranges_hold_def by blast

lemma bit_inside: "ty_bits ty = Suc 0 \<Longrightarrow> \<not> ty_signed ty \<Longrightarrow> inside (integer_bounds ty) (of_bool b)"
  by (simp add: integer_bounds_def inside_def)

lemma byte_inside: "byte_domain n \<Longrightarrow> inside (0, 255) n"
  by (simp add: byte_domain_def inside_def)

lemma typed_in_interval:
  assumes "value_matches_type program v ty" "scalar_value_bounds ty = Some b"
  shows "in_interval b v"
  using assms
  by (cases ty) (auto simp: scalar_value_bounds_def in_interval_def matches_iff integer_bounds_range byte_inside
      bit_inside split: execution_value.splits)

text \<open>Without widening, an exact result in the type is the result.\<close>

lemma exact_integer_result:
  assumes v: "evaluate_integer operator ty intent l r = Some v" and narrow: "\<And>bits. intent \<noteq> Widening bits"
    and x: "exact_result operator (ty_bits ty) l r = Some x" "fits_type ty x"
  shows "v = x"
proof -
  note d = evaluate_integer_SomeD [OF v]
  obtain rt where rt: "intent = Wrapping \<longrightarrow> v = reduce (ty_bits ty) (ty_signed ty) x"
    "intent \<notin> {Wrapping, Saturating} \<longrightarrow> v = x"
    using evaluate_integer_exact [OF v] x(1) by auto
  have bits: "1 \<le> ty_bits ty" using d(1) by (simp add: valid_bits_def)
  show ?thesis
  proof (cases intent)
    case Wrapping
    with rt reduce_id [OF bits x(2)] show ?thesis by simp
  next
    case Saturating
    then have arith: "operator \<in> arithmetic_operators" and ev: "evaluate_value operator ty intent l r = Some v"
      using d(4,6) by (auto simp: integer_operator_supported_def)
    obtain lo hi where lim: "limits (ty_bits ty) (ty_signed ty) = Some (lo, hi)" by (rule limits_validE [OF d(1)])
    have "lo \<le> x" "x \<le> hi" using x(2) limits_fits [OF lim] by auto
    moreover have "checked_i128 x = Some x" using fits_in_i128 [OF d(1) x(2)] by (simp add: checked_i128_def)
    ultimately show ?thesis
      using ev evaluate_arithmetic [OF arith d(1,2), of Saturating lo hi r] lim x(1) Saturating by (auto simp: evaluate_value_def)
  qed (use rt narrow in auto)
qed

lemma operand_range_inside:
  assumes "operand_range oper m i = Some b" "m \<subseteq>\<^sub>m ranges" "ranges_hold ranges vals" "operand_value oper vals i = Some v"
  shows "in_interval b v"
  using assms by (auto simp: operand_range_def operand_value_def bind_eq_Some_conv intro: ranges_holdD dest: map_leD)

lemma integer_operands_at:
  assumes "integer_operands oper vals = Some (l, r)"
  obtains tl tr where "operand_value oper vals 0 = Some (VInteger l tl)" "operand_value oper vals 1 = Some (VInteger r tr)"
proof -
  have "\<exists>t. v = VInteger n t" if "the_integer v = Some n" for v n using that by (cases v) auto
  with assms that show thesis
    by (fastforce simp: integer_operands_def pair_operands_def operand_value_def operand_def bind_eq_Some_conv split: list.splits)
qed

lemma arithmetic_range_inside:
  assumes v: "evaluate_integer operator ty intent l r = Some v" and narrow: "\<And>bits. intent \<noteq> Widening bits"
    and operands: "integer_operands oper vals = Some (l, r)" and hold: "m \<subseteq>\<^sub>m ranges" "ranges_hold ranges vals"
  shows "inside (arithmetic_range operator ty oper m) v"
proof -
  obtain rt where rt: "arithmetic_result_type operator ty intent = Some rt" "in_range v rt" using evaluate_integer_exact [OF v] by blast
  have "rt = ty" using rt(1) narrow by (auto simp: arithmetic_result_type_def split: if_splits arithmetic_intent.splits)
  with rt(2) have dest: "inside (integer_bounds ty) v" by (simp add: integer_bounds_range)
  have valid: "valid_bits (ty_bits ty)" by (rule evaluate_integer_SomeD(1) [OF v])
  show ?thesis
  proof (cases "range_interval operator (operand_range oper m 0) (operand_range oper m 1)")
    case None
    with dest show ?thesis by (simp add: arithmetic_range_def)
  next
    case (Some b)
    then obtain ra rb where ranges: "operand_range oper m 0 = Some ra" "operand_range oper m 1 = Some rb"
      by (auto simp: range_interval_def split: option.splits prod.splits)
    obtain ta tb where "operand_value oper vals 0 = Some (VInteger l ta)" "operand_value oper vals 1 = Some (VInteger r tb)"
      by (rule integer_operands_at [OF operands])
    with operand_range_inside [OF ranges(1) hold] operand_range_inside [OF ranges(2) hold]
    have ins: "inside ra l" "inside rb r" by (auto simp: in_interval_def)
    show ?thesis
    proof (cases "within b (integer_bounds ty)")
      case True
      obtain x where x: "exact_result operator (ty_bits ty) l r = Some x" "inside b x"
        using range_interval_exact [OF Some [unfolded ranges] True valid ins] by blast
      have "fits_type ty x" using inside_within [OF x(2) True] integer_bounds_inside [OF valid] by blast
      with exact_integer_result [OF v narrow x(1)] x(2) Some True show ?thesis by (simp add: arithmetic_range_def)
    next
      case False
      with Some dest show ?thesis by (simp add: arithmetic_range_def)
    qed
  qed
qed

lemma convert_range_inside:
  assumes run: "convert_scalar_value w source target = Inr v" and w: "operand_value oper vals 0 = Some w"
    and typed: "value_matches_type program w source" "value_matches_type program v target"
    and hold: "m \<subseteq>\<^sub>m ranges" "ranges_hold ranges vals" and b: "convert_range oper m source target = Some b"
  shows "in_interval b v"
proof -
  obtain dest where dest: "scalar_value_bounds target = Some dest" using b by (auto simp: convert_range_def split: option.splits)
  note full = typed_in_interval [OF typed(2) dest]
  define known where "known = (case operand_range oper m 0 of
      None \<Rightarrow> (case scalar_value_bounds source of None \<Rightarrow> dest | Some b \<Rightarrow> b) | Some b \<Rightarrow> b)"
  have shape: "b = (if within known dest then known else dest)"
  proof -
    from b have "Some (if within known dest then known else dest) = Some b"
      unfolding convert_range_def dest known_def Let_def by (simp only: option.case)
    then show ?thesis by simp
  qed
  show ?thesis
  proof (cases "within known dest \<and> (operand_range oper m 0 \<noteq> None \<or> scalar_value_bounds source \<noteq> None)")
    case False
    have "known = dest" if "within known dest"
    proof -
      have "operand_range oper m 0 = None" "scalar_value_bounds source = None" using False that by blast+
      then show ?thesis by (simp add: known_def)
    qed
    then have "b = dest" unfolding shape by (cases "within known dest") simp_all
    with full show ?thesis by simp
  next
    case True
    have ins: "in_interval known w"
    proof (cases "operand_range oper m 0")
      case None
      with True obtain c where "scalar_value_bounds source = Some c" by auto
      with typed_in_interval [OF typed(1)] None show ?thesis by (simp add: known_def)
    next
      case (Some c)
      with operand_range_inside [OF Some hold w] show ?thesis by (simp add: known_def)
    qed
    have same: "n = k" if "number_of w = Some n" "number_of v = Some k" for n k
    proof -
      have "inside known n" using ins that(1) by (auto simp: in_interval_def)
      with True have n: "inside dest n" by (blast intro: inside_within)
      have "wrap_to_bits n (ty_bits t2) (ty_signed t2) = Some j \<Longrightarrow> target = TInteger t2 \<Longrightarrow> n = j" for t2 j
        using n dest wrap_None_iff [of n "ty_bits t2" "ty_signed t2"]
        by (auto simp: scalar_value_bounds_def wrap_to_bits_eq integer_bounds_inside wrap_valid valid_bits_def reduce_id dest!: sym [of _ dest])
      moreover have "wrap_to_bits n 8 False = Some j \<Longrightarrow> target = TByte \<Longrightarrow> n = j" for j
        using n dest
        by (auto simp: scalar_value_bounds_def wrap_to_bits_eq wrap_valid valid_bits_def inside_def reduce_def)
      ultimately show ?thesis
        using run that typed
        by (cases w; cases source; cases target)
          (auto simp: convert_scalar_value_def convert_scalar_inner_def convert_float_edge_def Let_def matches_iff
            split: option.splits if_splits)
    qed
    show ?thesis
      unfolding shape using True full ins same
      by (cases "number_of v") (auto simp: in_interval_def)
  qed
qed

definition narrow_operation :: "body_operation \<Rightarrow> bool" where
  "narrow_operation oper \<longleftrightarrow> (case bo_kind oper of Integer _ _ (Widening _) \<Rightarrow> False | _ \<Rightarrow> True)"

lemma result_in_range:
  assumes checked: "operation_checked program f declared oper" and results: "bo_results oper = res # rs"
    and typed: "env_typed program declared vals" "env_typed program declared (vals(bv_id res \<mapsto> v))"
    and pure: "is_pure (bo_kind oper) \<Longrightarrow> exec_pure lib program (bo_kind oper) oper vals = Store v"
    and narrow: "narrow_operation oper"
    and hold: "m \<subseteq>\<^sub>m ranges" "ranges_hold ranges vals" and entry: "result_range oper m res = Some b"
  shows "in_interval b v"
proof -
  have declared: "declared (bv_id res) = Some (bv_ty res)" using checked results by (simp add: operation_checked_def)
  have matches: "value_matches_type program v (bv_ty res)" by (rule env_typedD [OF typed(2) _ declared]) simp
  note full = typed_in_interval [OF matches]
  obtain available where le: "available \<subseteq>\<^sub>m declared" and valid: "validate_operation program f oper available = []"
    using checked by (auto simp: operation_checked_def)
  have clean: "validate_kind program f (bo_kind oper) oper available = Proceed []"
    using valid never_bails_clean by (auto simp: validate_operation_Nil)
  consider (const) c ty where "bo_kind oper = Constant c ty" | (conv) source target where "bo_kind oper = Convert source target"
    | (arith) operator ty intent where "bo_kind oper = Integer operator ty intent" "operator \<in> {''add'', ''sub'', ''mul''}"
    | (other) "\<nexists>c ty. bo_kind oper = Constant c ty" "\<nexists>source target. bo_kind oper = Convert source target"
        "\<And>operator ty intent. bo_kind oper = Integer operator ty intent \<Longrightarrow> operator \<notin> {''add'', ''sub'', ''mul''}"
    by blast
  then show ?thesis
  proof cases
    case const
    then have "b = (c, c)" using entry by (simp add: result_range_def split: if_splits)
    moreover have "number_of v = Some c"
      using pure const by (auto simp: exec_constant_def constant_value_def split: option.splits body_type.splits if_splits)
    ultimately show ?thesis by (simp add: in_interval_def inside_def)
  next
    case conv
    have range: "convert_range oper m source target = Some b"
      using entry conv by (auto simp: result_range_def bind_eq_Some_conv split: if_splits)
    have run: "exec_convert source target oper vals = Store v" using pure conv by simp
    then obtain w where w: "operand_value oper vals 0 = Some w" "convert_scalar_value w source target = Inr v"
      by (auto simp: exec_convert_def split: option.splits sum.splits conversion_failure.splits)
    have "operand_ty oper available 0 = Some source" "bv_ty res = target"
      using clean conv results by (auto simp: valid_convert_def first_result_def)
    moreover have "value_matches_type program w source"
      using calculation(1) w(1) env_typedD [OF env_typed_le [OF typed(1) le]]
      by (auto simp: operand_ty_def operand_value_def bind_eq_Some_conv)
    ultimately show ?thesis using convert_range_inside [OF w(2,1) _ _ hold range] matches by simp
  next
    case arith
    then have "b = arithmetic_range operator ty oper m"
      using entry by (auto simp: result_range_def Let_def split: if_splits)
    moreover have "exec_integer operator ty intent oper vals = Store v" using pure arith(1) by simp
    then obtain l r n t where "integer_operands oper vals = Some (l, r)" "evaluate_integer operator ty intent l r = Some n" "v = VInteger n t"
      by (auto simp: exec_integer_def split: option.splits if_splits list.splits)
    moreover have "intent \<noteq> Widening bits" for bits using narrow arith(1) by (auto simp: narrow_operation_def)
    ultimately show ?thesis using arithmetic_range_inside [OF _ _ _ hold] by (simp add: in_interval_def)
  next
    case other
    then have "result_range oper m res = scalar_value_bounds (bv_ty res)"
      by (cases "bo_kind oper") (simp_all add: result_range_def Let_def)
    with entry full show ?thesis by simp
  qed
qed

lemma visits_typed:
  assumes run: "visits lib program call frame start i opers vals r"
    and checked: "body_checked program f (fr_body frame)" and machine: "body_in_machine (fr_body frame)"
    and nominal: "nominals_ok program" and call: "callee_safe program call"
    and start: "env_typed program (declared_types (fr_body frame)) start"
  shows "env_typed program (declared_types (fr_body frame)) vals"
  using run
proof (induction rule: visits.induct)
  case (visits_entry block)
  show ?case by (rule start)
next
  case (visits_operation i oper opers vals r stepped vals' r')
  obtain block where "block \<in> set (fb_blocks (fr_body frame))" "oper \<in> set (bb_operations block)"
    using visits_operation_in [OF visits_operation(1)] by blast
  then have op: "operation_checked program f (declared_types (fr_body frame)) oper" "in_lane (bo_kind oper)"
    using checked machine by (auto simp: body_checked_def block_checked_def body_in_machine_def list_all_iff)
  from execute_operation_safe [OF visits_operation.IH call nominal body_in_machine_small [OF machine] op(2,1)] visits_operation(3)
  show ?case by (metis step_safe_simps(1))
next
  case (visits_jump i vals r block stepped target vals' block')
  have block: "block_checked program f (fr_body frame) (declared_types (fr_body frame)) block"
    using checked block_map_in [OF visits_jump(2)] by (simp add: body_checked_def)
  have params: "declared_types (fr_body frame) (bv_id v) = Some (bv_ty v)"
    if "b \<in> set (fb_blocks (fr_body frame))" "v \<in> set (bb_parameters b)" for b v
    using checked that by (auto simp: body_checked_def block_checked_def)
  obtain available where le: "available \<subseteq>\<^sub>m declared_types (fr_body frame)"
    and ends: "validate_terminator (bb_terminator block) available (block_ids (fr_body frame))
        (map_option bb_parameters \<circ> block_map (fr_body frame)) = []"
      "validate_return_types (bb_terminator block) program f available = []"
    using block by (auto simp: block_checked_def)
  from exec_terminator_safe [OF visits_jump.IH le ends params, where result = stepped] visits_jump(4) show ?case
    by (simp add: jump_safe_def)
qed

lemma visits_ranges:
  assumes run: "visits lib program call frame start i opers vals r"
    and checked: "body_checked program f (fr_body frame)" and machine: "body_in_machine (fr_body frame)"
    and nominal: "nominals_ok program" and call: "callee_safe program call"
    and start: "env_typed program (declared_types (fr_body frame)) start" "dom start \<subseteq> bp_id ` set (fb_parameters (fr_body frame))"
    and distinct: "distinct (body_names (fr_body frame))"
    and narrow: "\<forall>oper\<in>set (body_operations (fr_body frame)). narrow_operation oper"
  shows "ranges_hold (collect_body_ranges (fr_body frame)) vals"
  using run
proof (rule visits_invariant [where Q = "env_typed program (declared_types (fr_body frame))"])
  let ?body = "fr_body frame" and ?declared = "declared_types (fr_body frame)"
  note ranges = collected_ranges [OF distinct]
  have head: "in_interval b v"
    if "collect_body_ranges ?body x = Some b" "x \<notin> set (map bv_id (body_results ?body))" "env_typed program ?declared vals" "vals x = Some v"
    for x b v vals
  proof -
    from ranges(2) [OF that(1,2)] obtain ty where "?declared x = Some ty" "scalar_value_bounds ty = Some b"
      using checked by (auto simp: declared_in_head_def body_checked_def block_checked_def)
    from typed_in_interval [OF env_typedD [OF that(3,4) this(1)] this(2)] show ?thesis .
  qed
  have outside: "x \<notin> set (map bv_id (body_results ?body))"
    if "x \<in> bp_id ` set (fb_parameters ?body) \<or> (\<exists>block\<in>set (fb_blocks ?body). x \<in> bv_id ` set (bb_parameters block))" for x
  proof
    assume "x \<in> set (map bv_id (body_results ?body))"
    then obtain b oper where "b \<in> set (fb_blocks ?body)" "oper \<in> set (bb_operations b)" "x \<in> set (result_names oper)"
      unfolding body_results_names by (auto simp: body_operations_def)
    from single_writer(1,2) [OF distinct this] that show False by blast
  qed
  show "ranges_hold (collect_body_ranges ?body) start"
    unfolding ranges_hold_def
  proof (intro allI impI)
    fix x b v assume b: "collect_body_ranges ?body x = Some b" and v: "start x = Some v"
    then have "x \<in> bp_id ` set (fb_parameters ?body)" using start(2) by blast
    then have "x \<notin> set (map bv_id (body_results ?body))" by (intro outside disjI1)
    from head [OF b this start(1) v] show "in_interval b v" .
  qed
  show "env_typed program ?declared vals" if "visits lib program call frame start i opers vals r" for i opers vals r
    by (rule visits_typed [OF that checked machine nominal call start(1)])
  show "ranges_hold (collect_body_ranges ?body) (vals(bv_id res \<mapsto> v))"
    if here: "block \<in> set (fb_blocks ?body)" "oper \<in> set (bb_operations block)" and results: "bo_results oper = res # rs"
      and pure: "is_pure (bo_kind oper) \<Longrightarrow> exec_pure lib program (bo_kind oper) oper vals = Store v"
      and before: "ranges_hold (collect_body_ranges ?body) vals" "env_typed program ?declared vals"
      and after: "env_typed program ?declared (vals(bv_id res \<mapsto> v))" for block oper res rs v vals
  proof -
    have member: "oper \<in> set (body_operations ?body)" using here by (auto simp: body_operations_def)
    obtain m where m: "m \<subseteq>\<^sub>m collect_body_ranges ?body" "collect_body_ranges ?body (bv_id res) = result_range oper m res"
      using ranges(1) [OF member] results by auto
    have "operation_checked program f ?declared oper" using checked here by (auto simp: body_checked_def block_checked_def)
    from result_in_range [OF this results before(2) after pure _ m(1) before(1)] narrow member m(2)
    have "in_interval b v" if "collect_body_ranges ?body (bv_id res) = Some b" for b using that by simp
    with before(1) show ?thesis unfolding ranges_hold_def by auto
  qed
  show "ranges_hold (collect_body_ranges ?body) (vals ++ map_of (rev (zip (map bv_id (bb_parameters block)) vs)))"
    if block: "block \<in> set (fb_blocks ?body)" and before: "ranges_hold (collect_body_ranges ?body) vals"
      and after: "env_typed program ?declared (vals ++ map_of (rev (zip (map bv_id (bb_parameters block)) vs)))"
    for block and vs :: "execution_value list" and vals
    unfolding ranges_hold_def
  proof (intro allI impI)
    let ?update = "map_of (rev (zip (map bv_id (bb_parameters block)) vs))"
    fix x b v assume b: "collect_body_ranges ?body x = Some b" and v: "(vals ++ ?update) x = Some v"
    show "in_interval b v"
    proof (cases "?update x")
      case None
      with v have "vals x = Some v" by (simp add: map_add_def)
      with ranges_holdD [OF before b] show ?thesis .
    next
      case (Some w)
      then have "x \<in> bv_id ` set (bb_parameters block)" by (auto dest!: map_of_SomeD set_zip_leftD)
      with block have "x \<notin> set (map bv_id (body_results ?body))" by (intro outside) blast
      from head [OF b this after v] show ?thesis .
    qed
  qed
qed


section \<open>Discharged operations\<close>

text \<open>What discharges a checked operation: the ranges for sums, differences and products, literal
  operands for divisions.\<close>

definition statically_discharged :: "function_body \<Rightarrow> body_operation \<Rightarrow> bool" where
  "statically_discharged body oper \<longleftrightarrow>
     (case bo_kind oper of
        Integer operator operand_type intent \<Rightarrow>
          if operator \<in> {''div'', ''mod''}
          then divisor_nonzero (collect_body_constants body) oper \<and>
            (ty_signed operand_type \<longrightarrow> division_bounds_clear (collect_body_constants body) operand_type oper)
          else range_proves_integer_operation oper operand_type operator intent (collect_body_ranges body)
      | _ \<Rightarrow> False)"

lemma checked_evaluates:
  assumes "in_range l ty" "in_range r ty" "intent \<in> {Checked, Trapping}" "operator \<in> arithmetic_operators"
    and x: "exact_result operator (ty_bits ty) l r = Some x" "fits_type ty x"
  shows "evaluate_integer operator ty intent l r = Some x"
proof -
  have valid: "valid_bits (ty_bits ty)" and l: "fits_type ty l" using assms(1) by (auto simp: in_range_iff)
  obtain lo hi where lim: "limits (ty_bits ty) (ty_signed ty) = Some (lo, hi)" by (rule limits_validE [OF valid])
  have "evaluate_value operator ty intent l r = Some x"
    using evaluate_arithmetic [OF assms(4) valid l, of intent lo hi r] lim assms(3) x by (auto simp: evaluate_value_def)
  moreover have "integer_operator_supported operator intent" "operator \<notin> {''and'', ''or'', ''xor''}" "intent \<noteq> Wrapping"
    using assms(3,4) by (auto simp: integer_operator_supported_def)
  moreover have "arithmetic_result_type operator ty intent = Some ty" "intended_bits intent ty = ty_bits ty"
    using assms(3) valid by (auto simp: arithmetic_result_type_def valid_bits_def)
  ultimately show ?thesis
    using assms(1,2) valid by (simp add: evaluate_integer_def valid_bits_def)
qed

text \<open>Truncated division leaves the type only for the minimum divided by minus one.\<close>

lemma sdiv_fits:
  assumes "1 \<le> b" "fits b s l" "fits b s r" "r \<noteq> 0" "s \<Longrightarrow> \<not> (l = - (2 ^ (b - 1)) \<and> r = - 1)"
  shows "fits b s (l sdiv r)"
proof (cases s)
  case False
  then have "0 \<le> l" "0 < r" "l < 2 ^ b" using assms(2-4) by (auto simp: fits_def)
  moreover have "\<bar>l sdiv r\<bar> \<le> \<bar>l\<bar>" by (rule sdiv_bounded [OF assms(4)])
  moreover have "0 \<le> l sdiv r"
    using calculation(1,2) by (cases "l = 0") (simp_all add: signed_divide_int_def sgn_if pos_imp_zdiv_nonneg_iff)
  ultimately show ?thesis using False by (simp add: fits_def)
next
  case True
  have small: "\<bar>l sdiv r\<bar> \<le> \<bar>l\<bar>" by (rule sdiv_bounded [OF assms(4)])
  define top :: int where "top = 2 ^ (b - 1)"
  have l: "- top \<le> l" "l < top" and top: "0 < top" using assms(2) True by (auto simp: fits_def top_def)
  have "l sdiv r < top"
  proof (cases "l = - top")
    case False
    with l small show ?thesis by linarith
  next
    case minimum: True
    show ?thesis
    proof (cases "0 < r")
      case True
      then have "l sdiv r \<le> 0" using minimum top by (simp add: signed_divide_int_def sgn_if pos_imp_zdiv_nonneg_iff)
      with top show ?thesis by linarith
    next
      case False
      then have "2 \<le> \<bar>r\<bar>" using assms(4,5) True minimum by (auto simp: top_def)
      then have "\<bar>l\<bar> div \<bar>r\<bar> \<le> \<bar>l\<bar> div 2" by (intro zdiv_mono2) auto
      also have "\<dots> < top" using minimum top by (simp add: div_less_iff_less_mult)
      finally show ?thesis using minimum False assms(4) top by (simp add: signed_divide_int_def sgn_if)
    qed
  qed
  moreover have "- top \<le> l sdiv r" using small l top by linarith
  ultimately show ?thesis using True unfolding fits_def top_def by simp
qed

lemma smod_fits:
  assumes "1 \<le> b" "fits b s l" "fits b s r" "r \<noteq> 0"
  shows "fits b s (l smod r)"
proof (cases s)
  case False
  then have r: "0 < r" "r < 2 ^ b" and l: "0 \<le> l" using assms(2-4) by (auto simp: fits_def)
  have "0 \<le> l smod r" using l r by (cases "l = 0") (simp_all add: signed_modulo_int_def sgn_if)
  moreover have "\<bar>l smod r\<bar> < \<bar>r\<bar>" by (rule smod_bounded(1) [OF assms(4)])
  ultimately show ?thesis using False r by (simp add: fits_def)
next
  case True
  have "\<bar>l smod r\<bar> < \<bar>r\<bar>" by (rule smod_bounded(1) [OF assms(4)])
  with assms(3) True show ?thesis by (auto simp: fits_def)
qed

lemma constants_in_ranges:
  assumes "distinct (body_names body)" "collect_body_constants body x = Some (v, ty)"
  shows "collect_body_ranges body x = Some (v, v)"
proof -
  from assms(2) obtain oper res where oper: "oper \<in> set (body_operations body)" "bo_kind oper = Constant v (TInteger ty)"
    and res: "res \<in> set (bo_results oper)" "bv_id res = x"
    by (auto simp: collect_body_constants_def dest!: map_of_SomeD split: operation_kind.splits body_type.splits)
  from collected_ranges(1) [OF assms(1) oper(1)] res obtain m where "collect_body_ranges body x = result_range oper m res" by blast
  then show ?thesis by (simp add: result_range_def oper(2) scalar_value_bounds_def)
qed

lemma operand_constant_value:
  assumes "operand_constant (collect_body_constants body) oper i = Some c" "distinct (body_names body)"
    and "ranges_hold (collect_body_ranges body) vals" "operand_value oper vals i = Some (VInteger n t)"
  shows "n = c"
proof -
  obtain x ty where x: "operand oper i = Some x" "collect_body_constants body x = Some (c, ty)"
    using assms(1) by (auto simp: operand_constant_def bind_eq_Some_conv)
  have "vals x = Some (VInteger n t)" using assms(4) x(1) by (simp add: operand_value_def)
  from ranges_holdD [OF assms(3) constants_in_ranges [OF assms(2) x(2)] this] show ?thesis
    by (simp add: in_interval_def inside_def)
qed

lemma discharged_evaluates:
  assumes discharged: "statically_discharged body oper" and kind: "bo_kind oper = Integer operator ty intent"
    and intent: "intent \<in> {Checked, Trapping}" and distinct: "distinct (body_names body)"
    and hold: "ranges_hold (collect_body_ranges body) vals" and operands: "integer_operands oper vals = Some (l, r)"
    and range: "in_range l ty" "in_range r ty" and operator: "operator \<in> arithmetic_operators"
  shows "\<exists>x. evaluate_integer operator ty intent l r = Some x"
proof -
  have valid: "valid_bits (ty_bits ty)" and fit: "fits_type ty l" "fits_type ty r" using range by (auto simp: in_range_iff)
  obtain tl tr where at: "operand_value oper vals 0 = Some (VInteger l tl)" "operand_value oper vals 1 = Some (VInteger r tr)"
    by (rule integer_operands_at [OF operands])
  show ?thesis
  proof (cases "operator \<in> {''div'', ''mod''}")
    case False
    then have "range_proves_integer_operation oper ty operator intent (collect_body_ranges body)"
      using discharged kind by (simp add: statically_discharged_def)
    then obtain ra rb b where ranges: "operand_range oper (collect_body_ranges body) 0 = Some ra"
        "operand_range oper (collect_body_ranges body) 1 = Some rb"
      and b: "range_interval operator (Some ra) (Some rb) = Some b" "within b (integer_bounds ty)"
      by (auto simp: range_proves_integer_operation_def range_interval_def split: option.splits prod.splits)
    have "inside ra l" "inside rb r"
      using operand_range_inside [OF ranges(1) map_le_refl hold at(1)] operand_range_inside [OF ranges(2) map_le_refl hold at(2)]
      by (auto simp: in_interval_def)
    then obtain x where x: "exact_result operator (ty_bits ty) l r = Some x" "inside b x"
      using range_interval_exact [OF b valid] by blast
    then have "fits_type ty x" using inside_within [OF x(2) b(2)] integer_bounds_inside [OF valid] by blast
    with checked_evaluates [OF range intent operator x(1)] show ?thesis by blast
  next
    case True
    then have division: "divisor_nonzero (collect_body_constants body) oper"
      "ty_signed ty \<longrightarrow> division_bounds_clear (collect_body_constants body) ty oper"
      using discharged kind by (simp_all add: statically_discharged_def)
    note literal = operand_constant_value [OF _ distinct hold]
    have r: "r \<noteq> 0" using division(1) literal [OF _ at(2)] by (auto simp: divisor_nonzero_def)
    have "\<not> (l = - (2 ^ (ty_bits ty - 1)) \<and> r = - 1)" if "ty_signed ty"
      using division(2) that literal [OF _ at(1)] literal [OF _ at(2)] by (auto simp: division_bounds_clear_def)
    with sdiv_fits [OF _ fit r] valid have quotient: "fits_type ty (l sdiv r)" by (auto simp: valid_bits_def)
    have remainder: "fits_type ty (l smod r)" using smod_fits [OF _ fit r] valid by (simp add: valid_bits_def)
    show ?thesis
    proof (cases "operator = ''div''")
      case True
      with r have "exact_result operator (ty_bits ty) l r = Some (l sdiv r)" by (simp add: exact_result_def)
      with checked_evaluates [OF range intent operator this quotient] show ?thesis by blast
    next
      case False
      with True r have "exact_result operator (ty_bits ty) l r = Some (l smod r)" by (auto simp: exact_result_def)
      with checked_evaluates [OF range intent operator this remainder] show ?thesis by blast
    qed
  qed
qed

end
