(* ===== verification/Discharge.thy ===== *)
theory Discharge
  imports Ranges
begin

text \<open>
  What the discharge of arithmetic obligations by ranges and literals means for execution, and
  where it fails: a widening operation is given the range of its operands' type although its result
  lies in a larger one, so an overflowing operation after it is discharged.
\<close>

section \<open>Frames of validated programs\<close>

lemma validated_frame:
  assumes valid: "program_valid digest program" and machine: "program_in_machine program"
    and enter: "enter_function (\<lambda>_ _ _. []) program True record_effects depth None request = Inr (frame, start)"
  obtains f where "f \<in> set (pg_functions program)" "fn_body f = Some (fr_body frame)" "body_checked program f (fr_body frame)"
    "env_typed program (declared_types (fr_body frame)) start" "body_in_machine (fr_body frame)"
    "distinct (body_names (fr_body frame))" "dom start \<subseteq> bp_id ` set (fb_parameters (fr_body frame))"
proof -
  obtain f where f: "f \<in> set (pg_functions program)" "fn_body f = Some (fr_body frame)"
    and checked: "body_checked program f (fr_body frame)" and typed: "env_typed program (declared_types (fr_body frame)) start"
    by (rule enter_function_typed [OF enter program_valid_checked(1) [OF valid]])
  have small: "body_in_machine (fr_body frame)" using machine f by (auto simp: program_in_machine_def list_all_iff)
  note distinct = validated_names_distinct [OF validated_functions [OF valid f]]
  obtain bound where bound: "normalize_arguments program (fr_body frame) None (rq_arguments request) = Some bound"
    and start: "start = map_of (rev bound)"
    using enter by (auto simp: enter_function_def Let_def split: if_splits option.splits)
  have "dom start \<subseteq> bp_id ` set (fb_parameters (fr_body frame))"
    using normalize_arguments_names [OF bound] by (auto simp: start dom_map_of_conv_image_fst)
  with that f checked typed small distinct show thesis by blast
qed

lemma validated_ranges:
  assumes valid: "program_valid digest program" and nominal: "nominals_ok program" and machine: "program_in_machine program"
    and enter: "enter_function (\<lambda>_ _ _. []) program True record_effects depth None request = Inr (frame, start)"
    and narrow: "list_all narrow_operation (body_operations (fr_body frame))"
    and run: "visits lib program (\<lambda>_. execute_checking lib program True record_effects (depth + 1)) frame start i opers vals r"
  shows "ranges_hold (collect_body_ranges (fr_body frame)) vals \<and> env_typed program (declared_types (fr_body frame)) vals"
proof (rule validated_frame [OF valid machine enter])
  fix f assume f: "body_checked program f (fr_body frame)" "env_typed program (declared_types (fr_body frame)) start"
    "body_in_machine (fr_body frame)" "distinct (body_names (fr_body frame))" "dom start \<subseteq> bp_id ` set (fb_parameters (fr_body frame))"
  note call = checking_callee_safe [OF program_valid_checked(1) [OF valid] nominal machine, where valid = True]
  have "\<forall>oper\<in>set (body_operations (fr_body frame)). narrow_operation oper" using narrow by (simp add: list_all_iff)
  from visits_ranges [OF run f(1,3) nominal call f(2,5,4) this] visits_typed [OF run f(1,3) nominal call f(2)] show ?thesis ..
qed


lemma valid_integer_clean:
  assumes "valid_integer operator ty intent oper available = []"
  shows "intent \<noteq> Wrapping \<Longrightarrow> operator \<in> arithmetic_operators"
    and "operator \<in> arithmetic_operators \<Longrightarrow> \<exists>x y. bo_operands oper = [x, y] \<and>
      available x = Some (TInteger ty) \<and> available y = Some (TInteger ty)"
proof -
  note parts = assms [unfolded valid_integer_def Let_def append_is_Nil_conv complain_Nil]
  have known: "operator \<in> {''add'', ''sub'', ''mul'', ''div'', ''mod'', ''and'', ''or'', ''xor'', ''shl'', ''shr''}"
    by (rule notnotD [OF conjunct1 [OF parts]])
  have bitwise: "\<not> (operator \<in> {''and'', ''or'', ''xor'', ''shl'', ''shr''} \<and> intent \<noteq> Wrapping)"
    using conjunct1 [OF conjunct2 [OF parts]] .
  have arity: "\<not> arity_differs oper 2" using conjunct1 [OF conjunct2 [OF conjunct2 [OF parts]]] .
  have operands: "\<forall>p\<in>set (zip [0..<length (bo_operands oper)] (bo_operands oper)).
      \<not> (\<not> (operator \<in> {''shl'', ''shr''} \<and> fst p = 1 \<and> available (snd p) = Some u64_type) \<and>
        available (snd p) \<noteq> Some (TInteger ty))"
    using conjunct1 [OF conjunct2 [OF conjunct2 [OF conjunct2 [OF parts]]]]
    unfolding concat_eq_Nil_conv list.set_map ball_simps case_prod_unfold complain_Nil .
  show "operator \<in> arithmetic_operators" if "intent \<noteq> Wrapping"
    using known bitwise that by (simp only: insert_iff empty_iff) argo
  show "\<exists>x y. bo_operands oper = [x, y] \<and> available x = Some (TInteger ty) \<and> available y = Some (TInteger ty)"
    if "operator \<in> arithmetic_operators"
  proof -
    have "operator \<noteq> ''shl''" "operator \<noteq> ''shr''" using that by auto
    moreover obtain x y where "bo_operands oper = [x, y]" using arity_operands [OF arity] by (auto simp: two_operands)
    ultimately show ?thesis using operands by auto
  qed
qed

lemma arithmetic_operands_typed:
  assumes "valid_integer operator ty intent oper available = []" "operator \<in> arithmetic_operators"
    and "integer_operands oper vals = Some (l, r)" and typed: "env_typed program available vals"
  shows "in_range l ty \<and> in_range r ty"
proof -
  obtain x y where xy: "bo_operands oper = [x, y]" and known: "available x = Some (TInteger ty)" "available y = Some (TInteger ty)"
    using valid_integer_clean(2) [OF assms(1,2)] by blast
  have "\<exists>t. v = VInteger n t" if "the_integer v = Some n" for v n using that by (cases v) auto
  with assms(3) obtain tx ty' where "vals x = Some (VInteger l tx)" "vals y = Some (VInteger r ty')"
    by (fastforce simp: integer_operands_def pair_operands_def xy bind_eq_Some_conv)
  from env_typedD [OF typed this(1) known(1)] env_typedD [OF typed this(2) known(2)] show ?thesis
    by (simp add: matches_TInteger)
qed


section \<open>Soundness\<close>

text \<open>Property C10.  The interval analysis is sound: in every configuration that a run of a validated body
  without widening arithmetic reaches, each value in the store whose name the analysis gave an
  interval is an integer, byte or bit that lies in it, around every loop and after every call.\<close>

theorem range_analysis_sound:
  assumes "program_valid digest program" "nominals_ok program" "program_in_machine program"
    and "enter_function (\<lambda>_ _ _. []) program True record_effects depth None request = Inr (frame, start)"
    and "list_all narrow_operation (body_operations (fr_body frame))"
    and "visits lib program (\<lambda>_. execute_checking lib program True record_effects (depth + 1)) frame start i opers vals r"
    and "collect_body_ranges (fr_body frame) x = Some (lo, hi)" "vals x = Some v"
  shows "\<exists>n. number_of v = Some n \<and> lo \<le> n \<and> n \<le> hi"
  using ranges_holdD [OF conjunct1 [OF validated_ranges [OF assms(1-6)]] assms(7,8)]
  by (auto simp: in_interval_def inside_def)

text \<open>Property C9.  A discharged obligation is kept: a checked or trapping operation of a validated body
  without widening arithmetic never fails at run time, in no configuration of no run, when its
  ranges prove the sum, difference or product in its type, or literals prove the divisor nonzero
  and, for signed types, the quotient in its type.\<close>

theorem discharged_operation_returns:
  assumes "program_valid digest program" "nominals_ok program" "program_in_machine program"
    and "enter_function (\<lambda>_ _ _. []) program True record_effects depth None request = Inr (frame, start)"
    and "list_all narrow_operation (body_operations (fr_body frame))"
    and "visits lib program (\<lambda>_. execute_checking lib program True record_effects (depth + 1)) frame start i (oper # opers) vals r"
    and "bo_kind oper = Integer operator ty intent" "intent \<in> {Checked, Trapping}"
    and "statically_discharged (fr_body frame) oper"
  shows "exec_pure lib program (bo_kind oper) oper vals \<noteq> Fail RuntimeFailure"
proof (rule validated_frame [OF assms(1,3,4)])
  fix f assume f: "body_checked program f (fr_body frame)" "distinct (body_names (fr_body frame))"
  note held = validated_ranges [OF assms(1-6)]
  obtain block where "block \<in> set (fb_blocks (fr_body frame))" "oper \<in> set (bb_operations block)"
    using visits_operation_in [OF assms(6)] by blast
  with f(1) have "operation_checked program f (declared_types (fr_body frame)) oper"
    by (auto simp: body_checked_def block_checked_def)
  then obtain available where le: "available \<subseteq>\<^sub>m declared_types (fr_body frame)"
    and valid: "validate_operation program f oper available = []"
    unfolding operation_checked_def by blast
  have "validate_kind program f (bo_kind oper) oper available = Proceed []"
    using valid never_bails_clean by (auto simp: validate_operation_Nil)
  then have clean: "valid_integer operator ty intent oper available = []" by (simp add: assms(7))
  have operator: "operator \<in> arithmetic_operators"
    using valid_integer_clean(1) [OF clean] assms(8) by auto
  note typed = env_typed_le [OF conjunct2 [OF held] le]
  show ?thesis
  proof (cases "integer_operands oper vals")
    case None
    then show ?thesis by (simp add: assms(7) exec_integer_def)
  next
    case (Some pair)
    obtain l r' where operands: "integer_operands oper vals = Some (l, r')" using Some by (cases pair) auto
    have "in_range l ty \<and> in_range r' ty" by (rule arithmetic_operands_typed [OF clean operator operands typed])
    with discharged_evaluates [OF assms(9,7,8) f(2) conjunct1 [OF held] operands _ _ operator] show ?thesis
      by (auto simp: assms(7) exec_integer_def operands split: list.splits)
  qed
qed
section \<open>A narrow body and a widening one\<close>

definition u16_type :: integer_type where
  "u16_type = \<lparr>ty_bits = 16, ty_signed = False\<rparr>"

abbreviation halving :: body_operation where
  "halving \<equiv> plain_operation ''o2'' (Integer ''div'' byte_int Checked) [''x'', ''c''] [\<lparr>bv_id = ''s'', bv_ty = TInteger byte_int\<rparr>]"

abbreviation wide_sum :: body_operation where
  "wide_sum \<equiv> plain_operation ''o3'' (Integer ''add'' u16_type Checked) [''w'', ''c''] [\<lparr>bv_id = ''s'', bv_ty = TInteger u16_type\<rparr>]"

definition half_body :: function_body where
  "half_body =
     plain_body ''b'' [\<lparr>bp_id = ''x'', bp_name = ''x'', bp_ty = TInteger byte_int\<rparr>]
       [\<lparr>bb_id = ''b'', bb_parameters = [],
         bb_operations =
           [plain_operation ''o1'' (Constant 2 (TInteger byte_int)) [] [\<lparr>bv_id = ''c'', bv_ty = TInteger byte_int\<rparr>],
            halving],
         bb_terminator = Return [''s'']\<rparr>]"

definition wide_body :: function_body where
  "wide_body =
     plain_body ''b'' [\<lparr>bp_id = ''x'', bp_name = ''x'', bp_ty = TInteger byte_int\<rparr>]
       [\<lparr>bb_id = ''b'', bb_parameters = [],
         bb_operations =
           [plain_operation ''o1'' (Integer ''add'' byte_int (Widening 16)) [''x'', ''x'']
              [\<lparr>bv_id = ''w'', bv_ty = TInteger u16_type\<rparr>],
            plain_operation ''o2'' (Constant 65280 (TInteger u16_type)) [] [\<lparr>bv_id = ''c'', bv_ty = TInteger u16_type\<rparr>],
            wide_sum],
         bb_terminator = Return [''s'']\<rparr>]"

definition range_program :: program where
  "range_program = plain_program ''app'' [] []
     [plain_fn ''half'' [\<lparr>nv_name = ''x'', nv_type = ''u8''\<rparr>] [\<lparr>nv_name = ''r'', nv_type = ''u8''\<rparr>] half_body,
      plain_fn ''wide'' [\<lparr>nv_name = ''x'', nv_type = ''u8''\<rparr>] [\<lparr>nv_name = ''r'', nv_type = ''u16''\<rparr>] wide_body]"

definition range_request :: "string \<Rightarrow> execution_request" where
  "range_request name =
     \<lparr>rq_schema = ''0.1'', rq_module = ''app'', rq_function = name, rq_arguments = [VInteger 255 byte_int],
      rq_step_budget = 9, rq_call_depth_budget = None\<rparr>"

definition range_frame :: "string \<Rightarrow> function_body \<Rightarrow> frame" where
  "range_frame name body =
     \<lparr>fr_namespace = ''app'', fr_function = name, fr_body = body, fr_reusable = [],
      fr_request = range_request name, fr_record = False\<rparr>"

lemma range_arithmetic:
  "in_range 65280 u16_type" "in_range 255 byte_int" "in_range 2 byte_int"
  "integer_operator_supported ''div'' Checked" "integer_operator_supported ''add'' (Widening 16)"
  "evaluate_integer ''div'' byte_int Checked 255 2 = Some 127" "evaluate_integer ''add'' u16_type Checked 510 65280 = None"
  by code_simp+

lemma range_widening: "arithmetic_result_type ''add'' byte_int (Widening 16) = Some u16_type"
  "evaluate_integer ''add'' byte_int (Widening 16) 255 255 = Some 510"
proof -
  show result: "arithmetic_result_type ''add'' byte_int (Widening 16) = Some u16_type"
    by (simp add: arithmetic_result_type_def minimum_widening_bits_def byte_int_def u16_type_def)
  have "evaluate_value ''add'' byte_int (Widening 16) 255 255 = Some 510" by code_simp
  with result range_arithmetic(2,5) show "evaluate_integer ''add'' byte_int (Widening 16) 255 255 = Some 510"
    by (simp add: evaluate_integer_def Let_def u16_type_def byte_int_def)
qed

lemma range_types: "byte_int \<noteq> \<lparr>ty_bits = 1, ty_signed = False\<rparr>" "u16_type \<noteq> \<lparr>ty_bits = 1, ty_signed = False\<rparr>"
  "ty_bits u16_type = 16" "ty_bits byte_int = 8" "\<not> ty_signed u16_type" "\<not> ty_signed byte_int"
  by (simp_all add: u16_type_def byte_int_def)

lemmas range_simps = range_arithmetic range_widening range_types

lemma u16_spelling: "from_semantic_name ''u16'' = TInteger u16_type"
proof -
  have "from_semantic_name ''u16'' = scalar_name ''u16''" by (rule ident_scalar) code_simp
  moreover have "show_nat 16 = ''16''" by code_simp
  ultimately show ?thesis using scalar_name_number(3) [of 16] by (simp add: u16_type_def)
qed

lemma range_type:
  assumes "fn_generic_params f = []"
  shows "body_type_for_function_value range_program f ''u8'' = TInteger byte_int"
    and "body_type_for_function_value range_program f ''u16'' = TInteger u16_type"
proof -
  have none: "find_finite_in range_program name m = None" "find_record_in range_program name m = None" for name m
    by (simp_all add: find_finite_in_def find_record_in_def range_program_def)
  have "sequence_in_module_parts ''u8'' = None" "sequence_in_module_parts ''u16'' = None" by code_simp+
  with none show "body_type_for_function_value range_program f ''u8'' = TInteger byte_int"
      "body_type_for_function_value range_program f ''u16'' = TInteger u16_type"
    by (simp_all add: body_type_for_function_value_def type_param_def assms from_program_in_module.simps u8_spelling u16_spelling)
qed

lemma range_names: "trim ''o3'' = ''o3''" "trim ''half'' = ''half''" "trim ''wide'' = ''wide''" "trim ''u16'' = ''u16''"
  by (rule trim_ident, simp, code_simp)+

lemma half_valid:
  assumes "f = hd (pg_functions range_program)"
  shows "validate_body digest range_program f half_body = Some []"
proof -
  have block: "fb_blocks half_body = [hd (fb_blocks half_body)]" "fb_entry half_body = bb_id (hd (fb_blocks half_body))"
    by (simp_all add: half_body_def)
  obtain cfg where cfg: "from_body digest half_body (body_id ''app'' ''half'') = Some cfg" "cfg_unreachable cfg = []"
    using single_block_graph [OF block, of digest "body_id ''app'' ''half''"] by blast
  have f: "identity_namespace f (pg_module range_program) = ''app''" "fn_name f = ''half''"
    "fn_inputs f = [\<lparr>nv_name = ''x'', nv_type = ''u8''\<rparr>]"
    "fn_outputs f = [\<lparr>nv_name = ''r'', nv_type = ''u8''\<rparr>]" "fn_generic_params f = []"
    by (simp_all add: assms range_program_def identity_namespace_def)
  show ?thesis
    by (simp add: validate_body_def f cfg)
      (simp add: half_body_def validate_simps f range_type demo_names demo_simps range_simps range_names)
qed

lemma wide_valid:
  assumes "f = pg_functions range_program ! 1"
  shows "validate_body digest range_program f wide_body = Some []"
proof -
  have block: "fb_blocks wide_body = [hd (fb_blocks wide_body)]" "fb_entry wide_body = bb_id (hd (fb_blocks wide_body))"
    by (simp_all add: wide_body_def)
  obtain cfg where cfg: "from_body digest wide_body (body_id ''app'' ''wide'') = Some cfg" "cfg_unreachable cfg = []"
    using single_block_graph [OF block, of digest "body_id ''app'' ''wide''"] by blast
  have f: "identity_namespace f (pg_module range_program) = ''app''" "fn_name f = ''wide''"
    "fn_inputs f = [\<lparr>nv_name = ''x'', nv_type = ''u8''\<rparr>]"
    "fn_outputs f = [\<lparr>nv_name = ''r'', nv_type = ''u16''\<rparr>]" "fn_generic_params f = []"
    by (simp_all add: assms range_program_def identity_namespace_def)
  show ?thesis
    by (simp add: validate_body_def f cfg)
      (simp add: wide_body_def validate_simps f range_type demo_names demo_simps range_simps range_names,
       simp add: minimum_widening_bits_def byte_int_def u16_type_def)
qed

lemma range_valid: "program_valid digest range_program"
proof -
  define a b where "a = pg_functions range_program ! 0" and "b = pg_functions range_program ! 1"
  have fns: "pg_functions range_program = [a, b]" by (simp add: a_def b_def) (simp add: range_program_def)
  have bodies: "fn_body a = Some half_body" "fn_body b = Some wide_body" "fn_name a = ''half''" "fn_name b = ''wide''"
    by (simp_all add: a_def b_def range_program_def)
  have "validate_function_declaration range_program f = []" if "f \<in> {a, b}" for f
    using that
    by (auto simp: validate_function_declaration_def a_def b_def range_program_def validate_named_values_def
        with_earlier_def collect_unique_ids_def blank_def demo_names range_names)
  moreover have "validate_body digest range_program a half_body = Some []" "validate_body digest range_program b wide_body = Some []"
    using half_valid [of a] wide_valid [of b] fns by simp_all
  ultimately have "validate_function digest range_program [] a = Some []" "validate_function digest range_program [a] b = Some []"
    using bodies by (auto simp: validate_function_def blank_def demo_names range_names identity_of_fn_def function_id_def make_id_inject)
  moreover have "validate_declarations range_program = []"
    by (simp add: validate_declarations_def range_program_def collect_unique_ids_def with_earlier_def blank_def demo_names)
  ultimately show ?thesis
    by (simp add: program_valid_def validate_program_def fns with_earlier_def)
qed

lemma range_nominals: "nominals_ok range_program" "program_in_machine range_program"
  by (simp_all add: nominals_ok_def program_in_machine_def range_program_def body_in_machine_def half_body_def wide_body_def
      block_values_def fits_u32_def)

lemma range_enter:
  "enter_function (\<lambda>_ _ _. []) range_program True False 0 None (range_request ''half'') =
     Inr (range_frame ''half'' half_body, [''x'' \<mapsto> VInteger 255 byte_int])"
  "enter_function (\<lambda>_ _ _. []) range_program True False 0 None (range_request ''wide'') =
     Inr (range_frame ''wide'' wide_body, [''x'' \<mapsto> VInteger 255 byte_int])"
  by (simp_all add: enter_function_def request_admissible_def range_request_def resolve_concrete_entry_def
      find_function_def range_program_def identity_namespace_def max_execution_budget_def model_max_call_depth_def
      validate_arguments_def normalize_arguments_def demo_simps range_simps half_body_def wide_body_def range_frame_def)
lemma half_constants: "collect_body_constants half_body ''c'' = Some (2, byte_int)" "distinct (body_names half_body)"
  by (simp_all add: collect_body_constants_def body_operations_def half_body_def body_names_def block_values_def)

lemma half_discharged: "statically_discharged half_body halving"
  by (simp add: statically_discharged_def divisor_nonzero_def operand_constant_def operand_def half_constants range_types)

lemma half_narrow: "list_all narrow_operation (body_operations (fr_body (range_frame ''half'' half_body)))"
  by (simp add: range_frame_def half_body_def body_operations_def narrow_operation_def)

lemma half_visits:
  obtains r where "visits lib range_program call (range_frame ''half'' half_body) [''x'' \<mapsto> VInteger 255 byte_int] ''b'' [halving]
      [''x'' \<mapsto> VInteger 255 byte_int, ''c'' \<mapsto> VInteger 2 byte_int] r"
proof -
  let ?frame = "range_frame ''half'' half_body" and ?start = "[''x'' \<mapsto> VInteger 255 byte_int]"
  let ?o1 = "plain_operation ''o1'' (Constant 2 (TInteger byte_int)) [] [\<lparr>bv_id = ''c'', bv_ty = TInteger byte_int\<rparr>]"
  have body: "fr_body ?frame = half_body" "rq_step_budget (fr_request ?frame) = 9"
    by (simp_all add: range_frame_def range_request_def)
  have block: "block_map half_body (fb_entry half_body) = Some (hd (fb_blocks half_body))" "fb_entry half_body = ''b''"
    "bb_operations (hd (fb_blocks half_body)) = [?o1, halving]"
    by (simp_all add: half_body_def block_map_def)
  have "visits lib range_program call ?frame ?start ''b'' [?o1, halving] ?start empty_result"
    using visits_entry [of ?frame "hd (fb_blocks half_body)" lib range_program call ?start] block(1)
    by (simp add: block(2,3) body)
  moreover have "consume_step (rq_step_budget (fr_request ?frame)) empty_result = Some (empty_result\<lparr>xr_steps := 1\<rparr>)"
    by (simp add: consume_step_def body empty_result_def)
  moreover have "execute_operation lib range_program call ?frame i ?o1 ?start r = Continue (?start(''c'' \<mapsto> VInteger 2 byte_int)) r" for i r
    by (simp add: execute_operation_def exec_constant_def constant_value_def range_simps store_def)
  ultimately have "visits lib range_program call ?frame ?start ''b'' [halving] (?start(''c'' \<mapsto> VInteger 2 byte_int))
      (empty_result\<lparr>xr_steps := 1\<rparr>)"
    by (rule visits_operation)
  then show thesis by (intro that) simp
qed

theorem range_analysis_sound_witness:
  "collect_body_ranges half_body ''c'' = Some (2, 2) \<and> (\<exists>n. number_of (VInteger 2 byte_int) = Some n \<and> 2 \<le> n \<and> n \<le> 2)"
proof -
  let ?lib = "\<lparr>sin_bits = id, cos_bits = id\<rparr>"
  note range = constants_in_ranges [OF half_constants(2,1)]
  obtain r where run: "visits ?lib range_program (\<lambda>_. execute_checking ?lib range_program True False (0 + 1))
      (range_frame ''half'' half_body) [''x'' \<mapsto> VInteger 255 byte_int] ''b'' [halving]
      [''x'' \<mapsto> VInteger 255 byte_int, ''c'' \<mapsto> VInteger 2 byte_int] r"
    by (rule half_visits)
  have "fr_body (range_frame ''half'' half_body) = half_body" by (simp add: range_frame_def)
  with range_analysis_sound [OF range_valid range_nominals range_enter(1) half_narrow run, of "''c''" 2 2] range
  show ?thesis by simp
qed

theorem discharged_operation_returns_witness:
  "statically_discharged half_body halving \<and> exec_pure \<lparr>sin_bits = id, cos_bits = id\<rparr> range_program (bo_kind halving) halving
     [''x'' \<mapsto> VInteger 255 byte_int, ''c'' \<mapsto> VInteger 2 byte_int] \<noteq> Fail RuntimeFailure"
proof -
  let ?lib = "\<lparr>sin_bits = id, cos_bits = id\<rparr>"
  obtain r where run: "visits ?lib range_program (\<lambda>_. execute_checking ?lib range_program True False (0 + 1))
      (range_frame ''half'' half_body) [''x'' \<mapsto> VInteger 255 byte_int] ''b'' [halving]
      [''x'' \<mapsto> VInteger 255 byte_int, ''c'' \<mapsto> VInteger 2 byte_int] r"
    by (rule half_visits)
  have body: "fr_body (range_frame ''half'' half_body) = half_body" by (simp add: range_frame_def)
  have kind: "bo_kind halving = Integer ''div'' byte_int Checked" by simp
  show ?thesis
    using discharged_operation_returns [OF range_valid range_nominals range_enter(1) half_narrow run kind, unfolded body]
      half_discharged
    by simp
qed

text \<open>With widening arithmetic the analysis is not sound: the sum of two bytes, in sixteen bits, is
  taken for a byte, and the sum that overflows after it for discharged.\<close>

lemma wide_ranges: "collect_body_ranges wide_body ''w'' = Some (0, 255)" "collect_body_ranges wide_body ''c'' = Some (65280, 65280)"
  by code_simp+

lemma wide_discharged: "statically_discharged wide_body wide_sum"
  by (simp add: statically_discharged_def range_proves_integer_operation_def operand_range_def operand_def wide_ranges
      range_interval_def saturate_def i128_max_def i128_min_def within_def integer_bounds_def range_types)

lemma wide_run:
  "\<exists>r. execute lib range_program True PolicyUnsupported (range_request ''wide'') = Some r \<and> xr_status r = RuntimeFailure"
proof -
  let ?start = "[''x'' \<mapsto> VInteger 255 byte_int]"
  have enter: "enter_function reusable_parameters range_program True False 0 None (range_request ''wide'') =
      Inr (range_frame ''wide'' wide_body, ?start)"
    by (simp add: enter_function_def request_admissible_def range_request_def resolve_concrete_entry_def
        find_function_def range_program_def identity_namespace_def max_execution_budget_def model_max_call_depth_def
        validate_arguments_def normalize_arguments_def demo_simps range_simps wide_body_def range_frame_def
        reusable_parameters_def sequence_validation_work_is_large_def trusted_at_def)
  have budget: "rq_step_budget (range_request ''wide'') = 9" by (simp add: range_request_def)
  show ?thesis
    by (simp add: execute_def, subst execute_inner.simps)
      (simp add: enter range_frame_def wide_body_def run_blocks.simps block_map_def consume_step_def execute_operation_def
        exec_constant_def constant_value_def store_def exec_integer_def integer_operands_def pair_operands_def empty_result_def
        range_simps fail_result_def demo_simps budget)
qed

theorem widening_range_unsound:
  "program_valid digest range_program \<and> wide_sum \<in> set (body_operations wide_body) \<and> statically_discharged wide_body wide_sum \<and>
   (\<exists>r. execute lib range_program True PolicyUnsupported (range_request ''wide'') = Some r \<and> xr_status r = RuntimeFailure)"
  using range_valid wide_discharged wide_run by (simp add: body_operations_def wide_body_def)

end
