(* ===== verification/Spec2Isabelle.thy ===== *)
theory Spec2Isabelle
  imports Exec_Scalar Proof_Kernel Machine_Promise Verifier Authority Validated_Flow Ssa_Refine Decrease Discharge
begin

text \<open>
  \<^bold>\<open>A verification library for the semantic core of mncs\<close> (\<open>crates/mncs-model\<close>)

  The crate \<open>mncs-model\<close> holds the meaning of a program: executable bodies made of blocks of
  operations over typed values, the interpreter that defines what they compute, the identities
  that name every object, the control-flow graph, and the evidence layer around it, where a proof
  kernel, a deterministic verifier, backend promises and an authority contract decide what may be
  relied upon.  Front end, code generators and command line are clients of it.

  \<^bold>\<open>Theories and the code they model\<close>

  \<^item> \<open>Prelude\<close>: numbers as the code has them (checked, wrapping and saturating \<open>i128\<close> and \<open>u64\<close>
    arithmetic), ordered sets as sorted lists, decimal numerals, and the locale of verdict
    lattices, the interface of every fold in which the worst verdict wins.
  \<^item> \<open>Machine_Int\<close>: \<open>machine_intent.rs\<close>, the evaluator of integer operations under the intents
    exact, checked, trapping, wrapping, saturating and widening.
  \<^item> \<open>Value\<close>: \<open>body.rs\<close> (types, compatibility), \<open>execution.rs\<close> (values) and \<open>value_contract.rs\<close>
    (fields bound by name).
  \<^item> \<open>Exec_Scalar\<close>: \<open>execution.rs\<close>, integers, bytes, vectors and integer conversions of the
    interpreter, with the fast path for wrapping arithmetic.
  \<^item> \<open>Float64\<close>: binary64 arithmetic, comparison and conversion on bit patterns, and the traps of
    \<open>evaluate_float\<close>, \<open>compare_floats\<close> and \<open>convert_scalar_value\<close>.
  \<^item> \<open>Identity\<close>: \<open>identity.rs\<close>, how identities are built from a kind and components, read back,
    and compared between two programs.
  \<^item> \<open>Body\<close>, \<open>Type_Names\<close>: \<open>body.rs\<close> and \<open>core.rs\<close>, operations, blocks, bodies and programs; the
    spelling of types and its resolution in the namespace of a module.
  \<^item> \<open>Value_Match\<close>: \<open>value_matches_type\<close> and \<open>normalize_value\<close>.
  \<^item> \<open>Body_Ops\<close>, \<open>Interp\<close>, \<open>Reuse\<close>: the interpreter.  \<open>Body_Ops\<close> has one definition per arm of
    \<open>execute_operation\<close>; \<open>Interp\<close> has requests, frames, calls, effects, the loop over blocks
    (\<open>execute_inner_body\<close>) and the step and depth budgets; \<open>Reuse\<close> compares it with the
    interpreter that never skips the check of an argument.
  \<^item> \<open>Cfg\<close>: \<open>cfg.rs\<close>, edges, reachability and dominators as the worklist and the fixed-point
    iteration compute them.
  \<^item> \<open>Body_Valid\<close>, \<open>Validation\<close>: the validation of bodies (\<open>FunctionBody::validate\<close>, one definition
    per kind of operation) and of programs (\<open>Program::validate\<close>), as the lists of the diagnostic
    codes they report.
  \<^item> \<open>Body_Sound\<close>, \<open>Validated_Run\<close>, \<open>Validated_Flow\<close>: what validation means for the interpreter.
    \<open>Body_Sound\<close> has one lemma per operation, that a clean report makes its execution type safe;
    \<open>Validated_Run\<close> lifts this to bodies, calls and requests; \<open>Validated_Flow\<close> shows that values are
    defined before they are used, over the configurations of a run.
  \<^item> \<open>Ssa\<close>, \<open>Ssa_Value\<close>, \<open>Ssa_Ops\<close>, \<open>Ssa_Exec\<close>: \<open>ir.rs\<close>, \<open>ssa.rs\<close> and \<open>ssa_execution.rs\<close>.  \<open>Ssa\<close> has
    the lowering of bodies; \<open>Ssa_Value\<close> how arguments are matched and normalised; \<open>Ssa_Ops\<close> one
    definition per instruction; \<open>Ssa_Exec\<close> the store of marked values, calls, effects, blocks and
    requests.  \<open>Ssa_Pure\<close> shows that the arms of the two interpreters agree, \<open>Ssa_Lowered\<close> what
    lowering a validated body produces, and \<open>Ssa_Refine\<close> that the SSA interpreter refines the body
    interpreter: a simulation of stores, calls, blocks and requests.
  \<^item> \<open>Run_Invariant\<close>: invariants of the configurations of a run, and the one operation that writes a
    name in a validated body; the two analyses below rest on it.
  \<^item> \<open>Bindings\<close>, \<open>Decrease\<close>: \<open>bindings.rs\<close> and \<open>termination.rs\<close>, the binding table and the check of the
    evidence that a recursive call descends into the payload of its argument.
  \<^item> \<open>Ranges\<close>, \<open>Discharge\<close>: the interval analysis of \<open>obligations.rs\<close>, by which obligations of
    arithmetic are discharged, and what their discharge means for a run.
  \<^item> \<open>Proof_Kernel\<close>: \<open>proof_kernel.rs\<close>, the reference checker of proof artifacts, every rule of its
    single pass over the cells, and the semantics it is sound for.
  \<^item> \<open>Machine_Promise\<close>: the second half of \<open>machine_intent.rs\<close>, alignment and disjointness
    capabilities, lowering, backend promise certificates and decisions, and proof bindings.
  \<^item> \<open>Verifier\<close>: \<open>verifier.rs\<close>, requests, results, import and freshness.
  \<^item> \<open>Authority\<close>: \<open>authority.rs\<close>, decisions, evidence, sessions and the acceptance of a leg.

  \<^bold>\<open>How the model corresponds to the code\<close>

  Structs are records and enums datatypes with the constructors of the source; \<open>Option\<close> is
  \<open>option\<close>, \<open>Result\<close> a sum; \<open>BTreeMap\<close> is a map and \<open>BTreeSet\<close> a sorted list or a set.  Machine
  integers are \<open>int\<close> or \<open>nat\<close> with the range written out where an operation can leave it, and the
  \<open>word\<close> type where the claim is about word arithmetic.  A string is the list of its bytes.  A
  panic of the Rust code (an index or a slice out of range, an overflow of checked arithmetic) is
  an outcome of its own.  Hash functions, signatures and the sine and cosine of the platform are
  parameters; where a claim needs more of a hash than being a function, it assumes it injective.

  \<^bold>\<open>What the lemmas show\<close>

  \<^item> Integers: each intent against exact arithmetic and against words; the interpreter's fast path
    against the reference evaluator; results stay in the range of their type.
  \<^item> Values and types: fields are bound by name, matching and normal form, spellings read back,
    resolution never leaves its module, conversions between integers and floats.
  \<^item> Interpreter: termination and the step budget, independence of the answer from a larger
    budget, no effects without a recording policy, and the invisibility of argument reuse.
  \<^item> Validation: programs that validate never panic and return values of the declared types; what
    the dominators make available in a block is in the store when the block runs.
  \<^item> SSA: lowering and then running gives what the body interpreter gives, status, steps, effects
    and values, for validated programs of concrete functions with plain types.
  \<^item> Recursion: an accepted decrease claim makes the argument of the call a proper part of the
    argument of the caller, so chains of such calls end.
  \<^item> Obligations: without widening arithmetic the intervals hold in every configuration of a run and
    a discharged operation never fails; with it, \<open>widening_range_unsound\<close> is a counterexample.
  \<^item> Graphs: reachability and dominators are exact and the loops end.
  \<^item> Evidence: the proof checker is total and sound for equations; promises and bindings are made
    only from checked artifacts; results are reused only for what they were made for; a leg is
    granted only when every need is decided, bound and attested.

  \<^bold>\<open>Loops and bounds\<close>

  Loops whose end is not structural are \<open>function\<close>s with a measure: the step budget for the blocks
  of a body, the depth limit of 1024 for calls, the length of the text for spellings, the number
  of unvisited blocks for the worklist and the total size of the sets for the dominators.  No
  definition uses fuel.

  \<^bold>\<open>Not modelled\<close>

  Host calls and the lifecycle of host processes, traces, observation and profiles of a run,
  specialisation of generic functions, the canonical form of programs, the validation of SSA
  modules, the ledger of obligations of a program and its exact clamping of indices, cost analysis,
  dependency tracking of evidence, JSON formats, and everything outside \<open>mncs-model\<close>: the front end,
  the code generators, the embedding and the command line.
\<close>

end
